(* ===== verification/Prelude.thy ===== *)
theory Prelude
  imports Main "HOL-Library.AList" "HOL-Library.Word"
begin

text \<open>
  Shared vocabulary of the development.

  \<^item> Time. Go's \<open>time.Time\<close> is the number of nanoseconds since Go's own zero instant (year 1),
    so \<open>Time.IsZero\<close> is \<open>t = 0\<close>, \<open>t.After(u)\<close> is \<open>u < t\<close>, \<open>t.Before(u)\<close> is \<open>t < u\<close>
    and \<open>t.Add(d)\<close> is \<open>t + d\<close>. A \<open>time.Duration\<close> is its nanosecond count.
  \<^item> Tables. A PostgreSQL table is the list of its rows in insertion order; \<open>UPDATE .. WHERE\<close>,
    \<open>DELETE .. WHERE\<close> and the command tag's row count are the three functions below.
  \<^item> Results. A Go function returning \<open>(T, error)\<close> returns a sum: \<open>Inl\<close> the error.
  \<^item> Decimal integers as \<open>fmt.Sprintf("%d", n)\<close> prints them, which the idempotency keys use.
\<close>

named_theorems table_simps
named_theorems clock_simps

section \<open>Time\<close>

type_synonym time = int
type_synonym duration = int

definition Second :: duration where "Second = 1000000000"
definition Minute :: duration where "Minute = 60 * Second"
definition Hour :: duration where "Hour = 60 * Minute"
definition Day :: duration where "Day = 24 * Hour"

lemmas clock_defs [clock_simps] = Second_def Minute_def Hour_def Day_def

abbreviation (input) IsZero :: "time \<Rightarrow> bool" where "IsZero t \<equiv> t = 0"

text \<open>
  \<open>t.Sub(u)\<close> saturates at the range of a 64-bit duration; \<open>t.Unix()\<close> counts seconds from 1970, which
  is 62135596800 seconds after the zero instant.
\<close>

definition time_sub :: "time \<Rightarrow> time \<Rightarrow> duration" where
  "time_sub t u = max (- (2 ^ 63)) (min (2 ^ 63 - 1) (t - u))"

definition unix_seconds :: "time \<Rightarrow> int" where
  "unix_seconds t = t div Second - 62135596800"

lemma time_sub_le: "- (2 ^ 63) \<le> d \<Longrightarrow> d < 2 ^ 63 - 1 \<Longrightarrow> time_sub t u \<le> d \<longleftrightarrow> t - u \<le> d"
  by (auto simp: time_sub_def)

text \<open>Go's \<open>/\<close> on signed integers truncates toward zero.\<close>

definition go_div :: "int \<Rightarrow> int \<Rightarrow> int" where
  "go_div a b = sgn a * sgn b * (\<bar>a\<bar> div \<bar>b\<bar>)"

lemma go_div_nonneg: "0 \<le> a \<Longrightarrow> 0 < b \<Longrightarrow> go_div a b = a div b"
  by (cases "a = 0") (auto simp: go_div_def)

section \<open>Tables\<close>

definition update_where :: "('r \<Rightarrow> bool) \<Rightarrow> ('r \<Rightarrow> 'r) \<Rightarrow> 'r list \<Rightarrow> 'r list" where
  "update_where P f rows = map (\<lambda>r. if P r then f r else r) rows"

definition delete_where :: "('r \<Rightarrow> bool) \<Rightarrow> 'r list \<Rightarrow> 'r list" where
  "delete_where P rows = filter (\<lambda>r. \<not> P r) rows"

definition rows_affected :: "('r \<Rightarrow> bool) \<Rightarrow> 'r list \<Rightarrow> nat" where
  "rows_affected P rows = length (filter P rows)"

lemma update_where_Nil [simp]: "update_where P f [] = []"
  by (simp add: update_where_def)

lemma update_where_Cons [simp]:
  "update_where P f (r # rows) = (if P r then f r else r) # update_where P f rows"
  by (simp add: update_where_def)

lemma update_where_append [simp]:
  "update_where P f (xs @ ys) = update_where P f xs @ update_where P f ys"
  by (simp add: update_where_def)

lemma length_update_where [simp]: "length (update_where P f rows) = length rows"
  by (simp add: update_where_def)

lemma set_update_where:
  "set (update_where P f rows) = {f r |r. r \<in> set rows \<and> P r} \<union> {r \<in> set rows. \<not> P r}"
  by (auto simp: update_where_def)

lemma ball_update_where [table_simps]:
  "(\<forall>r \<in> set (update_where P f rows). Q r) \<longleftrightarrow> (\<forall>r \<in> set rows. Q (if P r then f r else r))"
  by (induction rows) auto

lemma bex_update_where [table_simps]:
  "(\<exists>r \<in> set (update_where P f rows). Q r) \<longleftrightarrow> (\<exists>r \<in> set rows. Q (if P r then f r else r))"
  by (induction rows) auto

lemma in_update_whereE:
  assumes "r \<in> set (update_where P f rows)"
  obtains r0 where "r0 \<in> set rows" "P r0" "r = f r0" | "r \<in> set rows" "\<not> P r"
  using assms by (auto simp: set_update_where)

lemma filter_update_where_same:
  "(\<And>r. Q (f r) = Q r) \<Longrightarrow> length (filter Q (update_where P f rows)) = length (filter Q rows)"
  by (induction rows) auto

lemma update_whereI: "r \<in> set rows \<Longrightarrow> P r \<Longrightarrow> f r \<in> set (update_where P f rows)"
  by (auto simp: set_update_where)

lemma update_where_none: "(\<And>r. r \<in> set rows \<Longrightarrow> \<not> P r) \<Longrightarrow> update_where P f rows = rows"
  by (induction rows) auto

text \<open>A column the update does not write keeps its values, row by row.\<close>

lemma map_update_where [table_simps]:
  "(\<And>r. P r \<Longrightarrow> key (f r) = key r) \<Longrightarrow> map key (update_where P f rows) = map key rows"
  by (induction rows) auto

lemma rows_affected_0 [table_simps]: "rows_affected P rows = 0 \<longleftrightarrow> (\<forall>r \<in> set rows. \<not> P r)"
  by (auto simp: rows_affected_def filter_empty_conv)

lemma rows_affected_pos [table_simps]: "0 < rows_affected P rows \<longleftrightarrow> (\<exists>r \<in> set rows. P r)"
  using rows_affected_0 [of P rows] by auto

lemma set_delete_where [table_simps]: "set (delete_where P rows) = {r \<in> set rows. \<not> P r}"
  by (auto simp: delete_where_def)

lemma distinct_map_delete_where [table_simps]:
  "distinct (map key rows) \<Longrightarrow> distinct (map key (delete_where P rows))"
  by (simp add: delete_where_def distinct_map_filter)

text \<open>A unique index on a nullable column: \<open>NULL\<close>s are distinct from each other.\<close>

definition unique_nullable :: "'k option list \<Rightarrow> bool" where
  "unique_nullable ks = distinct (filter (\<lambda>k. k \<noteq> None) ks)"

lemma unique_nullable_simps [simp]:
  "unique_nullable []"
  "unique_nullable (k # ks) \<longleftrightarrow> unique_nullable ks \<and> (k = None \<or> k \<notin> set ks)"
  "unique_nullable (ks @ [k]) \<longleftrightarrow> unique_nullable ks \<and> (k = None \<or> k \<notin> set ks)"
  by (auto simp: unique_nullable_def)

lemma unique_nullable_count:
  "unique_nullable ks \<Longrightarrow> Some k \<in> set ks \<Longrightarrow> count_list ks (Some k) = 1"
  by (induction ks) (auto simp: count_list_0_iff)

lemma unique_nullable_delete_where [table_simps]:
  "unique_nullable (map key rows) \<Longrightarrow> unique_nullable (map key (delete_where P rows))"
  by (induction rows) (auto simp: delete_where_def)

lemma find_Some_iff_distinct:
  assumes "distinct (map key rows)" and "r \<in> set rows"
  shows "find (\<lambda>x. key x = key r) rows = Some r"
  using assms by (induction rows) (auto simp: rev_image_eqI)

lemma find_SomeD: "find P xs = Some x \<Longrightarrow> x \<in> set xs \<and> P x"
  by (induction xs) (auto split: if_splits)

lemma length_filter_distinct: "distinct (map f xs) \<Longrightarrow> length (filter (\<lambda>x. f x = i) xs) \<le> 1"
proof (induction xs)
  case (Cons x xs)
  have "filter (\<lambda>y. f y = f x) xs = []"
    using Cons.prems unfolding filter_empty_conv by (simp add: image_iff) metis
  with Cons show ?case by (cases "f x = i") simp_all
qed simp

lemma not_list_ex_map: "(\<And>x. \<not> P (f x)) \<Longrightarrow> \<not> list_ex P (map f xs)"
  by (induction xs) simp_all

lemma find_append: "find P (xs @ ys) = (case find P xs of None \<Rightarrow> find P ys | Some x \<Rightarrow> Some x)"
  by (induction xs) auto

lemma find_NoneD: "find P xs = None \<Longrightarrow> x \<in> set xs \<Longrightarrow> \<not> P x"
  by (induction xs) (auto split: if_splits)

text \<open>What a key lookup sees after an update that keeps keys.\<close>

lemma find_update_where:
  assumes "\<And>r. key (f r) = key r"
  shows "find (\<lambda>r. key r = k) (update_where P f rows)
       = map_option (\<lambda>r. if P r then f r else r) (find (\<lambda>r. key r = k) rows)"
  using assms by (induction rows) auto

text \<open>Sums over a table: an update of rows that all carry one key.\<close>

lemma sum_list_update_where:
  "sum_list (map g (update_where P f rows))
   = (\<Sum>r\<leftarrow>rows. if P r then g (f r) else g r)"
  by (induction rows) auto

text \<open>
  Failures of the connection. A statement of the model carries a label; \<open>faults\<close> says which labelled
  statements the driver fails (with which message) in the run under consideration, so that every
  error return of the code is reachable and a theorem for all \<open>faults\<close> covers every failure pattern.
\<close>

type_synonym faults = "string \<Rightarrow> string option"

definition no_faults :: faults where "no_faults = (\<lambda>_. None)"

lemma no_faults_apply [simp]: "no_faults l = None"
  by (simp add: no_faults_def)

section \<open>ASCII strings\<close>

text \<open>
  The functions of Go's \<open>strings\<close> package the code uses, on ASCII text: \<open>ToUpper\<close>, \<open>ToLower\<close>,
  \<open>TrimSpace\<close> and the removal of a character by \<open>ReplaceAll\<close>.
\<close>

definition upper_char :: "char \<Rightarrow> char" where
  "upper_char c = (let n = (of_char c :: nat) in if 97 \<le> n \<and> n \<le> 122 then char_of (n - 32) else c)"

definition lower_char :: "char \<Rightarrow> char" where
  "lower_char c = (let n = (of_char c :: nat) in if 65 \<le> n \<and> n \<le> 90 then char_of (n + 32) else c)"

definition is_space :: "char \<Rightarrow> bool" where
  "is_space c = (let n = (of_char c :: nat) in n = 32 \<or> 9 \<le> n \<and> n \<le> 13)"

definition ToUpper :: "string \<Rightarrow> string" where "ToUpper s = map upper_char s"
definition ToLower :: "string \<Rightarrow> string" where "ToLower s = map lower_char s"

definition TrimSpace :: "string \<Rightarrow> string" where
  "TrimSpace s = rev (dropWhile is_space (rev (dropWhile is_space s)))"

definition RemoveAll :: "char \<Rightarrow> string \<Rightarrow> string" where "RemoveAll c s = filter (\<lambda>x. x \<noteq> c) s"

lemma of_char_upper:
  "(of_char (upper_char c) :: nat)
   = (if 97 \<le> (of_char c :: nat) \<and> (of_char c :: nat) \<le> 122 then of_char c - 32 else of_char c)"
  by (auto simp: upper_char_def Let_def)

lemma upper_char_idem [simp]: "upper_char (upper_char c) = upper_char c"
proof -
  have "(of_char (upper_char (upper_char c)) :: nat) = of_char (upper_char c)"
    by (auto simp: of_char_upper)
  then show ?thesis by simp
qed

lemma is_space_upper [simp]: "is_space (upper_char c) \<longleftrightarrow> is_space c"
  by (auto simp: is_space_def of_char_upper Let_def)

lemma ToUpper_idem [simp]: "ToUpper (ToUpper s) = ToUpper s"
  by (simp add: ToUpper_def)

lemma filter_TrimSpace:
  "(\<And>c. is_space c \<Longrightarrow> \<not> P c) \<Longrightarrow> filter P (TrimSpace s) = filter P s"
proof -
  assume P: "\<And>c. is_space c \<Longrightarrow> \<not> P c"
  have drop: "filter P (dropWhile is_space xs) = filter P xs" for xs
    by (induction xs) (auto simp: P)
  show ?thesis by (simp add: TrimSpace_def drop rev_filter [symmetric])
qed

lemma filter_TrimSpace_on:
  assumes "\<And>c. c \<in> set s \<Longrightarrow> is_space c \<Longrightarrow> \<not> P c"
  shows "filter P (TrimSpace s) = filter P s"
proof -
  have drop: "filter P (dropWhile is_space xs) = filter P xs" if "\<And>c. c \<in> set xs \<Longrightarrow> is_space c \<Longrightarrow> \<not> P c" for xs
    using that by (induction xs) auto
  have "filter P (dropWhile is_space (rev (dropWhile is_space s))) = filter P (rev (dropWhile is_space s))"
    using assms set_dropWhileD by (intro drop) fastforce
  then show ?thesis using drop [of s] assms by (simp add: TrimSpace_def rev_filter [symmetric])
qed

section \<open>Printed integers\<close>

definition digit_char :: "nat \<Rightarrow> char" where "digit_char d = char_of (48 + d)"

fun show_nat :: "nat \<Rightarrow> string" where
  "show_nat n = (if n < 10 then [digit_char n]
                 else show_nat (n div 10) @ [digit_char (n mod 10)])"

declare show_nat.simps [simp del]

definition show_int :: "int \<Rightarrow> string" where
  "show_int i = (if i < 0 then CHR ''-'' # show_nat (nat (- i)) else show_nat (nat i))"

definition is_digit :: "char \<Rightarrow> bool" where
  "is_digit c = (48 \<le> (of_char c :: nat) \<and> (of_char c :: nat) \<le> 57)"

lemma is_digit_digit_char: "d < 10 \<Longrightarrow> is_digit (digit_char d)"
  by (simp add: is_digit_def digit_char_def)

lemma dash_no_digit [simp]: "\<not> is_digit CHR ''-''"
  by (simp add: is_digit_def)

lemma digit_char_inj:
  assumes "a < 10" and "b < 10" and eq: "digit_char a = digit_char b"
  shows "a = b"
proof -
  have "(of_char (digit_char a) :: nat) = of_char (digit_char b)"
    by (simp only: eq)
  with assms(1,2) show ?thesis by (simp add: digit_char_def)
qed

lemma show_nat_digits: "c \<in> set (show_nat n) \<Longrightarrow> is_digit c"
proof (induction n rule: show_nat.induct)
  case (1 n)
  then show ?case
    by (cases "n < 10") (auto simp: show_nat.simps [of n] is_digit_digit_char)
qed

lemma show_nat_nonempty: "show_nat n \<noteq> []"
  by (subst show_nat.simps) simp

lemma show_nat_small: "n < 10 \<Longrightarrow> show_nat n = [digit_char n]"
  by (simp add: show_nat.simps [of n])

lemma show_nat_large:
  "\<not> n < 10 \<Longrightarrow> show_nat n = show_nat (n div 10) @ [digit_char (n mod 10)]"
  by (simp add: show_nat.simps [of n])

lemma length_show_nat_large: "\<not> n < 10 \<Longrightarrow> 1 < length (show_nat n)"
  using show_nat_nonempty [of "n div 10"] by (simp add: show_nat_large)

lemma show_nat_inj: "show_nat m = show_nat n \<Longrightarrow> m = n"
proof (induction m arbitrary: n rule: show_nat.induct)
  case (1 m)
  have len: "length (show_nat m) = length (show_nat n)" by (simp only: 1(2))
  show ?case
  proof (cases "m < 10")
    case True
    with len have "n < 10" using length_show_nat_large [of n] show_nat_small [of m] by fastforce
    with True 1(2) show ?thesis using digit_char_inj by (simp add: show_nat_small)
  next
    case False
    with len have n: "\<not> n < 10" using length_show_nat_large [of m] show_nat_small [of n] by fastforce
    from False n 1(2) have "show_nat (m div 10) = show_nat (n div 10)"
      and "digit_char (m mod 10) = digit_char (n mod 10)"
      by (simp_all add: show_nat_large)
    then have "m div 10 = n div 10" and "m mod 10 = n mod 10"
      using 1(1) False digit_char_inj [of "m mod 10" "n mod 10"] by auto
    then show ?thesis by (metis div_mult_mod_eq)
  qed
qed

text \<open>
  A run of digits ends at the first other character, so a printed number is read back from any
  string that continues with one.
\<close>

lemma digits_split:
  assumes "\<forall>c \<in> set xs. is_digit c" and "\<forall>c \<in> set ys. is_digit c"
    and "\<not> is_digit c" and "\<not> is_digit d"
    and "xs @ c # us = ys @ d # vs"
  shows "xs = ys \<and> c = d \<and> us = vs"
  using assms
proof (induction xs arbitrary: ys)
  case Nil
  then show ?case by (cases ys) auto
next
  case (Cons x xs)
  then show ?case by (cases ys) auto
qed

lemma show_nat_sep:
  assumes "show_nat m @ CHR ''-'' # us = show_nat n @ CHR ''-'' # vs"
  shows "m = n \<and> us = vs"
  using digits_split [OF _ _ dash_no_digit dash_no_digit assms] show_nat_digits show_nat_inj
  by blast

lemma show_nat_hd: "\<exists>c cs. show_nat n = c # cs \<and> is_digit c"
  using show_nat_nonempty [of n] show_nat_digits [of _ n] by (cases "show_nat n") auto

lemma show_nat_not_dash: "show_nat n @ xs \<noteq> CHR ''-'' # ys"
  using show_nat_hd [of n] dash_no_digit by (metis append_Cons list.inject)

lemma show_int_sep:
  assumes "show_int a @ CHR ''-'' # us = show_int b @ CHR ''-'' # vs"
  shows "a = b \<and> us = vs"
proof (cases "a < 0"; cases "b < 0")
  assume "a < 0" "b < 0"
  with assms have "nat (- a) = nat (- b) \<and> us = vs"
    by (intro show_nat_sep) (simp add: show_int_def)
  with \<open>a < 0\<close> \<open>b < 0\<close> show ?thesis by auto
next
  assume "a < 0" "\<not> b < 0"
  with assms show ?thesis
    using show_nat_not_dash [of "nat b" "CHR ''-'' # vs", symmetric] by (simp add: show_int_def)
next
  assume "\<not> a < 0" "b < 0"
  with assms show ?thesis
    using show_nat_not_dash [of "nat a" "CHR ''-'' # us"] by (simp add: show_int_def)
next
  assume "\<not> a < 0" "\<not> b < 0"
  with assms have "nat a = nat b \<and> us = vs"
    by (intro show_nat_sep) (simp add: show_int_def)
  with \<open>\<not> a < 0\<close> \<open>\<not> b < 0\<close> show ?thesis by auto
qed

lemma show_int_inj: "show_int a = show_int b \<longleftrightarrow> a = b"
  using show_int_sep [of a "[]" b "[]"] by auto

end
