(* ===== verification/LocalCache.thy ===== *)
theory LocalCache
  imports Prelude
begin

text \<open>
  The in-process cache of \<open>src/internal/localcache\<close>: the TTL map \<open>Store\<close> (\<open>ttlmap.go\<close>) and the
  \<open>Counter\<close> (\<open>counter.go\<close>). Both keep a Go map from string keys to entries with an expiry; a Go map
  is an association list with distinct keys. Every operation reads the clock inside its critical
  section, so each takes the instant \<open>now\<close> it ran at; the mutex makes the operations atomic, and a
  run of a shared cache is a sequence of them.

  Two interfaces are stated as locales and interpreted on the definitions: \<open>ttl_store\<close>, what the
  clients of a TTL map rely on, and \<open>window_counter\<close>, what the brute-force guard and the redemption
  limiter rely on.
\<close>

section \<open>The TTL map\<close>

record 'v entry =
  val :: 'v
  expires :: time

type_synonym 'v Store = "(string \<times> 'v entry) list"

definition New_Store :: "'v Store" where "New_Store = []"

definition Store_Get :: "time \<Rightarrow> 'v Store \<Rightarrow> string \<Rightarrow> 'v option" where
  "Store_Get now s key =
     (case map_of s key of
        None \<Rightarrow> None
      | Some e \<Rightarrow> if IsZero (expires e) \<or> expires e < now then None else Some (val e))"

definition Store_Set :: "time \<Rightarrow> 'v Store \<Rightarrow> string \<Rightarrow> 'v \<Rightarrow> duration \<Rightarrow> 'v Store" where
  "Store_Set now s key v ttl = AList.update key \<lparr>val = v, expires = now + ttl\<rparr> s"

definition Store_TrySet :: "time \<Rightarrow> 'v Store \<Rightarrow> string \<Rightarrow> 'v \<Rightarrow> duration \<Rightarrow> 'v Store \<times> bool" where
  "Store_TrySet now s key v ttl =
     (if (case map_of s key of
            None \<Rightarrow> False
          | Some e \<Rightarrow> \<not> IsZero (expires e) \<and> now < expires e)
      then (s, False)
      else (AList.update key \<lparr>val = v, expires = now + ttl\<rparr> s, True))"

definition Store_Delete :: "'v Store \<Rightarrow> string \<Rightarrow> 'v Store" where
  "Store_Delete s key = AList.delete key s"

definition Store_TTL :: "time \<Rightarrow> 'v Store \<Rightarrow> string \<Rightarrow> duration" where
  "Store_TTL now s key =
     (case map_of s key of
        None \<Rightarrow> 0
      | Some e \<Rightarrow> if IsZero (expires e) then 0
                  else if 0 < expires e - now then expires e - now else 0)"

definition Store_Keys :: "time \<Rightarrow> 'v Store \<Rightarrow> string list" where
  "Store_Keys now s = map fst (filter (\<lambda>(k, e). \<not> IsZero (expires e) \<and> now < expires e) s)"

definition Store_ExpireNow :: "time \<Rightarrow> 'v Store \<Rightarrow> string \<Rightarrow> 'v Store" where
  "Store_ExpireNow now s key =
     (case map_of s key of
        None \<Rightarrow> s
      | Some e \<Rightarrow> AList.update key (e\<lparr>expires := now - Second\<rparr>) s)"

definition Store_Len :: "time \<Rightarrow> 'v Store \<Rightarrow> nat" where
  "Store_Len now s = length (filter (\<lambda>(k, e). \<not> IsZero (expires e) \<and> now < expires e) s)"

definition Store_sweep :: "time \<Rightarrow> 'v Store \<Rightarrow> 'v Store" where
  "Store_sweep now s = filter (\<lambda>(k, e). \<not> (IsZero (expires e) \<or> expires e < now)) s"

section \<open>The counter\<close>

record counterEntry =
  count :: int
  cexpires :: time

type_synonym Counter = "(string \<times> counterEntry) list"

definition NewCounter :: Counter where "NewCounter = []"

definition counter_dead :: "time \<Rightarrow> counterEntry \<Rightarrow> bool" where
  "counter_dead now e = (\<not> IsZero (cexpires e) \<and> cexpires e < now)"

definition Counter_Incr :: "time \<Rightarrow> Counter \<Rightarrow> string \<Rightarrow> Counter \<times> int" where
  "Counter_Incr now c key =
     (let e = (case map_of c key of
                 None \<Rightarrow> \<lparr>count = 0, cexpires = 0\<rparr>
               | Some e \<Rightarrow> if counter_dead now e then \<lparr>count = 0, cexpires = 0\<rparr> else e);
          e' = e\<lparr>count := count e + 1\<rparr>
      in (AList.update key e' c, count e'))"

definition Counter_Expire :: "time \<Rightarrow> Counter \<Rightarrow> string \<Rightarrow> duration \<Rightarrow> Counter" where
  "Counter_Expire now c key ttl =
     (case map_of c key of
        None \<Rightarrow> c
      | Some e \<Rightarrow> AList.update key (e\<lparr>cexpires := now + ttl\<rparr>) c)"

definition Counter_Get :: "time \<Rightarrow> Counter \<Rightarrow> string \<Rightarrow> int option" where
  "Counter_Get now c key =
     (case map_of c key of
        None \<Rightarrow> None
      | Some e \<Rightarrow> if counter_dead now e then None else Some (count e))"

definition Counter_Reset :: "Counter \<Rightarrow> string \<Rightarrow> Counter" where
  "Counter_Reset c key = AList.delete key c"

definition Counter_Len :: "time \<Rightarrow> Counter \<Rightarrow> nat" where
  "Counter_Len now c = length (filter (\<lambda>(k, e). IsZero (cexpires e) \<or> now < cexpires e) c)"

definition Counter_ExpireNow :: "time \<Rightarrow> Counter \<Rightarrow> string \<Rightarrow> Counter" where
  "Counter_ExpireNow now c key =
     (case map_of c key of
        None \<Rightarrow> c
      | Some e \<Rightarrow> AList.update key (e\<lparr>cexpires := now - Second\<rparr>) c)"

definition Counter_TTL :: "time \<Rightarrow> Counter \<Rightarrow> string \<Rightarrow> duration" where
  "Counter_TTL now c key =
     (case map_of c key of
        None \<Rightarrow> 0
      | Some e \<Rightarrow> if IsZero (cexpires e) then 0
                  else if 0 < cexpires e - now then cexpires e - now else 0)"

definition Counter_sweep :: "time \<Rightarrow> Counter \<Rightarrow> Counter" where
  "Counter_sweep now c = filter (\<lambda>(k, e). \<not> counter_dead now e) c"

section \<open>Runs of a shared TTL map\<close>

text \<open>
  The calls that reach one store, in the order their critical sections ran: a write, a guarded
  write (with the value it would store), a deletion, a sweep tick.
\<close>

datatype 'v store_call =
    CallSet time string 'v duration
  | CallTrySet time string 'v duration
  | CallDelete time string
  | CallSweep time

fun call_time :: "'v store_call \<Rightarrow> time" where
  "call_time (CallSet t _ _ _) = t"
| "call_time (CallTrySet t _ _ _) = t"
| "call_time (CallDelete t _) = t"
| "call_time (CallSweep t) = t"

fun run_call :: "'v store_call \<Rightarrow> 'v Store \<Rightarrow> 'v Store" where
  "run_call (CallSet t k v d) s = Store_Set t s k v d"
| "run_call (CallTrySet t k v d) s = fst (Store_TrySet t s k v d)"
| "run_call (CallDelete t k) s = Store_Delete s k"
| "run_call (CallSweep t) s = Store_sweep t s"

text \<open>The instants at which a \<open>TrySet\<close> on \<open>key\<close> reported that it won.\<close>

fun wins :: "string \<Rightarrow> 'v store_call list \<Rightarrow> 'v Store \<Rightarrow> time list" where
  "wins key [] s = []"
| "wins key (c # cs) s =
     (case c of
        CallTrySet t k v d \<Rightarrow> (if k = key \<and> snd (Store_TrySet t s k v d) then [t] else [])
      | _ \<Rightarrow> []) @ wins key cs (run_call c s)"

text \<open>A call that neither deletes nor overwrites \<open>key\<close>, and claims it for \<open>ttl\<close> if it claims it.\<close>

fun claims_only :: "string \<Rightarrow> duration \<Rightarrow> 'v store_call \<Rightarrow> bool" where
  "claims_only key ttl (CallSet t k v d) = (k \<noteq> key)"
| "claims_only key ttl (CallTrySet t k v d) = (k = key \<longrightarrow> d = ttl)"
| "claims_only key ttl (CallDelete t k) = (k \<noteq> key)"
| "claims_only key ttl (CallSweep t) = True"

section \<open>Lemmas on the association list\<close>

lemma map_of_filter_distinct:
  assumes "distinct (map fst xs)"
  shows "map_of (filter P xs) k
       = (case map_of xs k of None \<Rightarrow> None | Some e \<Rightarrow> if P (k, e) then Some e else None)"
  using assms
proof (induction xs)
  case (Cons x xs)
  have no: "map_of xs (fst x) = None"
    using Cons.prems by (auto simp: map_of_eq_None_iff)
  with Cons show ?case by (cases x) (auto split: option.splits)
qed simp

lemma distinct_filter_keys: "distinct (map fst xs) \<Longrightarrow> distinct (map fst (filter P xs))"
  by (simp add: distinct_map_filter)

lemmas alist_simps = update_conv' delete_conv' map_of_filter_distinct distinct_update
  distinct_delete distinct_filter_keys

lemmas store_defs = Store_Get_def Store_Set_def Store_TrySet_def Store_Delete_def Store_TTL_def
  Store_sweep_def Store_ExpireNow_def

lemmas counter_defs = Counter_Get_def Counter_Incr_def Counter_Expire_def Counter_Reset_def
  Counter_sweep_def counter_dead_def Let_def

section \<open>The contract of a TTL map\<close>

text \<open>
  What a client may rely on. \<open>get\<close> still returns an entry at the very instant it expires, while
  \<open>try_set\<close> already lets it be replaced then: the two boundaries are the ones \<open>time.After\<close> and
  \<open>time.Before\<close> give, and \<open>ttl\<close> is positive exactly while \<open>try_set\<close> refuses.
\<close>

locale ttl_store =
  fixes inv :: "'s \<Rightarrow> bool"
    and get :: "time \<Rightarrow> 's \<Rightarrow> string \<Rightarrow> 'v option"
    and ttl :: "time \<Rightarrow> 's \<Rightarrow> string \<Rightarrow> duration"
    and set :: "time \<Rightarrow> 's \<Rightarrow> string \<Rightarrow> 'v \<Rightarrow> duration \<Rightarrow> 's"
    and try_set :: "time \<Rightarrow> 's \<Rightarrow> string \<Rightarrow> 'v \<Rightarrow> duration \<Rightarrow> 's \<times> bool"
    and delete :: "'s \<Rightarrow> string \<Rightarrow> 's"
    and sweep :: "time \<Rightarrow> 's \<Rightarrow> 's"
  assumes inv_set: "inv s \<Longrightarrow> inv (set now s k v d)"
    and inv_delete: "inv s \<Longrightarrow> inv (delete s k)"
    and inv_sweep: "inv s \<Longrightarrow> inv (sweep now s)"
    and get_set: "now + d \<noteq> 0 \<Longrightarrow>
      get t (set now s k v d) k' =
        (if k' = k then (if t \<le> now + d then Some v else None) else get t s k')"
    and ttl_set: "now + d \<noteq> 0 \<Longrightarrow>
      ttl t (set now s k v d) k' = (if k' = k then max 0 (now + d - t) else ttl t s k')"
    and ttl_set_other: "k' \<noteq> k \<Longrightarrow> ttl t (set now s k v d) k' = ttl t s k'"
    and try_set_cases: "try_set now s k v d =
      (if 0 < ttl now s k then (s, False) else (set now s k v d, True))"
    and get_delete: "get t (delete s k) k' = (if k' = k then None else get t s k')"
    and ttl_delete: "ttl t (delete s k) k' = (if k' = k then 0 else ttl t s k')"
    and get_sweep: "inv s \<Longrightarrow> now \<le> t \<Longrightarrow> get t (sweep now s) k = get t s k"
    and ttl_sweep: "inv s \<Longrightarrow> now \<le> t \<Longrightarrow> ttl t (sweep now s) k = ttl t s k"
    and ttl_elapse: "t \<le> u \<Longrightarrow> ttl u s k = max 0 (ttl t s k - (u - t))"
begin

lemma inv_try_set: "inv s \<Longrightarrow> inv (fst (try_set now s k v d))"
  by (simp add: try_set_cases inv_set)

lemma try_set_wins_iff: "snd (try_set now s k v d) \<longleftrightarrow> \<not> 0 < ttl now s k"
  by (simp add: try_set_cases)

text \<open>A claim holds off every other claim for its whole lifetime.\<close>

lemma try_set_excludes:
  assumes "now + d \<noteq> 0" and "snd (try_set now s k v d)" and "now \<le> t" and "t < now + d"
  shows "\<not> snd (try_set t (fst (try_set now s k v d)) k w d')"
  using assms by (simp add: try_set_cases ttl_set split: if_splits)

lemma get_after_try_set:
  assumes "now + d \<noteq> 0" and "snd (try_set now s k v d)" and "t \<le> now + d"
  shows "get t (fst (try_set now s k v d)) k = Some v"
  using assms by (simp add: try_set_cases get_set split: if_splits)

end

interpretation ts: ttl_store "\<lambda>s. distinct (map fst s)"
  Store_Get Store_TTL Store_Set Store_TrySet Store_Delete Store_sweep
  by unfold_locales
     (auto simp: store_defs alist_simps split: option.splits if_splits)

section \<open>The contract of a windowed counter\<close>

locale window_counter =
  fixes inv :: "'c \<Rightarrow> bool"
    and get :: "time \<Rightarrow> 'c \<Rightarrow> string \<Rightarrow> int option"
    and incr :: "time \<Rightarrow> 'c \<Rightarrow> string \<Rightarrow> 'c \<times> int"
    and expire :: "time \<Rightarrow> 'c \<Rightarrow> string \<Rightarrow> duration \<Rightarrow> 'c"
    and reset :: "'c \<Rightarrow> string \<Rightarrow> 'c"
    and sweep :: "time \<Rightarrow> 'c \<Rightarrow> 'c"
  assumes incr_value: "snd (incr now c k) = (case get now c k of None \<Rightarrow> 1 | Some n \<Rightarrow> n + 1)"
    and incr_other: "k' \<noteq> k \<Longrightarrow> get t (fst (incr now c k)) k' = get t c k'"
    and incr_live: "get now c k = Some n \<Longrightarrow>
      get t (fst (incr now c k)) k = map_option (\<lambda>n. n + 1) (get t c k)"
    and incr_fresh: "get now c k = None \<Longrightarrow> get t (fst (incr now c k)) k = Some 1"
    and expire_live: "now + d \<noteq> 0 \<Longrightarrow> get now c k = Some n \<Longrightarrow>
      get t (expire now c k d) k = (if t \<le> now + d then Some n else None)"
    and expire_other: "k' \<noteq> k \<Longrightarrow> get t (expire now c k d) k' = get t c k'"
    and get_reset: "get t (reset c k) k' = (if k' = k then None else get t c k')"
    and counter_sweep: "inv c \<Longrightarrow> now \<le> t \<Longrightarrow> get t (sweep now c) k = get t c k"
    and inv_incr: "inv c \<Longrightarrow> inv (fst (incr now c k))"
    and inv_expire: "inv c \<Longrightarrow> inv (expire now c k d)"
    and inv_reset: "inv c \<Longrightarrow> inv (reset c k)"
    and inv_counter_sweep: "inv c \<Longrightarrow> inv (sweep now c)"
begin

lemma get_incr_now: "get now (fst (incr now c k)) k = Some (snd (incr now c k))"
  by (cases "get now c k") (simp_all add: incr_value incr_live incr_fresh)

text \<open>Counting and re-arming the expiry in one go: the sliding window.\<close>

lemma get_incr_expire:
  assumes "now + d \<noteq> 0"
  shows "get t (expire now (fst (incr now c k)) k d) k
       = (if t \<le> now + d then Some (snd (incr now c k)) else None)"
  using expire_live [OF assms get_incr_now] .

end

interpretation wc: window_counter "\<lambda>c. distinct (map fst c)"
  Counter_Get Counter_Incr Counter_Expire Counter_Reset Counter_sweep
  by unfold_locales
     (auto simp: counter_defs alist_simps split: option.splits if_splits)

section \<open>Claims never overlap\<close>

lemma inv_run_call: "distinct (map fst s) \<Longrightarrow> distinct (map fst (run_call c s))"
  by (cases c) (auto simp: ts.inv_set ts.inv_try_set ts.inv_delete ts.inv_sweep)

lemma ttl_nonneg: "0 \<le> Store_TTL t s k"
  by (simp add: Store_TTL_def split: option.split)

text \<open>A call that is not a successful claim on the key leaves its remaining lifetime alone.\<close>

lemma ttl_run_call:
  assumes "distinct (map fst s)" and "claims_only key d c" and "wins key [c] s = []"
  shows "Store_TTL (call_time c) (run_call c s) key = Store_TTL (call_time c) s key"
proof (cases c)
  case (CallTrySet t k v e)
  with assms show ?thesis
    by (cases "k = key") (auto simp: ts.ttl_set_other ts.try_set_cases split: if_splits)
qed (use assms in \<open>auto simp: ts.ttl_set_other ts.ttl_delete ts.ttl_sweep\<close>)

lemma wins_Cons: "wins key (c # cs) s = wins key [c] s @ wins key cs (run_call c s)"
  by simp

lemma wins_single: "t \<in> set (wins key [c] s) \<Longrightarrow>
    t = call_time c \<and> wins key [c] s = [t] \<and> Store_TTL t s key = 0
    \<and> (\<exists>v d. c = CallTrySet t key v d \<and> run_call c s = Store_Set t s key v d)"
  using ttl_nonneg [of t s key]
  by (cases c) (auto simp: ts.try_set_cases split: if_splits)

text \<open>No claim succeeds before the remaining lifetime seen at an earlier instant has run out.\<close>

lemma wins_after_ttl:
  assumes "distinct (map fst s)" and "sorted (t0 # map call_time cs)"
    and "\<forall>c \<in> set cs. claims_only key d c" and "u \<in> set (wins key cs s)"
  shows "t0 + Store_TTL t0 s key \<le> u"
  using assms
proof (induction cs arbitrary: s t0)
  case (Cons c cs)
  let ?t = "call_time c" and ?s = "run_call c s"
  have le: "t0 \<le> ?t" and sorted: "sorted (?t # map call_time cs)" using Cons.prems(2) by auto
  have elapse: "t0 + Store_TTL t0 s key \<le> ?t + Store_TTL ?t s key"
    using ts.ttl_elapse [OF le, of s key] by simp
  have rest: "?t + Store_TTL ?t ?s key \<le> u" if "u \<in> set (wins key cs ?s)"
    using Cons.IH [OF inv_run_call [OF Cons.prems(1)] sorted _ that] Cons.prems(3) by simp
  show ?case
  proof (cases "wins key [c] s = []")
    case True
    then have "u \<in> set (wins key cs ?s)" using Cons.prems(4) by (simp add: wins_Cons [of key c cs s] del: wins.simps)
    moreover have "claims_only key d c" using Cons.prems(3) by simp
    ultimately show ?thesis
      using ttl_run_call [OF Cons.prems(1) _ True, of d] elapse rest by linarith
  next
    case False
    then obtain t where "t \<in> set (wins key [c] s)" by (metis last_in_set)
    from wins_single [OF this] have zero: "Store_TTL ?t s key = 0" and "wins key [c] s = [?t]"
      by auto
    with Cons.prems(4) have "u = ?t \<or> u \<in> set (wins key cs ?s)" by (auto simp: wins_Cons [of key c cs s] simp del: wins.simps)
    with zero elapse rest show ?thesis using ttl_nonneg [of ?t ?s key] by auto
  qed
qed simp



text \<open>
  Sweeping is invisible: at every instant from a sweep on, a swept store answers \<open>Get\<close>,
  \<open>TTL\<close> and \<open>TrySet\<close> for every key, and \<open>Len\<close> and \<open>Keys\<close>, as the unswept one does, so the sweep
  goroutine's timing is irrelevant to the callers.
\<close>

theorem sweep_invisible:
  assumes "distinct (map fst s)" and "now \<le> t"
  shows "Store_Get t (Store_sweep now s) k = Store_Get t s k
       \<and> Store_TTL t (Store_sweep now s) k = Store_TTL t s k
       \<and> snd (Store_TrySet t (Store_sweep now s) k v d) = snd (Store_TrySet t s k v d)
       \<and> Store_Keys t (Store_sweep now s) = Store_Keys t s
       \<and> Store_Len t (Store_sweep now s) = Store_Len t s"
proof -
  have "filter (\<lambda>(k, e). \<not> IsZero (expires e) \<and> t < expires e) (Store_sweep now s)
      = filter (\<lambda>(k, e). \<not> IsZero (expires e) \<and> t < expires e) s"
    unfolding Store_sweep_def filter_filter using assms(2) by (intro filter_cong) auto
  with assms show ?thesis
    by (simp add: ts.get_sweep ts.ttl_sweep ts.try_set_wins_iff Store_Keys_def Store_Len_def)
qed

theorem sweep_invisible_witness:
  "Store_Len 6 (Store_sweep 5 [(''a'', \<lparr>val = True, expires = 3\<rparr>), (''b'', \<lparr>val = True, expires = 9\<rparr>)]) = 1
   \<and> Store_Get 6 (Store_sweep 5 [(''a'', \<lparr>val = True, expires = 3\<rparr>), (''b'', \<lparr>val = True, expires = 9\<rparr>)]) ''b''
     = Some True"
  using sweep_invisible [of "[(''a'', \<lparr>val = True, expires = 3\<rparr>), (''b'', \<lparr>val = True, expires = 9\<rparr>)]"
      5 6 "''b''" True 1]
  by (simp add: Store_Len_def Store_Get_def)

end
