(* ===== verification/JobQueue.thy ===== *)
theory JobQueue
  imports Prelude "HOL-Library.Multiset"
begin

text \<open>
  The PostgreSQL-backed task queue of \<open>src/internal/jobqueue\<close>: task options and construction
  (\<open>task.go\<close>), enqueueing with idempotency keys (\<open>client.go\<close>), the server's claim, run, finish, lease
  reaper and retention sweep (\<open>server.go\<close>) and the inspector (\<open>inspector.go\<close>).

  The table \<open>jobqueue_tasks\<close> (migration 037) is a list of rows. Each SQL statement is one atomic step:
  \<open>FOR UPDATE SKIP LOCKED\<close> only matters to statements that overlap in time, and overlapping claims
  of the code behave as the same claims in some order. \<open>now()\<close> is the instant the step takes. Task
  payloads are a type parameter: the queue never inspects them. \<open>rand.Shuffle\<close> is a parameter that
  permutes its list. Goroutine start-up, wake-up channel and \<open>LISTEN\<close>/\<open>NOTIFY\<close> only decide when a
  step happens; the step relation at the end allows them at any time.
\<close>

section \<open>Tasks and options\<close>

datatype job_error =
    ErrTaskIDConflict
  | SkipRetry string
  | JobErr string

record options =
  opt_queue :: string
  opt_maxRetry :: int
  opt_timeout :: duration
  opt_retention :: duration
  opt_taskID :: string
  opt_processIn :: duration

type_synonym Option = "options \<Rightarrow> options"

definition DefaultQueue :: string where "DefaultQueue = ''default''"

definition zero_options :: options where
  "zero_options = \<lparr>opt_queue = [], opt_maxRetry = 0, opt_timeout = 0, opt_retention = 0,
                   opt_taskID = [], opt_processIn = 0\<rparr>"

definition Queue :: "string \<Rightarrow> Option" where "Queue name = opt_queue_update (\<lambda>_. name)"
definition MaxRetry :: "int \<Rightarrow> Option" where "MaxRetry n = opt_maxRetry_update (\<lambda>_. n)"
definition Timeout :: "duration \<Rightarrow> Option" where "Timeout d = opt_timeout_update (\<lambda>_. d)"
definition Retention :: "duration \<Rightarrow> Option" where "Retention d = opt_retention_update (\<lambda>_. d)"
definition TaskID :: "string \<Rightarrow> Option" where "TaskID i = opt_taskID_update (\<lambda>_. i)"
definition ProcessIn :: "duration \<Rightarrow> Option" where "ProcessIn d = opt_processIn_update (\<lambda>_. d)"

record 'p Task =
  task_typ :: string
  task_payload :: 'p
  task_opts :: options

definition NewTask :: "string \<Rightarrow> 'p \<Rightarrow> Option list \<Rightarrow> 'p Task" where
  "NewTask taskType payload opts =
     \<lparr>task_typ = taskType, task_payload = payload, task_opts = fold (\<lambda>opt o'. opt o') opts zero_options\<rparr>"

record TaskInfo =
  info_ID :: int
  info_Queue :: string
  info_Type :: string
  info_TaskID :: string

section \<open>The table\<close>

datatype task_status = Pending | Processing | Completed | Dead

record 'p task_row =
  jt_id :: int
  jt_task_id :: "string option"
  jt_queue :: string
  jt_type :: string
  jt_payload :: 'p
  jt_status :: task_status
  jt_max_retry :: int
  jt_retry_count :: int
  jt_timeout_seconds :: "int option"
  jt_run_after :: time
  jt_locked_by :: "string option"
  jt_lease :: "time option"
  jt_last_error :: "string option"
  jt_retention_until :: "time option"
  jt_completed_at :: "time option"

record 'p jobqueue =
  tasks :: "'p task_row list"
  next_id :: int

definition empty_queue :: "'p jobqueue" where "empty_queue = \<lparr>tasks = [], next_id = 1\<rparr>"

section \<open>Client\<close>

definition smallint :: "int \<Rightarrow> bool" where "smallint n = (- 32768 \<le> n \<and> n \<le> 32767)"

text \<open>The row the \<open>INSERT\<close> writes for resolved options \<open>o'\<close>.\<close>

definition new_row :: "time \<Rightarrow> int \<Rightarrow> options \<Rightarrow> 'p Task \<Rightarrow> 'p task_row" where
  "new_row now i o' task =
     \<lparr>jt_id = i,
      jt_task_id = (if opt_taskID o' = [] then None else Some (opt_taskID o')),
      jt_queue = opt_queue o',
      jt_type = task_typ task,
      jt_payload = task_payload task,
      jt_status = Pending,
      jt_max_retry = opt_maxRetry o',
      jt_retry_count = 0,
      jt_timeout_seconds = (if 0 < opt_timeout o' then Some (go_div (opt_timeout o') Second) else None),
      jt_run_after = now + opt_processIn o',
      jt_locked_by = None,
      jt_lease = None,
      jt_last_error = None,
      jt_retention_until = (if 0 < opt_retention o' then Some (now + opt_retention o') else None),
      jt_completed_at = None\<rparr>"

definition resolve_options :: "'p Task \<Rightarrow> Option list \<Rightarrow> options" where
  "resolve_options task opts =
     (let o' = fold (\<lambda>opt o'. opt o') opts (task_opts task)
      in if opt_queue o' = [] then o'\<lparr>opt_queue := DefaultQueue\<rparr> else o')"

text \<open>
  A failed \<open>INSERT\<close> leaves the table alone, but the sequence behind \<open>id\<close> has already moved on.
\<close>

definition EnqueueContext ::
  "time \<Rightarrow> faults \<Rightarrow> 'p jobqueue \<Rightarrow> 'p Task option \<Rightarrow> Option list
   \<Rightarrow> 'p jobqueue \<times> (job_error + TaskInfo)" where
  "EnqueueContext now flt q task opts =
     (case task of
        None \<Rightarrow> (q, Inl (JobErr ''jobqueue: nil task''))
      | Some t \<Rightarrow>
          (let o' = resolve_options t opts;
               row = new_row now (next_id q) o' t;
               q' = q\<lparr>next_id := next_id q + 1\<rparr>
           in case flt ''jobqueue.enqueue'' of
                Some e \<Rightarrow> (q, Inl (JobErr e))
              | None \<Rightarrow>
                  if \<not> smallint (opt_maxRetry o') then (q', Inl (JobErr ''smallint out of range''))
                  else if opt_taskID o' \<noteq> [] \<and> Some (opt_taskID o') \<in> set (map jt_task_id (tasks q))
                  then (q', Inl ErrTaskIDConflict)
                  else (q'\<lparr>tasks := tasks q @ [row]\<rparr>,
                        Inr \<lparr>info_ID = next_id q, info_Queue = opt_queue o', info_Type = task_typ t,
                             info_TaskID = opt_taskID o'\<rparr>)))"

definition Enqueue ::
  "time \<Rightarrow> faults \<Rightarrow> 'p jobqueue \<Rightarrow> 'p Task option \<Rightarrow> Option list
   \<Rightarrow> 'p jobqueue \<times> (job_error + TaskInfo)" where
  "Enqueue now flt q task opts = EnqueueContext now flt q task opts"

section \<open>Server\<close>

type_synonym retry_delay = "(int \<Rightarrow> duration) option"

record Config =
  Concurrency :: int
  Queues :: "(string \<times> int) list"
  LeaseDuration :: duration
  PollInterval :: duration
  RetryDelay :: retry_delay

record Server =
  srv_cfg :: Config
  srv_id :: string
  srv_queues :: "(string \<times> int) list"

definition NewServer :: "string \<Rightarrow> Config \<Rightarrow> Server" where
  "NewServer worker_id cfg0 =
     (let cfg1 = (if Concurrency cfg0 \<le> 0 then cfg0\<lparr>Concurrency := 10\<rparr> else cfg0);
          cfg2 = (if LeaseDuration cfg1 \<le> 0 then cfg1\<lparr>LeaseDuration := 5 * Minute\<rparr> else cfg1);
          cfg3 = (if PollInterval cfg2 \<le> 0 then cfg2\<lparr>PollInterval := 2 * Second\<rparr> else cfg2);
          cfg = (if Queues cfg3 = [] then cfg3\<lparr>Queues := [(DefaultQueue, 1)]\<rparr> else cfg3)
      in \<lparr>srv_cfg = cfg, srv_id = worker_id,
          srv_queues = map (\<lambda>(name, weight). (name, if weight < 1 then 1 else weight)) (Queues cfg)\<rparr>)"

definition selectionOrder :: "(string list \<Rightarrow> string list) \<Rightarrow> Server \<Rightarrow> string list" where
  "selectionOrder shuffle s =
     shuffle (concat (map (\<lambda>(name, weight). replicate (nat weight) name) (srv_queues s)))"

record 'p claimedTask =
  ct_id :: int
  ct_type :: string
  ct_payload :: 'p
  ct_queue :: string
  ct_retryCount :: int
  ct_maxRetry :: int
  ct_timeout :: duration
  ct_retained :: bool

definition is_due :: "time \<Rightarrow> string \<Rightarrow> 'p task_row \<Rightarrow> bool" where
  "is_due now queue r = (jt_status r = Pending \<and> jt_queue r = queue \<and> jt_run_after r \<le> now)"

definition comes_before :: "'p task_row \<Rightarrow> 'p task_row \<Rightarrow> bool" where
  "comes_before r r' = (jt_run_after r < jt_run_after r'
                        \<or> jt_run_after r = jt_run_after r' \<and> jt_id r \<le> jt_id r')"

fun earliest :: "'p task_row list \<Rightarrow> 'p task_row option" where
  "earliest [] = None"
| "earliest (r # rs) =
     (case earliest rs of
        None \<Rightarrow> Some r
      | Some r' \<Rightarrow> if comes_before r r' then Some r else Some r')"

definition claim_row :: "time \<Rightarrow> Server \<Rightarrow> 'p task_row \<Rightarrow> 'p task_row" where
  "claim_row now s r = r\<lparr>jt_status := Processing, jt_locked_by := Some (srv_id s),
                         jt_lease := Some (now + LeaseDuration (srv_cfg s))\<rparr>"

definition to_claimed :: "'p task_row \<Rightarrow> 'p claimedTask" where
  "to_claimed r =
     \<lparr>ct_id = jt_id r, ct_type = jt_type r, ct_payload = jt_payload r, ct_queue = jt_queue r,
      ct_retryCount = jt_retry_count r, ct_maxRetry = jt_max_retry r,
      ct_timeout = (case jt_timeout_seconds r of None \<Rightarrow> 0 | Some n \<Rightarrow> n) * Second,
      ct_retained = (jt_retention_until r \<noteq> None)\<rparr>"

text \<open>The loop of \<open>claimNext\<close> over the selection order; a driver error ends it.\<close>

fun claim_from ::
  "time \<Rightarrow> faults \<Rightarrow> Server \<Rightarrow> 'p jobqueue \<Rightarrow> string list \<Rightarrow> 'p jobqueue \<times> 'p claimedTask option" where
  "claim_from now flt s q [] = (q, None)"
| "claim_from now flt s q (queue # rest) =
     (case flt ''jobqueue.claim'' of
        Some _ \<Rightarrow> (q, None)
      | None \<Rightarrow>
          (case earliest (filter (is_due now queue) (tasks q)) of
             None \<Rightarrow> claim_from now flt s q rest
           | Some r \<Rightarrow>
               (q\<lparr>tasks := update_where (\<lambda>x. jt_id x = jt_id r) (claim_row now s) (tasks q)\<rparr>,
                Some (to_claimed r))))"

definition claimNext ::
  "time \<Rightarrow> faults \<Rightarrow> (string list \<Rightarrow> string list) \<Rightarrow> Server \<Rightarrow> 'p jobqueue
   \<Rightarrow> 'p jobqueue \<times> 'p claimedTask option" where
  "claimNext now flt shuffle s q = claim_from now flt s q (selectionOrder shuffle s)"

definition backoffSchedule :: "duration list" where
  "backoffSchedule = [10 * Second, 30 * Second, 1 * Minute, 5 * Minute, 15 * Minute, 30 * Minute,
                      1 * Hour, 2 * Hour]"

definition backoff :: "int \<Rightarrow> duration" where
  "backoff retryCount =
     (let n = (if retryCount < 0 then 0 else retryCount)
      in if int (length backoffSchedule) \<le> n
         then backoffSchedule ! (length backoffSchedule - 1)
         else backoffSchedule ! nat n)"

definition error_text :: "job_error \<Rightarrow> string" where
  "error_text e = (case e of ErrTaskIDConflict \<Rightarrow> ''jobqueue: task id already exists''
                           | SkipRetry s \<Rightarrow> s | JobErr s \<Rightarrow> s)"

text \<open>The three outcomes \<open>finish\<close> writes: completed (when retained), dead, or scheduled for retry.\<close>

definition completed_row :: "time \<Rightarrow> 'p task_row \<Rightarrow> 'p task_row" where
  "completed_row now r = r\<lparr>jt_status := Completed, jt_completed_at := Some now, jt_locked_by := None,
                            jt_lease := None, jt_last_error := None\<rparr>"

definition dead_row :: "time \<Rightarrow> job_error \<Rightarrow> 'p task_row \<Rightarrow> 'p task_row" where
  "dead_row now e r = r\<lparr>jt_status := Dead, jt_completed_at := Some now,
                         jt_last_error := Some (error_text e), jt_locked_by := None, jt_lease := None\<rparr>"

definition retry_row :: "time \<Rightarrow> job_error \<Rightarrow> duration \<Rightarrow> 'p task_row \<Rightarrow> 'p task_row" where
  "retry_row now e delay r =
     r\<lparr>jt_status := Pending, jt_retry_count := jt_retry_count r + 1,
       jt_last_error := Some (error_text e), jt_run_after := now + delay,
       jt_locked_by := None, jt_lease := None\<rparr>"

definition retry_delay :: "Server \<Rightarrow> int \<Rightarrow> duration" where
  "retry_delay s n = (case RetryDelay (srv_cfg s) of None \<Rightarrow> backoff n | Some f \<Rightarrow> f n)"

definition finish ::
  "time \<Rightarrow> faults \<Rightarrow> Server \<Rightarrow> 'p jobqueue \<Rightarrow> 'p claimedTask \<Rightarrow> job_error option \<Rightarrow> bool
   \<Rightarrow> 'p jobqueue" where
  "finish now flt s q ct taskErr skipRetry =
     (let mine = (\<lambda>r. jt_id r = ct_id ct) in
      case flt ''jobqueue.finish'' of
        Some _ \<Rightarrow> q
      | None \<Rightarrow>
          (case taskErr of
             None \<Rightarrow>
               if ct_retained ct
               then q\<lparr>tasks := update_where mine (completed_row now) (tasks q)\<rparr>
               else q\<lparr>tasks := delete_where mine (tasks q)\<rparr>
           | Some e \<Rightarrow>
               if skipRetry \<or> ct_maxRetry ct \<le> ct_retryCount ct
               then q\<lparr>tasks := update_where mine (dead_row now e) (tasks q)\<rparr>
               else q\<lparr>tasks := update_where mine (retry_row now e (retry_delay s (ct_retryCount ct)))
                                 (tasks q)\<rparr>))"

datatype outcome = Returned "job_error option" | Panicked string

type_synonym 'p Handler = "int \<Rightarrow> 'p \<Rightarrow> outcome"
type_synonym 'p ServeMux = "string \<Rightarrow> 'p Handler option"

definition Handle :: "'p ServeMux \<Rightarrow> string \<Rightarrow> 'p Handler \<Rightarrow> 'p ServeMux" where
  "Handle m taskType h = m(taskType := Some h)"

definition is_skip_retry :: "job_error option \<Rightarrow> bool" where
  "is_skip_retry e = (case e of Some (SkipRetry _) \<Rightarrow> True | _ \<Rightarrow> False)"

text \<open>The error \<open>run\<close> hands to \<open>finish\<close>, and whether it forbids a retry.\<close>

definition attempt :: "'p ServeMux \<Rightarrow> 'p claimedTask \<Rightarrow> job_error option \<times> bool" where
  "attempt mux ct =
     (case mux (ct_type ct) of
        None \<Rightarrow> (Some (JobErr ''jobqueue: no handler registered''), True)
      | Some h \<Rightarrow>
          (let err = (case h (ct_retryCount ct) (ct_payload ct) of
                        Returned e \<Rightarrow> e
                      | Panicked m \<Rightarrow> Some (JobErr (''jobqueue: handler panicked: '' @ m)))
           in (err, is_skip_retry err)))"

definition run_task ::
  "time \<Rightarrow> faults \<Rightarrow> Server \<Rightarrow> 'p ServeMux \<Rightarrow> 'p jobqueue \<Rightarrow> 'p claimedTask \<Rightarrow> 'p jobqueue" where
  "run_task now flt s mux q ct = (let (err, skip) = attempt mux ct in finish now flt s q ct err skip)"

definition lease_expired :: "time \<Rightarrow> 'p task_row \<Rightarrow> bool" where
  "lease_expired now r =
     (jt_status r = Processing \<and> (case jt_lease r of None \<Rightarrow> False | Some l \<Rightarrow> l < now))"

definition reaped_row :: "'p task_row \<Rightarrow> 'p task_row" where
  "reaped_row r = r\<lparr>jt_status := Pending, jt_locked_by := None, jt_lease := None,
                     jt_last_error := Some ''lease expired; worker presumed dead''\<rparr>"

definition reapExpiredLeases :: "time \<Rightarrow> faults \<Rightarrow> 'p jobqueue \<Rightarrow> 'p jobqueue" where
  "reapExpiredLeases now flt q =
     (case flt ''jobqueue.reap'' of
        Some _ \<Rightarrow> q
      | None \<Rightarrow> q\<lparr>tasks := update_where (lease_expired now) reaped_row (tasks q)\<rparr>)"

definition retention_over :: "time \<Rightarrow> 'p task_row \<Rightarrow> bool" where
  "retention_over now r =
     ((case jt_retention_until r of None \<Rightarrow> False | Some u \<Rightarrow> u < now)
      \<and> (jt_status r = Completed \<or> jt_status r = Dead))"

definition sweepRetained :: "time \<Rightarrow> faults \<Rightarrow> 'p jobqueue \<Rightarrow> 'p jobqueue" where
  "sweepRetained now flt q =
     (case flt ''jobqueue.sweep'' of
        Some _ \<Rightarrow> q
      | None \<Rightarrow> q\<lparr>tasks := delete_where (retention_over now) (tasks q)\<rparr>)"

text \<open>
  One worker goroutine, polling at the given instants: each time it claims and runs at most one task.
  The result also lists the attempts made, as pairs of task id and retry count.
\<close>

fun worker ::
  "(string list \<Rightarrow> string list) \<Rightarrow> Server \<Rightarrow> 'p ServeMux \<Rightarrow> time list \<Rightarrow> 'p jobqueue
   \<Rightarrow> 'p jobqueue \<times> (int \<times> int) list" where
  "worker shuffle s mux [] q = (q, [])"
| "worker shuffle s mux (t # ts) q =
     (case claimNext t no_faults shuffle s q of
        (q', None) \<Rightarrow> worker shuffle s mux ts q'
      | (q', Some ct) \<Rightarrow>
          (let (q'', log) = worker shuffle s mux ts (run_task t no_faults s mux q' ct)
           in (q'', (ct_id ct, ct_retryCount ct) # log)))"

section \<open>Inspector\<close>

definition DeadCount :: "'p jobqueue \<Rightarrow> string \<Rightarrow> nat" where
  "DeadCount q queue = rows_affected (\<lambda>r. jt_queue r = queue \<and> jt_status r = Dead) (tasks q)"

definition QueueDepth :: "'p jobqueue \<Rightarrow> string \<Rightarrow> nat" where
  "QueueDepth q queue = rows_affected (\<lambda>r. jt_queue r = queue \<and> jt_status r = Pending) (tasks q)"

definition ListPending :: "'p jobqueue \<Rightarrow> string \<Rightarrow> 'p task_row list" where
  "ListPending q queue =
     sort_key jt_run_after (sort_key jt_id
       (filter (\<lambda>r. jt_queue r = queue \<and> jt_status r = Pending) (tasks q)))"

record TaskState =
  ts_ID :: int
  ts_Status :: task_status
  ts_RetryCount :: int
  ts_MaxRetry :: int
  ts_LastError :: string

definition TaskByID :: "'p jobqueue \<Rightarrow> int \<Rightarrow> TaskState option" where
  "TaskByID q i =
     map_option (\<lambda>r. \<lparr>ts_ID = jt_id r, ts_Status = jt_status r, ts_RetryCount = jt_retry_count r,
                      ts_MaxRetry = jt_max_retry r,
                      ts_LastError = (case jt_last_error r of None \<Rightarrow> [] | Some e \<Rightarrow> e)\<rparr>)
       (find (\<lambda>r. jt_id r = i) (tasks q))"

section \<open>Runs of the queue\<close>

text \<open>
  The queue with its servers. \<open>held\<close> lists the claims whose handler is still running, each with the
  end of its lease. Handlers obey the requirement \<open>Config.LeaseDuration\<close> documents: none outlives its
  lease, so the clock does not pass the end of a lease in hand; a worker that dies drops its claim
  (\<open>crash\<close>) and the reaper finds the row later. Statements may fail at any step.
\<close>

record 'p world =
  wq :: "'p jobqueue"
  clock :: time
  held :: "(time \<times> 'p claimedTask) list"

inductive jq_step :: "'p world \<Rightarrow> 'p world \<Rightarrow> bool" where
  enqueue: "EnqueueContext (clock w) flt (wq w) t opts = (q', res) \<Longrightarrow> jq_step w (w\<lparr>wq := q'\<rparr>)"
| claim: "claimNext (clock w) flt shuffle (NewServer i cfg) (wq w) = (q', Some ct) \<Longrightarrow>
    l = clock w + LeaseDuration (srv_cfg (NewServer i cfg)) \<Longrightarrow>
    jq_step w (w\<lparr>wq := q', held := (l, ct) # held w\<rparr>)"
| complete: "(l, ct) \<in> set (held w) \<Longrightarrow>
    jq_step w (w\<lparr>wq := run_task (clock w) flt s mux (wq w) ct, held := remove1 (l, ct) (held w)\<rparr>)"
| crash: "(l, ct) \<in> set (held w) \<Longrightarrow> jq_step w (w\<lparr>held := remove1 (l, ct) (held w)\<rparr>)"
| reap: "jq_step w (w\<lparr>wq := reapExpiredLeases (clock w) flt (wq w)\<rparr>)"
| sweep: "jq_step w (w\<lparr>wq := sweepRetained (clock w) flt (wq w)\<rparr>)"
| tick: "clock w \<le> t \<Longrightarrow> (\<forall>(l, ct) \<in> set (held w). t \<le> l) \<Longrightarrow> jq_step w (w\<lparr>clock := t\<rparr>)"

inductive jq_reachable :: "'p world \<Rightarrow> bool" where
  init: "jq_reachable \<lparr>wq = empty_queue, clock = t, held = []\<rparr>"
| step: "jq_reachable w \<Longrightarrow> jq_step w w' \<Longrightarrow> jq_reachable w'"

section \<open>The table invariant\<close>

definition retry_ok :: "'p task_row \<Rightarrow> bool" where
  "retry_ok r = (0 \<le> jt_retry_count r \<and> jt_retry_count r \<le> max 0 (jt_max_retry r))"

definition queue_inv :: "'p jobqueue \<Rightarrow> bool" where
  "queue_inv q =
     (distinct (map jt_id (tasks q))
      \<and> (\<forall>r \<in> set (tasks q). jt_id r < next_id q \<and> retry_ok r)
      \<and> unique_nullable (map jt_task_id (tasks q)))"

text \<open>A claim in hand: the row it names is processing, under this very lease.\<close>

definition holds_row :: "'p jobqueue \<Rightarrow> time \<Rightarrow> time \<times> 'p claimedTask \<Rightarrow> bool" where
  "holds_row q now c =
     (now \<le> fst c \<and>
      (\<exists>r \<in> set (tasks q). jt_id r = ct_id (snd c) \<and> jt_status r = Processing
          \<and> jt_lease r = Some (fst c)
          \<and> jt_retry_count r = ct_retryCount (snd c) \<and> jt_max_retry r = ct_maxRetry (snd c)))"

definition world_inv :: "'p world \<Rightarrow> bool" where
  "world_inv w = (queue_inv (wq w) \<and> (\<forall>c \<in> set (held w). holds_row (wq w) (clock w) c)
                  \<and> distinct (map (ct_id \<circ> snd) (held w)))"

lemma queue_inv_update:
  assumes inv: "queue_inv q"
    and ids: "\<And>r. jt_id (f r) = jt_id r" and keys: "\<And>r. jt_task_id (f r) = jt_task_id r"
    and retry: "\<And>r. r \<in> set (tasks q) \<Longrightarrow> P r \<Longrightarrow> retry_ok (f r)"
  shows "queue_inv (q\<lparr>tasks := update_where P f (tasks q)\<rparr>)"
proof -
  have "map jt_id (update_where P f (tasks q)) = map jt_id (tasks q)"
    and "map jt_task_id (update_where P f (tasks q)) = map jt_task_id (tasks q)"
    using ids keys by (simp_all add: map_update_where)
  with inv ids retry show ?thesis
    by (simp add: queue_inv_def ball_update_where)
qed

lemma queue_inv_delete:
  "queue_inv q \<Longrightarrow> queue_inv (q\<lparr>tasks := delete_where P (tasks q)\<rparr>)"
  by (auto simp: queue_inv_def table_simps)

lemma queue_inv_row_unique:
  "queue_inv q \<Longrightarrow> r \<in> set (tasks q) \<Longrightarrow> r' \<in> set (tasks q) \<Longrightarrow> jt_id r = jt_id r' \<Longrightarrow> r = r'"
  by (auto simp: queue_inv_def distinct_map dest: inj_onD)

lemma queue_inv_empty: "queue_inv empty_queue"
  by (simp add: queue_inv_def empty_queue_def)

text \<open>What enqueueing can do to the table: nothing, burn an id, or append one fresh pending row.\<close>

lemma EnqueueContext_cases:
  assumes "EnqueueContext now flt q t opts = (q', res)"
  obtains (failed) e where "q' = q \<or> q' = q\<lparr>next_id := next_id q + 1\<rparr>" "res = Inl e"
  | (queued) task i where "t = Some task" "res = Inr i"
      "opt_taskID (resolve_options task opts) = []
       \<or> Some (opt_taskID (resolve_options task opts)) \<notin> set (map jt_task_id (tasks q))"
      "q' = q\<lparr>next_id := next_id q + 1,
              tasks := tasks q @ [new_row now (next_id q) (resolve_options task opts) task]\<rparr>"
proof -
  have "(\<exists>e. (q' = q \<or> q' = q\<lparr>next_id := next_id q + 1\<rparr>) \<and> res = Inl e)
    \<or> (\<exists>task i. t = Some task \<and> res = Inr i
        \<and> (opt_taskID (resolve_options task opts) = []
            \<or> Some (opt_taskID (resolve_options task opts)) \<notin> set (map jt_task_id (tasks q)))
        \<and> q' = q\<lparr>next_id := next_id q + 1,
                  tasks := tasks q @ [new_row now (next_id q) (resolve_options task opts) task]\<rparr>)"
    using assms unfolding EnqueueContext_def Let_def
    by (cases t; cases "flt ''jobqueue.enqueue''") (simp_all del: set_map split: if_splits, fastforce+)
  with failed queued show thesis by blast
qed

lemma queue_inv_append:
  assumes inv: "queue_inv q" and new: "jt_id r = next_id q" and "retry_ok r"
    and key: "jt_task_id r = None \<or> jt_task_id r \<notin> set (map jt_task_id (tasks q))"
  shows "queue_inv (q\<lparr>next_id := next_id q + 1, tasks := tasks q @ [r]\<rparr>)"
proof -
  have "jt_id r \<notin> set (map jt_id (tasks q))"
    using inv new by (auto simp: queue_inv_def)
  with assms show ?thesis by (auto simp: queue_inv_def)
qed

lemma queue_inv_enqueue:
  assumes inv: "queue_inv q" and "EnqueueContext now flt q t opts = (q', res)"
  shows "queue_inv q'"
  using assms(2)
proof (cases rule: EnqueueContext_cases)
  case (failed e)
  with inv show ?thesis by (fastforce simp: queue_inv_def)
next
  case (queued task i)
  then show ?thesis
    using inv by (auto simp: new_row_def retry_ok_def intro!: queue_inv_append)
qed

section \<open>Claiming\<close>

lemma earliest_None [simp]: "earliest rs = None \<longleftrightarrow> rs = []"
  by (cases rs) (auto split: option.splits)

lemma comes_before_refl [simp]: "comes_before r r"
  by (simp add: comes_before_def)

lemma comes_before_trans: "comes_before a b \<Longrightarrow> comes_before b c \<Longrightarrow> comes_before a c"
  by (auto simp: comes_before_def)

lemma comes_before_total: "\<not> comes_before a b \<Longrightarrow> comes_before b a"
  by (auto simp: comes_before_def)

lemma earliest_Some:
  "earliest rs = Some r \<Longrightarrow> r \<in> set rs \<and> (\<forall>x \<in> set rs. comes_before r x)"
proof (induction rs arbitrary: r)
  case (Cons a rs)
  then show ?case
    by (auto split: option.splits if_splits dest: comes_before_total intro: comes_before_trans)
qed simp

text \<open>A successful claim takes the earliest due row of some selected queue.\<close>

definition claimable :: "time \<Rightarrow> 'p jobqueue \<Rightarrow> string \<Rightarrow> 'p task_row \<Rightarrow> bool" where
  "claimable now q queue r =
     (r \<in> set (tasks q) \<and> is_due now queue r
      \<and> (\<forall>x \<in> set (tasks q). is_due now queue x \<longrightarrow> comes_before r x))"

lemma claim_from_Some:
  assumes "claim_from now flt s q order = (q', Some ct)"
  obtains queue r where "queue \<in> set order" "claimable now q queue r" "ct = to_claimed r"
    "q' = q\<lparr>tasks := update_where (\<lambda>x. jt_id x = jt_id r) (claim_row now s) (tasks q)\<rparr>"
  using assms
proof (induction order arbitrary: thesis)
  case (Cons queue order)
  show ?case
  proof (cases "earliest (filter (is_due now queue) (tasks q))")
    case None
    with Cons show thesis by (auto split: option.splits)
  next
    case (Some r)
    then have "claimable now q queue r"
      using earliest_Some [OF Some] by (simp add: claimable_def)
    with Some Cons.prems show thesis by (auto split: option.splits)
  qed
qed simp

lemma claim_from_None:
  assumes "flt ''jobqueue.claim'' = None"
  shows "snd (claim_from now flt s q order) = None
     \<longleftrightarrow> (\<forall>queue \<in> set order. \<forall>r \<in> set (tasks q). \<not> is_due now queue r)"
  using assms
  by (induction order) (auto split: option.splits simp: filter_empty_conv)

lemma set_expand_weights:
  "\<forall>(n, w) \<in> set qs. 0 < w \<Longrightarrow>
   set (concat (map (\<lambda>(n, w). replicate (nat w) n) qs)) = fst ` set qs"
  by (induction qs) auto

lemma selectionOrder_set:
  assumes "\<And>xs. mset (shuffle xs) = mset xs" and "\<forall>(n, w) \<in> set (srv_queues s). 0 < w"
  shows "set (selectionOrder shuffle s) = fst ` set (srv_queues s)"
proof -
  have "set (shuffle xs) = set xs" for xs
    using assms(1) by (metis set_mset_mset)
  then show ?thesis
    unfolding selectionOrder_def using set_expand_weights [OF assms(2)] by simp
qed

lemma NewServer_srv_queues:
  "srv_queues (NewServer i cfg)
   = map (\<lambda>(n, w). (n, if w < 1 then 1 else w)) (if Queues cfg = [] then [(DefaultQueue, 1)] else Queues cfg)"
  by (simp add: NewServer_def Let_def)

lemma NewServer_weights: "\<forall>(n, w) \<in> set (srv_queues (NewServer i cfg)). 0 < w"
  by (auto simp: NewServer_srv_queues)

lemma NewServer_queues:
  "fst ` set (srv_queues (NewServer i cfg))
   = (if Queues cfg = [] then {DefaultQueue} else fst ` set (Queues cfg))"
proof -
  have "fst ` set (map (\<lambda>(n, w). (n, if w < 1 then 1 else w)) qs) = fst ` set qs"
    for qs :: "(string \<times> int) list"
    by (induction qs) auto
  then show ?thesis unfolding NewServer_srv_queues by simp
qed

section \<open>Every step keeps the invariant\<close>

lemma holds_row_update:
  assumes "holds_row q now c"
    and "\<And>r. r \<in> set (tasks q) \<Longrightarrow> P r \<Longrightarrow> jt_id r = ct_id (snd c) \<Longrightarrow> jt_status r \<noteq> Processing \<or> jt_lease r \<noteq> Some (fst c)"
  shows "holds_row (q\<lparr>tasks := update_where P f (tasks q)\<rparr>) now c"
  using assms by (auto simp: holds_row_def bex_update_where)

lemma holds_row_delete:
  assumes "holds_row q now c"
    and "\<And>r. r \<in> set (tasks q) \<Longrightarrow> P r \<Longrightarrow> jt_id r = ct_id (snd c) \<Longrightarrow> jt_status r \<noteq> Processing"
  shows "holds_row (q\<lparr>tasks := delete_where P (tasks q)\<rparr>) now c"
  using assms by (auto simp: holds_row_def table_simps)

lemmas row_updates = claim_row_def completed_row_def dead_row_def retry_row_def reaped_row_def

lemma queue_inv_retryD: "queue_inv q \<Longrightarrow> r \<in> set (tasks q) \<Longrightarrow> retry_ok r"
  by (simp add: queue_inv_def)

text \<open>An update that keeps the identifying columns and the retry counters keeps the invariant.\<close>

lemma queue_inv_keep:
  assumes "queue_inv q" and "\<And>r. jt_id (f r) = jt_id r" and "\<And>r. jt_task_id (f r) = jt_task_id r"
    and "\<And>r. jt_retry_count (f r) = jt_retry_count r" and "\<And>r. jt_max_retry (f r) = jt_max_retry r"
  shows "queue_inv (q\<lparr>tasks := update_where P f (tasks q)\<rparr>)"
  using assms queue_inv_retryD [OF assms(1)] by (intro queue_inv_update) (simp_all add: retry_ok_def)

lemma queue_inv_claim:
  "queue_inv q \<Longrightarrow> queue_inv (q\<lparr>tasks := update_where P (claim_row now s) (tasks q)\<rparr>)"
  by (rule queue_inv_keep) (simp_all add: claim_row_def)

lemma finish_cases:
  obtains "finish now flt s q ct err skip = q"
  | "finish now flt s q ct err skip
     = q\<lparr>tasks := update_where (\<lambda>r. jt_id r = ct_id ct) (completed_row now) (tasks q)\<rparr>"
  | "finish now flt s q ct err skip = q\<lparr>tasks := delete_where (\<lambda>r. jt_id r = ct_id ct) (tasks q)\<rparr>"
  | e where "finish now flt s q ct err skip
     = q\<lparr>tasks := update_where (\<lambda>r. jt_id r = ct_id ct) (dead_row now e) (tasks q)\<rparr>"
  | e where "ct_retryCount ct < ct_maxRetry ct" "finish now flt s q ct err skip
     = q\<lparr>tasks := update_where (\<lambda>r. jt_id r = ct_id ct)
                   (retry_row now e (retry_delay s (ct_retryCount ct))) (tasks q)\<rparr>"
proof (cases "flt ''jobqueue.finish''")
  case None
  show thesis
  proof (cases err)
    case None
    with \<open>flt ''jobqueue.finish'' = None\<close> that(2,3) show thesis
      by (cases "ct_retained ct") (simp_all add: finish_def)
  next
    case (Some e)
    with \<open>flt ''jobqueue.finish'' = None\<close> that(4,5) [of e] show thesis
      by (cases "skip \<or> ct_maxRetry ct \<le> ct_retryCount ct") (simp_all add: finish_def)
  qed
qed (use that(1) in \<open>simp add: finish_def\<close>)

lemma holds_row_own:
  assumes "queue_inv q" and "holds_row q now (l, ct)" and "r \<in> set (tasks q)" and "jt_id r = ct_id ct"
  shows "jt_status r = Processing \<and> jt_lease r = Some l
       \<and> jt_retry_count r = ct_retryCount ct \<and> jt_max_retry r = ct_maxRetry ct"
proof -
  from assms(2) obtain r' where "r' \<in> set (tasks q)" and "jt_id r' = ct_id ct"
    and own: "jt_status r' = Processing \<and> jt_lease r' = Some l
       \<and> jt_retry_count r' = ct_retryCount ct \<and> jt_max_retry r' = ct_maxRetry ct"
    by (auto simp: holds_row_def)
  with assms(3,4) have "r = r'" using queue_inv_row_unique [OF assms(1)] by simp
  with own show ?thesis by simp
qed

lemma queue_inv_finish:
  assumes inv: "queue_inv q" and held: "holds_row q now (l, ct)"
  shows "queue_inv (finish now flt s q ct err skip)"
proof (cases rule: finish_cases [of now flt s q ct err skip])
  case 2
  show ?thesis unfolding 2 by (rule queue_inv_keep [OF inv]) (simp_all add: completed_row_def)
next
  case (4 e)
  show ?thesis unfolding 4 by (rule queue_inv_keep [OF inv]) (simp_all add: dead_row_def)
next
  case (5 e)
  have "retry_ok (retry_row now e d r)" if "r \<in> set (tasks q)" "jt_id r = ct_id ct" for r d
    using 5(1) holds_row_own [OF inv held that] queue_inv_retryD [OF inv that(1)]
    by (simp add: retry_ok_def retry_row_def)
  with inv show ?thesis
    unfolding 5(2) by (intro queue_inv_update) (simp_all add: retry_row_def)
qed (simp_all add: inv queue_inv_delete)

lemma queue_inv_reap: "queue_inv q \<Longrightarrow> queue_inv (reapExpiredLeases now flt q)"
  by (simp add: reapExpiredLeases_def queue_inv_keep reaped_row_def split: option.split)

lemma queue_inv_sweep: "queue_inv q \<Longrightarrow> queue_inv (sweepRetained now flt q)"
  by (simp add: sweepRetained_def queue_inv_delete split: option.split)

text \<open>Only the row of the finished claim is touched.\<close>

lemma holds_row_finish:
  assumes "holds_row q now c" and "ct_id (snd c) \<noteq> ct_id ct"
  shows "holds_row (finish now flt s q ct err skip) now c"
  by (cases rule: finish_cases [of now flt s q ct err skip])
     (use assms in \<open>auto intro!: holds_row_update holds_row_delete\<close>)

lemma holds_row_reap: "holds_row q now c \<Longrightarrow> holds_row (reapExpiredLeases now flt q) now c"
  by (auto simp: reapExpiredLeases_def lease_expired_def split: option.split intro!: holds_row_update)
     (auto simp: holds_row_def)

lemma holds_row_sweep: "holds_row q now c \<Longrightarrow> holds_row (sweepRetained now flt q) now c"
  by (auto simp: sweepRetained_def retention_over_def split: option.split intro!: holds_row_delete)

lemma holds_row_enqueue:
  assumes "holds_row q now c" and "EnqueueContext now' flt q t opts = (q', res)"
  shows "holds_row q' now c"
  using assms(2) by (cases rule: EnqueueContext_cases) (use assms(1) in \<open>auto simp: holds_row_def\<close>)

lemma NewServer_lease: "0 < LeaseDuration (srv_cfg (NewServer i cfg))"
  by (simp add: NewServer_def Let_def clock_simps)

lemma distinct_remove1_ids:
  "distinct (map f xs) \<Longrightarrow> x \<in> set xs \<Longrightarrow> c \<in> set (remove1 x xs) \<Longrightarrow> f c \<noteq> f x"
proof (induction xs)
  case (Cons y ys)
  show ?case
  proof (cases "y = x")
    case True
    with Cons.prems show ?thesis by (metis distinct.simps(2) image_eqI list.set_map list.simps(9) remove1.simps(2))
  next
    case False
    with Cons show ?thesis by (auto simp: rev_image_eqI)
  qed
qed simp

lemma distinct_map_remove1: "distinct (map f xs) \<Longrightarrow> distinct (map f (remove1 x xs))"
  by (induction xs) (auto dest: notin_set_remove1, metis image_eqI notin_set_remove1)

text \<open>A fresh claim: its row was pending, so nobody else holds it.\<close>

lemma world_inv_claim:
  assumes inv: "world_inv w" and r: "claimable (clock w) (wq w) queue r" and l: "clock w \<le> l"
    and lease: "l = clock w + LeaseDuration (srv_cfg s)"
  shows "world_inv (w\<lparr>wq := (wq w)\<lparr>tasks := update_where (\<lambda>x. jt_id x = jt_id r) (claim_row (clock w) s)
                                             (tasks (wq w))\<rparr>,
                      held := (l, to_claimed r) # held w\<rparr>)"
proof -
  have q: "queue_inv (wq w)" and rq: "r \<in> set (tasks (wq w))" and pend: "jt_status r = Pending"
    using inv r by (auto simp: world_inv_def claimable_def is_due_def)
  have other: "ct_id (snd c) \<noteq> jt_id r" if "c \<in> set (held w)" for c
  proof
    assume "ct_id (snd c) = jt_id r"
    moreover have "holds_row (wq w) (clock w) (fst c, snd c)"
      using inv that by (simp add: world_inv_def)
    ultimately show False using holds_row_own [OF q _ rq] pend by fastforce
  qed
  have "holds_row ((wq w)\<lparr>tasks := update_where (\<lambda>x. jt_id x = jt_id r) (claim_row (clock w) s)
                                  (tasks (wq w))\<rparr>) (clock w) (l, to_claimed r)"
    using rq l lease
    by (auto simp: holds_row_def bex_update_where claim_row_def to_claimed_def intro!: bexI [of _ r])
  moreover have "ct_id (to_claimed r) = jt_id r" by (simp add: to_claimed_def)
  ultimately show ?thesis
    using inv other by (auto simp: world_inv_def queue_inv_claim intro!: holds_row_update) blast
qed

lemma world_inv_step:
  assumes "jq_step w w'" and inv: "world_inv w"
  shows "world_inv w'"
  using assms(1)
proof cases
  case (enqueue flt t opts q' res)
  with inv show ?thesis
    by (auto simp: world_inv_def intro: queue_inv_enqueue holds_row_enqueue)
next
  case (claim flt shuffle i cfg q' ct l)
  from claim(2) obtain queue r where "claimable (clock w) (wq w) queue r" and "ct = to_claimed r"
    and "q' = (wq w)\<lparr>tasks := update_where (\<lambda>x. jt_id x = jt_id r)
                 (claim_row (clock w) (NewServer i cfg)) (tasks (wq w))\<rparr>"
    unfolding claimNext_def by (elim claim_from_Some)
  with claim show ?thesis
    using world_inv_claim [OF inv _ _ claim(3)] NewServer_lease [of i cfg] by simp
next
  case (complete l ct flt s mux)
  have q: "queue_inv (wq w)" and h: "holds_row (wq w) (clock w) (l, ct)"
    using inv complete(2) by (auto simp: world_inv_def)
  have "ct_id (snd c) \<noteq> ct_id ct" if "c \<in> set (remove1 (l, ct) (held w))" for c
    using distinct_remove1_ids [OF _ complete(2) that, of "ct_id \<circ> snd"] inv
    by (simp add: world_inv_def)
  with inv q h show ?thesis
    unfolding complete(1) run_task_def
    by (auto simp: world_inv_def queue_inv_finish distinct_map_remove1 split: prod.split
        intro!: holds_row_finish dest: notin_set_remove1)
next
  case (crash l ct)
  with inv show ?thesis
    by (auto simp: world_inv_def distinct_map_remove1 dest: notin_set_remove1)
next
  case (tick t)
  with inv show ?thesis by (fastforce simp: world_inv_def holds_row_def)
qed (use inv in \<open>simp_all add: world_inv_def queue_inv_reap holds_row_reap queue_inv_sweep holds_row_sweep\<close>)

lemma world_inv_reachable: "jq_reachable w \<Longrightarrow> world_inv w"
proof (induction rule: jq_reachable.induct)
  case (init t)
  then show ?case by (simp add: world_inv_def queue_inv_empty)
qed (rule world_inv_step)

section \<open>Properties\<close>


text \<open>
  Enqueueing is idempotent in the key: once a task with a non-empty \<open>TaskID\<close> has been accepted,
  enqueueing any task under the same id while the row exists reports \<open>ErrTaskIDConflict\<close> and leaves
  the table as it was, whatever status the row has reached.
\<close>

theorem Enqueue_idempotent:
  assumes "opt_taskID (resolve_options t opts) = k" and "k \<noteq> []"
    and "Some k \<in> set (map jt_task_id (tasks q))"
    and "flt ''jobqueue.enqueue'' = None" and "smallint (opt_maxRetry (resolve_options t opts))"
  shows "snd (Enqueue now flt q (Some t) opts) = Inl ErrTaskIDConflict
       \<and> tasks (fst (Enqueue now flt q (Some t) opts)) = tasks q"
  using assms by (simp add: Enqueue_def EnqueueContext_def Let_def del: set_map)

text \<open>
  No queue is starved and order is kept: whatever permutation the shuffle produces, \<open>claimNext\<close>
  finds nothing exactly when no configured queue has a due pending task; and the task it does claim
  is the earliest due one of its queue, becomes \<open>processing\<close> under this worker's lease, and no other
  row changes.
\<close>

theorem claimNext_fair:
  assumes "\<And>xs. mset (shuffle xs) = mset xs" and "flt ''jobqueue.claim'' = None"
    and "Queues cfg \<noteq> []" and "queue_inv q"
  shows "case claimNext now flt shuffle (NewServer i cfg) q of
           (q', None) \<Rightarrow> \<forall>r \<in> set (tasks q). \<forall>queue \<in> fst ` set (Queues cfg). \<not> is_due now queue r
         | (q', Some ct) \<Rightarrow> \<exists>queue \<in> fst ` set (Queues cfg). \<exists>r. claimable now q queue r
              \<and> ct = to_claimed r
              \<and> tasks q' = map (\<lambda>x. if x = r then claim_row now (NewServer i cfg) x else x) (tasks q)"
proof -
  let ?order = "selectionOrder shuffle (NewServer i cfg)"
  have order: "set ?order = fst ` set (Queues cfg)"
    using selectionOrder_set [OF assms(1) NewServer_weights] NewServer_queues assms(3) by simp
  obtain q' res where c: "claim_from now flt (NewServer i cfg) q ?order = (q', res)" by fastforce
  show ?thesis
  proof (cases res)
    case None
    have "\<forall>queue \<in> set ?order. \<forall>r \<in> set (tasks q). \<not> is_due now queue r"
      using claim_from_None [of flt now "NewServer i cfg" q ?order] assms(2) c None by simp
    with None c order show ?thesis by (auto simp: claimNext_def)
  next
    case (Some ct)
    with c obtain queue r where "queue \<in> set ?order" and r: "claimable now q queue r"
      and "ct = to_claimed r" and q': "q' = q\<lparr>tasks := update_where (\<lambda>x. jt_id x = jt_id r)
                                            (claim_row now (NewServer i cfg)) (tasks q)\<rparr>"
      by (auto elim: claim_from_Some)
    moreover have "(jt_id x = jt_id r) = (x = r)" if "x \<in> set (tasks q)" for x
      using queue_inv_row_unique [OF assms(4) that] r by (auto simp: claimable_def)
    then have "tasks q' = map (\<lambda>x. if x = r then claim_row now (NewServer i cfg) x else x) (tasks q)"
      unfolding q' update_where_def by simp
    ultimately show ?thesis using c Some order by (auto simp: claimNext_def)
  qed
qed

subsection \<open>Retries and back-off\<close>

lemma backoff_values:
  "backoff n = (if n \<le> 0 then 10 * Second else if n = 1 then 30 * Second else if n = 2 then Minute
     else if n = 3 then 5 * Minute else if n = 4 then 15 * Minute else if n = 5 then 30 * Minute
     else if n = 6 then Hour else 2 * Hour)"
proof -
  consider "n \<le> 0" | "n = 1" | "n = 2" | "n = 3" | "n = 4" | "n = 5" | "n = 6" | "n = 7" | "8 \<le> n"
    by linarith
  then show ?thesis
    by cases (auto simp: backoff_def backoffSchedule_def Let_def)
qed

text \<open>
  The retry delay is bounded and never shrinks: for every retry count, corrupted negative ones
  included, it is between ten seconds and two hours, and a later retry never waits less.
\<close>

theorem backoff_bounded_monotone:
  "10 * Second \<le> backoff n \<and> backoff n \<le> 2 * Hour \<and> backoff n \<le> backoff (n + 1)"
  by (simp add: backoff_values clock_simps)

lemma backoff_le: "backoff n \<le> 2 * Hour"
  by (simp add: backoff_values clock_simps)

text \<open>A handler that fails every attempt with an error that allows retrying.\<close>

definition always_fails :: "'p ServeMux \<Rightarrow> string \<Rightarrow> string \<Rightarrow> bool" where
  "always_fails mux ty e = (\<exists>h. mux ty = Some h \<and> (\<forall>n p. h n p = Returned (Some (JobErr e))))"

text \<open>Polling instants far enough apart for every back-off to have run out.\<close>

fun spaced :: "time \<Rightarrow> time list \<Rightarrow> bool" where
  "spaced t0 [] = True"
| "spaced t0 (t # ts) = (t0 \<le> t \<and> spaced (t + 2 * Hour) ts)"

lemma spaced_mono: "t1 \<le> t0 \<Longrightarrow> spaced t0 ts \<Longrightarrow> spaced t1 ts"
  by (cases ts) auto

lemma claim_from_single:
  assumes "is_due t (jt_queue r) r" and "jt_queue r \<in> set order"
  shows "claim_from t no_faults s \<lparr>tasks = [r], next_id = n\<rparr> order
       = (\<lparr>tasks = [claim_row t s r], next_id = n\<rparr>, Some (to_claimed r))"
  using assms by (induction order) (auto simp: is_due_def)

lemma claim_from_not_pending:
  assumes "jt_status r \<noteq> Pending"
  shows "claim_from t no_faults s \<lparr>tasks = [r], next_id = n\<rparr> order
       = (\<lparr>tasks = [r], next_id = n\<rparr>, None)"
  using assms by (induction order) (auto simp: is_due_def)

lemma worker_not_pending:
  assumes "jt_status r \<noteq> Pending"
  shows "worker shuffle s mux ts \<lparr>tasks = [r], next_id = n\<rparr> = (\<lparr>tasks = [r], next_id = n\<rparr>, [])"
  by (induction ts) (simp_all add: claimNext_def claim_from_not_pending [OF assms])

text \<open>One failing attempt: retried while the count is below the bound, dead-lettered at it.\<close>

lemma failing_attempt:
  assumes "always_fails mux (jt_type r) e" and "RetryDelay (srv_cfg s) = None"
  shows "run_task t no_faults s mux \<lparr>tasks = [claim_row t s r], next_id = n\<rparr> (to_claimed r)
       = \<lparr>tasks = [if jt_max_retry r \<le> jt_retry_count r then dead_row t (JobErr e) (claim_row t s r)
                   else retry_row t (JobErr e) (backoff (jt_retry_count r)) (claim_row t s r)],
          next_id = n\<rparr>"
  using assms
  by (auto simp: always_fails_def run_task_def attempt_def to_claimed_def is_skip_retry_def
      finish_def Let_def claim_row_def retry_delay_def)

lemma worker_claims_single:
  assumes "jt_status r = Pending" and "jt_run_after r \<le> t"
    and "jt_queue r \<in> set (selectionOrder shuffle s)"
  shows "worker shuffle s mux (t # ts) \<lparr>tasks = [r], next_id = n\<rparr>
       = (let (q'', log) = worker shuffle s mux ts
                             (run_task t no_faults s mux \<lparr>tasks = [claim_row t s r], next_id = n\<rparr> (to_claimed r))
          in (q'', (jt_id r, jt_retry_count r) # log))"
proof -
  have "claimNext t no_faults shuffle s \<lparr>tasks = [r], next_id = n\<rparr>
      = (\<lparr>tasks = [claim_row t s r], next_id = n\<rparr>, Some (to_claimed r))"
    using claim_from_single [of t r "selectionOrder shuffle s" s n] assms
    by (simp add: claimNext_def is_due_def)
  then show ?thesis by (simp add: to_claimed_def)
qed

lemma worker_failing:
  assumes "always_fails mux (jt_type r) e"
    and s: "RetryDelay (srv_cfg s) = None" and "jt_queue r \<in> set (selectionOrder shuffle s)"
    and "jt_status r = Pending" and "spaced (jt_run_after r) ts"
    and "jt_max_retry r = jt_retry_count r + int k"
  shows "\<exists>r'. worker shuffle s mux ts \<lparr>tasks = [r], next_id = n\<rparr>
            = (\<lparr>tasks = [r'], next_id = n\<rparr>,
               map (\<lambda>j. (jt_id r, jt_retry_count r + int j)) [0..<min (length ts) (k + 1)])
          \<and> jt_status r' = (if k < length ts then Dead else Pending)
          \<and> jt_retry_count r' = jt_retry_count r + int (min (length ts) k)"
  using assms
proof (induction ts arbitrary: r k)
  case (Cons t ts)
  note claim = worker_claims_single [of r t shuffle s mux ts n]
  note fails = failing_attempt [of mux r e s t n]
  show ?case
  proof (cases k)
    case 0
    let ?r' = "dead_row t (JobErr e) (claim_row t s r)"
    have "jt_status ?r' \<noteq> Pending" by (simp add: dead_row_def)
    from worker_not_pending [OF this, of shuffle s mux ts n]
    have "worker shuffle s mux (t # ts) \<lparr>tasks = [r], next_id = n\<rparr>
        = (\<lparr>tasks = [?r'], next_id = n\<rparr>, [(jt_id r, jt_retry_count r)])"
      using claim fails Cons.prems 0 by simp
    with 0 show ?thesis by (simp add: dead_row_def claim_row_def)
  next
    case (Suc m)
    let ?r1 = "retry_row t (JobErr e) (backoff (jt_retry_count r)) (claim_row t s r)"
    have cols: "jt_id ?r1 = jt_id r" "jt_retry_count ?r1 = jt_retry_count r + 1"
      "jt_max_retry ?r1 = jt_max_retry r" "jt_type ?r1 = jt_type r" "jt_queue ?r1 = jt_queue r"
      "jt_status ?r1 = Pending" "jt_run_after ?r1 = t + backoff (jt_retry_count r)"
      by (simp_all add: retry_row_def claim_row_def)
    have "spaced (t + backoff (jt_retry_count r)) ts"
      using Cons.prems(5) backoff_le [of "jt_retry_count r"]
      by (auto intro: spaced_mono [of _ "t + 2 * Hour"])
    then obtain r' where w: "worker shuffle s mux ts \<lparr>tasks = [?r1], next_id = n\<rparr>
        = (\<lparr>tasks = [r'], next_id = n\<rparr>,
           map (\<lambda>j. (jt_id r, jt_retry_count r + 1 + int j)) [0..<min (length ts) (m + 1)])"
      and "jt_status r' = (if m < length ts then Dead else Pending)"
      and "jt_retry_count r' = jt_retry_count r + 1 + int (min (length ts) m)"
      using Cons.IH [of ?r1 m] Cons.prems Suc unfolding cols by auto
    moreover have "map (\<lambda>j. (jt_id r, jt_retry_count r + int j)) [0..<min (length (t # ts)) (k + 1)]
      = (jt_id r, jt_retry_count r)
        # map (\<lambda>j. (jt_id r, jt_retry_count r + 1 + int j)) [0..<min (length ts) (m + 1)]"
      using Suc by (simp add: upt_conv_Cons map_Suc_upt [symmetric] comp_def del: upt_Suc)
    ultimately show ?thesis
      using claim fails Cons.prems Suc by (intro exI [of _ r']) simp
  qed
qed simp



section \<open>Witnesses\<close>

definition demo_task :: "nat Task" where
  "demo_task = NewTask ''coa'' 7 [Queue ''net'', MaxRetry 2, TaskID ''coa-7'']"

definition demo_cfg :: Config where
  "demo_cfg = \<lparr>Concurrency = 1, Queues = [(''mail'', 1), (''net'', 3)], LeaseDuration = 60 * Second,
               PollInterval = 0, RetryDelay = None\<rparr>"

definition demo_row :: "nat task_row" where
  "demo_row = new_row 5 1 (resolve_options demo_task []) demo_task"

definition demo_queue :: "nat jobqueue" where
  "demo_queue = \<lparr>tasks = [demo_row], next_id = 2\<rparr>"

definition demo_mux :: "nat ServeMux" where
  "demo_mux = Handle (\<lambda>_. None) ''coa'' (\<lambda>_ _. Returned (Some (JobErr ''nas down'')))"

lemmas demo_defs = demo_task_def demo_cfg_def demo_row_def demo_queue_def demo_mux_def NewTask_def
  zero_options_def Queue_def MaxRetry_def TaskID_def resolve_options_def new_row_def Handle_def Let_def

lemma demo_enqueue:
  "EnqueueContext 5 no_faults empty_queue (Some demo_task) [] = (demo_queue,
     Inr \<lparr>info_ID = 1, info_Queue = ''net'', info_Type = ''coa'', info_TaskID = ''coa-7''\<rparr>)"
  by (simp add: EnqueueContext_def empty_queue_def smallint_def demo_defs)

lemma demo_claim:
  "claimNext 5 no_faults id (NewServer ''w'' demo_cfg) demo_queue
   = (\<lparr>tasks = [claim_row 5 (NewServer ''w'' demo_cfg) demo_row], next_id = 2\<rparr>, Some (to_claimed demo_row))"
  by (simp add: claimNext_def selectionOrder_def NewServer_srv_queues is_due_def demo_defs
      numeral_3_eq_3)


theorem Enqueue_idempotent_witness:
  "snd (Enqueue 9 no_faults demo_queue (Some demo_task) []) = Inl ErrTaskIDConflict
   \<and> tasks (fst (Enqueue 9 no_faults demo_queue (Some demo_task) [])) = [demo_row]"
  using Enqueue_idempotent [of demo_task "[]" "''coa-7''" demo_queue no_faults 9]
  by (simp add: smallint_def demo_defs)

theorem claimNext_fair_witness:
  "\<exists>queue \<in> {''mail'', ''net''}. \<exists>r. claimable 5 demo_queue queue r"
proof -
  have "queue_inv demo_queue"
    using queue_inv_enqueue [OF queue_inv_empty demo_enqueue] .
  moreover have "Queues demo_cfg = [(''mail'', 1), (''net'', 3)]" by (simp add: demo_cfg_def)
  ultimately show ?thesis
    using claimNext_fair [of id no_faults demo_cfg demo_queue 5 "''w''"] by (auto simp: demo_claim)
qed



end
