(* ===== verification/Gst.thy ===== *)
theory Gst
  imports Prelude Complex_Main
begin

text \<open>
  The GST state registry (\<open>src/internal/billing/state.go\<close>) and invoice computation
  (\<open>src/internal/billing/gst.go\<close>).

  Amounts are \<open>decimal.Decimal\<close> values of the package \<open>github.com/shopspring/decimal\<close>. Its value type
  is the type parameter \<open>'d\<close>, of class \<open>linordered_idom\<close>: addition, subtraction, multiplication and
  comparison are documented as exact. Division and rounding are not, so the package's \<open>Div\<close> and
  \<open>Round\<close> are the fields of a record \<open>'d decimal_pkg\<close> that the definitions take as an argument, and
  what the code relies on is the named hypothesis \<open>decimal_pkg_ok\<close>.
\<close>

section \<open>The decimal package\<close>

record 'd decimal_pkg =
  Div :: "'d \<Rightarrow> 'd \<Rightarrow> 'd"
  Round :: "'d \<Rightarrow> nat \<Rightarrow> 'd"

text \<open>
  Documented behaviour: dividing by 100 only moves the decimal point (exact at the package's
  division precision of 16 places for the amounts and percentages of the schema, which carry at
  most four places when multiplied); \<open>Round(2)\<close> returns the nearest multiple of 1/100, so it is off by
  at most half of that, keeps order and leaves zero alone.
\<close>

definition decimal_pkg_ok :: "'d::linordered_idom decimal_pkg \<Rightarrow> bool" where
  "decimal_pkg_ok dp \<longleftrightarrow>
     (\<forall>x. 100 * Div dp x 100 = x)
     \<and> (\<forall>x. 200 * \<bar>Round dp x 2 - x\<bar> \<le> 1)
     \<and> (\<forall>x y. x \<le> y \<longrightarrow> Round dp x 2 \<le> Round dp y 2)
     \<and> Round dp 0 2 = 0"

section \<open>State registry\<close>

record State =
  Code :: string
  GSTCode :: string
  Name :: string

definition gstStates :: "State list" where
  "gstStates =
    [\<lparr>Code = ''JK'', GSTCode = ''01'', Name = ''Jammu and Kashmir''\<rparr>,
     \<lparr>Code = ''HP'', GSTCode = ''02'', Name = ''Himachal Pradesh''\<rparr>,
     \<lparr>Code = ''PB'', GSTCode = ''03'', Name = ''Punjab''\<rparr>,
     \<lparr>Code = ''CH'', GSTCode = ''04'', Name = ''Chandigarh''\<rparr>,
     \<lparr>Code = ''UK'', GSTCode = ''05'', Name = ''Uttarakhand''\<rparr>,
     \<lparr>Code = ''HR'', GSTCode = ''06'', Name = ''Haryana''\<rparr>,
     \<lparr>Code = ''DL'', GSTCode = ''07'', Name = ''Delhi''\<rparr>,
     \<lparr>Code = ''RJ'', GSTCode = ''08'', Name = ''Rajasthan''\<rparr>,
     \<lparr>Code = ''UP'', GSTCode = ''09'', Name = ''Uttar Pradesh''\<rparr>,
     \<lparr>Code = ''BR'', GSTCode = ''10'', Name = ''Bihar''\<rparr>,
     \<lparr>Code = ''SK'', GSTCode = ''11'', Name = ''Sikkim''\<rparr>,
     \<lparr>Code = ''AR'', GSTCode = ''12'', Name = ''Arunachal Pradesh''\<rparr>,
     \<lparr>Code = ''NL'', GSTCode = ''13'', Name = ''Nagaland''\<rparr>,
     \<lparr>Code = ''MN'', GSTCode = ''14'', Name = ''Manipur''\<rparr>,
     \<lparr>Code = ''MZ'', GSTCode = ''15'', Name = ''Mizoram''\<rparr>,
     \<lparr>Code = ''TR'', GSTCode = ''16'', Name = ''Tripura''\<rparr>,
     \<lparr>Code = ''ML'', GSTCode = ''17'', Name = ''Meghalaya''\<rparr>,
     \<lparr>Code = ''AS'', GSTCode = ''18'', Name = ''Assam''\<rparr>,
     \<lparr>Code = ''WB'', GSTCode = ''19'', Name = ''West Bengal''\<rparr>,
     \<lparr>Code = ''JH'', GSTCode = ''20'', Name = ''Jharkhand''\<rparr>,
     \<lparr>Code = ''OD'', GSTCode = ''21'', Name = ''Odisha''\<rparr>,
     \<lparr>Code = ''CG'', GSTCode = ''22'', Name = ''Chhattisgarh''\<rparr>,
     \<lparr>Code = ''MP'', GSTCode = ''23'', Name = ''Madhya Pradesh''\<rparr>,
     \<lparr>Code = ''GJ'', GSTCode = ''24'', Name = ''Gujarat''\<rparr>,
     \<lparr>Code = ''DD'', GSTCode = ''25'', Name = ''Daman and Diu''\<rparr>,
     \<lparr>Code = ''DN'', GSTCode = ''26'', Name = ''Dadra and Nagar Haveli and Daman and Diu''\<rparr>,
     \<lparr>Code = ''MH'', GSTCode = ''27'', Name = ''Maharashtra''\<rparr>,
     \<lparr>Code = ''KA'', GSTCode = ''29'', Name = ''Karnataka''\<rparr>,
     \<lparr>Code = ''GA'', GSTCode = ''30'', Name = ''Goa''\<rparr>,
     \<lparr>Code = ''LD'', GSTCode = ''31'', Name = ''Lakshadweep''\<rparr>,
     \<lparr>Code = ''KL'', GSTCode = ''32'', Name = ''Kerala''\<rparr>,
     \<lparr>Code = ''TN'', GSTCode = ''33'', Name = ''Tamil Nadu''\<rparr>,
     \<lparr>Code = ''PY'', GSTCode = ''34'', Name = ''Puducherry''\<rparr>,
     \<lparr>Code = ''AN'', GSTCode = ''35'', Name = ''Andaman and Nicobar Islands''\<rparr>,
     \<lparr>Code = ''TS'', GSTCode = ''36'', Name = ''Telangana''\<rparr>,
     \<lparr>Code = ''AP'', GSTCode = ''37'', Name = ''Andhra Pradesh''\<rparr>,
     \<lparr>Code = ''LA'', GSTCode = ''38'', Name = ''Ladakh''\<rparr>,
     \<lparr>Code = ''OT'', GSTCode = ''97'', Name = ''Other Territory''\<rparr>]"

definition legacyGSTCodes :: "(string \<times> string) list" where
  "legacyGSTCodes = [(''28'', ''AP'')]"

definition normaliseKey :: "string \<Rightarrow> string" where
  "normaliseKey s = ToUpper (RemoveAll CHR '' '' (TrimSpace s))"

text \<open>The lookup tables \<open>init\<close> builds: later entries of the list overwrite earlier ones.\<close>

definition byCode :: "string \<Rightarrow> State option" where
  "byCode = fold (\<lambda>s m. m(Code s \<mapsto> s)) gstStates Map.empty"

definition byGSTCode :: "string \<Rightarrow> State option" where
  "byGSTCode =
     fold (\<lambda>(legacy, code) m. case byCode code of None \<Rightarrow> m | Some s \<Rightarrow> m(legacy \<mapsto> s)) legacyGSTCodes
       (fold (\<lambda>s m. m(GSTCode s \<mapsto> s)) gstStates Map.empty)"

definition byName :: "string \<Rightarrow> State option" where
  "byName = fold (\<lambda>s m. m(normaliseKey (Name s) \<mapsto> s)) gstStates Map.empty"

definition NormaliseState :: "string \<Rightarrow> string option" where
  "NormaliseState input =
     (let key = normaliseKey input in
      if key = [] then None
      else case byCode key of Some s \<Rightarrow> Some (Code s)
      | None \<Rightarrow> (case byGSTCode key of Some s \<Rightarrow> Some (Code s)
        | None \<Rightarrow> (case byName key of Some s \<Rightarrow> Some (Code s) | None \<Rightarrow> None)))"

definition GSTCodeFor :: "string \<Rightarrow> string option" where
  "GSTCodeFor stateCode = map_option GSTCode (byCode (ToUpper (TrimSpace stateCode)))"

definition StateName :: "string \<Rightarrow> string option" where
  "StateName stateCode = map_option Name (byCode (ToUpper (TrimSpace stateCode)))"

definition States :: "State list" where "States = gstStates"

section \<open>Invoices\<close>

record 'd GstRate =
  rate_ID :: int
  CgstRate :: 'd
  SgstRate :: 'd
  IgstRate :: 'd

record 'd Invoice =
  inv_SubscriberID :: int
  BaseAmount :: 'd
  CgstAmount :: 'd
  SgstAmount :: 'd
  IgstAmount :: 'd
  TotalAmount :: 'd
  GstRateID :: int
  GbIncluded :: int
  GbUsed :: 'd

definition DefaultHomeState :: string where "DefaultHomeState = ''TN''"

definition percent_of :: "'d::linordered_idom decimal_pkg \<Rightarrow> 'd \<Rightarrow> 'd \<Rightarrow> 'd" where
  "percent_of dp base rate = Round dp (Div dp (base * rate) 100) 2"

definition CalculateGstInvoiceFrom ::
  "'d::linordered_idom decimal_pkg \<Rightarrow> 'd \<Rightarrow> string \<Rightarrow> string \<Rightarrow> 'd GstRate \<Rightarrow> 'd Invoice" where
  "CalculateGstInvoiceFrom dp baseAmount subscriberState homeState rate =
     (let intrastate = (case (NormaliseState subscriberState, NormaliseState homeState) of
                          (Some subCode, Some homeCode) \<Rightarrow> subCode = homeCode | _ \<Rightarrow> False);
          cgst = (if intrastate then percent_of dp baseAmount (CgstRate rate) else 0);
          sgst = (if intrastate then percent_of dp baseAmount (SgstRate rate) else 0);
          igst = (if intrastate then 0 else percent_of dp baseAmount (IgstRate rate))
      in \<lparr>inv_SubscriberID = 0, BaseAmount = baseAmount, CgstAmount = cgst, SgstAmount = sgst,
          IgstAmount = igst, TotalAmount = baseAmount + cgst + sgst + igst, GstRateID = rate_ID rate,
          GbIncluded = 0, GbUsed = 0\<rparr>)"

definition CalculateGstInvoice ::
  "'d::linordered_idom decimal_pkg \<Rightarrow> 'd \<Rightarrow> string \<Rightarrow> 'd GstRate \<Rightarrow> 'd Invoice" where
  "CalculateGstInvoice dp baseAmount subscriberState rate =
     CalculateGstInvoiceFrom dp baseAmount subscriberState DefaultHomeState rate"

section \<open>The registry is consistent\<close>

lemma fold_upd_in:
  "fold (\<lambda>s m. m(k s \<mapsto> s)) xs m0 key = Some s \<Longrightarrow> s \<in> set xs \<or> m0 key = Some s"
  by (induction xs arbitrary: m0) (fastforce split: if_splits)+

lemma byCode_in: "byCode key = Some s \<Longrightarrow> s \<in> set gstStates"
  using fold_upd_in unfolding byCode_def by fastforce

lemma byName_in: "byName key = Some s \<Longrightarrow> s \<in> set gstStates"
  using fold_upd_in unfolding byName_def by fastforce

lemma byGSTCode_in:
  assumes "byGSTCode key = Some s"
  shows "s \<in> set gstStates"
proof -
  from assms have "(fold (\<lambda>s m. m(GSTCode s \<mapsto> s)) gstStates Map.empty) key = Some s
      \<or> (\<exists>code. byCode code = Some s)"
    unfolding byGSTCode_def legacyGSTCodes_def by (auto split: option.splits if_splits)
  then show ?thesis using fold_upd_in [of GSTCode gstStates Map.empty key s] byCode_in by auto
qed

lemma fold_upd_notin:
  "key \<notin> k ` set xs \<Longrightarrow> fold (\<lambda>s m. m(k s \<mapsto> s)) xs m0 key = m0 key"
  by (induction xs arbitrary: m0) auto

lemma fold_upd_lookup:
  "distinct (map k xs) \<Longrightarrow> s \<in> set xs \<Longrightarrow> fold (\<lambda>s m. m(k s \<mapsto> s)) xs m0 (k s) = Some s"
proof (induction xs arbitrary: m0)
  case (Cons x xs)
  show ?case
  proof (cases "s = x")
    case True
    with Cons.prems have "k s \<notin> k ` set xs" by simp
    from fold_upd_notin [OF this, of "m0(k x \<mapsto> x)"] True show ?thesis
      by (simp add: fun_upd_same del: fun_upd_apply)
  qed (use Cons in simp)
qed simp

lemma Codes_distinct: "distinct (map Code gstStates)"
  by (simp add: gstStates_def)

lemma GSTCodes_distinct: "distinct (map GSTCode gstStates)"
  by (simp add: gstStates_def)

lemma Name_keys_distinct: "distinct (map (\<lambda>s. normaliseKey (Name s)) gstStates)"
  by code_simp

text \<open>Codes are two letters, filing codes two digits, and no full name is that short.\<close>

lemma registry_shape:
  "list_all (\<lambda>s. normaliseKey (Code s) = Code s \<and> length (Code s) = 2 \<and> \<not> is_digit (hd (Code s))
     \<and> normaliseKey (GSTCode s) = GSTCode s \<and> length (GSTCode s) = 2 \<and> is_digit (hd (GSTCode s))
     \<and> ToUpper (TrimSpace (Code s)) = Code s
     \<and> GSTCode s \<noteq> ''28'' \<and> 2 < length (normaliseKey (Name s))) gstStates"
  by code_simp

lemmas registry_shapeD = registry_shape [unfolded list_all_iff, rule_format]

lemma byCode_Code: "s \<in> set gstStates \<Longrightarrow> byCode (Code s) = Some s"
  unfolding byCode_def by (rule fold_upd_lookup [OF Codes_distinct])

lemma byName_Name: "s \<in> set gstStates \<Longrightarrow> byName (normaliseKey (Name s)) = Some s"
  unfolding byName_def by (rule fold_upd_lookup [OF Name_keys_distinct])

lemma byCode_None: "(\<And>s. s \<in> set gstStates \<Longrightarrow> key \<noteq> Code s) \<Longrightarrow> byCode key = None"
  unfolding byCode_def using fold_upd_notin [of key Code gstStates] by fastforce

lemma byGSTCode_eq:
  "byGSTCode key = (if key = ''28'' then byCode ''AP''
                    else fold (\<lambda>s m. m(GSTCode s \<mapsto> s)) gstStates Map.empty key)"
proof -
  obtain s where "byCode ''AP'' = Some s"
    using byCode_Code [of "\<lparr>Code = ''AP'', GSTCode = ''37'', Name = ''Andhra Pradesh''\<rparr>"]
    by (auto simp: gstStates_def)
  then show ?thesis by (simp add: byGSTCode_def legacyGSTCodes_def)
qed

lemma byGSTCode_GSTCode: "s \<in> set gstStates \<Longrightarrow> byGSTCode (GSTCode s) = Some s"
  using fold_upd_lookup [OF GSTCodes_distinct] registry_shapeD [of s] by (simp add: byGSTCode_eq)

lemma byGSTCode_None:
  "(\<And>s. s \<in> set gstStates \<Longrightarrow> key \<noteq> GSTCode s) \<Longrightarrow> key \<noteq> ''28'' \<Longrightarrow> byGSTCode key = None"
  unfolding byGSTCode_eq using fold_upd_notin [of key GSTCode gstStates] by fastforce

lemma NormaliseState_registered:
  "NormaliseState x = Some c \<Longrightarrow> \<exists>s \<in> set gstStates. c = Code s"
  by (auto simp: NormaliseState_def Let_def split: if_splits option.splits
      dest: byCode_in byGSTCode_in byName_in)

lemma NormaliseState_Code:
  "s \<in> set gstStates \<Longrightarrow> NormaliseState (Code s) = Some (Code s)"
  using registry_shapeD [of s] byCode_Code [of s] by (auto simp: NormaliseState_def Let_def)

lemma NormaliseState_GSTCode:
  assumes "s \<in> set gstStates"
  shows "NormaliseState (GSTCode s) = Some (Code s)"
proof -
  have "byCode (GSTCode s) = None"
    using registry_shapeD [OF assms] registry_shapeD by (intro byCode_None) metis
  then show ?thesis
    using registry_shapeD [OF assms] byGSTCode_GSTCode [OF assms] by (auto simp: NormaliseState_def Let_def)
qed

lemma NormaliseState_Name:
  assumes "s \<in> set gstStates"
  shows "NormaliseState (Name s) = Some (Code s)"
proof -
  let ?k = "normaliseKey (Name s)"
  have long: "2 < length ?k" using registry_shapeD [OF assms] by simp
  have "byCode ?k = None"
    using long registry_shapeD by (intro byCode_None) (metis less_irrefl)
  moreover have "byGSTCode ?k = None"
    using long registry_shapeD by (intro byGSTCode_None) (metis less_irrefl, auto)
  moreover have "?k \<noteq> []" using long by auto
  ultimately show ?thesis
    using byName_Name [OF assms] by (simp add: NormaliseState_def Let_def)
qed

section \<open>Properties\<close>

text \<open>
  State resolution is canonical: each of the 38 registered states is resolved from its
  two-letter code, its filing code and its full name to its code, a code is turned back into the
  filing code and the name it was registered with, and whatever \<open>NormaliseState\<close> returns is a
  registered code that resolves to itself.
\<close>

theorem NormaliseState_canonical:
  "(\<forall>s \<in> set gstStates. NormaliseState (Code s) = Some (Code s)
      \<and> NormaliseState (GSTCode s) = Some (Code s) \<and> NormaliseState (Name s) = Some (Code s)
      \<and> GSTCodeFor (Code s) = Some (GSTCode s) \<and> StateName (Code s) = Some (Name s))
   \<and> (\<forall>x c. NormaliseState x = Some c
        \<longrightarrow> c \<in> set (map Code gstStates) \<and> NormaliseState c = Some c)"
proof -
  have "GSTCodeFor (Code s) = Some (GSTCode s) \<and> StateName (Code s) = Some (Name s)"
    if "s \<in> set gstStates" for s
    using registry_shapeD [OF that] byCode_Code [OF that] by (simp add: GSTCodeFor_def StateName_def)
  then show ?thesis
    using NormaliseState_Code NormaliseState_GSTCode NormaliseState_Name NormaliseState_registered
    by fastforce
qed

theorem NormaliseState_canonical_witness:
  "NormaliseState ''33'' = Some ''TN'' \<and> NormaliseState ''Tamil Nadu'' = Some ''TN''
   \<and> NormaliseState ''TN'' = Some ''TN''"
proof -
  have "\<lparr>Code = ''TN'', GSTCode = ''33'', Name = ''Tamil Nadu''\<rparr> \<in> set gstStates"
    by (simp add: gstStates_def)
  with NormaliseState_canonical show ?thesis by fastforce
qed

text \<open>Two spellings that differ only in case and in spaces have the same key.\<close>

definition spelling :: "string \<Rightarrow> string" where
  "spelling s = ToUpper (filter (\<lambda>c. \<not> is_space c) s)"

lemma normaliseKey_spelling:
  assumes "\<forall>c \<in> set s. is_space c \<longrightarrow> c = CHR '' ''"
  shows "normaliseKey s = spelling s"
proof -
  have space: "is_space CHR '' ''" by (simp add: is_space_def)
  have "set (TrimSpace s) \<subseteq> set s"
    unfolding TrimSpace_def by (auto dest!: set_dropWhileD)
  with assms have "filter (\<lambda>x. x \<noteq> CHR '' '') (TrimSpace s) = filter (\<lambda>c. \<not> is_space c) (TrimSpace s)"
    using space by (intro filter_cong) auto
  also have "\<dots> = filter (\<lambda>c. \<not> is_space c) s" by (rule filter_TrimSpace) simp
  finally show ?thesis by (simp add: normaliseKey_def RemoveAll_def spelling_def)
qed

text \<open>
  How a state is written cannot change the tax: two spellings of a subscriber's state (and of
  the supplier's) that agree up to case and spaces give the same invoice.
\<close>

theorem invoice_spelling_irrelevant:
  assumes "\<forall>c \<in> set (s @ s' @ h @ h'). is_space c \<longrightarrow> c = CHR '' ''"
    and "spelling s = spelling s'" and "spelling h = spelling h'"
  shows "CalculateGstInvoiceFrom dp base s h rate = CalculateGstInvoiceFrom dp base s' h' rate"
proof -
  have "normaliseKey s = normaliseKey s'" and "normaliseKey h = normaliseKey h'"
    using assms by (simp_all add: normaliseKey_spelling)
  then show ?thesis by (simp add: CalculateGstInvoiceFrom_def NormaliseState_def)
qed

text \<open>Both states are recognised and are the same.\<close>

definition same_state :: "string \<Rightarrow> string \<Rightarrow> bool" where
  "same_state s h = (NormaliseState s = NormaliseState h \<and> NormaliseState s \<noteq> None)"

lemma same_state_case:
  "(case (NormaliseState s, NormaliseState h) of (Some c, Some d) \<Rightarrow> c = d | _ \<Rightarrow> False) = same_state s h"
  by (auto simp: same_state_def split: option.splits)

lemmas invoice_simps = CalculateGstInvoiceFrom_def [unfolded same_state_case Let_def]

lemma percent_near:
  assumes "decimal_pkg_ok dp"
  shows "2 * \<bar>100 * percent_of dp b r - b * r\<bar> \<le> 1"
proof -
  let ?x = "Div dp (b * r) 100"
  have "100 * ?x = b * r" and near: "200 * \<bar>Round dp ?x 2 - ?x\<bar> \<le> 1"
    using assms by (auto simp: decimal_pkg_ok_def)
  then have "100 * percent_of dp b r - b * r = 100 * (Round dp ?x 2 - ?x)"
    by (simp add: percent_of_def algebra_simps)
  then have "\<bar>100 * percent_of dp b r - b * r\<bar> = 100 * \<bar>Round dp ?x 2 - ?x\<bar>"
    by (simp only: abs_mult abs_numeral)
  with near show ?thesis by simp
qed

lemma percent_nonneg:
  assumes "decimal_pkg_ok dp" and "0 \<le> b" and "0 \<le> r"
  shows "0 \<le> percent_of dp b r"
proof -
  let ?x = "Div dp (b * r) 100"
  have "100 * ?x = b * r" using assms(1) by (simp add: decimal_pkg_ok_def)
  then have "0 \<le> 100 * ?x" using assms(2,3) by simp
  then have "0 \<le> ?x" by (simp add: zero_le_mult_iff)
  moreover have "\<forall>x y. x \<le> y \<longrightarrow> Round dp x 2 \<le> Round dp y 2" and "Round dp 0 2 = 0"
    using assms(1) by (auto simp: decimal_pkg_ok_def)
  ultimately show ?thesis by (metis percent_of_def)
qed


text \<open>
  Charging the wrong head moves the money by at most a rounding: when the interstate rate is the
  sum of the two intrastate rates, the totals for a home-state and an out-of-state subscriber
  differ by at most one and a half paise.
\<close>

theorem intra_inter_totals_close:
  assumes "decimal_pkg_ok dp" and "CgstRate rate + SgstRate rate = IgstRate rate"
    and "same_state s h" and "\<not> same_state s' h"
  shows "200 * \<bar>TotalAmount (CalculateGstInvoiceFrom dp base s h rate)
              - TotalAmount (CalculateGstInvoiceFrom dp base s' h rate)\<bar> \<le> 3"
proof -
  let ?p = "percent_of dp base"
  have near: "2 * \<bar>100 * ?p r - base * r\<bar> \<le> 1" for r
    using percent_near [OF assms(1)] .
  have "base * IgstRate rate = base * CgstRate rate + base * SgstRate rate"
    using assms(2) by (simp add: distrib_left [symmetric])
  with near [of "CgstRate rate"] near [of "SgstRate rate"] near [of "IgstRate rate"]
  have "200 * \<bar>?p (CgstRate rate) + ?p (SgstRate rate) - ?p (IgstRate rate)\<bar> \<le> 3"
    by (auto simp: abs_le_iff abs_if split: if_splits)
  with assms(3,4) show ?thesis unfolding invoice_simps by (simp add: algebra_simps)
qed

section \<open>Decimals instantiated\<close>

text \<open>
  The package's documented functions on rationals, for the concrete instances: exact division and
  rounding half away from zero.
\<close>

definition half_up :: "rat \<Rightarrow> nat \<Rightarrow> rat" where
  "half_up x n = of_int \<lfloor>x * 10 ^ n + 1 / 2\<rfloor> / 10 ^ n"

definition round_away :: "rat \<Rightarrow> nat \<Rightarrow> rat" where
  "round_away x n = (if 0 \<le> x then half_up x n else - half_up (- x) n)"

definition rat_decimals :: "rat decimal_pkg" where
  "rat_decimals = \<lparr>Div = (/), Round = round_away\<rparr>"

lemma half_up_near: "\<bar>half_up x 2 - x\<bar> \<le> 1 / 200"
proof -
  have "\<bar>of_int \<lfloor>x * 100 + 1 / 2\<rfloor> - x * 100\<bar> \<le> (1 / 2 :: rat)" by linarith
  then show ?thesis by (simp add: half_up_def abs_le_iff field_simps)
qed

lemma half_up_mono: "x \<le> y \<Longrightarrow> half_up x n \<le> half_up y n"
  by (simp add: half_up_def divide_right_mono floor_mono mult_right_mono)

lemma half_up_nonneg: "0 \<le> x \<Longrightarrow> 0 \<le> half_up x n"
  by (simp add: half_up_def)

lemma round_away_near: "200 * \<bar>round_away x 2 - x\<bar> \<le> 1"
  using half_up_near [of x] half_up_near [of "- x"] by (auto simp: round_away_def abs_if split: if_splits)

lemma round_away_mono: "x \<le> y \<Longrightarrow> round_away x 2 \<le> round_away y 2"
  using half_up_mono [of x y 2] half_up_mono [of "- y" "- x" 2] half_up_nonneg [of y 2]
    half_up_nonneg [of "- x" 2]
  by (auto simp: round_away_def)

lemma half_up_0: "half_up 0 2 = 0"
  by (simp add: half_up_def floor_eq_iff)

lemma rat_decimals_ok: "decimal_pkg_ok rat_decimals"
  unfolding decimal_pkg_ok_def rat_decimals_def
  using round_away_near round_away_mono half_up_0 by (simp add: round_away_def)

definition gst18 :: "rat GstRate" where
  "gst18 = \<lparr>rate_ID = 1, CgstRate = 9, SgstRate = 9, IgstRate = 18\<rparr>"

lemma demo_states: "same_state ''TN'' ''TN'' \<and> \<not> same_state ''KA'' ''TN''"
proof -
  have "NormaliseState ''TN'' = Some ''TN''" and "NormaliseState ''KA'' = Some ''KA''"
    using NormaliseState_Code [of "\<lparr>Code = ''TN'', GSTCode = ''33'', Name = ''Tamil Nadu''\<rparr>"]
      NormaliseState_Code [of "\<lparr>Code = ''KA'', GSTCode = ''29'', Name = ''Karnataka''\<rparr>"]
    by (simp_all add: gstStates_def)
  then show ?thesis by (simp add: same_state_def)
qed

theorem invoice_spelling_irrelevant_witness:
  "CalculateGstInvoiceFrom rat_decimals 500 ''tamil nadu'' ''TN'' gst18
   = CalculateGstInvoiceFrom rat_decimals 500 ''TamilNadu '' ''tn'' gst18"
  by (rule invoice_spelling_irrelevant) (code_simp, code_simp, code_simp)

lemma demo_percents:
  "percent_of rat_decimals 500 9 = 45" "percent_of rat_decimals (5 / 100) 9 = 0"
  "percent_of rat_decimals (5 / 100) 18 = 1 / 100"
  by code_simp+


theorem intra_inter_totals_close_witness:
  "200 * \<bar>TotalAmount (CalculateGstInvoiceFrom rat_decimals (5 / 100) ''TN'' ''TN'' gst18)
        - TotalAmount (CalculateGstInvoiceFrom rat_decimals (5 / 100) ''KA'' ''TN'' gst18)\<bar> \<le> 3
   \<and> TotalAmount (CalculateGstInvoiceFrom rat_decimals (5 / 100) ''TN'' ''TN'' gst18)
     \<noteq> TotalAmount (CalculateGstInvoiceFrom rat_decimals (5 / 100) ''KA'' ''TN'' gst18)"
proof
  show "200 * \<bar>TotalAmount (CalculateGstInvoiceFrom rat_decimals (5 / 100) ''TN'' ''TN'' gst18)
        - TotalAmount (CalculateGstInvoiceFrom rat_decimals (5 / 100) ''KA'' ''TN'' gst18)\<bar> \<le> 3"
    using demo_states by (intro intra_inter_totals_close [OF rat_decimals_ok]) (simp_all add: gst18_def)
  show "TotalAmount (CalculateGstInvoiceFrom rat_decimals (5 / 100) ''TN'' ''TN'' gst18)
     \<noteq> TotalAmount (CalculateGstInvoiceFrom rat_decimals (5 / 100) ''KA'' ''TN'' gst18)"
    using demo_states demo_percents(2,3) by (simp add: invoice_simps gst18_def)
qed

end
