(* ===== verification/Schema.thy ===== *)
theory Schema
  imports Gst
begin

text \<open>
  The part of the PostgreSQL schema (\<open>src/migrations\<close>) the billing components read and write, and the
  transaction helper of \<open>src/internal/db/db.go\<close>.

  A table is a list of rows; \<open>'d\<close> is the decimal type (see \<open>Gst\<close>). PostgreSQL itself is a service, so
  its two behaviours the code depends on are fields of the record \<open>'d pg\<close>: \<open>numeric p x\<close>, the value a
  \<open>NUMERIC(p,2)\<close> column stores for \<open>x\<close> (\<open>None\<close> when it overflows the column), and \<open>pg_faults\<close>, the
  statements that fail in the run under consideration for a reason outside the model (lost
  connection, foreign key to a table that is not modelled). The hypothesis \<open>numeric_ok\<close> names what is
  documented about \<open>NUMERIC\<close>.
\<close>

section \<open>PostgreSQL\<close>

record 'd pg =
  numeric :: "nat \<Rightarrow> 'd \<Rightarrow> 'd option"
  pg_faults :: faults

text \<open>
  Documented: storing a stored value changes nothing, a wider column of the same scale stores what a
  narrower one does, and the sum and the difference of two stored values need no more decimal
  places than they have, so they are stored exactly if they fit; a value between zero and one that
  fits also fits.
\<close>

definition numeric_ok :: "'d::linordered_idom pg \<Rightarrow> bool" where
  "numeric_ok pg \<longleftrightarrow>
     (\<forall>p x y. numeric pg p x = Some y \<longrightarrow> numeric pg p y = Some y)
     \<and> (\<forall>x. numeric pg 12 x = Some x \<longrightarrow> numeric pg 14 x = Some x)
     \<and> (\<forall>p a b c. numeric pg p a = Some a \<longrightarrow> numeric pg p b = Some b
          \<longrightarrow> (numeric pg p (a + b) = Some c \<longrightarrow> c = a + b) \<and> (numeric pg p (a - b) = Some c \<longrightarrow> c = a - b))
     \<and> (\<forall>p a b c. numeric pg p a = Some c \<longrightarrow> 0 \<le> b \<longrightarrow> b \<le> a \<longrightarrow> numeric pg p b \<noteq> None)
     \<and> (\<forall>p. numeric pg p 0 = Some 0)"

section \<open>Errors\<close>

datatype err =
    ErrNotFound
  | ErrInsufficientBalance
  | ErrCheck string
  | ErrUnique string
  | Err string

definition bindE :: "err + 'a \<Rightarrow> ('a \<Rightarrow> err + 'b) \<Rightarrow> err + 'b" where
  "bindE m f = (case m of Inl e \<Rightarrow> Inl e | Inr x \<Rightarrow> f x)"

lemma bindE_simps [simp]: "bindE (Inl e) f = Inl e" "bindE (Inr x) f = f x"
  by (simp_all add: bindE_def)

lemma bindE_Inr [simp]: "bindE m f = Inr y \<longleftrightarrow> (\<exists>x. m = Inr x \<and> f x = Inr y)"
  by (cases m) auto

lemma bindE_cong [fundef_cong]:
  "m = m' \<Longrightarrow> (\<And>x. m' = Inr x \<Longrightarrow> f x = f' x) \<Longrightarrow> bindE m f = bindE m' f'"
  by (cases m') (auto simp: bindE_def)

definition guardE :: "bool \<Rightarrow> err \<Rightarrow> err + unit" where
  "guardE b e = (if b then Inr () else Inl e)"

lemma guardE_Inr [simp]: "guardE b e = Inr u \<longleftrightarrow> b"
  by (cases u) (simp add: guardE_def)

text \<open>A labelled statement runs unless it is one of the failing ones.\<close>

definition stmt :: "'d pg \<Rightarrow> string \<Rightarrow> err + unit" where
  "stmt pg l = (case pg_faults pg l of None \<Rightarrow> Inr () | Some e \<Rightarrow> Inl (Err e))"

lemma stmt_Inr [simp]: "stmt pg l = Inr u \<longleftrightarrow> pg_faults pg l = None"
  by (cases u) (simp add: stmt_def split: option.split)

definition numericE :: "'d pg \<Rightarrow> nat \<Rightarrow> 'd \<Rightarrow> err + 'd" where
  "numericE pg p x = (case numeric pg p x of None \<Rightarrow> Inl (Err ''numeric field overflow'') | Some y \<Rightarrow> Inr y)"

lemma numericE_Inr [simp]: "numericE pg p x = Inr y \<longleftrightarrow> numeric pg p x = Some y"
  by (simp add: numericE_def split: option.split)

section \<open>Rows\<close>

datatype sub_status = Active | GracePeriod | SoftSuspended | HardSuspended | Terminated | PendingPayment

datatype DunningState =
    DunningActive | DunningRemind7d | DunningRemind3d | DunningRemind1d
  | DunningGracePeriod | DunningSoftSuspended | DunningHardSuspended

record 'd subscriber =
  sub_id :: int
  sub_username :: string
  sub_caf :: string
  sub_mobile :: string
  sub_password_hash :: string
  sub_nt_hash :: "8 word list"
  sub_plan_id :: int
  sub_franchise_id :: "int option"
  sub_status :: sub_status
  sub_dunning :: DunningState
  sub_balance :: 'd
  sub_state :: string
  sub_expiry :: "time option"
  sub_fup_active :: bool
  sub_override_rate :: string
  sub_override_expires :: "time option"

record 'd plan =
  plan_id :: int
  plan_name :: string
  plan_price :: 'd
  plan_validity_days :: int
  plan_volume_gb :: int
  plan_rate_limit :: string
  plan_fup_throttle :: string
  plan_fup_threshold :: int

record 'd wallet_row =
  wl_id :: int
  wl_subscriber :: int
  wl_franchise :: "int option"
  wl_account :: string
  wl_entry_type :: string
  wl_amount :: 'd
  wl_balance_after :: 'd
  wl_token :: "string option"
  wl_description :: string
  wl_adjusted_by :: string

record gl_entry =
  ge_id :: int
  ge_description :: string
  ge_source_type :: string
  ge_source_id :: int
  ge_created_by :: string

record 'd gl_line =
  gl_entry_id :: int
  gl_account :: int
  gl_debit :: 'd
  gl_credit :: 'd

record 'd gst_rate_row =
  gr_id :: int
  gr_cgst :: 'd
  gr_sgst :: 'd
  gr_igst :: 'd
  gr_effective_from :: time

record 'd db =
  subscribers :: "'d subscriber list"
  plans :: "'d plan list"
  wallet_ledgers :: "'d wallet_row list"
  wallet_seq :: int
  gl_entries :: "gl_entry list"
  gl_lines :: "'d gl_line list"
  gl_seq :: int
  chart_of_accounts :: "(string \<times> int) list"
  gst_rates :: "'d gst_rate_row list"
  invoices :: "(int \<times> 'd Invoice) list"
  invoice_seq :: int

section \<open>Constraints\<close>

definition chk_wallet_balance_nonneg :: "'d::linordered_idom subscriber \<Rightarrow> bool" where
  "chk_wallet_balance_nonneg r = (0 \<le> sub_balance r)"

definition chk_authorised_subscriber_is_billable :: "'d subscriber \<Rightarrow> bool" where
  "chk_authorised_subscriber_is_billable r =
     (sub_status r \<in> {PendingPayment, HardSuspended, Terminated} \<or> sub_expiry r \<noteq> None)"

definition subscriber_checks :: "'d::linordered_idom subscriber \<Rightarrow> bool" where
  "subscriber_checks r = (chk_wallet_balance_nonneg r \<and> chk_authorised_subscriber_is_billable r)"

definition chk_gl_line :: "'d::linordered_idom gl_line \<Rightarrow> bool" where
  "chk_gl_line l = (0 \<le> gl_debit l \<and> 0 \<le> gl_credit l \<and> \<not> (0 < gl_debit l \<and> 0 < gl_credit l)
                    \<and> (0 < gl_debit l \<or> 0 < gl_credit l))"

definition chk_gst_logic :: "'d::linordered_idom Invoice \<Rightarrow> bool" where
  "chk_gst_logic i = (0 < CgstAmount i \<and> IgstAmount i = 0 \<or> 0 < IgstAmount i \<and> CgstAmount i = 0
                      \<or> CgstAmount i = 0 \<and> IgstAmount i = 0)"

text \<open>An \<open>UPDATE\<close> of subscribers: it fails as a whole if a row it writes violates a check.\<close>

definition update_subscribers ::
  "('d::linordered_idom subscriber \<Rightarrow> bool) \<Rightarrow> ('d subscriber \<Rightarrow> 'd subscriber) \<Rightarrow> 'd db \<Rightarrow> err + 'd db" where
  "update_subscribers P f db =
     (if \<forall>r \<in> set (subscribers db). P r \<longrightarrow> subscriber_checks (f r)
      then Inr (db\<lparr>subscribers := update_where P f (subscribers db)\<rparr>)
      else Inl (ErrCheck ''subscribers''))"

definition find_subscriber :: "'d db \<Rightarrow> int \<Rightarrow> 'd subscriber option" where
  "find_subscriber db i = find (\<lambda>r. sub_id r = i) (subscribers db)"

section \<open>Transactions\<close>

text \<open>
  The deferred trigger \<open>trg_gl_journal_balanced\<close>: at commit, the lines of every journal entry that
  received one must balance.
\<close>

definition entry_debits :: "'d::linordered_idom gl_line list \<Rightarrow> int \<Rightarrow> 'd" where
  "entry_debits ls e = sum_list (map gl_debit (filter (\<lambda>l. gl_entry_id l = e) ls))"

definition entry_credits :: "'d::linordered_idom gl_line list \<Rightarrow> int \<Rightarrow> 'd" where
  "entry_credits ls e = sum_list (map gl_credit (filter (\<lambda>l. gl_entry_id l = e) ls))"

definition check_gl_journal_balanced :: "'d::linordered_idom db \<Rightarrow> 'd db \<Rightarrow> bool" where
  "check_gl_journal_balanced old new =
     (\<forall>l \<in> set (drop (length (gl_lines old)) (gl_lines new)).
        entry_debits (gl_lines new) (gl_entry_id l) = entry_credits (gl_lines new) (gl_entry_id l))"

text \<open>
  \<open>inTx\<close>: the body sees its own writes; an error, a failed commit or a failed deferred check leaves
  the database as it was at \<open>BEGIN\<close>.
\<close>

definition inTx ::
  "'d::linordered_idom pg \<Rightarrow> ('d db \<Rightarrow> err + ('d db \<times> 'a)) \<Rightarrow> 'd db \<Rightarrow> 'd db \<times> (err + 'a)" where
  "inTx pg body db =
     (case bindE (stmt pg ''begin'') (\<lambda>_. body db) of
        Inl e \<Rightarrow> (db, Inl e)
      | Inr (db', x) \<Rightarrow>
          if pg_faults pg ''commit'' \<noteq> None then (db, Inl (Err ''commit''))
          else if \<not> check_gl_journal_balanced db db' then (db, Inl (ErrCheck ''gl_journal_balanced''))
          else (db', Inr x))"

lemma inTx_Inl: "inTx pg body db = (db', Inl e) \<Longrightarrow> db' = db"
  by (auto simp: inTx_def split: sum.splits prod.splits if_splits)

lemma inTx_Inr:
  "inTx pg body db = (db', Inr x) \<longleftrightarrow>
     pg_faults pg ''begin'' = None \<and> pg_faults pg ''commit'' = None
     \<and> body db = Inr (db', x) \<and> check_gl_journal_balanced db db'"
  by (auto simp: inTx_def bindE_def stmt_def split: sum.splits prod.splits if_splits option.splits)

lemma find_subscriber_update:
  assumes "\<And>r. sub_id (f r) = sub_id r" and "update_subscribers P f db = Inr db'"
  shows "find_subscriber db' i = map_option (\<lambda>r. if P r then f r else r) (find_subscriber db i)"
  using assms by (auto simp: update_subscribers_def find_subscriber_def find_update_where split: if_splits)

section \<open>PostgreSQL instantiated\<close>

text \<open>
  \<open>NUMERIC(p,2)\<close> on rationals, for the concrete instances: the value is rounded to two places and
  refused from \<open>10 ^ (p - 2)\<close> on.
\<close>

definition rat_numeric :: "nat \<Rightarrow> rat \<Rightarrow> rat option" where
  "rat_numeric p x = (let y = round_away x 2 in if \<bar>y\<bar> < 10 ^ (p - 2) then Some y else None)"

definition rat_pg :: "faults \<Rightarrow> rat pg" where
  "rat_pg flt = \<lparr>numeric = rat_numeric, pg_faults = flt\<rparr>"

lemma floor_int_half: "\<lfloor>of_int k + 1 / 2 :: rat\<rfloor> = k"
  by (simp add: floor_eq_iff)

lemma round_away_grid: "round_away (of_int k / 100) 2 = of_int k / 100"
  using floor_int_half [of k] floor_int_half [of "- k"]
  by (simp add: round_away_def half_up_def)

lemma round_away_on_grid: "\<exists>k. round_away x 2 = of_int k / 100"
proof (cases "0 \<le> x")
  case True
  then show ?thesis by (intro exI [of _ "\<lfloor>x * 100 + 1 / 2\<rfloor>"]) (simp add: round_away_def half_up_def)
next
  case False
  then show ?thesis by (intro exI [of _ "- \<lfloor>- x * 100 + 1 / 2\<rfloor>"]) (simp add: round_away_def half_up_def)
qed

lemma rat_numeric_Some:
  "rat_numeric p x = Some y \<longleftrightarrow> y = round_away x 2 \<and> \<bar>y\<bar> < 10 ^ (p - 2)"
  by (auto simp: rat_numeric_def Let_def)

lemma stored_on_grid: "rat_numeric p x = Some x \<Longrightarrow> \<exists>k. x = of_int k / 100"
  using round_away_on_grid [of x] by (auto simp: rat_numeric_Some)

lemma round_away_sum:
  assumes "rat_numeric p a = Some a" and "rat_numeric p b = Some b"
  shows "round_away (a + b) 2 = a + b \<and> round_away (a - b) 2 = a - b"
proof -
  obtain k l where "a = of_int k / 100" and "b = of_int l / 100"
    using stored_on_grid assms by blast
  then have "a + b = of_int (k + l) / 100" and "a - b = of_int (k - l) / 100"
    by (simp_all add: add_divide_distrib diff_divide_distrib)
  then show ?thesis using round_away_grid by metis
qed

lemma rat_numeric_smaller:
  assumes "rat_numeric p a = Some c" and "0 \<le> b" and "b \<le> a"
  shows "rat_numeric p b \<noteq> None"
proof -
  have "0 \<le> round_away b 2" and "round_away b 2 \<le> c"
    using round_away_mono [OF assms(2)] round_away_mono [OF assms(3)] assms(1) half_up_0
    by (simp_all add: rat_numeric_Some round_away_def)
  moreover have "\<bar>c\<bar> < 10 ^ (p - 2)" using assms(1) by (auto simp: rat_numeric_Some)
  ultimately show ?thesis by (simp add: rat_numeric_def Let_def)
qed

lemma rat_pg_ok: "numeric_ok (rat_pg flt)"
proof -
  have "round_away (round_away x 2) 2 = round_away x 2" for x
    using round_away_on_grid [of x] round_away_grid by metis
  then have "rat_numeric p y = Some y" if "rat_numeric p x = Some y" for p x y
    using that by (auto simp: rat_numeric_Some)
  moreover have "rat_numeric 14 x = Some x" if "rat_numeric 12 x = Some x" for x
    using that by (simp add: rat_numeric_Some)
  moreover have "rat_numeric p 0 = Some 0" for p
    using half_up_0 by (simp add: rat_numeric_Some round_away_def)
  moreover have "(rat_numeric p (a + b) = Some c \<longrightarrow> c = a + b) \<and> (rat_numeric p (a - b) = Some c \<longrightarrow> c = a - b)"
    if "rat_numeric p a = Some a" and "rat_numeric p b = Some b" for p a b c
    using round_away_sum [OF that] by (simp add: rat_numeric_Some)
  ultimately show ?thesis
    unfolding numeric_ok_def rat_pg_def using rat_numeric_smaller by simp
qed

end
