(* ===== verification/Wallet.thy ===== *)
theory Wallet
  imports Schema
begin

text \<open>
  The wallet service (\<open>src/internal/billing/wallet.go\<close>) over its database interface \<open>WalletQuerier\<close>,
  and the store that implements it (\<open>src/internal/db/billing.go\<close>): balance and token look-ups,
  \<open>RecordRecharge\<close> with its two ledger legs, the balance write and the general-ledger entry with the
  tax split.

  The service is written against a record of operations, as the Go code is written against an
  interface; the locale \<open>wallet_store\<close> is the contract of that interface, the service's lemmas are
  proved in it, and the interpretation shows that the store keeps the contract.
\<close>

section \<open>Accounts and postings\<close>

definition AccountSubscriberWallet :: string where "AccountSubscriberWallet = ''subscriber_wallet''"
definition AccountGatewayClearing :: string where "AccountGatewayClearing = ''payment_gateway_clearing''"
definition AccountRevenueClearing :: string where "AccountRevenueClearing = ''revenue_clearing''"
definition AccountAdjustmentClearing :: string where "AccountAdjustmentClearing = ''adjustment_clearing''"

lemmas account_defs = AccountSubscriberWallet_def AccountGatewayClearing_def
  AccountRevenueClearing_def AccountAdjustmentClearing_def

definition GLAccountCode :: "string \<Rightarrow> string" where
  "GLAccountCode account =
     (if account = AccountSubscriberWallet then ''1200''
      else if account = AccountGatewayClearing then ''1000''
      else if account = AccountRevenueClearing then ''4000''
      else if account = AccountAdjustmentClearing then ''5200''
      else [])"

definition GLAccountGSTPayable :: string where "GLAccountGSTPayable = ''2200''"

record 'd Transaction =
  tx_ID :: int
  tx_SubscriberID :: int
  tx_EntryType :: string
  tx_Amount :: 'd
  tx_BalanceAfter :: 'd
  tx_Token :: string
  tx_Description :: string

record 'd WalletEntry =
  we_SubscriberID :: int
  we_FranchiseID :: "int option"
  we_Account :: string
  we_EntryType :: string
  we_Amount :: 'd
  we_BalanceAfter :: 'd
  we_Token :: "string option"
  we_Description :: string
  we_AdjustedBy :: string

record 'd RechargePosting =
  rp_SubscriberID :: int
  rp_Debit :: "'d WalletEntry"
  rp_Credit :: "'d WalletEntry"
  rp_NewBalance :: 'd
  rp_TaxAmount :: 'd

record 'd RechargeRequest =
  rr_SubscriberID :: int
  rr_Amount :: 'd
  rr_Token :: string
  rr_FranchiseID :: "int option"
  rr_Description :: string

record 'd PostRequest =
  pr_SubscriberID :: int
  pr_FranchiseID :: "int option"
  pr_Amount :: 'd
  pr_Direction :: string
  pr_CounterAccount :: string
  pr_Token :: string
  pr_AdjustedBy :: string
  pr_Description :: string
  pr_TaxAmount :: 'd

section \<open>The service\<close>

record ('s, 'd) WalletQuerier =
  q_GetTransactionByToken :: "'s \<Rightarrow> string \<Rightarrow> err + 'd Transaction option"
  q_RecordRecharge :: "'s \<Rightarrow> 'd RechargePosting \<Rightarrow> 's \<times> (err + 'd Transaction)"
  q_GetSubscriberBalance :: "'s \<Rightarrow> int \<Rightarrow> err + 'd"

definition token_ptr :: "string \<Rightarrow> string option" where
  "token_ptr t = (if t = [] then None else Some t)"

definition existing_tx :: "('s, 'd) WalletQuerier \<Rightarrow> 's \<Rightarrow> string \<Rightarrow> 'd Transaction option" where
  "existing_tx q s token =
     (if token = [] then None
      else case q_GetTransactionByToken q s token of Inr (Some t) \<Rightarrow> Some t | _ \<Rightarrow> None)"

definition recharge_posting :: "'d::linordered_idom RechargeRequest \<Rightarrow> 'd \<Rightarrow> 'd RechargePosting" where
  "recharge_posting req newBalance =
     \<lparr>rp_SubscriberID = rr_SubscriberID req,
      rp_Debit = \<lparr>we_SubscriberID = rr_SubscriberID req, we_FranchiseID = rr_FranchiseID req,
                  we_Account = AccountGatewayClearing, we_EntryType = ''debit'',
                  we_Amount = rr_Amount req, we_BalanceAfter = newBalance, we_Token = None,
                  we_Description = ''counter-entry: '' @ rr_Description req, we_AdjustedBy = []\<rparr>,
      rp_Credit = \<lparr>we_SubscriberID = rr_SubscriberID req, we_FranchiseID = rr_FranchiseID req,
                   we_Account = AccountSubscriberWallet, we_EntryType = ''credit'',
                   we_Amount = rr_Amount req, we_BalanceAfter = newBalance,
                   we_Token = token_ptr (rr_Token req),
                   we_Description = rr_Description req, we_AdjustedBy = []\<rparr>,
      rp_NewBalance = newBalance,
      rp_TaxAmount = 0\<rparr>"

definition record_posting ::
  "('s, 'd) WalletQuerier \<Rightarrow> 's \<Rightarrow> 'd RechargePosting \<Rightarrow> 's \<times> (err + 'd Transaction)" where
  "record_posting q s p =
     (case q_RecordRecharge q s p of
        (s', Inl e) \<Rightarrow> (s', Inl e)
      | (s', Inr tx) \<Rightarrow> (s', Inr (tx\<lparr>tx_BalanceAfter := rp_NewBalance p\<rparr>)))"

definition Recharge ::
  "('s, 'd::linordered_idom) WalletQuerier \<Rightarrow> 's \<Rightarrow> 'd RechargeRequest \<Rightarrow> 's \<times> (err + 'd Transaction)" where
  "Recharge q s req =
     (if rr_Amount req \<le> 0 then (s, Inl (Err ''billing: recharge amount must be positive''))
      else case existing_tx q s (rr_Token req) of
        Some t \<Rightarrow> (s, Inr t)
      | None \<Rightarrow>
          (case q_GetSubscriberBalance q s (rr_SubscriberID req) of
             Inl e \<Rightarrow> (s, Inl e)
           | Inr currentBalance \<Rightarrow>
               record_posting q s (recharge_posting req (currentBalance + rr_Amount req))))"

definition counter_entry_type :: "string \<Rightarrow> string" where
  "counter_entry_type direction = (if direction = ''debit'' then ''credit'' else ''debit'')"

definition post_posting :: "'d PostRequest \<Rightarrow> 'd \<Rightarrow> 'd RechargePosting" where
  "post_posting req newBalance =
     \<lparr>rp_SubscriberID = pr_SubscriberID req,
      rp_Debit = \<lparr>we_SubscriberID = pr_SubscriberID req, we_FranchiseID = pr_FranchiseID req,
                  we_Account = pr_CounterAccount req,
                  we_EntryType = counter_entry_type (pr_Direction req),
                  we_Amount = pr_Amount req, we_BalanceAfter = newBalance, we_Token = None,
                  we_Description = ''counter-entry: '' @ pr_Description req, we_AdjustedBy = []\<rparr>,
      rp_Credit = \<lparr>we_SubscriberID = pr_SubscriberID req, we_FranchiseID = pr_FranchiseID req,
                   we_Account = AccountSubscriberWallet, we_EntryType = pr_Direction req,
                   we_Amount = pr_Amount req, we_BalanceAfter = newBalance,
                   we_Token = token_ptr (pr_Token req),
                   we_Description = pr_Description req, we_AdjustedBy = pr_AdjustedBy req\<rparr>,
      rp_NewBalance = newBalance,
      rp_TaxAmount = pr_TaxAmount req\<rparr>"

definition Post ::
  "('s, 'd::linordered_idom) WalletQuerier \<Rightarrow> 's \<Rightarrow> 'd PostRequest \<Rightarrow> 's \<times> (err + 'd Transaction)" where
  "Post q s req =
     (if pr_Amount req \<le> 0 then (s, Inl (Err ''billing: post amount must be positive''))
      else if pr_Direction req \<noteq> ''credit'' \<and> pr_Direction req \<noteq> ''debit''
      then (s, Inl (Err ''billing: post direction''))
      else if pr_TaxAmount req < 0 \<or> pr_Amount req \<le> pr_TaxAmount req
      then (s, Inl (Err ''billing: post tax amount''))
      else case existing_tx q s (pr_Token req) of
        Some t \<Rightarrow> (s, Inr t)
      | None \<Rightarrow>
          (case q_GetSubscriberBalance q s (pr_SubscriberID req) of
             Inl e \<Rightarrow> (s, Inl e)
           | Inr currentBalance \<Rightarrow>
               (let newBalance = (if pr_Direction req = ''credit'' then currentBalance + pr_Amount req
                                  else currentBalance - pr_Amount req)
                in if pr_Direction req \<noteq> ''credit'' \<and> newBalance < 0
                   then (s, Inl ErrInsufficientBalance)
                   else record_posting q s (post_posting req newBalance))))"

section \<open>The store\<close>

definition GetSubscriberBalance :: "'d pg \<Rightarrow> 'd db \<Rightarrow> int \<Rightarrow> err + 'd" where
  "GetSubscriberBalance pg db subscriberID =
     bindE (stmt pg ''get balance'') (\<lambda>_.
       case find_subscriber db subscriberID of
         None \<Rightarrow> Inl ErrNotFound
       | Some r \<Rightarrow> Inr (sub_balance r))"

definition row_to_tx :: "'d wallet_row \<Rightarrow> 'd Transaction" where
  "row_to_tx r =
     \<lparr>tx_ID = wl_id r, tx_SubscriberID = wl_subscriber r, tx_EntryType = wl_entry_type r,
      tx_Amount = wl_amount r, tx_BalanceAfter = wl_balance_after r,
      tx_Token = (case wl_token r of None \<Rightarrow> [] | Some t \<Rightarrow> t), tx_Description = wl_description r\<rparr>"

definition GetTransactionByToken :: "'d pg \<Rightarrow> 'd db \<Rightarrow> string \<Rightarrow> err + 'd Transaction option" where
  "GetTransactionByToken pg db token =
     (if token = [] then Inr None
      else bindE (stmt pg ''get transaction'') (\<lambda>_.
        Inr (map_option row_to_tx (find (\<lambda>r. wl_token r = Some token) (wallet_ledgers db)))))"

definition insertLeg ::
  "'d::linordered_idom pg \<Rightarrow> string \<Rightarrow> 'd WalletEntry \<Rightarrow> string option \<Rightarrow> 'd db \<Rightarrow> err + ('d db \<times> int)" where
  "insertLeg pg label e token db =
     bindE (stmt pg label) (\<lambda>_.
     bindE (numericE pg 12 (we_Amount e)) (\<lambda>amount.
     bindE (numericE pg 12 (we_BalanceAfter e)) (\<lambda>balance_after.
     bindE (guardE (we_EntryType e = ''credit'' \<or> we_EntryType e = ''debit'') (ErrCheck ''entry_type'')) (\<lambda>_.
     bindE (guardE (we_Account e \<in> {AccountSubscriberWallet, AccountGatewayClearing,
                                     AccountRevenueClearing, AccountAdjustmentClearing})
                   (ErrCheck ''chk_wallet_account'')) (\<lambda>_.
     bindE (guardE (find_subscriber db (we_SubscriberID e) \<noteq> None) (ErrCheck ''subscriber_id'')) (\<lambda>_.
     bindE (guardE (token = None \<or> token \<notin> set (map wl_token (wallet_ledgers db)))
                   (ErrUnique ''idx_wallet_token'')) (\<lambda>_.
       Inr (db\<lparr>wallet_ledgers := wallet_ledgers db @
                 [\<lparr>wl_id = wallet_seq db, wl_subscriber = we_SubscriberID e,
                   wl_franchise = we_FranchiseID e, wl_account = we_Account e,
                   wl_entry_type = we_EntryType e, wl_amount = amount,
                   wl_balance_after = balance_after, wl_token = token,
                   wl_description = we_Description e, wl_adjusted_by = we_AdjustedBy e\<rparr>],
                wallet_seq := wallet_seq db + 1\<rparr>, wallet_seq db))))))))"

record 'd glLeg =
  leg_code :: string
  leg_entryType :: string
  leg_amount :: 'd

definition glRevenueAccount :: string where "glRevenueAccount = ''4000''"

fun split_legs :: "string \<Rightarrow> 'd::linordered_idom \<Rightarrow> 'd glLeg list \<Rightarrow> err + 'd glLeg list" where
  "split_legs counterCode tax [] = Inr []"
| "split_legs counterCode tax (leg # legs) =
     (if leg_code leg \<noteq> counterCode
      then bindE (split_legs counterCode tax legs) (\<lambda>out. Inr (leg # out))
      else if leg_amount leg - tax \<le> 0 then Inl (Err ''db: tax amount is not within revenue leg'')
      else bindE (split_legs counterCode tax legs) (\<lambda>out.
             Inr (\<lparr>leg_code = leg_code leg, leg_entryType = leg_entryType leg, leg_amount = leg_amount leg - tax\<rparr>
                  # \<lparr>leg_code = GLAccountGSTPayable, leg_entryType = leg_entryType leg, leg_amount = tax\<rparr>
                  # out)))"

definition splitTaxLeg :: "'d::linordered_idom glLeg list \<Rightarrow> string \<Rightarrow> 'd \<Rightarrow> err + 'd glLeg list" where
  "splitTaxLeg legs counterCode tax =
     (if tax = 0 then Inr legs
      else if counterCode \<noteq> glRevenueAccount then Inl (Err ''db: tax posted against non-revenue account'')
      else split_legs counterCode tax legs)"

definition glAccountID :: "'d pg \<Rightarrow> 'd db \<Rightarrow> string \<Rightarrow> err + int" where
  "glAccountID pg db code =
     bindE (stmt pg ''resolve GL account'') (\<lambda>_.
       case map_of (chart_of_accounts db) code of
         None \<Rightarrow> Inl (Err ''db: chart of accounts has no code'')
       | Some i \<Rightarrow> Inr i)"

definition insertGLLine ::
  "'d::linordered_idom pg \<Rightarrow> int \<Rightarrow> 'd glLeg \<Rightarrow> 'd db \<Rightarrow> err + 'd db" where
  "insertGLLine pg entryID leg db =
     bindE (glAccountID pg db (leg_code leg)) (\<lambda>accountID.
     bindE (stmt pg ''insert GL line'') (\<lambda>_.
     bindE (numericE pg 14 (if leg_entryType leg = ''debit'' then leg_amount leg else 0)) (\<lambda>debit.
     bindE (numericE pg 14 (if leg_entryType leg = ''debit'' then 0 else leg_amount leg)) (\<lambda>credit.
       (let line = \<lparr>gl_entry_id = entryID, gl_account = accountID, gl_debit = debit, gl_credit = credit\<rparr>
        in bindE (guardE (chk_gl_line line) (ErrCheck ''chk_gl_line'')) (\<lambda>_.
             Inr (db\<lparr>gl_lines := gl_lines db @ [line]\<rparr>)))))))"

fun insertGLLines :: "'d::linordered_idom pg \<Rightarrow> int \<Rightarrow> 'd glLeg list \<Rightarrow> 'd db \<Rightarrow> err + 'd db" where
  "insertGLLines pg entryID [] db = Inr db"
| "insertGLLines pg entryID (leg # legs) db =
     bindE (insertGLLine pg entryID leg db) (\<lambda>db'. insertGLLines pg entryID legs db')"

definition postWalletGLEntry ::
  "'d::linordered_idom pg \<Rightarrow> 'd RechargePosting \<Rightarrow> int \<Rightarrow> 'd db \<Rightarrow> err + 'd db" where
  "postWalletGLEntry pg p walletLegID db =
     (let debitCode = GLAccountCode (we_Account (rp_Debit p));
          creditCode = GLAccountCode (we_Account (rp_Credit p));
          createdBy = (if we_AdjustedBy (rp_Credit p) = [] then ''system'' else we_AdjustedBy (rp_Credit p));
          entryID = gl_seq db
      in bindE (guardE (debitCode \<noteq> [] \<and> creditCode \<noteq> []) (Err ''db: no GL account mapped'')) (\<lambda>_.
         bindE (stmt pg ''insert GL entry'') (\<lambda>_.
           (let db1 = db\<lparr>gl_entries := gl_entries db @
                          [\<lparr>ge_id = entryID, ge_description = we_Description (rp_Credit p),
                            ge_source_type = ''wallet_ledger'', ge_source_id = walletLegID,
                            ge_created_by = createdBy\<rparr>],
                         gl_seq := gl_seq db + 1\<rparr>
            in bindE (splitTaxLeg
                        [\<lparr>leg_code = debitCode, leg_entryType = we_EntryType (rp_Debit p),
                          leg_amount = we_Amount (rp_Debit p)\<rparr>,
                         \<lparr>leg_code = creditCode, leg_entryType = we_EntryType (rp_Credit p),
                          leg_amount = we_Amount (rp_Credit p)\<rparr>]
                        debitCode (rp_TaxAmount p)) (\<lambda>legs.
                 insertGLLines pg entryID legs db1)))))"

definition recharge_body ::
  "'d::linordered_idom pg \<Rightarrow> 'd RechargePosting \<Rightarrow> 'd db \<Rightarrow> err + ('d db \<times> 'd Transaction)" where
  "recharge_body pg p db =
     bindE (insertLeg pg ''insert debit leg'' (rp_Debit p) None db) (\<lambda>(db1, _).
     bindE (insertLeg pg ''insert credit leg'' (rp_Credit p) (we_Token (rp_Credit p)) db1) (\<lambda>(db2, creditID).
     bindE (stmt pg ''update wallet balance'') (\<lambda>_.
     bindE (numericE pg 12 (rp_NewBalance p)) (\<lambda>balance.
     bindE (update_subscribers (\<lambda>r. sub_id r = rp_SubscriberID p) (\<lambda>r. r\<lparr>sub_balance := balance\<rparr>) db2) (\<lambda>db3.
     bindE (postWalletGLEntry pg p creditID db3) (\<lambda>db4.
       Inr (db4, \<lparr>tx_ID = creditID, tx_SubscriberID = we_SubscriberID (rp_Credit p),
                  tx_EntryType = we_EntryType (rp_Credit p), tx_Amount = we_Amount (rp_Credit p),
                  tx_BalanceAfter = rp_NewBalance p,
                  tx_Token = (case we_Token (rp_Credit p) of None \<Rightarrow> [] | Some t \<Rightarrow> t),
                  tx_Description = we_Description (rp_Credit p)\<rparr>)))))))"

definition RecordRecharge ::
  "'d::linordered_idom pg \<Rightarrow> 'd db \<Rightarrow> 'd RechargePosting \<Rightarrow> 'd db \<times> (err + 'd Transaction)" where
  "RecordRecharge pg db p = inTx pg (recharge_body pg p) db"

definition BillingStore :: "'d::linordered_idom pg \<Rightarrow> ('d db, 'd) WalletQuerier" where
  "BillingStore pg = \<lparr>q_GetTransactionByToken = GetTransactionByToken pg,
                      q_RecordRecharge = RecordRecharge pg,
                      q_GetSubscriberBalance = GetSubscriberBalance pg\<rparr>"

section \<open>What a successful posting writes\<close>

definition leg_row :: "int \<Rightarrow> 'd WalletEntry \<Rightarrow> string option \<Rightarrow> 'd \<Rightarrow> 'd \<Rightarrow> 'd wallet_row" where
  "leg_row i e token amount balance_after =
     \<lparr>wl_id = i, wl_subscriber = we_SubscriberID e, wl_franchise = we_FranchiseID e,
      wl_account = we_Account e, wl_entry_type = we_EntryType e, wl_amount = amount,
      wl_balance_after = balance_after, wl_token = token, wl_description = we_Description e,
      wl_adjusted_by = we_AdjustedBy e\<rparr>"

lemma insertLeg_Inr:
  "insertLeg pg l e token db = Inr (db', i) \<longleftrightarrow>
     pg_faults pg l = None
     \<and> (\<exists>a b. numeric pg 12 (we_Amount e) = Some a \<and> numeric pg 12 (we_BalanceAfter e) = Some b
          \<and> db' = db\<lparr>wallet_ledgers := wallet_ledgers db @ [leg_row (wallet_seq db) e token a b],
                     wallet_seq := wallet_seq db + 1\<rparr>)
     \<and> (we_EntryType e = ''credit'' \<or> we_EntryType e = ''debit'')
     \<and> we_Account e \<in> {AccountSubscriberWallet, AccountGatewayClearing, AccountRevenueClearing,
                       AccountAdjustmentClearing}
     \<and> find_subscriber db (we_SubscriberID e) \<noteq> None
     \<and> (token = None \<or> token \<notin> set (map wl_token (wallet_ledgers db)))
     \<and> i = wallet_seq db"
  unfolding insertLeg_def leg_row_def by (auto simp del: set_map)

lemma insertGLLines_Inr:
  assumes "insertGLLines pg e legs db = Inr db'"
  shows "\<exists>ls. db' = db\<lparr>gl_lines := gl_lines db @ ls\<rparr> \<and> (\<forall>l \<in> set ls. gl_entry_id l = e \<and> chk_gl_line l)"
  using assms
proof (induction legs arbitrary: db)
  case (Cons leg legs)
  then obtain db1 where one: "insertGLLine pg e leg db = Inr db1" and "insertGLLines pg e legs db1 = Inr db'"
    by auto
  with Cons.IH obtain ls where "db' = db1\<lparr>gl_lines := gl_lines db1 @ ls\<rparr>"
    and "\<forall>l \<in> set ls. gl_entry_id l = e \<and> chk_gl_line l" by blast
  moreover from one obtain l where "db1 = db\<lparr>gl_lines := gl_lines db @ [l]\<rparr>"
    and "gl_entry_id l = e" and "chk_gl_line l"
    by (auto simp: insertGLLine_def Let_def)
  ultimately show ?case by (intro exI [of _ "l # ls"]) simp
qed (auto intro: exI [of _ "[]"])

lemma postWalletGLEntry_Inr:
  assumes "postWalletGLEntry pg p i db = Inr db'"
  obtains g ls where "db' = db\<lparr>gl_entries := gl_entries db @ [g], gl_seq := gl_seq db + 1,
                              gl_lines := gl_lines db @ ls\<rparr>"
    and "ge_id g = gl_seq db" and "\<forall>l \<in> set ls. gl_entry_id l = gl_seq db \<and> chk_gl_line l"
  using assms by (auto simp: postWalletGLEntry_def Let_def dest!: insertGLLines_Inr)

text \<open>The effect of a committed posting on the tables, in one place.\<close>

lemma RecordRecharge_Inr:
  assumes "RecordRecharge pg db p = (db', Inr tx)"
  obtains a b a' b' nb g ls where
    "numeric pg 12 (we_Amount (rp_Debit p)) = Some a"
    "numeric pg 12 (we_Amount (rp_Credit p)) = Some a'"
    "numeric pg 12 (rp_NewBalance p) = Some nb"
    "find_subscriber db (we_SubscriberID (rp_Credit p)) \<noteq> None"
    "we_Token (rp_Credit p) = None \<or> we_Token (rp_Credit p) \<notin> set (map wl_token (wallet_ledgers db))"
    "\<forall>r \<in> set (subscribers db). sub_id r = rp_SubscriberID p \<longrightarrow> subscriber_checks (r\<lparr>sub_balance := nb\<rparr>)"
    "\<forall>l \<in> set ls. gl_entry_id l = gl_seq db \<and> chk_gl_line l"
    "check_gl_journal_balanced db db'"
    "tx_ID tx = wallet_seq db + 1"
    "db' = db\<lparr>wallet_ledgers := wallet_ledgers db @
                [leg_row (wallet_seq db) (rp_Debit p) None a b,
                 leg_row (wallet_seq db + 1) (rp_Credit p) (we_Token (rp_Credit p)) a' b'],
              wallet_seq := wallet_seq db + 2,
              subscribers := update_where (\<lambda>r. sub_id r = rp_SubscriberID p) (\<lambda>r. r\<lparr>sub_balance := nb\<rparr>)
                               (subscribers db),
              gl_entries := gl_entries db @ [g], gl_seq := gl_seq db + 1, gl_lines := gl_lines db @ ls\<rparr>"
proof -
  from assms have body: "recharge_body pg p db = Inr (db', tx)" and bal: "check_gl_journal_balanced db db'"
    by (auto simp: RecordRecharge_def inTx_Inr)
  from body obtain db1 i1 db2 i2 nb db3 where
      d: "insertLeg pg ''insert debit leg'' (rp_Debit p) None db = Inr (db1, i1)"
    and c: "insertLeg pg ''insert credit leg'' (rp_Credit p) (we_Token (rp_Credit p)) db1 = Inr (db2, i2)"
    and nb: "numeric pg 12 (rp_NewBalance p) = Some nb"
    and u: "update_subscribers (\<lambda>r. sub_id r = rp_SubscriberID p) (\<lambda>r. r\<lparr>sub_balance := nb\<rparr>) db2 = Inr db3"
    and g: "postWalletGLEntry pg p i2 db3 = Inr db'" and tx: "tx_ID tx = i2"
    unfolding recharge_body_def by (auto split: prod.splits)
  from d obtain a b where a: "numeric pg 12 (we_Amount (rp_Debit p)) = Some a"
    and db1: "db1 = db\<lparr>wallet_ledgers := wallet_ledgers db @ [leg_row (wallet_seq db) (rp_Debit p) None a b],
                      wallet_seq := wallet_seq db + 1\<rparr>"
    unfolding insertLeg_Inr by blast
  from c obtain a' b' where a': "numeric pg 12 (we_Amount (rp_Credit p)) = Some a'"
    and db2: "db2 = db1\<lparr>wallet_ledgers := wallet_ledgers db1 @
                [leg_row (wallet_seq db1) (rp_Credit p) (we_Token (rp_Credit p)) a' b'],
                wallet_seq := wallet_seq db1 + 1\<rparr>"
    and i2: "i2 = wallet_seq db1" and fk: "find_subscriber db1 (we_SubscriberID (rp_Credit p)) \<noteq> None"
    and tok: "we_Token (rp_Credit p) = None \<or> we_Token (rp_Credit p) \<notin> set (map wl_token (wallet_ledgers db1))"
    unfolding insertLeg_Inr by blast
  from u have chk: "\<forall>r \<in> set (subscribers db). sub_id r = rp_SubscriberID p \<longrightarrow> subscriber_checks (r\<lparr>sub_balance := nb\<rparr>)"
    and db3: "db3 = db2\<lparr>subscribers := update_where (\<lambda>r. sub_id r = rp_SubscriberID p)
                          (\<lambda>r. r\<lparr>sub_balance := nb\<rparr>) (subscribers db)\<rparr>"
    unfolding update_subscribers_def db2 db1 by (auto split: if_splits)
  from g obtain ge ls where
    db': "db' = db3\<lparr>gl_entries := gl_entries db3 @ [ge], gl_seq := gl_seq db3 + 1, gl_lines := gl_lines db3 @ ls\<rparr>"
    and ls: "\<forall>l \<in> set ls. gl_entry_id l = gl_seq db3 \<and> chk_gl_line l"
    by (elim postWalletGLEntry_Inr)
  show thesis
    by (rule that [where b = b and b' = b' and g = ge, OF a a' nb _ _ chk _ bal])
       (use fk tok ls tx i2 in \<open>auto simp: db1 db2 db3 db' find_subscriber_def\<close>)
qed

lemma RecordRecharge_Inl: "RecordRecharge pg db p = (db', Inl e) \<Longrightarrow> db' = db"
  unfolding RecordRecharge_def by (rule inTx_Inl)

section \<open>The contract of \<open>WalletQuerier\<close>\<close>

definition signed_entry :: "'d::linordered_idom WalletEntry \<Rightarrow> 'd" where
  "signed_entry e = (if we_EntryType e = ''credit'' then we_Amount e else - we_Amount e)"

text \<open>The postings the service builds: the wallet leg is the credit field, the other leg is not on the wallet.\<close>

definition posting_wf :: "'d RechargePosting \<Rightarrow> bool" where
  "posting_wf p = (we_SubscriberID (rp_Debit p) = rp_SubscriberID p
                   \<and> we_SubscriberID (rp_Credit p) = rp_SubscriberID p
                   \<and> we_Account (rp_Credit p) = AccountSubscriberWallet
                   \<and> we_Account (rp_Debit p) \<noteq> AccountSubscriberWallet)"

locale wallet_store =
  fixes q :: "('s, 'd::linordered_idom) WalletQuerier"
    and inv :: "'s \<Rightarrow> bool"
    and repr :: "'d \<Rightarrow> bool"
    and exact :: "'d \<Rightarrow> bool"
    and bal :: "'s \<Rightarrow> int \<Rightarrow> 'd option"
    and led :: "'s \<Rightarrow> int \<Rightarrow> 'd"
    and tok :: "'s \<Rightarrow> string \<Rightarrow> int option"
  assumes bal_read: "inv s \<Longrightarrow> q_GetSubscriberBalance q s i = Inr b \<Longrightarrow> bal s i = Some b \<and> (repr a \<longrightarrow> repr b)"
    and tok_read: "t \<noteq> [] \<Longrightarrow> q_GetTransactionByToken q s t = Inr res \<Longrightarrow> map_option tx_ID res = tok s t"
    and exact_add: "repr a \<Longrightarrow> repr b \<Longrightarrow> exact (a + b)"
    and exact_sub: "repr a \<Longrightarrow> repr b \<Longrightarrow> exact (a - b)"
    and record_fail: "q_RecordRecharge q s p = (s', Inl e) \<Longrightarrow> s' = s"
    and record_inv: "inv s \<Longrightarrow> q_RecordRecharge q s p = (s', Inr tx) \<Longrightarrow> inv s'"
    and record_bal: "inv s \<Longrightarrow> posting_wf p \<Longrightarrow> exact (rp_NewBalance p) \<Longrightarrow>
      q_RecordRecharge q s p = (s', Inr tx) \<Longrightarrow>
      bal s' i = (if i = rp_SubscriberID p then Some (rp_NewBalance p) else bal s i)"
    and record_led: "posting_wf p \<Longrightarrow> repr (we_Amount (rp_Credit p)) \<Longrightarrow>
      q_RecordRecharge q s p = (s', Inr tx) \<Longrightarrow>
      led s' i = led s i + (if i = rp_SubscriberID p then signed_entry (rp_Credit p) else 0)"
    and record_tok: "we_Token (rp_Credit p) = Some t \<Longrightarrow> q_RecordRecharge q s p = (s', Inr tx) \<Longrightarrow>
      tok s' t = Some (tx_ID tx)"
begin

text \<open>The ledger explains every balance.\<close>

lemma posting_agree:
  assumes "inv s" and "\<forall>i b. bal s i = Some b \<longrightarrow> led s i = b" and "posting_wf p"
    and "bal s (rp_SubscriberID p) = Some b" and "exact (rp_NewBalance p)" and "repr (we_Amount (rp_Credit p))"
    and "rp_NewBalance p = b + signed_entry (rp_Credit p)"
    and rec: "q_RecordRecharge q s p = (s', Inr tx)"
  shows "inv s' \<and> (\<forall>i b. bal s' i = Some b \<longrightarrow> led s' i = b)
       \<and> bal s' = (bal s)(rp_SubscriberID p \<mapsto> rp_NewBalance p)"
  using assms record_inv [OF assms(1) rec] record_bal [OF assms(1,3,5) rec]
    record_led [OF assms(3,6) rec]
  by (auto simp: fun_eq_iff)

lemma record_posting_cases:
  assumes "record_posting q s p = (s', res)"
  obtains e where "res = Inl e" "s' = s"
  | tx where "q_RecordRecharge q s p = (s', Inr tx)" "res = Inr (tx\<lparr>tx_BalanceAfter := rp_NewBalance p\<rparr>)"
  using assms record_fail by (auto simp: record_posting_def split: prod.splits sum.splits)

text \<open>
  A recharge with a representable amount: it fails and changes nothing, or the token was known and
  nothing changes, or exactly the subscriber's balance grows by the amount; the ledger keeps
  explaining every balance.
\<close>

lemma Recharge_sound:
  assumes inv: "inv s" and agree: "\<forall>i b. bal s i = Some b \<longrightarrow> led s i = b" and "repr (rr_Amount req)"
    and "Recharge q s req = (s', res)"
  shows "inv s' \<and> (\<forall>i b. bal s' i = Some b \<longrightarrow> led s' i = b)
       \<and> (s' = s \<or> (\<exists>b. bal s (rr_SubscriberID req) = Some b \<and> 0 < rr_Amount req
                     \<and> bal s' = (bal s)(rr_SubscriberID req \<mapsto> b + rr_Amount req)))"
proof (cases "rr_Amount req \<le> 0 \<or> existing_tx q s (rr_Token req) \<noteq> None
              \<or> (\<exists>e. q_GetSubscriberBalance q s (rr_SubscriberID req) = Inl e)")
  case True
  then have "s' = s" using assms(4) by (auto simp: Recharge_def split: option.splits if_splits)
  with inv agree show ?thesis by simp
next
  case False
  then obtain b where b: "q_GetSubscriberBalance q s (rr_SubscriberID req) = Inr b"
    by (cases "q_GetSubscriberBalance q s (rr_SubscriberID req)") auto
  let ?p = "recharge_posting req (b + rr_Amount req)"
  have bal: "bal s (rr_SubscriberID req) = Some b" and "repr b"
    using bal_read [OF inv b] assms(3) by auto
  have "posting_wf ?p" and "exact (rp_NewBalance ?p)"
    using exact_add [OF \<open>repr b\<close> assms(3)]
    by (simp_all add: posting_wf_def recharge_posting_def account_defs)
  note agree' = posting_agree [OF inv agree this(1) _ this(2), of b s']
  have "record_posting q s ?p = (s', res)"
    using assms(4) False b by (auto simp: Recharge_def split: option.splits)
  then show ?thesis
  proof (cases rule: record_posting_cases)
    case (2 tx)
    with agree' [of tx] bal False assms(3) show ?thesis
      by (auto simp: recharge_posting_def signed_entry_def)
  qed (use inv agree in simp)
qed

lemma existing_tx_tok:
  "t \<noteq> [] \<Longrightarrow> q_GetTransactionByToken q s t = Inr res \<Longrightarrow> map_option tx_ID (existing_tx q s t) = tok s t"
  using tok_read [of t s res] by (auto simp: existing_tx_def split: option.splits)

lemma record_posting_tok:
  assumes "record_posting q s p = (s', Inr tx)" and "we_Token (rp_Credit p) = Some t"
  shows "tok s' t = Some (tx_ID tx)"
  using assms(1)
proof (cases rule: record_posting_cases)
  case (2 tx')
  with record_tok [OF assms(2) 2(1)] show ?thesis by simp
qed simp

text \<open>A second call with the same token returns the transaction of the first and writes nothing.\<close>

lemma Recharge_again:
  assumes first: "Recharge q s req = (s', Inr tx)" and t: "rr_Token req \<noteq> []"
    and up: "q_GetTransactionByToken q s' (rr_Token req) = Inr res"
  shows "\<exists>tx'. Recharge q s' req = (s', Inr tx') \<and> tx_ID tx' = tx_ID tx"
proof (cases "existing_tx q s (rr_Token req)")
  case None
  from first have pos: "\<not> rr_Amount req \<le> 0" by (auto simp: Recharge_def split: if_splits)
  from first None pos obtain nb where "record_posting q s (recharge_posting req nb) = (s', Inr tx)"
    by (auto simp: Recharge_def split: sum.splits)
  from record_posting_tok [OF this, of "rr_Token req"] t have "tok s' (rr_Token req) = Some (tx_ID tx)"
    by (simp add: recharge_posting_def token_ptr_def)
  with existing_tx_tok [OF t up] pos show ?thesis
    by (auto simp: Recharge_def)
next
  case (Some tx0)
  with first show ?thesis by (auto simp: Recharge_def split: if_splits)
qed

lemma Post_sound:
  assumes inv: "inv s" and agree: "\<forall>i b. bal s i = Some b \<longrightarrow> led s i = b" and "repr (pr_Amount req)"
    and counter: "pr_CounterAccount req \<noteq> AccountSubscriberWallet"
    and post: "Post q s req = (s', res)"
  shows "inv s' \<and> (\<forall>i b. bal s' i = Some b \<longrightarrow> led s' i = b)
       \<and> (s' = s \<or> (\<exists>b nb. bal s (pr_SubscriberID req) = Some b \<and> bal s' = (bal s)(pr_SubscriberID req \<mapsto> nb)
              \<and> (pr_Direction req = ''credit'' \<and> nb = b + pr_Amount req
                 \<or> pr_Direction req = ''debit'' \<and> nb = b - pr_Amount req \<and> 0 \<le> nb)))"
proof (cases "s' = s")
  case False
  then obtain b where dir: "pr_Direction req = ''credit'' \<or> pr_Direction req = ''debit''"
    and b: "q_GetSubscriberBalance q s (pr_SubscriberID req) = Inr b"
    using post by (auto simp: Post_def split: if_splits option.splits sum.splits)
  let ?nb = "if pr_Direction req = ''credit'' then b + pr_Amount req else b - pr_Amount req"
  let ?p = "post_posting req ?nb"
  have bal: "bal s (pr_SubscriberID req) = Some b" and "repr b"
    using bal_read [OF inv b] assms(3) by auto
  have "posting_wf ?p" and "exact (rp_NewBalance ?p)"
    using exact_add [OF \<open>repr b\<close> assms(3)] exact_sub [OF \<open>repr b\<close> assms(3)] counter
    by (simp_all add: posting_wf_def post_posting_def)
  note agree' = posting_agree [OF inv agree this(1) _ this(2), of b s']
  from False post b have rec: "record_posting q s ?p = (s', res)"
    and pos: "pr_Direction req = ''debit'' \<longrightarrow> 0 \<le> ?nb"
    by (auto simp: Post_def Let_def split: if_splits option.splits sum.splits)
  from rec show ?thesis
  proof (cases rule: record_posting_cases)
    case (2 tx)
    with agree' [of tx] bal dir pos assms(3) show ?thesis
      by (auto simp: post_posting_def signed_entry_def)
  qed (use False in simp)
qed (use inv agree in simp)

lemma Post_again:
  assumes first: "Post q s req = (s', Inr tx)" and t: "pr_Token req \<noteq> []"
    and up: "q_GetTransactionByToken q s' (pr_Token req) = Inr res"
  shows "\<exists>tx'. Post q s' req = (s', Inr tx') \<and> tx_ID tx' = tx_ID tx"
proof (cases "existing_tx q s (pr_Token req)")
  case None
  from first None obtain nb where "record_posting q s (post_posting req nb) = (s', Inr tx)"
    by (auto simp: Post_def Let_def split: if_splits sum.splits)
  from record_posting_tok [OF this, of "pr_Token req"] t have "tok s' (pr_Token req) = Some (tx_ID tx)"
    by (simp add: post_posting_def token_ptr_def)
  with existing_tx_tok [OF t up] first show ?thesis
    by (auto simp: Post_def split: if_splits)
next
  case (Some tx0)
  with first show ?thesis by (auto simp: Post_def split: if_splits)
qed

end

section \<open>The store keeps the contract\<close>

definition balance_of :: "'d db \<Rightarrow> int \<Rightarrow> 'd option" where
  "balance_of db i = map_option sub_balance (find_subscriber db i)"

definition signed_row :: "'d::linordered_idom wallet_row \<Rightarrow> 'd" where
  "signed_row r = (if wl_entry_type r = ''credit'' then wl_amount r else - wl_amount r)"

definition on_wallet :: "int \<Rightarrow> 'd wallet_row \<Rightarrow> bool" where
  "on_wallet i r = (wl_subscriber r = i \<and> wl_account r = AccountSubscriberWallet)"

text \<open>The balance the ledger implies: the signed sum of a subscriber's wallet legs.\<close>

definition wallet_sum :: "'d::linordered_idom db \<Rightarrow> int \<Rightarrow> 'd" where
  "wallet_sum db i = sum_list (map signed_row (filter (on_wallet i) (wallet_ledgers db)))"

definition token_id :: "'d db \<Rightarrow> string \<Rightarrow> int option" where
  "token_id db t = map_option wl_id (find (\<lambda>r. wl_token r = Some t) (wallet_ledgers db))"

definition stored :: "'d::linordered_idom pg \<Rightarrow> 'd \<Rightarrow> bool" where
  "stored pg x = (numeric_ok pg \<and> numeric pg 12 x = Some x)"

definition stored_exactly :: "'d::linordered_idom pg \<Rightarrow> 'd \<Rightarrow> bool" where
  "stored_exactly pg x = (numeric_ok pg \<and> (\<forall>c. numeric pg 12 x = Some c \<longrightarrow> c = x))"

definition gl_ok :: "'d::linordered_idom db \<Rightarrow> bool" where
  "gl_ok db = ((\<forall>l \<in> set (gl_lines db). gl_entry_id l < gl_seq db \<and> chk_gl_line l)
               \<and> (\<forall>e. entry_debits (gl_lines db) e = entry_credits (gl_lines db) e))"

definition subscribers_ok :: "'d::linordered_idom pg \<Rightarrow> 'd db \<Rightarrow> bool" where
  "subscribers_ok pg db =
     (distinct (map sub_id (subscribers db))
      \<and> (\<forall>r \<in> set (subscribers db). subscriber_checks r
            \<and> (numeric_ok pg \<longrightarrow> numeric pg 12 (sub_balance r) = Some (sub_balance r))))"

definition wallet_inv :: "'d::linordered_idom pg \<Rightarrow> 'd db \<Rightarrow> bool" where
  "wallet_inv pg db = (subscribers_ok pg db \<and> unique_nullable (map wl_token (wallet_ledgers db)) \<and> gl_ok db)"

lemma numeric_idem: "numeric_ok pg \<Longrightarrow> numeric pg p x = Some y \<Longrightarrow> numeric pg p y = Some y"
  unfolding numeric_ok_def by blast

lemma subscribers_ok_update:
  assumes "subscribers_ok pg db" and "\<And>r. sub_id (f r) = sub_id r"
    and "\<And>r. r \<in> set (subscribers db) \<Longrightarrow> P r \<Longrightarrow> subscriber_checks (f r)"
    and "\<And>r. r \<in> set (subscribers db) \<Longrightarrow> P r \<Longrightarrow> numeric_ok pg \<Longrightarrow>
           numeric pg 12 (sub_balance (f r)) = Some (sub_balance (f r))"
    and "subscribers db' = update_where P f (subscribers db)"
  shows "subscribers_ok pg db'"
  using assms by (simp add: subscribers_ok_def ball_update_where map_update_where)

lemma entry_fresh:
  assumes "gl_ok db"
  shows "filter (\<lambda>l. gl_entry_id l = gl_seq db) (gl_lines db) = []"
  using assms by (auto simp: gl_ok_def filter_empty_conv)

lemma gl_ok_append:
  assumes ok: "gl_ok db" and ls: "\<forall>l \<in> set ls. gl_entry_id l = gl_seq db \<and> chk_gl_line l"
    and "check_gl_journal_balanced db db'" and lines: "gl_lines db' = gl_lines db @ ls"
    and seq: "gl_seq db' = gl_seq db + 1"
  shows "gl_ok db'"
proof -
  have "entry_debits (gl_lines db') e = entry_credits (gl_lines db') e" for e
  proof (cases "e = gl_seq db \<and> ls \<noteq> []")
    case True
    then obtain l where "l \<in> set ls" and "gl_entry_id l = e" using ls by (cases ls) auto
    with assms(3) lines show ?thesis by (auto simp: check_gl_journal_balanced_def)
  next
    case False
    then have "filter (\<lambda>l. gl_entry_id l = e) ls = []" using ls by (auto simp: filter_empty_conv)
    then have "filter (\<lambda>l. gl_entry_id l = e) (gl_lines db') = filter (\<lambda>l. gl_entry_id l = e) (gl_lines db)"
      by (simp add: lines)
    with ok show ?thesis by (simp add: gl_ok_def entry_debits_def entry_credits_def)
  qed
  moreover have "\<forall>l \<in> set (gl_lines db'). gl_entry_id l < gl_seq db' \<and> chk_gl_line l"
    using ok ls by (auto simp: lines seq gl_ok_def)
  ultimately show ?thesis by (simp add: gl_ok_def)
qed

lemma wallet_inv_record:
  assumes inv: "wallet_inv pg db" and "RecordRecharge pg db p = (db', Inr tx)"
  shows "wallet_inv pg db'"
  using assms(2)
proof (cases rule: RecordRecharge_Inr)
  case (1 a b a' b' nb g ls)
  have "subscribers_ok pg db'"
    by (rule subscribers_ok_update [of pg db "\<lambda>r. r\<lparr>sub_balance := nb\<rparr>" "\<lambda>r. sub_id r = rp_SubscriberID p"])
       (use inv 1 numeric_idem in \<open>auto simp: wallet_inv_def\<close>)
  moreover have "unique_nullable (map wl_token (wallet_ledgers db'))"
    using inv 1(5) by (auto simp: 1(10) wallet_inv_def unique_nullable_def leg_row_def)
  moreover have "gl_ok db'"
    by (rule gl_ok_append [OF _ 1(7) 1(8)]) (use inv in \<open>simp_all add: 1(10) wallet_inv_def\<close>)
  ultimately show ?thesis by (simp add: wallet_inv_def)
qed

lemma record_token:
  assumes "we_Token (rp_Credit p) = Some t" and "RecordRecharge pg db p = (db', Inr tx)"
  shows "token_id db' t = Some (tx_ID tx)"
  using assms(2)
proof (cases rule: RecordRecharge_Inr)
  case (1 a b a' b' nb g ls)
  have "find (\<lambda>r. wl_token r = Some t) (wallet_ledgers db) = None"
    using 1(5) assms(1) by (force simp: find_None_iff)
  then have "find (\<lambda>r. wl_token r = Some t) (wallet_ledgers db @ xs) = find (\<lambda>r. wl_token r = Some t) xs" for xs
    by (simp add: find_append)
  then show ?thesis
    using 1(9) assms(1) by (simp add: 1(10) token_id_def leg_row_def)
qed

lemma record_balance:
  assumes "posting_wf p" and "stored_exactly pg (rp_NewBalance p)"
    and "RecordRecharge pg db p = (db', Inr tx)"
  shows "balance_of db' i = (if i = rp_SubscriberID p then Some (rp_NewBalance p) else balance_of db i)"
  using assms(3)
proof (cases rule: RecordRecharge_Inr)
  case (1 a b a' b' nb g ls)
  have "nb = rp_NewBalance p" using 1(3) assms(2) by (simp add: stored_exactly_def)
  moreover have "find_subscriber db (rp_SubscriberID p) \<noteq> None"
    using 1(4) assms(1) by (simp add: posting_wf_def)
  moreover have "find_subscriber db' i = map_option (\<lambda>r. if sub_id r = rp_SubscriberID p
      then r\<lparr>sub_balance := nb\<rparr> else r) (find_subscriber db i)"
    by (simp add: 1(10) find_subscriber_def find_update_where)
  moreover have "find_subscriber db i = Some r \<Longrightarrow> sub_id r = i" for r
    by (auto simp: find_subscriber_def dest: find_SomeD)
  ultimately show ?thesis
    by (cases "find_subscriber db i") (auto simp: balance_of_def)
qed

lemma record_ledger:
  assumes "posting_wf p" and "stored pg (we_Amount (rp_Credit p))"
    and "RecordRecharge pg db p = (db', Inr tx)"
  shows "wallet_sum db' i = wallet_sum db i + (if i = rp_SubscriberID p then signed_entry (rp_Credit p) else 0)"
  using assms(3)
proof (cases rule: RecordRecharge_Inr)
  case (1 a b a' b' nb g ls)
  have "a' = we_Amount (rp_Credit p)" using 1(2) assms(2) by (simp add: stored_def)
  with assms(1) show ?thesis
    by (auto simp: 1(10) wallet_sum_def posting_wf_def on_wallet_def leg_row_def signed_row_def signed_entry_def)
qed

interpretation bs: wallet_store "BillingStore pg" "wallet_inv pg" "stored pg" "stored_exactly pg"
  balance_of wallet_sum token_id
  for pg :: "'d::linordered_idom pg"
proof
  fix s s' :: "'d db" and p :: "'d RechargePosting" and i t tx e a b res
  let ?q = "BillingStore pg"
  show "wallet_inv pg s \<Longrightarrow> q_GetSubscriberBalance ?q s i = Inr b \<Longrightarrow>
      balance_of s i = Some b \<and> (stored pg a \<longrightarrow> stored pg b)"
    by (auto simp: BillingStore_def GetSubscriberBalance_def balance_of_def stored_def wallet_inv_def
        subscribers_ok_def find_subscriber_def split: option.splits dest!: find_SomeD)
  show "t \<noteq> [] \<Longrightarrow> q_GetTransactionByToken ?q s t = Inr res \<Longrightarrow> map_option tx_ID res = token_id s t"
    by (auto simp: BillingStore_def GetTransactionByToken_def token_id_def row_to_tx_def option.map_comp comp_def)
  show "stored pg a \<Longrightarrow> stored pg b \<Longrightarrow> stored_exactly pg (a + b)"
    and "stored pg a \<Longrightarrow> stored pg b \<Longrightarrow> stored_exactly pg (a - b)"
    unfolding stored_def stored_exactly_def numeric_ok_def by blast+
  show "q_RecordRecharge ?q s p = (s', Inl e) \<Longrightarrow> s' = s"
    using RecordRecharge_Inl [of pg s p s' e] by (simp add: BillingStore_def)
  show "wallet_inv pg s \<Longrightarrow> q_RecordRecharge ?q s p = (s', Inr tx) \<Longrightarrow> wallet_inv pg s'"
    using wallet_inv_record [of pg s p s' tx] by (simp add: BillingStore_def)
  show "we_Token (rp_Credit p) = Some t \<Longrightarrow> q_RecordRecharge ?q s p = (s', Inr tx) \<Longrightarrow>
      token_id s' t = Some (tx_ID tx)"
    using record_token [of p t pg s s' tx] by (simp add: BillingStore_def)
  show "wallet_inv pg s \<Longrightarrow> posting_wf p \<Longrightarrow> stored_exactly pg (rp_NewBalance p) \<Longrightarrow>
      q_RecordRecharge ?q s p = (s', Inr tx) \<Longrightarrow>
      balance_of s' i = (if i = rp_SubscriberID p then Some (rp_NewBalance p) else balance_of s i)"
    using record_balance [of p pg s s' tx i] by (simp add: BillingStore_def)
  show "posting_wf p \<Longrightarrow> stored pg (we_Amount (rp_Credit p)) \<Longrightarrow> q_RecordRecharge ?q s p = (s', Inr tx) \<Longrightarrow>
      wallet_sum s' i = wallet_sum s i + (if i = rp_SubscriberID p then signed_entry (rp_Credit p) else 0)"
    using record_ledger [of p pg s s' tx i] by (simp add: BillingStore_def)
qed

section \<open>A taxed charge goes through\<close>

text \<open>A debit of \<open>amt\<close> against revenue, \<open>tax\<close> of which is output GST: what auto-renewal posts.\<close>

definition charge_request :: "int \<Rightarrow> int option \<Rightarrow> 'd \<Rightarrow> 'd \<Rightarrow> string \<Rightarrow> 'd PostRequest" where
  "charge_request i franchise amt tax desc =
     \<lparr>pr_SubscriberID = i, pr_FranchiseID = franchise, pr_Amount = amt, pr_Direction = ''debit'',
      pr_CounterAccount = AccountRevenueClearing, pr_Token = [], pr_AdjustedBy = [],
      pr_Description = desc, pr_TaxAmount = tax\<rparr>"

definition charge_accounts :: "'d db \<Rightarrow> bool" where
  "charge_accounts db = (\<forall>c \<in> {''1200'', ''4000'', ''2200''}. map_of (chart_of_accounts db) c \<noteq> None)"

text \<open>The journal lines of the charge: revenue net of tax, the tax (if any), and the wallet.\<close>

definition charge_lines :: "'d::linordered_idom db \<Rightarrow> 'd \<Rightarrow> 'd \<Rightarrow> 'd gl_line list" where
  "charge_lines db amt tax =
     (let acct = (\<lambda>c. the (map_of (chart_of_accounts db) c)) in
      [\<lparr>gl_entry_id = gl_seq db, gl_account = acct ''4000'', gl_debit = 0, gl_credit = amt - tax\<rparr>]
      @ (if tax = 0 then []
         else [\<lparr>gl_entry_id = gl_seq db, gl_account = acct ''2200'', gl_debit = 0, gl_credit = tax\<rparr>])
      @ [\<lparr>gl_entry_id = gl_seq db, gl_account = acct ''1200'', gl_debit = amt, gl_credit = 0\<rparr>])"

lemma stored_amounts:
  assumes ok: "numeric_ok pg" and amt: "numeric pg 12 amt = Some amt" and tax: "numeric pg 12 tax = Some tax"
    and "0 \<le> tax" and "tax < amt"
  shows "numeric pg 14 amt = Some amt" "numeric pg 14 tax = Some tax"
    "numeric pg 14 (amt - tax) = Some (amt - tax)" "numeric pg 14 0 = Some 0"
proof -
  show a: "numeric pg 14 amt = Some amt" and t: "numeric pg 14 tax = Some tax" and "numeric pg 14 0 = Some 0"
    using ok amt tax unfolding numeric_ok_def by blast+
  have "0 \<le> amt - tax" and "amt - tax \<le> amt" using assms(4,5) by simp_all
  then have "numeric pg 14 (amt - tax) \<noteq> None" using ok a unfolding numeric_ok_def by blast
  then obtain c where "numeric pg 14 (amt - tax) = Some c" by blast
  moreover from this have "c = amt - tax" using ok a t unfolding numeric_ok_def by blast
  ultimately show "numeric pg 14 (amt - tax) = Some (amt - tax)" by simp
qed

lemma stored_rest:
  assumes ok: "numeric_ok pg" and b: "numeric pg 12 b = Some b" and amt: "numeric pg 12 amt = Some amt"
    and "0 \<le> amt" and "amt \<le> b"
  shows "numeric pg 12 (b - amt) = Some (b - amt)"
proof -
  have "0 \<le> b - amt" and "b - amt \<le> b" using assms(4,5) by simp_all
  then have "numeric pg 12 (b - amt) \<noteq> None" using ok b unfolding numeric_ok_def by blast
  then obtain c where "numeric pg 12 (b - amt) = Some c" by blast
  moreover from this have "c = b - amt" using ok b amt unfolding numeric_ok_def by blast
  ultimately show ?thesis by simp
qed

lemma charge_gl_entry:
  assumes "numeric_ok pg" and "numeric pg 12 amt = Some amt" and "numeric pg 12 tax = Some tax"
    and "0 \<le> tax" and "tax < amt" and "charge_accounts db" and "pg_faults pg = no_faults"
  shows "\<exists>g. postWalletGLEntry pg (post_posting (charge_request i f amt tax desc) nb) w db
    = Inr (db\<lparr>gl_entries := gl_entries db @ [g], gl_seq := gl_seq db + 1,
              gl_lines := gl_lines db @ charge_lines db amt tax\<rparr>)"
proof -
  note num = stored_amounts [OF assms(1-5)]
  have ok: "stmt pg l = Inr ()" for l using assms(7) by simp
  obtain a b c where acct: "map_of (chart_of_accounts db) ''1200'' = Some a"
    "map_of (chart_of_accounts db) ''4000'' = Some b" "map_of (chart_of_accounts db) ''2200'' = Some c"
    using assms(6) by (auto simp: charge_accounts_def)
  have pos: "0 < amt" "0 < amt - tax" using assms(4,5) by simp_all
  show ?thesis
  proof (cases "tax = 0")
    case True
    with num pos acct assms(4,5) show ?thesis
      by (simp add: postWalletGLEntry_def post_posting_def charge_request_def GLAccountCode_def account_defs
          splitTaxLeg_def insertGLLine_def glAccountID_def ok numericE_def guardE_def chk_gl_line_def
          charge_lines_def counter_entry_type_def Let_def) (rule exI, rule refl)
  next
    case False
    with num pos acct assms(4,5) show ?thesis
      by (simp add: postWalletGLEntry_def post_posting_def charge_request_def GLAccountCode_def account_defs
          splitTaxLeg_def glRevenueAccount_def GLAccountGSTPayable_def insertGLLine_def glAccountID_def ok
          numericE_def guardE_def chk_gl_line_def charge_lines_def counter_entry_type_def Let_def)
         (rule exI, rule refl)
  qed
qed

lemma charge_lines_balanced:
  assumes "gl_ok db" and "gl_lines db' = gl_lines db @ charge_lines db amt tax"
  shows "check_gl_journal_balanced db db'"
proof -
  have "\<forall>l \<in> set (charge_lines db amt tax). gl_entry_id l = gl_seq db"
    by (simp add: charge_lines_def Let_def)
  moreover have "entry_debits (gl_lines db') (gl_seq db) = entry_credits (gl_lines db') (gl_seq db)"
    using entry_fresh [OF assms(1)]
    by (simp add: assms(2) entry_debits_def entry_credits_def charge_lines_def Let_def)
  ultimately show ?thesis by (simp add: check_gl_journal_balanced_def assms(2))
qed

lemma charge_balance_write:
  assumes inv: "wallet_inv pg db" and r: "find_subscriber db i = Some r" and "0 \<le> nb"
  shows "\<forall>x \<in> set (subscribers db). sub_id x = i \<longrightarrow> subscriber_checks (x\<lparr>sub_balance := nb\<rparr>)"
  using assms
  by (auto simp: wallet_inv_def subscribers_ok_def subscriber_checks_def chk_wallet_balance_nonneg_def
      chk_authorised_subscriber_is_billable_def)

lemma charge_body:
  assumes ok: "numeric_ok pg" and up: "pg_faults pg = no_faults"
    and amt: "numeric pg 12 amt = Some amt" and tax: "numeric pg 12 tax = Some tax"
    and "0 \<le> tax" and "tax < amt" and acc: "charge_accounts db" and fk: "find_subscriber db i \<noteq> None"
    and nb: "numeric pg 12 nb = Some nb"
    and chk: "\<forall>x \<in> set (subscribers db). sub_id x = i \<longrightarrow> subscriber_checks (x\<lparr>sub_balance := nb\<rparr>)"
  shows "\<exists>legs g tx. recharge_body pg (post_posting (charge_request i f amt tax desc) nb) db
    = Inr (db\<lparr>wallet_ledgers := wallet_ledgers db @ legs, wallet_seq := wallet_seq db + 2,
              subscribers := update_where (\<lambda>x. sub_id x = i) (\<lambda>x. x\<lparr>sub_balance := nb\<rparr>) (subscribers db),
              gl_entries := gl_entries db @ [g], gl_seq := gl_seq db + 1,
              gl_lines := gl_lines db @ charge_lines db amt tax\<rparr>, tx)"
proof -
  let ?p = "post_posting (charge_request i f amt tax desc) nb"
  have st: "stmt pg l = Inr ()" for l using up by simp
  let ?legs = "[leg_row (wallet_seq db) (rp_Debit ?p) None amt nb,
                leg_row (wallet_seq db + 1) (rp_Credit ?p) None amt nb]"
  let ?db3 = "db\<lparr>wallet_ledgers := wallet_ledgers db @ ?legs, wallet_seq := wallet_seq db + 2,
                 subscribers := update_where (\<lambda>x. sub_id x = i) (\<lambda>x. x\<lparr>sub_balance := nb\<rparr>) (subscribers db)\<rparr>"
  have "charge_accounts ?db3" and lines: "charge_lines ?db3 amt tax = charge_lines db amt tax"
    using acc by (simp_all add: charge_accounts_def charge_lines_def)
  from charge_gl_entry [OF ok amt tax assms(5,6) this(1) up, of i f desc nb "wallet_seq db + 1"]
  obtain g where gl: "postWalletGLEntry pg ?p (wallet_seq db + 1) ?db3
      = Inr (?db3\<lparr>gl_entries := gl_entries db @ [g], gl_seq := gl_seq db + 1,
                  gl_lines := gl_lines db @ charge_lines db amt tax\<rparr>)"
    unfolding lines by auto
  have "insertLeg pg l e None d = Inr (d\<lparr>wallet_ledgers := wallet_ledgers d @ [leg_row (wallet_seq d) e None amt nb],
                                       wallet_seq := wallet_seq d + 1\<rparr>, wallet_seq d)"
    if "e = rp_Debit ?p \<or> e = rp_Credit ?p" and "subscribers d = subscribers db" for l e d
    unfolding insertLeg_Inr using that amt nb fk up
    by (auto simp: post_posting_def charge_request_def counter_entry_type_def find_subscriber_def)
  moreover have "we_Token (rp_Credit ?p) = None"
    by (simp add: post_posting_def charge_request_def token_ptr_def)
  moreover have "rp_NewBalance ?p = nb" and "rp_SubscriberID ?p = i"
    by (simp_all add: post_posting_def charge_request_def)
  ultimately show ?thesis
    using gl chk nb by (simp add: recharge_body_def st numericE_def update_subscribers_def add.assoc) blast
qed

text \<open>
  With every statement running, representable amounts and enough money, the charge commits: the
  subscriber's balance falls by the whole amount, and the journal gets exactly those lines.
\<close>

lemma charge_commits:
  assumes ok: "numeric_ok pg" and inv: "wallet_inv pg db" and up: "pg_faults pg = no_faults"
    and amt: "numeric pg 12 amt = Some amt" and tax: "numeric pg 12 tax = Some tax"
    and "0 \<le> tax" and "tax < amt" and acc: "charge_accounts db"
    and r: "find_subscriber db i = Some r" and "amt \<le> sub_balance r"
  obtains legs g tx where
    "Post (BillingStore pg) db (charge_request i f amt tax desc)
     = (db\<lparr>wallet_ledgers := wallet_ledgers db @ legs, wallet_seq := wallet_seq db + 2,
          subscribers := update_where (\<lambda>x. sub_id x = i) (\<lambda>x. x\<lparr>sub_balance := sub_balance r - amt\<rparr>)
                           (subscribers db),
          gl_entries := gl_entries db @ [g], gl_seq := gl_seq db + 1,
          gl_lines := gl_lines db @ charge_lines db amt tax\<rparr>, Inr tx)"
proof -
  let ?req = "charge_request i f amt tax desc" and ?nb = "sub_balance r - amt"
  have "r \<in> set (subscribers db)"
    using r by (auto simp: find_subscriber_def dest: find_SomeD)
  then have "numeric pg 12 (sub_balance r) = Some (sub_balance r)"
    using inv ok by (simp add: wallet_inv_def subscribers_ok_def)
  then have nb: "numeric pg 12 ?nb = Some ?nb" using stored_rest [OF ok _ amt] assms(6,7,10) by simp
  have fk: "find_subscriber db i \<noteq> None" using r by simp
  have chk: "\<forall>x \<in> set (subscribers db). sub_id x = i \<longrightarrow> subscriber_checks (x\<lparr>sub_balance := ?nb\<rparr>)"
    using charge_balance_write [OF inv r] assms(10) by simp
  obtain legs g tx where body: "recharge_body pg (post_posting ?req ?nb) db
    = Inr (db\<lparr>wallet_ledgers := wallet_ledgers db @ legs, wallet_seq := wallet_seq db + 2,
          subscribers := update_where (\<lambda>x. sub_id x = i) (\<lambda>x. x\<lparr>sub_balance := ?nb\<rparr>) (subscribers db),
          gl_entries := gl_entries db @ [g], gl_seq := gl_seq db + 1,
          gl_lines := gl_lines db @ charge_lines db amt tax\<rparr>, tx)" (is "_ = Inr (?db', _)")
    using charge_body [OF ok up amt tax assms(6,7) acc fk nb chk, of f desc] by blast
  have "check_gl_journal_balanced db ?db'"
    by (rule charge_lines_balanced) (use inv in \<open>simp_all add: wallet_inv_def\<close>)
  with body up have rec: "RecordRecharge pg db (post_posting ?req ?nb) = (?db', Inr tx)"
    by (simp add: RecordRecharge_def inTx_Inr)
  have "existing_tx (BillingStore pg) db [] = None" by (simp add: existing_tx_def)
  with rec r up assms(6,7,10)
  have "Post (BillingStore pg) db ?req = (?db', Inr (tx\<lparr>tx_BalanceAfter := rp_NewBalance (post_posting ?req ?nb)\<rparr>))"
    by (simp add: Post_def charge_request_def BillingStore_def GetSubscriberBalance_def stmt_def
        record_posting_def Let_def)
  then show thesis by (rule that)
qed

end
