(* ===== verification/WalletBooks.thy ===== *)
theory WalletBooks
  imports Wallet
begin

text \<open>
  Properties of the wallet service over its store: runs of recharges and postings with failing
  statements, idempotency, the booking of a taxed charge, and the interleaving of two debits.
\<close>

section \<open>Runs of the wallet\<close>

text \<open>A run: a sequence of calls, each with its own pattern of failing statements.\<close>

datatype 'd wallet_call = CallRecharge "'d RechargeRequest" | CallPost "'d PostRequest"

fun do_call :: "'d::linordered_idom pg \<Rightarrow> 'd wallet_call \<Rightarrow> 'd db \<Rightarrow> 'd db" where
  "do_call pg (CallRecharge req) db = fst (Recharge (BillingStore pg) db req)"
| "do_call pg (CallPost req) db = fst (Post (BillingStore pg) db req)"

fun wallet_run :: "('d::linordered_idom pg \<times> 'd wallet_call) list \<Rightarrow> 'd db \<Rightarrow> 'd db" where
  "wallet_run [] db = db"
| "wallet_run ((pg, c) # cs) db = wallet_run cs (do_call pg c db)"

text \<open>A call with an amount of at most two places, not posting the wallet against itself.\<close>

fun call_ok :: "'d::linordered_idom pg \<Rightarrow> 'd wallet_call \<Rightarrow> bool" where
  "call_ok pg (CallRecharge req) = (numeric pg 12 (rr_Amount req) = Some (rr_Amount req))"
| "call_ok pg (CallPost req) = (numeric pg 12 (pr_Amount req) = Some (pr_Amount req)
                               \<and> pr_CounterAccount req \<noteq> AccountSubscriberWallet)"

definition ledger_agrees :: "'d::linordered_idom db \<Rightarrow> bool" where
  "ledger_agrees db = (\<forall>r \<in> set (subscribers db). sub_balance r = wallet_sum db (sub_id r))"

lemma ledger_agrees_iff:
  assumes "wallet_inv pg db"
  shows "ledger_agrees db \<longleftrightarrow> (\<forall>i b. balance_of db i = Some b \<longrightarrow> wallet_sum db i = b)"
proof -
  have dist: "distinct (map sub_id (subscribers db))"
    using assms by (simp add: wallet_inv_def subscribers_ok_def)
  have "balance_of db i = Some b \<longleftrightarrow> (\<exists>r \<in> set (subscribers db). sub_id r = i \<and> sub_balance r = b)" for i b
    using find_Some_iff_distinct [OF dist] find_SomeD [of "\<lambda>r. sub_id r = i" "subscribers db"]
    by (auto simp: balance_of_def find_subscriber_def)
  then show ?thesis unfolding ledger_agrees_def by metis
qed

lemma balance_nonneg:
  assumes "wallet_inv pg db" and "balance_of db i = Some b"
  shows "0 \<le> b"
proof -
  from assms(2) obtain r where "r \<in> set (subscribers db)" and "sub_balance r = b"
    by (auto simp: balance_of_def find_subscriber_def dest: find_SomeD)
  with assms(1) show ?thesis
    by (auto simp: wallet_inv_def subscribers_ok_def subscriber_checks_def chk_wallet_balance_nonneg_def)
qed

lemma wallet_inv_cong: "numeric pg = numeric pg' \<Longrightarrow> wallet_inv pg db = wallet_inv pg' db"
  by (simp add: wallet_inv_def subscribers_ok_def numeric_ok_def)

lemma do_call_sound:
  assumes "numeric_ok pg" and inv: "wallet_inv pg db" and "ledger_agrees db" and "call_ok pg c"
  shows "wallet_inv pg (do_call pg c db) \<and> ledger_agrees (do_call pg c db)"
proof -
  have agree: "\<forall>i b. balance_of db i = Some b \<longrightarrow> wallet_sum db i = b"
    using assms(3) ledger_agrees_iff [OF inv] by blast
  have "wallet_inv pg (do_call pg c db)
     \<and> (\<forall>i b. balance_of (do_call pg c db) i = Some b \<longrightarrow> wallet_sum (do_call pg c db) i = b)"
  proof (cases c)
    case (CallRecharge req)
    with assms bs.Recharge_sound [OF inv agree, of req] show ?thesis
      by (cases "Recharge (BillingStore pg) db req") (auto simp: stored_def)
  next
    case (CallPost req)
    with assms bs.Post_sound [OF inv agree, of req] show ?thesis
      by (cases "Post (BillingStore pg) db req") (auto simp: stored_def)
  qed
  then show ?thesis using ledger_agrees_iff by blast
qed


text \<open>
  C12. Recharging is idempotent in the transaction token: once a recharge (or a posting) with a
  token has succeeded, repeating the call leaves the database as it is and reports the same
  ledger transaction, whatever amount and balance it finds.
\<close>

theorem wallet_idempotent:
  assumes "pg_faults pg ''get transaction'' = None"
  shows "(Recharge (BillingStore pg) db req = (db', Inr tx) \<and> rr_Token req \<noteq> []
          \<longrightarrow> (\<exists>tx'. Recharge (BillingStore pg) db' req = (db', Inr tx') \<and> tx_ID tx' = tx_ID tx))
       \<and> (Post (BillingStore pg) db preq = (db', Inr tx) \<and> pr_Token preq \<noteq> []
          \<longrightarrow> (\<exists>tx'. Post (BillingStore pg) db' preq = (db', Inr tx') \<and> tx_ID tx' = tx_ID tx))"
proof -
  have up: "\<exists>res. q_GetTransactionByToken (BillingStore pg) s t = Inr res" for s t
    using assms by (simp add: BillingStore_def GetTransactionByToken_def stmt_def)
  show ?thesis
    using up [of db' "rr_Token req"] up [of db' "pr_Token preq"] bs.Recharge_again bs.Post_again by blast
qed

text \<open>
  C20. A taxed charge is booked in full: when it goes through, the subscriber pays the whole amount,
  and the journal gets one balanced entry that credits revenue with the amount net of tax,
  credits GST Payable with the tax and debits the wallet liability with the total.
\<close>

theorem taxed_charge_booked:
  assumes "numeric_ok pg" and "wallet_inv pg db" and "pg_faults pg = no_faults"
    and "numeric pg 12 amt = Some amt" and "numeric pg 12 tax = Some tax"
    and "0 < tax" and "tax < amt" and "charge_accounts db"
    and "balance_of db i = Some b" and "amt \<le> b"
  shows "\<exists>db' tx. Post (BillingStore pg) db (charge_request i f amt tax desc) = (db', Inr tx)
       \<and> balance_of db' i = Some (b - amt)
       \<and> gl_lines db' = gl_lines db @
           [\<lparr>gl_entry_id = gl_seq db, gl_account = the (map_of (chart_of_accounts db) ''4000''),
             gl_debit = 0, gl_credit = amt - tax\<rparr>,
            \<lparr>gl_entry_id = gl_seq db, gl_account = the (map_of (chart_of_accounts db) ''2200''),
             gl_debit = 0, gl_credit = tax\<rparr>,
            \<lparr>gl_entry_id = gl_seq db, gl_account = the (map_of (chart_of_accounts db) ''1200''),
             gl_debit = amt, gl_credit = 0\<rparr>]"
proof -
  from assms(9) obtain r where r: "find_subscriber db i = Some r" and b: "sub_balance r = b"
    by (auto simp: balance_of_def)
  have "0 \<le> tax" and "amt \<le> sub_balance r" using assms(6,10) b by simp_all
  from charge_commits [OF assms(1-5) this(1) assms(7,8) r this(2), of f desc]
  obtain legs g tx where post: "Post (BillingStore pg) db (charge_request i f amt tax desc)
     = (db\<lparr>wallet_ledgers := wallet_ledgers db @ legs, wallet_seq := wallet_seq db + 2,
          subscribers := update_where (\<lambda>x. sub_id x = i) (\<lambda>x. x\<lparr>sub_balance := sub_balance r - amt\<rparr>)
                           (subscribers db),
          gl_entries := gl_entries db @ [g], gl_seq := gl_seq db + 1,
          gl_lines := gl_lines db @ charge_lines db amt tax\<rparr>, Inr tx)" (is "_ = (?db', _)") .
  have "find_subscriber ?db' i = Some (r\<lparr>sub_balance := sub_balance r - amt\<rparr>)"
    using r by (auto simp: find_subscriber_def find_update_where dest: find_SomeD)
  then have "balance_of ?db' i = Some (b - amt)" by (simp add: balance_of_def b)
  moreover have "gl_lines ?db' = gl_lines db @ charge_lines db amt tax" by simp
  ultimately show ?thesis
    using post assms(6) unfolding charge_lines_def Let_def by force
qed

text \<open>Two debits that both read the balance \<open>b\<close> before either wrote: what they leave for every subscriber.\<close>

lemma lost_update:
  assumes "numeric_ok pg" and "wallet_inv pg db" and "balance_of db i = Some b"
    and "numeric pg 12 a1 = Some a1" and "numeric pg 12 a2 = Some a2"
    and "RecordRecharge pg db (post_posting (charge_request i f a1 t1 d1) (b - a1)) = (db1, Inr tx1)"
    and "RecordRecharge pg db1 (post_posting (charge_request i f a2 t2 d2) (b - a2)) = (db2, Inr tx2)"
  shows "wallet_inv pg db2 \<and> balance_of db2 j = (if j = i then Some (b - a2) else balance_of db j)
       \<and> wallet_sum db2 j = wallet_sum db j - (if j = i then a1 + a2 else 0)"
proof -
  let ?p1 = "post_posting (charge_request i f a1 t1 d1) (b - a1)"
  let ?p2 = "post_posting (charge_request i f a2 t2 d2) (b - a2)"
  have wf: "posting_wf ?p1" "posting_wf ?p2"
    by (simp_all add: posting_wf_def post_posting_def charge_request_def account_defs)
  have cred: "we_Amount (rp_Credit ?p1) = a1" "signed_entry (rp_Credit ?p1) = - a1" "rp_SubscriberID ?p1 = i"
    "we_Amount (rp_Credit ?p2) = a2" "signed_entry (rp_Credit ?p2) = - a2" "rp_SubscriberID ?p2 = i"
    "rp_NewBalance ?p1 = b - a1" "rp_NewBalance ?p2 = b - a2"
    by (simp_all add: post_posting_def charge_request_def signed_entry_def)
  have "numeric pg 12 b = Some b"
    using assms(1-3) by (auto simp: wallet_inv_def subscribers_ok_def balance_of_def find_subscriber_def
        dest: find_SomeD)
  then have "stored_exactly pg (rp_NewBalance ?p1)" and "stored_exactly pg (rp_NewBalance ?p2)"
    using assms(1,4,5) bs.exact_sub [of pg b a1] bs.exact_sub [of pg b a2] by (simp_all add: stored_def cred)
  then have "balance_of db2 j = (if j = i then Some (b - a2) else balance_of db j)"
    using record_balance [OF wf(1) _ assms(6), of j] record_balance [OF wf(2) _ assms(7), of j] cred by auto
  moreover have "wallet_sum db2 j = wallet_sum db j - (if j = i then a1 + a2 else 0)"
    using record_ledger [OF wf(1) _ assms(6), of j] record_ledger [OF wf(2) _ assms(7), of j] assms(1,4,5)
    by (simp add: cred stored_def)
  ultimately show ?thesis
    using wallet_inv_record assms(2,6,7) by blast
qed

text \<open>
  C34. The lost update. \<open>Post\<close> reads the balance and later writes an absolute new balance, with no lock
  in between. When two debits of one subscriber both read the balance \<open>b\<close> before either writes and
  both commit, the second write hides the first: the balance is \<open>b\<close> less the second amount only,
  non-negative as the database check demands, while the ledger holds both debits.
\<close>

theorem concurrent_debits_lose_update:
  assumes "numeric_ok pg" and "wallet_inv pg db" and "balance_of db i = Some b" and "wallet_sum db i = b"
    and "numeric pg 12 a1 = Some a1" and "numeric pg 12 a2 = Some a2"
    and "RecordRecharge pg db (post_posting (charge_request i f a1 t1 d1) (b - a1)) = (db1, Inr tx1)"
    and "RecordRecharge pg db1 (post_posting (charge_request i f a2 t2 d2) (b - a2)) = (db2, Inr tx2)"
  shows "balance_of db2 i = Some (b - a2) \<and> wallet_sum db2 i = b - a1 - a2 \<and> 0 \<le> b - a2"
  using lost_update [OF assms(1-3,5-8), of i] assms(4) balance_nonneg [of pg db2 i "b - a2"] by simp

section \<open>Witnesses\<close>

text \<open>One subscriber with 1000.00 in the wallet and the ledger that explains it.\<close>

definition wb_sub :: "rat subscriber" where
  "wb_sub = \<lparr>sub_id = 7, sub_username = ''asha'', sub_caf = ''CAF-7'', sub_mobile = ''+919876543210'', sub_password_hash = [],
     sub_nt_hash = [], sub_plan_id = 1, sub_franchise_id = None, sub_status = Active,
     sub_dunning = DunningActive, sub_balance = 1000, sub_state = ''TN'', sub_expiry = Some 5,
     sub_fup_active = False, sub_override_rate = [], sub_override_expires = None\<rparr>"

definition wb_leg :: "rat wallet_row" where
  "wb_leg = \<lparr>wl_id = 1, wl_subscriber = 7, wl_franchise = None, wl_account = AccountSubscriberWallet,
     wl_entry_type = ''credit'', wl_amount = 1000, wl_balance_after = 1000, wl_token = Some ''pay_0'',
     wl_description = ''opening'', wl_adjusted_by = []\<rparr>"

definition wb_db :: "rat db" where
  "wb_db = \<lparr>subscribers = [wb_sub], plans = [], wallet_ledgers = [wb_leg], wallet_seq = 2,
     gl_entries = [], gl_lines = [], gl_seq = 1,
     chart_of_accounts = [(''1000'', 1), (''1200'', 2), (''4000'', 5), (''2200'', 9), (''5200'', 8)],
     gst_rates = [], invoices = [], invoice_seq = 1\<rparr>"

definition wb_recharge :: "rat RechargeRequest" where
  "wb_recharge = \<lparr>rr_SubscriberID = 7, rr_Amount = 250, rr_Token = ''pay_1'', rr_FranchiseID = None,
                    rr_Description = ''top-up''\<rparr>"

definition net_down :: faults where
  "net_down l = (if l = ''commit'' then Some ''conn closed'' else None)"

lemmas wb_defs = wb_sub_def wb_leg_def wb_db_def wb_recharge_def

lemma wb_numeric:
  "rat_numeric 12 1000 = Some 1000" "rat_numeric 12 250 = Some 250" "rat_numeric 12 590 = Some 590"
  "rat_numeric 12 90 = Some 90" "rat_numeric 12 200 = Some 200" "rat_numeric 12 300 = Some 300"
  by code_simp+

lemma wb_inv: "wallet_inv (rat_pg flt) wb_db"
  using wb_numeric(1)
  by (simp add: wallet_inv_def subscribers_ok_def subscriber_checks_def chk_wallet_balance_nonneg_def
      chk_authorised_subscriber_is_billable_def gl_ok_def entry_debits_def entry_credits_def rat_pg_def wb_defs)

lemma wb_agrees: "ledger_agrees wb_db" and wb_balance: "balance_of wb_db 7 = Some 1000"
  by (simp_all add: ledger_agrees_def balance_of_def find_subscriber_def wallet_sum_def on_wallet_def
      signed_row_def wb_defs)

definition wb_calls :: "(rat pg \<times> rat wallet_call) list" where
  "wb_calls = [(rat_pg net_down, CallRecharge wb_recharge), (rat_pg no_faults, CallRecharge wb_recharge),
                 (rat_pg no_faults, CallPost (charge_request 7 None 590 90 ''renewal''))]"


definition wb_after :: "rat db" where
  "wb_after = fst (Recharge (BillingStore (rat_pg no_faults)) wb_db wb_recharge)"

lemma wb_first_recharge:
  "map_sum id tx_ID (snd (Recharge (BillingStore (rat_pg no_faults)) wb_db wb_recharge)) = Inr 3"
  by code_simp

theorem wallet_idempotent_witness:
  "\<exists>tx'. Recharge (BillingStore (rat_pg no_faults)) wb_after wb_recharge = (wb_after, Inr tx')
        \<and> tx_ID tx' = 3"
proof -
  obtain tx where "Recharge (BillingStore (rat_pg no_faults)) wb_db wb_recharge = (wb_after, Inr tx)"
    and "tx_ID tx = 3"
    using wb_first_recharge unfolding wb_after_def
    by (cases "Recharge (BillingStore (rat_pg no_faults)) wb_db wb_recharge"; cases "snd (Recharge (BillingStore (rat_pg no_faults)) wb_db wb_recharge)") auto
  then show ?thesis
    using wallet_idempotent [of "rat_pg no_faults" wb_db wb_recharge wb_after tx]
    by (auto simp: rat_pg_def wb_recharge_def)
qed

theorem taxed_charge_booked_witness:
  "\<exists>db' tx. Post (BillingStore (rat_pg no_faults)) wb_db (charge_request 7 None 590 90 ''renewal'') = (db', Inr tx)
     \<and> balance_of db' 7 = Some 410 \<and> map gl_credit (gl_lines db') = [500, 90, 0]"
  using taxed_charge_booked [OF rat_pg_ok wb_inv, of no_faults 590 90 7 1000 None "''renewal''"]
    wb_numeric wb_balance
  by (auto simp: rat_pg_def charge_accounts_def wb_db_def)

definition wb_debit :: "rat \<Rightarrow> rat RechargePosting" where
  "wb_debit a = post_posting (charge_request 7 None a 0 ''adj'') (1000 - a)"

lemma wb_interleaving:
  "isl (snd (RecordRecharge (rat_pg no_faults) wb_db (wb_debit 200))) = False"
  "isl (snd (RecordRecharge (rat_pg no_faults)
      (fst (RecordRecharge (rat_pg no_faults) wb_db (wb_debit 200))) (wb_debit 300))) = False"
  by code_simp+

theorem concurrent_debits_lose_update_witness:
  "\<exists>db1 db2. fst (RecordRecharge (rat_pg no_faults) wb_db (wb_debit 200)) = db1
     \<and> fst (RecordRecharge (rat_pg no_faults) db1 (wb_debit 300)) = db2
     \<and> balance_of db2 7 = Some 700 \<and> wallet_sum db2 7 = 500"
proof -
  let ?pg = "rat_pg no_faults"
  obtain db1 tx1 where 1: "RecordRecharge ?pg wb_db (wb_debit 200) = (db1, Inr tx1)"
    using wb_interleaving(1) by (metis isl_def sum.collapse(2) prod.collapse)
  obtain db2 tx2 where 2: "RecordRecharge ?pg db1 (wb_debit 300) = (db2, Inr tx2)"
    using wb_interleaving(2) 1 by (metis fst_conv isl_def sum.collapse(2) prod.collapse)
  have "wallet_sum wb_db 7 = 1000"
    by (simp add: wallet_sum_def on_wallet_def signed_row_def wb_defs)
  then have "balance_of db2 7 = Some (1000 - 300) \<and> wallet_sum db2 7 = 1000 - 200 - 300 \<and> 0 \<le> (1000 :: rat) - 300"
    using wb_numeric wb_balance 1 2 unfolding wb_debit_def
    by (intro concurrent_debits_lose_update [OF rat_pg_ok wb_inv]) (simp_all add: rat_pg_def)
  with 1 2 show ?thesis by auto
qed

end
