(* ===== verification/Dunning.thy ===== *)
theory Dunning
  imports JobQueue Schema
begin

text \<open>
  The dunning state machine (\<open>src/internal/billing/dunning.go\<close>), its hourly scanner
  (\<open>dunning_scanner.go\<close>) and the store operations they use (\<open>src/internal/db/billing.go\<close>).

  \<open>TransitionDunning\<close> and the scanner's walk are written against a record of the two operations of the
  Go interface \<open>DunningQuerier\<close>; the locale \<open>dunning_store\<close> is its contract. The day counts of the
  code are floating-point hours divided by 24. At the thresholds involved (at most seven days) one
  nanosecond is several units in the last place of the quotient, so the comparisons agree with the
  exact ones on nanoseconds used here.
\<close>

section \<open>The state machine\<close>

definition validTransitions :: "(DunningState \<times> DunningState) list" where
  "validTransitions =
    [(DunningActive, DunningRemind7d),
     (DunningRemind7d, DunningRemind3d),
     (DunningRemind3d, DunningRemind1d),
     (DunningRemind1d, DunningGracePeriod),
     (DunningGracePeriod, DunningSoftSuspended),
     (DunningSoftSuspended, DunningHardSuspended),
     (DunningGracePeriod, DunningActive),
     (DunningSoftSuspended, DunningActive),
     (DunningHardSuspended, DunningActive),
     (DunningRemind7d, DunningActive),
     (DunningRemind3d, DunningActive),
     (DunningRemind1d, DunningActive)]"

fun dunningToSubscriberStatus :: "DunningState \<Rightarrow> sub_status" where
  "dunningToSubscriberStatus DunningGracePeriod = GracePeriod"
| "dunningToSubscriberStatus DunningSoftSuspended = SoftSuspended"
| "dunningToSubscriberStatus DunningHardSuspended = HardSuspended"
| "dunningToSubscriberStatus _ = Active"

record 's DunningQuerier =
  dq_Get :: "'s \<Rightarrow> int \<Rightarrow> err + (DunningState \<times> time)"
  dq_Set :: "'s \<Rightarrow> int \<Rightarrow> DunningState \<Rightarrow> sub_status \<Rightarrow> 's \<times> (err + unit)"

definition TransitionDunning ::
  "'s DunningQuerier \<Rightarrow> 's \<Rightarrow> int \<Rightarrow> DunningState \<Rightarrow> 's \<times> (err + unit)" where
  "TransitionDunning q s subscriberID targetState =
     (case dq_Get q s subscriberID of
        Inl e \<Rightarrow> (s, Inl e)
      | Inr (currentState, _) \<Rightarrow>
          if (currentState, targetState) \<in> set validTransitions
          then dq_Set q s subscriberID targetState (dunningToSubscriberStatus targetState)
          else (s, Inl (Err ''dunning: invalid transition'')))"

section \<open>The ladder\<close>

definition GracePeriodDays :: int where "GracePeriodDays = 3"
definition SoftSuspendDays :: int where "SoftSuspendDays = 3"
definition remind7dDays :: int where "remind7dDays = 7"
definition remind3dDays :: int where "remind3dDays = 3"
definition remind1dDays :: int where "remind1dDays = 1"

lemmas ladder_days = GracePeriodDays_def SoftSuspendDays_def remind7dDays_def remind3dDays_def
  remind1dDays_def

definition NextDunningState :: "DunningState \<Rightarrow> time \<Rightarrow> time \<Rightarrow> DunningState" where
  "NextDunningState current planExpiry now =
     (if now < planExpiry \<and> current \<in> {DunningGracePeriod, DunningSoftSuspended, DunningHardSuspended}
      then DunningActive
      else let untilExpiry = time_sub planExpiry now in
        if untilExpiry \<le> - (GracePeriodDays + SoftSuspendDays) * Day then DunningHardSuspended
        else if untilExpiry \<le> - GracePeriodDays * Day then DunningSoftSuspended
        else if untilExpiry \<le> 0 then DunningGracePeriod
        else if untilExpiry \<le> remind1dDays * Day then DunningRemind1d
        else if untilExpiry \<le> remind3dDays * Day then DunningRemind3d
        else if untilExpiry \<le> remind7dDays * Day then DunningRemind7d
        else DunningActive)"

definition TemplateDunningReminder :: string where "TemplateDunningReminder = ''TMPL-003''"
definition TemplateSoftSuspended :: string where "TemplateSoftSuspended = ''TMPL-004''"
definition TemplateHardSuspended :: string where "TemplateHardSuspended = ''TMPL-005''"

fun TemplateForDunningState :: "DunningState \<Rightarrow> string option" where
  "TemplateForDunningState DunningRemind7d = Some TemplateDunningReminder"
| "TemplateForDunningState DunningRemind3d = Some TemplateDunningReminder"
| "TemplateForDunningState DunningRemind1d = Some TemplateDunningReminder"
| "TemplateForDunningState DunningGracePeriod = Some TemplateDunningReminder"
| "TemplateForDunningState DunningSoftSuspended = Some TemplateSoftSuspended"
| "TemplateForDunningState DunningHardSuspended = Some TemplateHardSuspended"
| "TemplateForDunningState DunningActive = None"

definition ladder :: "DunningState list" where
  "ladder = [DunningActive, DunningRemind7d, DunningRemind3d, DunningRemind1d, DunningGracePeriod,
             DunningSoftSuspended, DunningHardSuspended]"

definition ladder_index :: "DunningState \<Rightarrow> int" where
  "ladder_index x = fold (\<lambda>(i, s) acc. if s = x then int i else acc) (enumerate 0 ladder) (- 1)"

definition stepToward :: "DunningState \<Rightarrow> DunningState \<Rightarrow> DunningState option" where
  "stepToward current target =
     (if target = DunningActive then Some DunningActive
      else let ci = ladder_index current; ti = ladder_index target in
        if ci < 0 \<or> ti < 0 \<or> ti \<le> ci then None else Some (ladder ! nat (ci + 1)))"

fun state_name :: "DunningState \<Rightarrow> string" where
  "state_name DunningActive = ''active''"
| "state_name DunningRemind7d = ''remind_7d''"
| "state_name DunningRemind3d = ''remind_3d''"
| "state_name DunningRemind1d = ''remind_1d''"
| "state_name DunningGracePeriod = ''grace_period''"
| "state_name DunningSoftSuspended = ''soft_suspended''"
| "state_name DunningHardSuspended = ''hard_suspended''"

definition DunningNoticeTaskID :: "int \<Rightarrow> DunningState \<Rightarrow> time \<Rightarrow> string" where
  "DunningNoticeTaskID subscriberID state planExpiry =
     ''dunning-'' @ show_int subscriberID @ ''-'' @ state_name state @ ''-'' @ show_int (unix_seconds planExpiry)"

section \<open>The scanner\<close>

record DunningCandidate =
  dc_SubscriberID :: int
  dc_Username :: string
  dc_MobileNumber :: string
  dc_State :: DunningState
  dc_PlanExpiry :: time

record DunningNoticePayload =
  dn_SubscriberID :: int
  dn_Username :: string
  dn_State :: DunningState
  dn_TemplateID :: string
  dn_DaysOverdue :: int

record ServiceRestoredPayload =
  sr_SubscriberID :: int
  sr_Username :: string
  sr_PlanName :: string
  sr_ValidUntil :: time

text \<open>The payloads billing marshals into its tasks; \<open>encoding/json\<close> is the constructor.\<close>

datatype payload = DunningNotice DunningNoticePayload | ServiceRestored ServiceRestoredPayload

definition QueueNotifications :: string where "QueueNotifications = ''notifications''"
definition TaskTypeDunningNotice :: string where "TaskTypeDunningNotice = ''notif:dunning''"

text \<open>The walk of \<open>advance\<close>, one transition at a time, bounded by \<open>maxSteps\<close>.\<close>

fun advance_loop ::
  "nat \<Rightarrow> 's DunningQuerier \<Rightarrow> int \<Rightarrow> DunningState \<Rightarrow> DunningState \<Rightarrow> 's \<Rightarrow> 's \<times> (err + DunningState)" where
  "advance_loop 0 q i target state s = (s, Inr state)"
| "advance_loop (Suc n) q i target state s =
     (if state = target then (s, Inr state)
      else case stepToward state target of
        None \<Rightarrow> (s, Inl (Err ''no path''))
      | Some next \<Rightarrow>
          (case TransitionDunning q s i next of
             (s', Inl e) \<Rightarrow> (s', Inl e)
           | (s', Inr _) \<Rightarrow> advance_loop n q i target next s'))"

definition maxSteps :: nat where "maxSteps = 8"

definition days_overdue :: "time \<Rightarrow> time \<Rightarrow> int" where
  "days_overdue now planExpiry = (let d = go_div (time_sub now planExpiry) Day in if d < 0 then 0 else d)"

definition notice_task :: "DunningCandidate \<Rightarrow> DunningState \<Rightarrow> string \<Rightarrow> time \<Rightarrow> payload Task" where
  "notice_task c target templateID now =
     NewTask TaskTypeDunningNotice
       (DunningNotice \<lparr>dn_SubscriberID = dc_SubscriberID c, dn_Username = dc_Username c, dn_State = target,
                       dn_TemplateID = templateID, dn_DaysOverdue = days_overdue now (dc_PlanExpiry c)\<rparr>)
       [Queue QueueNotifications,
        TaskID (DunningNoticeTaskID (dc_SubscriberID c) target (dc_PlanExpiry c)),
        MaxRetry 3, Retention (24 * Hour)]"

text \<open>\<open>advance\<close>: the walk, then one notice; the queue is \<open>None\<close> when the scanner has no client.\<close>

definition advance ::
  "time \<Rightarrow> faults \<Rightarrow> 's DunningQuerier \<Rightarrow> DunningCandidate \<Rightarrow> DunningState
   \<Rightarrow> 's \<times> payload jobqueue option \<Rightarrow> ('s \<times> payload jobqueue option) \<times> (err + unit)" where
  "advance now flt q c target st =
     (case advance_loop maxSteps q (dc_SubscriberID c) target (dc_State c) (fst st) of
        (s', Inl e) \<Rightarrow> ((s', snd st), Inl e)
      | (s', Inr state) \<Rightarrow>
          if state \<noteq> target then ((s', snd st), Inl (Err ''did not reach target''))
          else (case (TemplateForDunningState target, snd st) of
            (Some templateID, Some jq) \<Rightarrow>
              (case EnqueueContext now flt jq (Some (notice_task c target templateID now)) [] of
                 (jq', Inr _) \<Rightarrow> ((s', Some jq'), Inr ())
               | (jq', Inl ErrTaskIDConflict) \<Rightarrow> ((s', Some jq'), Inr ())
               | (jq', Inl e) \<Rightarrow> ((s', Some jq'), Inl (Err ''enqueue dunning notice'')))
          | _ \<Rightarrow> ((s', snd st), Inr ())))"

fun scan_candidates ::
  "time \<Rightarrow> faults \<Rightarrow> 's DunningQuerier \<Rightarrow> DunningCandidate list
   \<Rightarrow> 's \<times> payload jobqueue option \<Rightarrow> 's \<times> payload jobqueue option" where
  "scan_candidates now flt q [] st = st"
| "scan_candidates now flt q (c # cs) st =
     (let target = NextDunningState (dc_State c) (dc_PlanExpiry c) now in
      if target = dc_State c then scan_candidates now flt q cs st
      else scan_candidates now flt q cs (fst (advance now flt q c target st)))"

section \<open>The store\<close>

definition GetSubscriberDunningState ::
  "'d pg \<Rightarrow> time \<Rightarrow> 'd db \<Rightarrow> int \<Rightarrow> err + (DunningState \<times> time)" where
  "GetSubscriberDunningState pg now db subscriberID =
     bindE (stmt pg ''get dunning state'') (\<lambda>_.
       case find_subscriber db subscriberID of
         None \<Rightarrow> Inl ErrNotFound
       | Some r \<Rightarrow> Inr (sub_dunning r, case sub_expiry r of None \<Rightarrow> now | Some e \<Rightarrow> e))"

definition is_dunning_candidate :: "time \<Rightarrow> 'd subscriber \<Rightarrow> bool" where
  "is_dunning_candidate now r =
     (case sub_expiry r of
        None \<Rightarrow> False
      | Some e \<Rightarrow> sub_status r \<noteq> Terminated \<and> (e \<le> now + 7 * Day \<or> sub_dunning r \<noteq> DunningActive))"

definition to_candidate :: "'d subscriber \<Rightarrow> DunningCandidate" where
  "to_candidate r = \<lparr>dc_SubscriberID = sub_id r, dc_Username = sub_username r,
                     dc_MobileNumber = sub_mobile r, dc_State = sub_dunning r,
                     dc_PlanExpiry = the (sub_expiry r)\<rparr>"

definition ListDunningCandidates :: "'d pg \<Rightarrow> time \<Rightarrow> 'd db \<Rightarrow> err + DunningCandidate list" where
  "ListDunningCandidates pg now db =
     bindE (stmt pg ''list dunning candidates'') (\<lambda>_.
       Inr (map to_candidate
             (rev (sort_key (\<lambda>r. the (sub_expiry r)) (filter (is_dunning_candidate now) (subscribers db))))))"

definition SetSubscriberDunningState ::
  "'d::linordered_idom pg \<Rightarrow> 'd db \<Rightarrow> int \<Rightarrow> DunningState \<Rightarrow> sub_status \<Rightarrow> 'd db \<times> (err + unit)" where
  "SetSubscriberDunningState pg db subscriberID state status =
     (case bindE (stmt pg ''set dunning state'') (\<lambda>_.
             update_subscribers (\<lambda>r. sub_id r = subscriberID)
               (\<lambda>r. r\<lparr>sub_dunning := state, sub_status := status\<rparr>) db) of
        Inl e \<Rightarrow> (db, Inl e)
      | Inr db' \<Rightarrow>
          if rows_affected (\<lambda>r. sub_id r = subscriberID) (subscribers db) = 0 then (db', Inl ErrNotFound)
          else (db', Inr ()))"

definition DunningStore :: "'d::linordered_idom pg \<Rightarrow> time \<Rightarrow> 'd db DunningQuerier" where
  "DunningStore pg now = \<lparr>dq_Get = GetSubscriberDunningState pg now, dq_Set = SetSubscriberDunningState pg\<rparr>"

text \<open>\<open>dbnow\<close> is the database's \<open>NOW()\<close>, \<open>now\<close> the scanner's own clock.\<close>

definition DunningScan ::
  "time \<Rightarrow> time \<Rightarrow> faults \<Rightarrow> 'd::linordered_idom pg \<Rightarrow> 'd db \<times> payload jobqueue option
   \<Rightarrow> ('d db \<times> payload jobqueue option) \<times> (err + unit)" where
  "DunningScan dbnow now flt pg st =
     (case ListDunningCandidates pg dbnow (fst st) of
        Inl e \<Rightarrow> (st, Inl e)
      | Inr candidates \<Rightarrow> (scan_candidates now flt (DunningStore pg dbnow) candidates st, Inr ()))"

text \<open>The admin API's termination (\<open>src/internal/db/subscribers.go\<close>); a missing row is \<open>(nil, nil)\<close>.\<close>

definition TerminateSubscriber ::
  "'d::linordered_idom pg \<Rightarrow> 'd db \<Rightarrow> int \<Rightarrow> 'd db \<times> (err + 'd subscriber option)" where
  "TerminateSubscriber pg db subscriberID =
     (case bindE (stmt pg ''terminate subscriber'') (\<lambda>_.
             update_subscribers (\<lambda>r. sub_id r = subscriberID) (\<lambda>r. r\<lparr>sub_status := Terminated\<rparr>) db) of
        Inl e \<Rightarrow> (db, Inl e)
      | Inr db' \<Rightarrow> (db', Inr (find_subscriber db' subscriberID)))"

section \<open>The walk along the ladder\<close>

lemma ladder_index_values [simp]:
  "ladder_index DunningActive = 0" "ladder_index DunningRemind7d = 1" "ladder_index DunningRemind3d = 2"
  "ladder_index DunningRemind1d = 3" "ladder_index DunningGracePeriod = 4"
  "ladder_index DunningSoftSuspended = 5" "ladder_index DunningHardSuspended = 6"
  by (simp_all add: ladder_index_def ladder_def)

lemma ladder_index_range: "0 \<le> ladder_index s \<and> ladder_index s \<le> 6"
  by (cases s) simp_all

text \<open>Upwards, each step is an edge of the machine and climbs exactly one rung.\<close>

lemma stepToward_up:
  assumes "ladder_index s < ladder_index t"
  shows "\<exists>n. stepToward s t = Some n \<and> ladder_index n = ladder_index s + 1 \<and> (s, n) \<in> set validTransitions"
  using assms by (cases s; cases t; simp add: stepToward_def ladder_def validTransitions_def)

lemma stepToward_active:
  assumes "s \<noteq> DunningActive"
  shows "stepToward s DunningActive = Some DunningActive \<and> (s, DunningActive) \<in> set validTransitions"
  using assms by (cases s) (simp_all add: stepToward_def validTransitions_def)

lemma stepToward_down: "t \<noteq> DunningActive \<Longrightarrow> ladder_index t < ladder_index s \<Longrightarrow> stepToward s t = None"
  by (simp add: stepToward_def)

lemma ladder_index_inj: "ladder_index s = ladder_index t \<Longrightarrow> s = t"
  by (cases s; cases t; simp)

section \<open>The contract of \<open>DunningQuerier\<close>\<close>

locale dunning_store =
  fixes q :: "'s DunningQuerier"
    and dstate :: "'s \<Rightarrow> int \<Rightarrow> DunningState option"
    and put :: "int \<Rightarrow> DunningState \<Rightarrow> 's \<Rightarrow> 's"
    and up :: "'s \<Rightarrow> int \<Rightarrow> bool"
  assumes get_state: "dq_Get q s i = Inr (d, e) \<Longrightarrow> dstate s i = Some d"
    and set_fail: "dq_Set q s i d st = (s', Inl er) \<Longrightarrow> s' = s"
    and set_ok: "dq_Set q s i d (dunningToSubscriberStatus d) = (s', Inr u) \<Longrightarrow> s' = put i d s"
    and put_state: "dstate s i \<noteq> None \<Longrightarrow> dstate (put i d s) i = Some d"
    and put_put: "put i d (put i d' s) = put i d s"
    and up_get: "up s i \<Longrightarrow> dstate s i = Some d \<Longrightarrow> \<exists>e. dq_Get q s i = Inr (d, e)"
    and up_set: "up s i \<Longrightarrow> dstate s i \<noteq> None \<Longrightarrow> \<exists>s' u. dq_Set q s i d (dunningToSubscriberStatus d) = (s', Inr u)"
    and up_put: "up s i \<Longrightarrow> up (put i d s) i"
begin

text \<open>A transition either is an edge of the machine and moves state and status together, or changes nothing.\<close>

lemma Transition_cases:
  assumes "TransitionDunning q s i t = (s', res)"
  obtains e where "res = Inl e" "s' = s"
  | d where "res = Inr ()" "dstate s i = Some d" "(d, t) \<in> set validTransitions" "s' = put i t s"
proof (cases "dq_Get q s i")
  case (Inl e)
  with assms that(1) show thesis by (auto simp: TransitionDunning_def)
next
  case (Inr x)
  obtain d e where x: "x = (d, e)" by force
  show thesis
  proof (cases "(d, t) \<in> set validTransitions")
    case True
    with assms Inr x have "dq_Set q s i t (dunningToSubscriberStatus t) = (s', res)"
      by (simp add: TransitionDunning_def)
    with that set_fail set_ok get_state Inr x True show thesis
      by (cases res) (metis, metis old.unit.exhaust)
  next
    case False
    with assms Inr x that(1) show thesis by (auto simp: TransitionDunning_def)
  qed
qed

lemma Transition_succeeds:
  assumes "up s i" and "dstate s i = Some d" and "(d, t) \<in> set validTransitions"
  shows "TransitionDunning q s i t = (put i t s, Inr ())"
proof -
  obtain e s' u where "dq_Get q s i = Inr (d, e)"
    and "dq_Set q s i t (dunningToSubscriberStatus t) = (s', Inr u)"
    using up_get [OF assms(1,2)] up_set [OF assms(1), of t] assms(2) by auto
  with assms(3) set_ok show ?thesis by (simp add: TransitionDunning_def)
qed

text \<open>Climbing from any rung to any higher one, within the bound the code sets.\<close>

lemma advance_loop_up:
  assumes "up s i" and "dstate s i = Some d" and "ladder_index d < ladder_index t"
    and "ladder_index t - ladder_index d \<le> int n"
  shows "advance_loop (Suc n) q i t d s = (put i t s, Inr t)"
  using assms
proof (induction n arbitrary: d s)
  case 0
  then show ?case by simp
next
  case (Suc n)
  obtain d' where d': "stepToward d t = Some d'" "ladder_index d' = ladder_index d + 1"
    "(d, d') \<in> set validTransitions"
    using stepToward_up [OF Suc.prems(3)] by blast
  have step: "TransitionDunning q s i d' = (put i d' s, Inr ())"
    using Transition_succeeds Suc.prems(1,2) d'(3) by blast
  have "d \<noteq> t" using Suc.prems(3) by auto
  then have unfold: "advance_loop (Suc (Suc n)) q i t d s = advance_loop (Suc n) q i t d' (put i d' s)"
    using d'(1) step by simp
  show ?case
  proof (cases "d' = t")
    case True
    then show ?thesis unfolding unfold by simp
  next
    case False
    then have "ladder_index d' < ladder_index t"
      using Suc.prems(3) d'(2) ladder_index_inj [of d' t] by fastforce
    moreover have "dstate (put i d' s) i = Some d'" using put_state Suc.prems(2) by simp
    ultimately show ?thesis
      unfolding unfold using Suc.IH [of "put i d' s" d'] up_put Suc.prems d'(2) put_put by simp
  qed
qed

lemma advance_loop_reaches:
  assumes "up s i" and "dstate s i = Some d" and "d \<noteq> t"
    and "t = DunningActive \<or> ladder_index d < ladder_index t"
  shows "advance_loop maxSteps q i t d s = (put i t s, Inr t)"
proof (cases "t = DunningActive")
  case True
  have "TransitionDunning q s i DunningActive = (put i DunningActive s, Inr ())"
    using Transition_succeeds stepToward_active [of d] assms(1-3) True by blast
  with True assms(3) stepToward_active [of d] show ?thesis
    by (simp add: maxSteps_def numeral_eq_Suc)
next
  case False
  then have "ladder_index d < ladder_index t" using assms(4) by simp
  moreover have "ladder_index t - ladder_index d \<le> int 7"
    using ladder_index_range [of t] ladder_index_range [of d] by linarith
  ultimately show ?thesis
    using advance_loop_up [OF assms(1,2), of t 7] by (simp add: maxSteps_def)
qed

text \<open>Whatever fails on the way, the walk only ever leaves the subscriber on some put of the ladder.\<close>

lemma advance_loop_puts:
  assumes "advance_loop n q i t d s = (s', res)"
  shows "s' = s \<or> (\<exists>x. s' = put i x s)"
  using assms
proof (induction n arbitrary: d s)
  case (Suc n)
  show ?case
  proof (cases "d = t \<or> stepToward d t = None")
    case True
    with Suc.prems show ?thesis by (auto split: if_splits)
  next
    case False
    then obtain d' where d': "stepToward d t = Some d'" by auto
    obtain s1 r1 where t1: "TransitionDunning q s i d' = (s1, r1)" by force
    then show ?thesis
    proof (cases rule: Transition_cases)
      case (1 e)
      with Suc.prems False d' t1 show ?thesis by auto
    next
      case (2 x)
      with Suc.prems False d' t1 have "advance_loop n q i t d' s1 = (s', res)" by auto
      from Suc.IH [OF this] 2 put_put show ?thesis by auto
    qed
  qed
qed simp

end

section \<open>The store keeps the contract\<close>

definition set_dunning :: "int \<Rightarrow> DunningState \<Rightarrow> 'd db \<Rightarrow> 'd db" where
  "set_dunning i d db =
     db\<lparr>subscribers := update_where (\<lambda>r. sub_id r = i)
          (\<lambda>r. r\<lparr>sub_dunning := d, sub_status := dunningToSubscriberStatus d\<rparr>) (subscribers db)\<rparr>"

definition dunning_of :: "'d db \<Rightarrow> int \<Rightarrow> DunningState option" where
  "dunning_of db i = map_option sub_dunning (find_subscriber db i)"

text \<open>The statements run, and the subscriber has an expiry and a non-negative balance, so no check fails.\<close>

definition dunning_up :: "'d::linordered_idom pg \<Rightarrow> 'd db \<Rightarrow> int \<Rightarrow> bool" where
  "dunning_up pg db i =
     (pg_faults pg = no_faults
      \<and> (\<forall>r \<in> set (subscribers db). sub_id r = i \<longrightarrow> sub_expiry r \<noteq> None \<and> 0 \<le> sub_balance r))"

lemma set_dunning_twice: "set_dunning i d (set_dunning i d' db) = set_dunning i d db"
  by (simp add: set_dunning_def update_where_def comp_def)

lemma find_set_dunning:
  "find_subscriber (set_dunning i d db) j
   = map_option (\<lambda>r. if sub_id r = i then r\<lparr>sub_dunning := d, sub_status := dunningToSubscriberStatus d\<rparr> else r)
       (find_subscriber db j)"
  by (simp add: find_subscriber_def set_dunning_def find_update_where)

lemma find_subscriber_id: "find_subscriber db i = Some r \<Longrightarrow> sub_id r = i \<and> r \<in> set (subscribers db)"
  by (auto simp: find_subscriber_def dest: find_SomeD)

lemma SetSubscriberDunningState_cases:
  "SetSubscriberDunningState pg db i d (dunningToSubscriberStatus d) = (db', res) \<Longrightarrow>
   (\<exists>e. res = Inl e) \<and> db' = db \<or> res = Inr () \<and> db' = set_dunning i d db"
  by (auto simp: SetSubscriberDunningState_def update_subscribers_def set_dunning_def bindE_def
      rows_affected_0 update_where_none split: sum.splits if_splits)

interpretation ds: dunning_store "DunningStore pg now" dunning_of set_dunning "dunning_up pg"
  for pg :: "'d::linordered_idom pg" and now
proof
  fix s s' :: "'d db" and i d d' e er st u
  let ?q = "DunningStore pg now"
  show "dq_Get ?q s i = Inr (d, e) \<Longrightarrow> dunning_of s i = Some d"
    by (auto simp: DunningStore_def GetSubscriberDunningState_def dunning_of_def split: option.splits)
  show "dq_Set ?q s i d st = (s', Inl er) \<Longrightarrow> s' = s"
    by (auto simp: DunningStore_def SetSubscriberDunningState_def update_subscribers_def bindE_def
        rows_affected_0 update_where_none split: sum.splits if_splits)
  show "dq_Set ?q s i d (dunningToSubscriberStatus d) = (s', Inr u) \<Longrightarrow> s' = set_dunning i d s"
    using SetSubscriberDunningState_cases [of pg s i d s' "Inr u"] by (simp add: DunningStore_def)
  show "dunning_of s i \<noteq> None \<Longrightarrow> dunning_of (set_dunning i d s) i = Some d"
    using find_subscriber_id by (fastforce simp: dunning_of_def find_set_dunning)
  show "set_dunning i d (set_dunning i d' s) = set_dunning i d s"
    by (rule set_dunning_twice)
  show "dunning_up pg s i \<Longrightarrow> dunning_of s i = Some d \<Longrightarrow> \<exists>e. dq_Get ?q s i = Inr (d, e)"
    by (auto simp: DunningStore_def GetSubscriberDunningState_def dunning_of_def dunning_up_def stmt_def)
  show "dunning_up pg s i \<Longrightarrow> dunning_of s i \<noteq> None \<Longrightarrow>
      \<exists>s' u. dq_Set ?q s i d (dunningToSubscriberStatus d) = (s', Inr u)"
    using find_subscriber_id [of s i]
    by (fastforce simp: DunningStore_def SetSubscriberDunningState_def update_subscribers_def dunning_of_def
        dunning_up_def stmt_def rows_affected_0 subscriber_checks_def chk_wallet_balance_nonneg_def
        chk_authorised_subscriber_is_billable_def)
  show "dunning_up pg s i \<Longrightarrow> dunning_up pg (set_dunning i d s) i"
    by (auto simp: dunning_up_def set_dunning_def ball_update_where)
qed

section \<open>The scan\<close>

lemma advance_db:
  "fst (fst (advance now flt q c t st))
   = fst (advance_loop maxSteps q (dc_SubscriberID c) t (dc_State c) (fst st))"
  by (auto simp: advance_def split: prod.splits sum.splits option.splits job_error.splits)

lemma dunning_up_put: "dunning_up pg (set_dunning i d db) j = dunning_up pg db j"
  by (auto simp: dunning_up_def set_dunning_def ball_update_where)

text \<open>Advancing one candidate touches no other subscriber.\<close>

lemma advance_frame:
  assumes "db' = fst (fst (advance now flt (DunningStore pg now') c t st))"
  shows "dunning_up pg db' j = dunning_up pg (fst st) j"
    and "j \<noteq> dc_SubscriberID c \<Longrightarrow> find_subscriber db' j = find_subscriber (fst st) j"
proof -
  have "db' = fst st \<or> (\<exists>x. db' = set_dunning (dc_SubscriberID c) x (fst st))"
    using ds.advance_loop_puts [of maxSteps pg now' "dc_SubscriberID c" t "dc_State c" "fst st"]
    unfolding assms advance_db by (metis prod.collapse)
  then show "dunning_up pg db' j = dunning_up pg (fst st) j"
    and "j \<noteq> dc_SubscriberID c \<Longrightarrow> find_subscriber db' j = find_subscriber (fst st) j"
    using find_subscriber_id [of "fst st" j]
    by (auto simp: dunning_up_put find_set_dunning intro!: option.map_ident_strong)
qed

lemma scan_frame:
  "dunning_up pg (fst (scan_candidates now flt (DunningStore pg now') cs st)) j = dunning_up pg (fst st) j
   \<and> (j \<notin> dc_SubscriberID ` set cs \<longrightarrow>
        find_subscriber (fst (scan_candidates now flt (DunningStore pg now') cs st)) j = find_subscriber (fst st) j)"
proof (induction cs arbitrary: st)
  case (Cons c cs)
  let ?t = "NextDunningState (dc_State c) (dc_PlanExpiry c) now"
  note frame = advance_frame [OF refl, where now = now and flt = flt and pg = pg and now' = now'
      and c = c and t = ?t and st = st and j = j]
  show ?case
    using Cons.IH [of st] Cons.IH [of "fst (advance now flt (DunningStore pg now') c ?t st)"] frame
    by (simp add: Let_def)
qed simp

text \<open>
  Where a pass leaves a subscriber whose stage should be \<open>t\<close>: there, with the matching status, when
  \<open>t\<close> is further along or is active; otherwise where they were, for \<open>stepToward\<close> finds no path.
\<close>

definition movable :: "DunningState \<Rightarrow> DunningState \<Rightarrow> bool" where
  "movable d t = (t = DunningActive \<or> ladder_index d < ladder_index t)"

definition moved :: "DunningState \<Rightarrow> 'd subscriber \<Rightarrow> 'd subscriber" where
  "moved t r = (if t \<noteq> sub_dunning r \<and> movable (sub_dunning r) t
                then r\<lparr>sub_dunning := t, sub_status := dunningToSubscriberStatus t\<rparr> else r)"

lemma advance_loop_stuck:
  "s \<noteq> t \<Longrightarrow> \<not> movable s t \<Longrightarrow> advance_loop maxSteps q i t s db = (db, Inl (Err ''no path''))"
  using ladder_index_inj [of s t] stepToward_down [of t s]
  by (cases "ladder_index t < ladder_index s") (auto simp: movable_def maxSteps_def numeral_eq_Suc)

text \<open>How many transitions a walk takes at most, whatever the store answers.\<close>

definition walk_length :: "DunningState \<Rightarrow> DunningState \<Rightarrow> nat" where
  "walk_length d t = (if d = t then 0 else if ladder_index d < ladder_index t then nat (ladder_index t - ladder_index d) else 1)"

lemma walk_length_bound: "walk_length d t < maxSteps"
  using ladder_index_range [of t] ladder_index_range [of d] by (auto simp: walk_length_def maxSteps_def)

lemma walk_length_step:
  assumes "d \<noteq> t" and "stepToward d t = Some d'"
  shows "walk_length d' t < walk_length d t"
proof (cases "ladder_index d < ladder_index t")
  case True
  have "ladder_index d' = ladder_index d + 1 \<or> d' = t" 
    using assms True stepToward_up [OF True] by auto
  with True assms(1) show ?thesis using ladder_index_inj [of d' t] by (auto simp: walk_length_def)
next
  case False
  then have "t = DunningActive" using assms ladder_index_inj [of d t] stepToward_down [of t d] by fastforce
  with assms False show ?thesis by (auto simp: walk_length_def stepToward_def)
qed

lemma advance_loop_fuel:
  assumes "walk_length d t \<le> n"
  shows "advance_loop (n + k) q i t d s = advance_loop n q i t d s
     \<and> (snd (advance_loop n q i t d s) = Inr t \<or> (\<exists>e. snd (advance_loop n q i t d s) = Inl e))"
  using assms
proof (induction n arbitrary: d s)
  case 0
  then have "d = t" by (auto simp: walk_length_def split: if_splits)
  then show ?case by (cases k) simp_all
next
  case (Suc n)
  have "walk_length d' t \<le> n" if "d \<noteq> t" "stepToward d t = Some d'" for d'
    using walk_length_step [OF that] Suc.prems by simp
  then show ?case by (auto split: option.split prod.split sum.split simp: Suc.IH)
qed

lemma advance_moves:
  assumes "dunning_up pg (fst st) i" and "find_subscriber (fst st) i = Some r" and "dc_SubscriberID c = i"
    and "dc_State c = sub_dunning r" and "t \<noteq> sub_dunning r"
  shows "find_subscriber (fst (fst (advance now flt (DunningStore pg now') c t st))) i = Some (moved t r)"
proof (cases "movable (sub_dunning r) t")
  case True
  have "dunning_of (fst st) i = Some (sub_dunning r)" using assms(2) by (simp add: dunning_of_def)
  then have "fst (fst (advance now flt (DunningStore pg now') c t st)) = set_dunning i t (fst st)"
    unfolding advance_db using True assms(1,3-5) ds.advance_loop_reaches [of pg "fst st" i "sub_dunning r" t now']
    by (simp add: movable_def)
  then show ?thesis
    using assms(2,5) find_subscriber_id [OF assms(2)] True by (simp add: find_set_dunning moved_def)
next
  case False
  then show ?thesis
    unfolding advance_db using assms(2-5) by (simp add: advance_loop_stuck moved_def)
qed

lemma scan_moves:
  assumes "distinct (map dc_SubscriberID cs)" and "c \<in> set cs" and "dc_SubscriberID c = i"
    and "dunning_up pg (fst st) i" and "find_subscriber (fst st) i = Some r" and "dc_State c = sub_dunning r"
    and "t = NextDunningState (sub_dunning r) (dc_PlanExpiry c) now"
  shows "find_subscriber (fst (scan_candidates now flt (DunningStore pg now') cs st)) i = Some (moved t r)"
  using assms
proof (induction cs arbitrary: st)
  case (Cons x cs)
  let ?t = "NextDunningState (dc_State x) (dc_PlanExpiry x) now"
  let ?st = "if ?t = dc_State x then st else fst (advance now flt (DunningStore pg now') x ?t st)"
  have scan: "scan_candidates now flt (DunningStore pg now') (x # cs) st
      = scan_candidates now flt (DunningStore pg now') cs ?st"
    by (simp add: Let_def)
  show ?case
  proof (cases "x = c")
    case True
    then have "i \<notin> dc_SubscriberID ` set cs" using Cons.prems(1,3) by auto
    with scan_frame [of pg now flt now' cs ?st i]
    have "find_subscriber (fst (scan_candidates now flt (DunningStore pg now') (x # cs) st)) i
        = find_subscriber (fst ?st) i" unfolding scan by blast
    also have "\<dots> = Some (moved t r)"
      using advance_moves [OF Cons.prems(4,5,3,6), of t now flt now'] Cons.prems(5-7) True
      by (auto simp: moved_def)
    finally show ?thesis .
  next
    case False
    then have "c \<in> set cs" and "i \<noteq> dc_SubscriberID x" using Cons.prems(1-3)
      by (auto simp: rev_image_eqI)
    then have "dunning_up pg (fst ?st) i" and "find_subscriber (fst ?st) i = Some r"
      using Cons.prems(4,5) advance_frame [OF refl, where now = now and flt = flt and pg = pg
          and now' = now' and c = x and t = ?t and st = st and j = i] by auto
    with Cons \<open>c \<in> set cs\<close> show ?thesis unfolding scan by auto
  qed
qed simp

section \<open>Properties\<close>

lemma dunning_scan_row:
  assumes "pg_faults pg = no_faults" and "distinct (map sub_id (subscribers db))"
    and "\<forall>r \<in> set (subscribers db). 0 \<le> sub_balance r"
    and "r \<in> set (subscribers db)"
    and "DunningScan dbnow now flt pg (db, jq) = ((db', jq'), res)"
  shows "find_subscriber db' (sub_id r) =
    Some (if is_dunning_candidate dbnow r
          then moved (NextDunningState (sub_dunning r) (the (sub_expiry r)) now) r else r)"
proof -
  let ?cs = "map to_candidate (rev (sort_key (\<lambda>r. the (sub_expiry r))
                                    (filter (is_dunning_candidate dbnow) (subscribers db))))"
  have db': "db' = fst (scan_candidates now flt (DunningStore pg dbnow) ?cs (db, jq))"
    using assms(1,5) by (auto simp: DunningScan_def ListDunningCandidates_def stmt_def)
  have ids: "map dc_SubscriberID ?cs = map sub_id (rev (sort_key (\<lambda>r. the (sub_expiry r))
                                    (filter (is_dunning_candidate dbnow) (subscribers db))))"
    by (simp add: to_candidate_def)
  have dist: "distinct (map dc_SubscriberID ?cs)"
    unfolding ids using assms(2) by (simp add: distinct_map inj_on_def)
  have r: "find_subscriber db (sub_id r) = Some r"
    unfolding find_subscriber_def using find_Some_iff_distinct [OF assms(2,4)] .
  have inj: "x = r" if "x \<in> set (subscribers db)" "sub_id x = sub_id r" for x
    using assms(2,4) that by (auto simp: distinct_map dest: inj_onD)
  show ?thesis
  proof (cases "is_dunning_candidate dbnow r")
    case True
    then have "to_candidate r \<in> set ?cs" using assms(4) by simp
    moreover have "dunning_up pg db (sub_id r)"
      using assms(1,3) inj True by (auto simp: dunning_up_def is_dunning_candidate_def split: option.splits)
    ultimately show ?thesis
      unfolding db' using scan_moves [OF dist, of "to_candidate r" "sub_id r" pg "(db, jq)" r _ now flt dbnow] r True
      by (simp add: to_candidate_def)
  next
    case False
    then have "sub_id r \<notin> dc_SubscriberID ` set ?cs"
      using inj by (auto simp: to_candidate_def)
    then show ?thesis
      unfolding db' using scan_frame [of pg now flt dbnow ?cs "(db, jq)" "sub_id r"] r False by simp
  qed
qed


text \<open>
  The ladder never moves backwards in time: for a fixed expiry, the stage computed at a later
  instant is at least as far along as the one computed earlier, from whatever current stage.
\<close>

theorem NextDunningState_monotone:
  assumes "now \<le> now'"
  shows "ladder_index (NextDunningState c e now) \<le> ladder_index (NextDunningState c e now')"
proof -
  have "time_sub e now' \<le> time_sub e now" using assms by (auto simp: time_sub_def)
  moreover have "time_sub e t \<le> 0 \<longleftrightarrow> e \<le> t" for t by (simp add: time_sub_le)
  ultimately show ?thesis
    using assms by (auto simp: NextDunningState_def Let_def ladder_days clock_simps)
qed

text \<open>
  The notice key separates notices: two dunning notices share a task id exactly when they are
  for the same subscriber, the same stage and the same expiry second, so no warning is suppressed by
  another subscriber's, another stage's or an earlier cycle's.
\<close>

theorem DunningNoticeTaskID_injective:
  "DunningNoticeTaskID i s e = DunningNoticeTaskID i' s' e'
   \<longleftrightarrow> i = i' \<and> s = s' \<and> unix_seconds e = unix_seconds e'"
proof
  assume eq: "DunningNoticeTaskID i s e = DunningNoticeTaskID i' s' e'"
  then have "show_int i @ CHR ''-'' # state_name s @ ''-'' @ show_int (unix_seconds e)
           = show_int i' @ CHR ''-'' # state_name s' @ ''-'' @ show_int (unix_seconds e')"
    by (simp add: DunningNoticeTaskID_def)
  from show_int_sep [OF this] have "i = i'"
    and rest: "state_name s @ ''-'' @ show_int (unix_seconds e) = state_name s' @ ''-'' @ show_int (unix_seconds e')"
    by auto
  moreover from rest have "s = s' \<and> show_int (unix_seconds e) = show_int (unix_seconds e')"
    by (cases s; cases s'; simp)
  ultimately show "i = i' \<and> s = s' \<and> unix_seconds e = unix_seconds e'" by (simp add: show_int_inj)
qed (simp add: DunningNoticeTaskID_def)

text \<open>
  Exactly one notice per stage: when \<open>advance\<close> succeeds for a stage that carries a message, the
  queue holds the notice's key exactly once, however many scans have asked for it, and the queue
  invariant is kept.
\<close>

theorem advance_notifies_once:
  assumes "queue_inv jq" and "TemplateForDunningState t \<noteq> None"
    and "advance now flt q c t (s, Some jq) = ((s', Some jq'), Inr ())"
  shows "queue_inv jq'
       \<and> count_list (map jt_task_id (tasks jq'))
           (Some (DunningNoticeTaskID (dc_SubscriberID c) t (dc_PlanExpiry c))) = 1"
proof -
  let ?key = "DunningNoticeTaskID (dc_SubscriberID c) t (dc_PlanExpiry c)"
  obtain tpl where tpl: "TemplateForDunningState t = Some tpl" using assms(2) by auto
  obtain res where enq: "EnqueueContext now flt jq (Some (notice_task c t tpl now)) [] = (jq', res)"
    and res: "res = Inl ErrTaskIDConflict \<or> (\<exists>x. res = Inr x)"
    using assms(3) by (auto simp: advance_def tpl split: prod.splits sum.splits if_splits job_error.splits)
  have inv: "queue_inv jq'" using queue_inv_enqueue [OF assms(1) enq] .
  have "opt_taskID (resolve_options (notice_task c t tpl now) []) = ?key" and "?key \<noteq> []"
    by (simp_all add: resolve_options_def notice_task_def NewTask_def DunningNoticeTaskID_def zero_options_def
        Queue_def TaskID_def MaxRetry_def Retention_def
        QueueNotifications_def)
  with enq res have mem: "Some ?key \<in> set (map jt_task_id (tasks jq'))"
    by (auto simp: EnqueueContext_def Let_def new_row_def split: option.splits if_splits)
  with inv show ?thesis by (simp add: queue_inv_def unique_nullable_count del: set_map)
qed

text \<open>
  A transition is all or nothing: \<open>TransitionDunning\<close> succeeds exactly when the statements run and
  the stored stage has an edge to the target, and then stage and status move together; in every
  other case it returns an error and the database is as it was.
\<close>

theorem TransitionDunning_correct:
  assumes "dunning_up pg db i"
  shows "TransitionDunning (DunningStore pg now) db i t =
    (case find_subscriber db i of
       None \<Rightarrow> (db, Inl ErrNotFound)
     | Some r \<Rightarrow> if (sub_dunning r, t) \<in> set validTransitions then (set_dunning i t db, Inr ())
                 else (db, Inl (Err ''dunning: invalid transition'')))"
proof (cases "find_subscriber db i")
  case None
  with assms show ?thesis
    by (simp add: TransitionDunning_def DunningStore_def GetSubscriberDunningState_def dunning_up_def stmt_def)
next
  case (Some r)
  then have st: "dunning_of db i = Some (sub_dunning r)" by (simp add: dunning_of_def)
  from ds.up_get [OF assms st, of now]
  obtain e where "dq_Get (DunningStore pg now) db i = Inr (sub_dunning r, e)" ..
  with ds.Transition_succeeds [OF assms st, of t now] Some show ?thesis
    by (simp add: TransitionDunning_def)
qed

text \<open>
  C11. The walk of \<open>advance\<close> ends by itself. Whatever the store answers, more steps than the bound of
  eight never change its outcome, so the bound cuts nothing short, and the outcome is the target or an
  error; from a stage that is further along than the target the error is \<open>no path\<close>, and with the
  statements running from a stage that is not, the target is stored.
\<close>

theorem advance_walk_ends:
  "advance_loop (maxSteps + n) q i t d s = advance_loop maxSteps q i t d s
   \<and> snd (advance_loop maxSteps q i t d s) \<in> insert (Inr t) (range Inl)
   \<and> (d \<noteq> t \<longrightarrow> t \<noteq> DunningActive \<longrightarrow> ladder_index t < ladder_index d \<longrightarrow>
        advance_loop maxSteps q i t d s = (s, Inl (Err ''no path'')))
   \<and> (dunning_up pg db i \<longrightarrow> dunning_of db i = Some d \<longrightarrow> d \<noteq> t \<longrightarrow> t = DunningActive \<or> ladder_index d < ladder_index t \<longrightarrow>
        advance_loop maxSteps (DunningStore pg now) i t d db = (set_dunning i t db, Inr t))"
proof -
  have "walk_length d t \<le> maxSteps" using walk_length_bound [of d t] by simp
  from advance_loop_fuel [OF this, of n q i s] show ?thesis
    using ds.advance_loop_reaches [of pg db i d t now] advance_loop_stuck [of d t q i s] by (auto simp: movable_def)
qed

text \<open>
  The comment on \<open>NextDunningState\<close> says paid-up subscribers walk back to active from anywhere. A
  subscriber on the last reminder who extends by a few days only does not: the ladder names an
  earlier reminder, the machine has no edge to it, and every scan fails with \<open>no path\<close> and leaves
  them on the last reminder until the new expiry is a day away again or more than a week off.
\<close>

theorem short_extension_has_no_path:
  assumes "sub_dunning r = DunningRemind1d" and "sub_expiry r = Some e"
    and "now + remind1dDays * Day < e" and "e \<le> now + remind7dDays * Day"
  shows "advance now flt q (to_candidate r) (NextDunningState (sub_dunning r) e now) st
         = (st, Inl (Err ''no path''))"
proof -
  have "time_sub e now = e - now"
    using assms(3,4) by (simp add: time_sub_def ladder_days clock_simps)
  then have "NextDunningState (sub_dunning r) e now \<in> {DunningRemind3d, DunningRemind7d}"
    using assms by (auto simp: NextDunningState_def Let_def ladder_days clock_simps)
  then have "advance_loop maxSteps q i (NextDunningState (sub_dunning r) e now) DunningRemind1d s
      = (s, Inl (Err ''no path''))" for i s
    by (auto intro!: advance_loop_stuck simp: movable_def)
  with assms(1) show ?thesis by (simp add: advance_def to_candidate_def)
qed


section \<open>Instances\<close>

text \<open>Two subscribers: one three weeks past expiry and still active, one who has left.\<close>

definition dun_sub :: "int \<Rightarrow> sub_status \<Rightarrow> time \<Rightarrow> rat subscriber" where
  "dun_sub i st e =
     \<lparr>sub_id = i, sub_username = ''asha'', sub_caf = ''CAF-1'', sub_mobile = ''+919840000000'', sub_password_hash = [], sub_nt_hash = [],
      sub_plan_id = 1, sub_franchise_id = None, sub_status = st, sub_dunning = DunningActive,
      sub_balance = 0, sub_state = ''tamil nadu'', sub_expiry = Some e, sub_fup_active = False,
      sub_override_rate = [], sub_override_expires = None\<rparr>"

definition dun_db :: "rat db" where
  "dun_db = \<lparr>subscribers = [dun_sub 1 Active (10 * Day), dun_sub 2 Terminated (10 * Day)], plans = [],
             wallet_ledgers = [], wallet_seq = 1, gl_entries = [], gl_lines = [], gl_seq = 1,
             chart_of_accounts = [], gst_rates = [], invoices = [], invoice_seq = 1\<rparr>"

lemmas dun_defs = dun_sub_def dun_db_def rat_pg_def

lemma dun_next: "NextDunningState DunningActive (10 * Day) (31 * Day) = DunningHardSuspended"
  by (simp add: NextDunningState_def time_sub_def ladder_days clock_simps)


theorem NextDunningState_monotone_witness:
  "ladder_index (NextDunningState DunningRemind1d (10 * Day) (9 * Day))
   \<le> ladder_index (NextDunningState DunningRemind1d (10 * Day) (31 * Day))"
  using NextDunningState_monotone [of "9 * Day" "31 * Day" DunningRemind1d "10 * Day"] by (simp add: clock_simps)

definition dun_candidate :: DunningCandidate where
  "dun_candidate = to_candidate (dun_sub 1 Active (10 * Day))"

lemma dun_advance:
  "\<exists>db' jq'. advance (31 * Day) no_faults (DunningStore (rat_pg no_faults) 0) dun_candidate DunningHardSuspended
     (dun_db, Some empty_queue) = ((db', Some jq'), Inr ())"
proof -
  have up: "dunning_up (rat_pg no_faults) dun_db 1" and d: "dunning_of dun_db 1 = Some DunningActive"
    by (simp_all add: dunning_up_def dunning_of_def find_subscriber_def dun_defs)
  have c: "dc_SubscriberID dun_candidate = 1" "dc_State dun_candidate = DunningActive"
    by (simp_all add: dun_candidate_def to_candidate_def dun_sub_def)
  have "\<exists>jq' info. EnqueueContext (31 * Day) no_faults empty_queue
      (Some (notice_task dun_candidate DunningHardSuspended TemplateHardSuspended (31 * Day))) [] = (jq', Inr info)"
    by (simp add: EnqueueContext_def empty_queue_def resolve_options_def notice_task_def NewTask_def smallint_def
        zero_options_def Queue_def TaskID_def MaxRetry_def Retention_def QueueNotifications_def Let_def)
  then show ?thesis
    using ds.advance_loop_reaches [OF up d, of DunningHardSuspended 0] c by (auto simp: advance_def)
qed

theorem advance_walk_ends_witness:
  "advance_loop maxSteps (DunningStore (rat_pg no_faults) 0) 1 DunningHardSuspended DunningActive dun_db
     = (set_dunning 1 DunningHardSuspended dun_db, Inr DunningHardSuspended)
   \<and> advance_loop (maxSteps + 100) (DunningStore (rat_pg no_faults) 0) 1 DunningHardSuspended DunningActive dun_db
     = (set_dunning 1 DunningHardSuspended dun_db, Inr DunningHardSuspended)
   \<and> advance_loop maxSteps (DunningStore (rat_pg no_faults) 0) 1 DunningRemind3d DunningRemind1d dun_db = (dun_db, Inl (Err ''no path''))"
proof -
  have "dunning_up (rat_pg no_faults) dun_db 1" "dunning_of dun_db 1 = Some DunningActive"
    by (simp_all add: dunning_up_def dunning_of_def find_subscriber_def dun_defs)
  then show ?thesis
    using advance_walk_ends [of 100 "DunningStore (rat_pg no_faults) 0" 1 DunningHardSuspended DunningActive dun_db "rat_pg no_faults" dun_db 0]
      advance_walk_ends [of 0 "DunningStore (rat_pg no_faults) 0" 1 DunningRemind3d DunningRemind1d dun_db "rat_pg no_faults" dun_db 0]
    by simp
qed

theorem advance_notifies_once_witness:
  "\<exists>jq' :: payload jobqueue. queue_inv jq' \<and> count_list (map jt_task_id (tasks jq'))
           (Some (DunningNoticeTaskID 1 DunningHardSuspended (10 * Day))) = 1"
proof -
  obtain db' jq' where "advance (31 * Day) no_faults (DunningStore (rat_pg no_faults) 0) dun_candidate
      DunningHardSuspended (dun_db, Some empty_queue) = ((db', Some jq'), Inr ())"
    using dun_advance by blast
  from advance_notifies_once [OF queue_inv_empty _ this]
  show ?thesis by (auto simp: dun_candidate_def to_candidate_def dun_sub_def)
qed

theorem TransitionDunning_correct_witness:
  "TransitionDunning (DunningStore (rat_pg no_faults) 0) dun_db 1 DunningHardSuspended
     = (dun_db, Inl (Err ''dunning: invalid transition''))
   \<and> TransitionDunning (DunningStore (rat_pg no_faults) 0) dun_db 1 DunningRemind7d
     = (set_dunning 1 DunningRemind7d dun_db, Inr ())"
proof -
  have "dunning_up (rat_pg no_faults) dun_db 1" by (simp add: dunning_up_def dun_defs)
  from TransitionDunning_correct [OF this, of 0 DunningHardSuspended]
    TransitionDunning_correct [OF this, of 0 DunningRemind7d]
  show ?thesis by (simp add: find_subscriber_def validTransitions_def dun_db_def) (simp add: dun_sub_def)
qed

theorem short_extension_has_no_path_witness:
  "\<exists>r :: rat subscriber. advance 0 no_faults (DunningStore (rat_pg no_faults) 0) (to_candidate r)
       (NextDunningState (sub_dunning r) (5 * Day) 0) (dun_db, None) = ((dun_db, None), Inl (Err ''no path''))"
  using short_extension_has_no_path [of "(dun_sub 1 Active (5 * Day))\<lparr>sub_dunning := DunningRemind1d\<rparr>" "5 * Day" 0
      no_faults "DunningStore (rat_pg no_faults) 0" "(dun_db, None)"]
  by (intro exI [of _ "(dun_sub 1 Active (5 * Day))\<lparr>sub_dunning := DunningRemind1d\<rparr>"])
    (simp add: dun_sub_def ladder_days clock_simps)


end
