(* ===== verification/Renewal.thy ===== *)
theory Renewal
  imports WalletBooks Dunning
begin

text \<open>
  The auto-renewal scanner (\<open>src/internal/billing/recurring_billing_scanner.go\<close>) and the store
  operations it adds (\<open>src/internal/db/billing.go\<close>): candidates, plan expiry, first activation, the
  active GST rate and invoices.

  Times of the day-count arithmetic are those of a zone without daylight saving, where
  \<open>AddDate(0, 0, n)\<close> adds \<open>n\<close> days of 24 hours. A plan expiry that was never set is the zero time.
\<close>

section \<open>The store\<close>

record 'd RenewalCandidate =
  rc_SubscriberID :: int
  rc_Username :: string
  rc_FranchiseID :: "int option"
  rc_RegisteredState :: string
  rc_PlanName :: string
  rc_PlanPrice :: 'd
  rc_PlanValidityDays :: int
  rc_PlanVolumeGB :: int
  rc_PlanExpiry :: time
  rc_DunningState :: DunningState
  rc_Status :: sub_status

definition is_renewal_candidate :: "time \<Rightarrow> 'd::linordered_idom subscriber \<Rightarrow> 'd plan \<Rightarrow> bool" where
  "is_renewal_candidate now r p =
     (plan_id p = sub_plan_id r \<and> sub_status r \<noteq> Terminated \<and> plan_price p \<le> sub_balance r
      \<and> (case sub_expiry r of Some e \<Rightarrow> e \<le> now | None \<Rightarrow> sub_status r = PendingPayment))"

definition to_renewal :: "'d subscriber \<Rightarrow> 'd plan \<Rightarrow> 'd RenewalCandidate" where
  "to_renewal r p =
     \<lparr>rc_SubscriberID = sub_id r, rc_Username = sub_username r, rc_FranchiseID = sub_franchise_id r,
      rc_RegisteredState = sub_state r, rc_PlanName = plan_name p, rc_PlanPrice = plan_price p,
      rc_PlanValidityDays = plan_validity_days p, rc_PlanVolumeGB = plan_volume_gb p,
      rc_PlanExpiry = (case sub_expiry r of Some e \<Rightarrow> e | None \<Rightarrow> 0),
      rc_DunningState = sub_dunning r, rc_Status = sub_status r\<rparr>"

definition ListRenewalCandidates ::
  "'d::linordered_idom pg \<Rightarrow> time \<Rightarrow> 'd db \<Rightarrow> err + 'd RenewalCandidate list" where
  "ListRenewalCandidates pg now db =
     bindE (stmt pg ''list renewal candidates'') (\<lambda>_.
       Inr [to_renewal r p. r \<leftarrow> subscribers db, p \<leftarrow> plans db, is_renewal_candidate now r p])"

definition SetPlanExpiry ::
  "'d::linordered_idom pg \<Rightarrow> 'd db \<Rightarrow> int \<Rightarrow> time \<Rightarrow> 'd db \<times> (err + unit)" where
  "SetPlanExpiry pg db subscriberID expiry =
     (case bindE (stmt pg ''set plan expiry'') (\<lambda>_.
             update_subscribers (\<lambda>r. sub_id r = subscriberID) (\<lambda>r. r\<lparr>sub_expiry := Some expiry\<rparr>) db) of
        Inl e \<Rightarrow> (db, Inl e)
      | Inr db' \<Rightarrow> (db', Inr ()))"

definition awaits_activation :: "int \<Rightarrow> 'd subscriber \<Rightarrow> bool" where
  "awaits_activation i r = (sub_id r = i \<and> sub_status r = PendingPayment)"

definition ActivateSubscriber ::
  "'d::linordered_idom pg \<Rightarrow> 'd db \<Rightarrow> int \<Rightarrow> time \<Rightarrow> 'd db \<times> (err + unit)" where
  "ActivateSubscriber pg db subscriberID expiry =
     (case bindE (stmt pg ''activate subscriber'') (\<lambda>_.
             update_subscribers (awaits_activation subscriberID)
               (\<lambda>r. r\<lparr>sub_status := Active, sub_expiry := Some expiry\<rparr>) db) of
        Inl e \<Rightarrow> (db, Inl e)
      | Inr db' \<Rightarrow>
          if rows_affected (awaits_activation subscriberID) (subscribers db) = 0 then (db', Inl ErrNotFound)
          else (db', Inr ()))"

definition CreateInvoice ::
  "'d::linordered_idom pg \<Rightarrow> 'd db \<Rightarrow> 'd Invoice \<Rightarrow> 'd db \<times> (err + int)" where
  "CreateInvoice pg db bill =
     (case bindE (stmt pg ''create invoice'') (\<lambda>_.
           bindE (numericE pg 12 (BaseAmount bill)) (\<lambda>base.
           bindE (numericE pg 12 (CgstAmount bill)) (\<lambda>cgst.
           bindE (numericE pg 12 (SgstAmount bill)) (\<lambda>sgst.
           bindE (numericE pg 12 (IgstAmount bill)) (\<lambda>igst.
           bindE (numericE pg 12 (TotalAmount bill)) (\<lambda>total.
           bindE (numericE pg 10 (GbUsed bill)) (\<lambda>used.
             (let row = bill\<lparr>BaseAmount := base, CgstAmount := cgst, SgstAmount := sgst, IgstAmount := igst,
                            TotalAmount := total, GbUsed := used\<rparr>
              in bindE (guardE (chk_gst_logic row) (ErrCheck ''chk_gst_logic'')) (\<lambda>_.
                 bindE (guardE (find_subscriber db (inv_SubscriberID bill) \<noteq> None) (ErrCheck ''subscriber_id'')) (\<lambda>_.
                 bindE (guardE (\<exists>g \<in> set (gst_rates db). gr_id g = GstRateID bill) (ErrCheck ''gst_rate_id'')) (\<lambda>_.
                   Inr row))))))))))) of
        Inl e \<Rightarrow> (db, Inl e)
      | Inr row \<Rightarrow> (db\<lparr>invoices := invoices db @ [(invoice_seq db, row)], invoice_seq := invoice_seq db + 1\<rparr>,
                   Inr (invoice_seq db)))"

definition GetActiveGstRate :: "'d pg \<Rightarrow> time \<Rightarrow> 'd db \<Rightarrow> err + 'd GstRate" where
  "GetActiveGstRate pg now db =
     bindE (stmt pg ''get active GST rate'') (\<lambda>_.
       case sort_key (\<lambda>g. - gr_effective_from g) (filter (\<lambda>g. gr_effective_from g \<le> now) (gst_rates db)) of
         [] \<Rightarrow> Inl ErrNotFound
       | g # _ \<Rightarrow> Inr \<lparr>rate_ID = gr_id g, CgstRate = gr_cgst g, SgstRate = gr_sgst g, IgstRate = gr_igst g\<rparr>)"

section \<open>The scanner\<close>

text \<open>
  What a pass changes: the database, the task queue (\<open>None\<close> without one) and the events handed to
  the partner emitter (\<open>None\<close> without one). \<open>dbnow\<close> is \<open>NOW()\<close>, \<open>now\<close> the scanner's clock.
\<close>

record 'd billing =
  bl_db :: "'d db"
  bl_tasks :: "payload jobqueue option"
  bl_events :: "(string \<times> int) list option"

definition buildInvoice ::
  "'d::linordered_idom decimal_pkg \<Rightarrow> 'd pg \<Rightarrow> time \<Rightarrow> 'd db \<Rightarrow> 'd RenewalCandidate \<Rightarrow> err + 'd Invoice" where
  "buildInvoice dp pg dbnow db c =
     bindE (GetActiveGstRate pg dbnow db) (\<lambda>rate.
       Inr ((CalculateGstInvoice dp (rc_PlanPrice c) (rc_RegisteredState c) rate)
              \<lparr>inv_SubscriberID := rc_SubscriberID c, GbIncluded := rc_PlanVolumeGB c, GbUsed := 0\<rparr>))"

definition persistInvoice ::
  "'d::linordered_idom pg \<Rightarrow> 'd billing \<Rightarrow> 'd Invoice \<Rightarrow> 'd billing \<times> (err + unit)" where
  "persistInvoice pg w bill =
     (case CreateInvoice pg (bl_db w) bill of
        (db', Inl e) \<Rightarrow> (w\<lparr>bl_db := db'\<rparr>, Inl e)
      | (db', Inr invoiceID) \<Rightarrow>
          (w\<lparr>bl_db := db', bl_events := map_option (\<lambda>es. es @ [(''invoice.generated'', invoiceID)]) (bl_events w)\<rparr>,
           Inr ()))"

definition wasCutOff :: "DunningState \<Rightarrow> bool" where
  "wasCutOff state = (state = DunningSoftSuspended \<or> state = DunningHardSuspended)"

definition TaskTypeServiceRestored :: string where "TaskTypeServiceRestored = ''notif:service_restored''"

definition RestoredTaskID :: "int \<Rightarrow> time \<Rightarrow> string" where
  "RestoredTaskID subscriberID newExpiry =
     ''restored-'' @ show_int subscriberID @ ''-'' @ show_int (unix_seconds newExpiry)"

definition restoration_task :: "'d RenewalCandidate \<Rightarrow> time \<Rightarrow> payload Task" where
  "restoration_task c newExpiry =
     NewTask TaskTypeServiceRestored
       (ServiceRestored \<lparr>sr_SubscriberID = rc_SubscriberID c, sr_Username = rc_Username c,
                         sr_PlanName = rc_PlanName c, sr_ValidUntil = newExpiry\<rparr>)
       [Queue QueueNotifications, TaskID (RestoredTaskID (rc_SubscriberID c) newExpiry),
        MaxRetry 3, Retention (24 * Hour)]"

definition enqueueRestorationNotice ::
  "time \<Rightarrow> faults \<Rightarrow> 'd billing \<Rightarrow> 'd RenewalCandidate \<Rightarrow> time \<Rightarrow> 'd billing" where
  "enqueueRestorationNotice now flt w c newExpiry =
     (case bl_tasks w of
        None \<Rightarrow> w
      | Some jq \<Rightarrow> w\<lparr>bl_tasks := Some (fst (EnqueueContext now flt jq (Some (restoration_task c newExpiry)) []))\<rparr>)"

definition renewal_request :: "'d::linordered_idom RenewalCandidate \<Rightarrow> 'd Invoice \<Rightarrow> 'd PostRequest" where
  "renewal_request c bill =
     \<lparr>pr_SubscriberID = rc_SubscriberID c, pr_FranchiseID = rc_FranchiseID c, pr_Amount = TotalAmount bill,
      pr_Direction = ''debit'', pr_CounterAccount = AccountRevenueClearing, pr_Token = [],
      pr_AdjustedBy = [], pr_Description = ''auto-renewal: '' @ rc_PlanName c,
      pr_TaxAmount = CgstAmount bill + SgstAmount bill + IgstAmount bill\<rparr>"

definition new_expiry :: "time \<Rightarrow> 'd RenewalCandidate \<Rightarrow> time" where
  "new_expiry now c = (if now < rc_PlanExpiry c then rc_PlanExpiry c else now) + rc_PlanValidityDays c * Day"

text \<open>Where the paid-for cycle is written: first activation and renewal.\<close>

definition stamp ::
  "'d::linordered_idom pg \<Rightarrow> 'd db \<Rightarrow> 'd RenewalCandidate \<Rightarrow> time \<Rightarrow> 'd db \<times> (err + unit)" where
  "stamp pg db c e = (if rc_Status c = PendingPayment then ActivateSubscriber pg db (rc_SubscriberID c) e
                      else SetPlanExpiry pg db (rc_SubscriberID c) e)"

text \<open>The dunning restore at the end of \<open>renew\<close>; its failure is logged and swallowed.\<close>

definition restore_dunning ::
  "time \<Rightarrow> time \<Rightarrow> faults \<Rightarrow> 'd::linordered_idom pg \<Rightarrow> 'd RenewalCandidate \<Rightarrow> time \<Rightarrow> 'd billing \<Rightarrow> 'd billing" where
  "restore_dunning dbnow now flt pg c newExpiry w =
     (if rc_DunningState c = DunningActive then w
      else case TransitionDunning (DunningStore pg dbnow) (bl_db w) (rc_SubscriberID c) DunningActive of
        (db', Inl e) \<Rightarrow> w\<lparr>bl_db := db'\<rparr>
      | (db', Inr _) \<Rightarrow>
          if wasCutOff (rc_DunningState c) then enqueueRestorationNotice now flt (w\<lparr>bl_db := db'\<rparr>) c newExpiry
          else w\<lparr>bl_db := db'\<rparr>)"

definition renew ::
  "'d decimal_pkg \<Rightarrow> time \<Rightarrow> time \<Rightarrow> faults \<Rightarrow> 'd::linordered_idom pg \<Rightarrow> 'd billing \<Rightarrow> 'd RenewalCandidate
   \<Rightarrow> 'd billing \<times> (err + unit)" where
  "renew dp dbnow now flt pg w c =
     (case buildInvoice dp pg dbnow (bl_db w) c of
        Inl e \<Rightarrow> (w, Inl e)
      | Inr bill \<Rightarrow>
          (case Post (BillingStore pg) (bl_db w) (renewal_request c bill) of
             (db1, Inl ErrInsufficientBalance) \<Rightarrow> (w\<lparr>bl_db := db1\<rparr>, Inr ())
           | (db1, Inl e) \<Rightarrow> (w\<lparr>bl_db := db1\<rparr>, Inl e)
           | (db1, Inr _) \<Rightarrow>
               (let newExpiry = new_expiry now c
                in case stamp pg db1 c newExpiry of
                     (db2, Inl e) \<Rightarrow> (w\<lparr>bl_db := db2\<rparr>, Inl e)
                   | (db2, Inr _) \<Rightarrow>
                       (let w3 = fst (persistInvoice pg (w\<lparr>bl_db := db2\<rparr>) bill)
                        in (restore_dunning dbnow now flt pg c newExpiry w3, Inr ())))))"

fun renew_all ::
  "'d decimal_pkg \<Rightarrow> time \<Rightarrow> time \<Rightarrow> faults \<Rightarrow> 'd::linordered_idom pg \<Rightarrow> 'd RenewalCandidate list
   \<Rightarrow> 'd billing \<Rightarrow> 'd billing" where
  "renew_all dp dbnow now flt pg [] w = w"
| "renew_all dp dbnow now flt pg (c # cs) w = renew_all dp dbnow now flt pg cs (fst (renew dp dbnow now flt pg w c))"

definition RenewalScan ::
  "'d decimal_pkg \<Rightarrow> time \<Rightarrow> time \<Rightarrow> faults \<Rightarrow> 'd::linordered_idom pg \<Rightarrow> 'd billing \<Rightarrow> 'd billing \<times> (err + unit)" where
  "RenewalScan dp dbnow now flt pg w =
     (case ListRenewalCandidates pg dbnow (bl_db w) of
        Inl e \<Rightarrow> (w, Inl e)
      | Inr candidates \<Rightarrow> (renew_all dp dbnow now flt pg candidates w, Inr ()))"

section \<open>Single-row updates\<close>

lemma update_subscribers_one:
  assumes "distinct (map sub_id (subscribers db))" and "find_subscriber db i = Some r"
    and "\<And>x. P x \<Longrightarrow> sub_id x = i" and "subscriber_checks (f r)"
  shows "update_subscribers P f db = Inr (db\<lparr>subscribers := update_where P f (subscribers db)\<rparr>)"
proof -
  have "x = r" if "x \<in> set (subscribers db)" "P x" for x
    using that assms(1-3) find_subscriber_id [OF assms(2)] by (auto simp: distinct_map dest: inj_onD)
  with assms(4) show ?thesis by (auto simp: update_subscribers_def)
qed

definition ids_distinct :: "'d db \<Rightarrow> bool" where
  "ids_distinct db = distinct (map sub_id (subscribers db))"

lemma find_update_other:
  assumes "\<And>x. P x \<Longrightarrow> sub_id x = i" and "j \<noteq> i"
    and "find_subscriber db' j = map_option (\<lambda>x. if P x then f x else x) (find_subscriber db j)"
  shows "find_subscriber db' j = find_subscriber db j"
  using assms find_subscriber_id [of db j] by (cases "find_subscriber db j") auto

lemma write_one:
  assumes "ids_distinct db" and "find_subscriber db i = Some r"
    and P: "\<And>x. P x \<Longrightarrow> sub_id x = i" and "P r" and f: "\<And>x. sub_id (f x) = sub_id x" and "subscriber_checks (f r)"
  obtains db' where "update_subscribers P f db = Inr db'" and "db' = db\<lparr>subscribers := subscribers db'\<rparr>"
    and "ids_distinct db'" and "find_subscriber db' i = Some (f r)"
    and "\<And>j. j \<noteq> i \<Longrightarrow> find_subscriber db' j = find_subscriber db j"
proof -
  let ?db' = "db\<lparr>subscribers := update_where P f (subscribers db)\<rparr>"
  have upd: "update_subscribers P f db = Inr ?db'"
    using assms by (intro update_subscribers_one) (simp_all add: ids_distinct_def)
  note found = find_subscriber_update [OF f upd]
  show thesis
  proof (rule that [OF upd])
    show "ids_distinct ?db'" using assms(1) f by (simp add: ids_distinct_def map_update_where)
    show "find_subscriber ?db' i = Some (f r)" using found [of i] assms(2,4) by simp
    show "find_subscriber ?db' j = find_subscriber db j" if "j \<noteq> i" for j
      using find_update_other [OF P that found] .
  qed simp
qed

definition stamped :: "time \<Rightarrow> 'd subscriber \<Rightarrow> 'd subscriber" where
  "stamped e r = r\<lparr>sub_expiry := Some e,
                   sub_status := if sub_status r = PendingPayment then Active else sub_status r\<rparr>"

lemma stamped_checks: "0 \<le> sub_balance r \<Longrightarrow> subscriber_checks (stamped e r)"
  by (simp add: stamped_def subscriber_checks_def chk_wallet_balance_nonneg_def
      chk_authorised_subscriber_is_billable_def)

lemma stamp_one:
  assumes "pg_faults pg = no_faults" and "ids_distinct db" and r: "find_subscriber db i = Some r"
    and "rc_SubscriberID c = i" and "rc_Status c = sub_status r" and "0 \<le> sub_balance r"
  obtains db' where "stamp pg db c e = (db', Inr ())" and "find_subscriber db' i = Some (stamped e r)"
    and "ids_distinct db'" and "db' = db\<lparr>subscribers := subscribers db'\<rparr>"
    and "\<And>j. j \<noteq> i \<Longrightarrow> find_subscriber db' j = find_subscriber db j"
proof (cases "sub_status r = PendingPayment")
  case True
  let ?f = "\<lambda>x. x\<lparr>sub_status := Active, sub_expiry := Some e\<rparr>"
  have "awaits_activation i r" using True find_subscriber_id [OF r] by (simp add: awaits_activation_def)
  moreover have f: "?f r = stamped e r" using True by (simp add: stamped_def)
  ultimately obtain db' where db': "update_subscribers (awaits_activation i) ?f db = Inr db'"
    and rest: "db' = db\<lparr>subscribers := subscribers db'\<rparr>" "ids_distinct db'" "find_subscriber db' i = Some (?f r)"
      "\<And>j. j \<noteq> i \<Longrightarrow> find_subscriber db' j = find_subscriber db j"
    using write_one [OF assms(2) r, of "awaits_activation i" ?f] stamped_checks [OF assms(6), of e]
    by (auto simp: awaits_activation_def)
  have "rows_affected (awaits_activation i) (subscribers db) \<noteq> 0"
    using \<open>awaits_activation i r\<close> find_subscriber_id [OF r] by (auto simp: rows_affected_0)
  then have "stamp pg db c e = (db', Inr ())"
    using db' True assms(1,4,5) by (simp add: stamp_def ActivateSubscriber_def stmt_def)
  with rest f that show thesis by simp
next
  case False
  let ?f = "\<lambda>x. x\<lparr>sub_expiry := Some e\<rparr>"
  have f: "?f r = stamped e r" using False by (simp add: stamped_def)
  obtain db' where db': "update_subscribers (\<lambda>x. sub_id x = i) ?f db = Inr db'"
    and rest: "db' = db\<lparr>subscribers := subscribers db'\<rparr>" "ids_distinct db'" "find_subscriber db' i = Some (?f r)"
      "\<And>j. j \<noteq> i \<Longrightarrow> find_subscriber db' j = find_subscriber db j"
    using write_one [OF assms(2) r, of "\<lambda>x. sub_id x = i" ?f] stamped_checks [OF assms(6), of e]
      find_subscriber_id [OF r] f by auto
  have "stamp pg db c e = (db', Inr ())"
    using db' False assms(1,4,5) by (simp add: stamp_def SetPlanExpiry_def stmt_def)
  with rest f that show thesis by simp
qed

lemma restore_one:
  assumes "pg_faults pg = no_faults" and "ids_distinct (bl_db w)" and "find_subscriber (bl_db w) i = Some r"
    and "rc_SubscriberID c = i" and "rc_DunningState c = sub_dunning r" and "0 \<le> sub_balance r"
    and "sub_expiry r \<noteq> None"
  shows "find_subscriber (bl_db (restore_dunning dbnow now flt pg c e w)) j
       = (if j = i then Some (moved DunningActive r) else find_subscriber (bl_db w) j)
       \<and> bl_db (restore_dunning dbnow now flt pg c e w)
         = (bl_db w)\<lparr>subscribers := subscribers (bl_db (restore_dunning dbnow now flt pg c e w))\<rparr>"
proof (cases "sub_dunning r = DunningActive")
  case True
  with assms(3,5) show ?thesis by (simp add: restore_dunning_def moved_def)
next
  case False
  have id: "sub_id r = i" "r \<in> set (subscribers (bl_db w))" using find_subscriber_id [OF assms(3)] by auto
  have up: "dunning_up pg (bl_db w) i"
    using assms(1,2,6,7) id by (auto simp: dunning_up_def ids_distinct_def distinct_map dest: inj_onD)
  have "dunning_of (bl_db w) i = Some (sub_dunning r)" using assms(3) by (simp add: dunning_of_def)
  from ds.Transition_succeeds [OF up this] stepToward_active [OF False]
  have "TransitionDunning (DunningStore pg dbnow) (bl_db w) i DunningActive
      = (set_dunning i DunningActive (bl_db w), Inr ())" by blast
  then have "bl_db (restore_dunning dbnow now flt pg c e w) = set_dunning i DunningActive (bl_db w)"
    using False assms(4,5) by (simp add: restore_dunning_def enqueueRestorationNotice_def split: option.split)
  moreover have "find_subscriber (set_dunning i DunningActive (bl_db w)) j
      = (if j = i then Some (moved DunningActive r) else find_subscriber (bl_db w) j)"
    using assms(3) id False find_subscriber_id [of "bl_db w" j]
    by (auto simp: find_set_dunning moved_def movable_def intro!: option.map_ident_strong)
  ultimately show ?thesis by (simp add: set_dunning_def)
qed

section \<open>The invoice\<close>

definition tax_of :: "'d::linordered_idom Invoice \<Rightarrow> 'd" where
  "tax_of bill = CgstAmount bill + SgstAmount bill + IgstAmount bill"

text \<open>Every amount on the invoice fits its column as it stands.\<close>

definition invoice_stored :: "'d::linordered_idom pg \<Rightarrow> 'd Invoice \<Rightarrow> bool" where
  "invoice_stored pg bill =
     (\<forall>x \<in> {BaseAmount bill, CgstAmount bill, SgstAmount bill, IgstAmount bill, TotalAmount bill}.
        numeric pg 12 x = Some x)"

definition rates_nonneg :: "'d::linordered_idom db \<Rightarrow> bool" where
  "rates_nonneg db = (\<forall>g \<in> set (gst_rates db). 0 \<le> gr_cgst g \<and> 0 \<le> gr_sgst g \<and> 0 \<le> gr_igst g)"

lemma GetActiveGstRate_in:
  assumes "GetActiveGstRate pg now db = Inr rate"
  shows "\<exists>g \<in> set (gst_rates db). gr_effective_from g \<le> now
       \<and> rate = \<lparr>rate_ID = gr_id g, CgstRate = gr_cgst g, SgstRate = gr_sgst g, IgstRate = gr_igst g\<rparr>"
proof -
  let ?gs = "sort_key (\<lambda>g. - gr_effective_from g) (filter (\<lambda>g. gr_effective_from g \<le> now) (gst_rates db))"
  from assms obtain g gs where gs: "?gs = g # gs"
    and rate: "rate = \<lparr>rate_ID = gr_id g, CgstRate = gr_cgst g, SgstRate = gr_sgst g, IgstRate = gr_igst g\<rparr>"
    by (auto simp: GetActiveGstRate_def split: list.splits)
  have "g \<in> set ?gs" by (simp only: gs list.set_intros)
  then have "g \<in> set (gst_rates db)" and "gr_effective_from g \<le> now" by simp_all
  with rate show ?thesis by blast
qed

lemma invoice_facts:
  assumes "decimal_pkg_ok dp" and "rates_nonneg db" and "buildInvoice dp pg now db c = Inr bill"
    and "0 < rc_PlanPrice c"
  shows "BaseAmount bill = rc_PlanPrice c" "TotalAmount bill = rc_PlanPrice c + tax_of bill" "0 \<le> tax_of bill"
    "chk_gst_logic bill" "inv_SubscriberID bill = rc_SubscriberID c" "GbUsed bill = 0"
    "\<exists>g \<in> set (gst_rates db). gr_id g = GstRateID bill"
    "CgstAmount bill = 0 \<and> SgstAmount bill = 0 \<or> IgstAmount bill = 0"
    "0 \<le> CgstAmount bill" "0 \<le> SgstAmount bill"
proof -
  from assms(3) obtain rate where rate: "GetActiveGstRate pg now db = Inr rate"
    and bill: "bill = (CalculateGstInvoice dp (rc_PlanPrice c) (rc_RegisteredState c) rate)
              \<lparr>inv_SubscriberID := rc_SubscriberID c, GbIncluded := rc_PlanVolumeGB c, GbUsed := 0\<rparr>"
    by (auto simp: buildInvoice_def)
  obtain g where g: "g \<in> set (gst_rates db)"
    "rate = \<lparr>rate_ID = gr_id g, CgstRate = gr_cgst g, SgstRate = gr_sgst g, IgstRate = gr_igst g\<rparr>"
    using GetActiveGstRate_in [OF rate] by blast
  have nn: "0 \<le> percent_of dp (rc_PlanPrice c) (CgstRate rate)" "0 \<le> percent_of dp (rc_PlanPrice c) (SgstRate rate)"
    "0 \<le> percent_of dp (rc_PlanPrice c) (IgstRate rate)"
    using percent_nonneg [OF assms(1)] assms(2,4) g by (simp_all add: rates_nonneg_def)
  show "BaseAmount bill = rc_PlanPrice c" "TotalAmount bill = rc_PlanPrice c + tax_of bill" "0 \<le> tax_of bill"
    "chk_gst_logic bill" "inv_SubscriberID bill = rc_SubscriberID c" "GbUsed bill = 0"
    "\<exists>g \<in> set (gst_rates db). gr_id g = GstRateID bill"
    "CgstAmount bill = 0 \<and> SgstAmount bill = 0 \<or> IgstAmount bill = 0"
    "0 \<le> CgstAmount bill" "0 \<le> SgstAmount bill"
    unfolding bill using nn g
    by (auto simp: CalculateGstInvoice_def CalculateGstInvoiceFrom_def Let_def tax_of_def chk_gst_logic_def)
qed

lemma tax_stored:
  assumes "numeric_ok pg" and "invoice_stored pg bill" and "TotalAmount bill = price + tax_of bill"
    and "0 < price" and "0 \<le> tax_of bill" and "CgstAmount bill = 0 \<and> SgstAmount bill = 0 \<or> IgstAmount bill = 0"
  shows "numeric pg 12 (tax_of bill) = Some (tax_of bill)"
proof (cases "IgstAmount bill = 0")
  case True
  have "numeric pg 12 (tax_of bill) \<noteq> None"
    using assms(1-5) unfolding numeric_ok_def invoice_stored_def
    by (metis (no_types, lifting) insertCI le_add_same_cancel2 less_imp_le)
  then obtain x where "numeric pg 12 (tax_of bill) = Some x" by auto
  moreover have "tax_of bill = CgstAmount bill + SgstAmount bill" using True by (simp add: tax_of_def)
  ultimately show ?thesis using assms(1,2) unfolding numeric_ok_def invoice_stored_def by (metis insertCI)
next
  case False
  with assms(2,6) show ?thesis by (auto simp: tax_of_def invoice_stored_def)
qed

lemma CreateInvoice_ok:
  assumes "numeric_ok pg" and "pg_faults pg = no_faults" and "invoice_stored pg bill" and "chk_gst_logic bill"
    and "GbUsed bill = 0" and "find_subscriber db (inv_SubscriberID bill) \<noteq> None"
    and "\<exists>g \<in> set (gst_rates db). gr_id g = GstRateID bill"
  shows "CreateInvoice pg db bill
       = (db\<lparr>invoices := invoices db @ [(invoice_seq db, bill)], invoice_seq := invoice_seq db + 1\<rparr>,
          Inr (invoice_seq db))"
proof -
  have "numericE pg 12 (BaseAmount bill) = Inr (BaseAmount bill)" "numericE pg 12 (CgstAmount bill) = Inr (CgstAmount bill)"
    "numericE pg 12 (SgstAmount bill) = Inr (SgstAmount bill)" "numericE pg 12 (IgstAmount bill) = Inr (IgstAmount bill)"
    "numericE pg 12 (TotalAmount bill) = Inr (TotalAmount bill)" "numericE pg 10 (GbUsed bill) = Inr (GbUsed bill)"
    using assms(1,3,5) by (simp_all add: invoice_stored_def numericE_def numeric_ok_def)
  moreover have "stmt pg l = Inr ()" for l using assms(2) by simp
  moreover have "guardE (chk_gst_logic bill) e = Inr ()" "guardE (find_subscriber db (inv_SubscriberID bill) \<noteq> None) e = Inr ()"
    "guardE (\<exists>g \<in> set (gst_rates db). gr_id g = GstRateID bill) e = Inr ()" for e
    using assms(4,6,7) by simp_all
  moreover have "bill\<lparr>BaseAmount := BaseAmount bill, CgstAmount := CgstAmount bill, SgstAmount := SgstAmount bill,
      IgstAmount := IgstAmount bill, TotalAmount := TotalAmount bill, GbUsed := GbUsed bill\<rparr> = bill"
    by simp
  ultimately show ?thesis by (simp only: CreateInvoice_def bindE_simps Let_def sum.case)
qed

section \<open>Properties\<close>

text \<open>The row a renewal leaves behind: charged, dated, activated and out of dunning.\<close>

definition renewed :: "'d::linordered_idom Invoice \<Rightarrow> time \<Rightarrow> 'd subscriber \<Rightarrow> 'd subscriber" where
  "renewed bill e r = moved DunningActive (stamped e (r\<lparr>sub_balance := sub_balance r - TotalAmount bill\<rparr>))"

lemma charge_frame:
  assumes "find_subscriber db i = Some r"
    and "subscribers db' = update_where (\<lambda>x. sub_id x = i) (\<lambda>x. x\<lparr>sub_balance := v\<rparr>) (subscribers db)"
  shows "find_subscriber db' i = Some (r\<lparr>sub_balance := v\<rparr>)"
    and "j \<noteq> i \<Longrightarrow> find_subscriber db' j = find_subscriber db j"
    and "ids_distinct db' = ids_distinct db"
proof -
  have found: "find_subscriber db' j = map_option (\<lambda>x. if sub_id x = i then x\<lparr>sub_balance := v\<rparr> else x)
                                         (find_subscriber db j)" for j
    unfolding find_subscriber_def assms(2) by (simp add: find_update_where)
  show "find_subscriber db' i = Some (r\<lparr>sub_balance := v\<rparr>)"
    using found [of i] assms(1) find_subscriber_id [OF assms(1)] by simp
  show "j \<noteq> i \<Longrightarrow> find_subscriber db' j = find_subscriber db j"
    using find_update_other [OF _ _ found, of i] by blast
  show "ids_distinct db' = ids_distinct db"
    unfolding ids_distinct_def assms(2) by (simp add: map_update_where)
qed

lemma renewal_request_charge:
  "renewal_request (to_renewal r p) bill
   = charge_request (sub_id r) (sub_franchise_id r) (TotalAmount bill) (tax_of bill) (''auto-renewal: '' @ plan_name p)"
  by (simp add: renewal_request_def charge_request_def to_renewal_def tax_of_def)

text \<open>What follows the debit: the cycle is dated, the invoice stored, dunning undone.\<close>

lemma renew_after_charge:
  assumes "numeric_ok pg" and up: "pg_faults pg = no_faults"
    and "buildInvoice dp pg dbnow (bl_db w) c = Inr bill" and stored: "invoice_stored pg bill"
    and "chk_gst_logic bill" and "GbUsed bill = 0" and "inv_SubscriberID bill = rc_SubscriberID c"
    and post: "Post (BillingStore pg) (bl_db w) (renewal_request c bill) = (db1, Inr tx)"
    and "\<exists>g \<in> set (gst_rates db1). gr_id g = GstRateID bill"
    and "ids_distinct db1" and r: "find_subscriber db1 (rc_SubscriberID c) = Some r"
    and "rc_Status c = sub_status r" and "rc_DunningState c = sub_dunning r" and "0 \<le> sub_balance r"
  shows "\<exists>w'. renew dp dbnow now flt pg w c = (w', Inr ())
       \<and> (\<forall>j. find_subscriber (bl_db w') j =
              (if j = rc_SubscriberID c then Some (moved DunningActive (stamped (new_expiry now c) r))
               else find_subscriber db1 j))
       \<and> invoices (bl_db w') = invoices db1 @ [(invoice_seq db1, bill)]
       \<and> gl_lines (bl_db w') = gl_lines db1"
proof -
  let ?i = "rc_SubscriberID c" and ?e = "new_expiry now c" and ?r = "stamped (new_expiry now c) r"
  obtain db2 where stamp: "stamp pg db1 c ?e = (db2, Inr ())" and r2: "find_subscriber db2 ?i = Some ?r"
    and db2: "ids_distinct db2" "db2 = db1\<lparr>subscribers := subscribers db2\<rparr>"
    and other: "\<And>j. j \<noteq> ?i \<Longrightarrow> find_subscriber db2 j = find_subscriber db1 j"
    using stamp_one [OF up assms(10) r refl assms(12,14), of ?e] by blast
  have same: "gst_rates db2 = gst_rates db1" "invoices db2 = invoices db1" "invoice_seq db2 = invoice_seq db1"
    "gl_lines db2 = gl_lines db1"
    by (subst db2(2), simp)+
  let ?w3 = "fst (persistInvoice pg (w\<lparr>bl_db := db2\<rparr>) bill)"
  have w3: "bl_db ?w3 = db2\<lparr>invoices := invoices db1 @ [(invoice_seq db1, bill)], invoice_seq := invoice_seq db1 + 1\<rparr>"
    using CreateInvoice_ok [OF assms(1) up stored assms(5,6), of db2] assms(7,9) r2 same
    by (simp add: persistInvoice_def)
  have "find_subscriber (bl_db ?w3) j = find_subscriber db2 j" for j
    unfolding w3 by (simp add: find_subscriber_def)
  moreover have "ids_distinct (bl_db ?w3)"
    unfolding w3 using db2(1) by (simp add: ids_distinct_def)
  moreover have "rc_DunningState c = sub_dunning ?r" "0 \<le> sub_balance ?r" "sub_expiry ?r \<noteq> None"
    using assms(13,14) by (simp_all add: stamped_def)
  ultimately have restore: "find_subscriber (bl_db (restore_dunning dbnow now flt pg c ?e ?w3)) j
       = (if j = ?i then Some (moved DunningActive ?r) else find_subscriber db2 j)"
    and rest: "bl_db (restore_dunning dbnow now flt pg c ?e ?w3)
         = (bl_db ?w3)\<lparr>subscribers := subscribers (bl_db (restore_dunning dbnow now flt pg c ?e ?w3))\<rparr>" for j
    using restore_one [OF up, of ?w3 ?i ?r c dbnow now flt ?e] r2 by auto
  have "renew dp dbnow now flt pg w c = (restore_dunning dbnow now flt pg c ?e ?w3, Inr ())"
    using assms(3) post stamp by (simp add: renew_def Let_def)
  moreover have "invoices (bl_db (restore_dunning dbnow now flt pg c ?e ?w3)) = invoices db1 @ [(invoice_seq db1, bill)]"
    "gl_lines (bl_db (restore_dunning dbnow now flt pg c ?e ?w3)) = gl_lines db1"
    by (subst rest, simp add: w3 same)+
  ultimately show ?thesis using restore other by simp
qed

lemma renew_effect:
  assumes "numeric_ok pg" and "decimal_pkg_ok dp" and "pg_faults pg = no_faults" and "wallet_inv pg (bl_db w)"
    and "charge_accounts (bl_db w)" and "rates_nonneg (bl_db w)"
    and "find_subscriber (bl_db w) (sub_id r) = Some r" and "0 < plan_price p"
    and "buildInvoice dp pg dbnow (bl_db w) (to_renewal r p) = Inr bill" and "invoice_stored pg bill"
    and "TotalAmount bill \<le> sub_balance r"
  shows "\<exists>w'. renew dp dbnow now flt pg w (to_renewal r p) = (w', Inr ())
       \<and> (\<forall>j. find_subscriber (bl_db w') j =
              (if j = sub_id r then Some (renewed bill (new_expiry now (to_renewal r p)) r)
               else find_subscriber (bl_db w) j))
       \<and> invoices (bl_db w') = invoices (bl_db w) @ [(invoice_seq (bl_db w), bill)]
       \<and> gl_lines (bl_db w') = gl_lines (bl_db w) @ charge_lines (bl_db w) (TotalAmount bill) (tax_of bill)"
proof -
  let ?c = "to_renewal r p" and ?i = "sub_id r" and ?e = "new_expiry now (to_renewal r p)"
  have price: "0 < rc_PlanPrice ?c" using assms(8) by (simp add: to_renewal_def)
  note facts = invoice_facts [OF assms(2,6,9) price]
  have tax: "numeric pg 12 (tax_of bill) = Some (tax_of bill)"
    using tax_stored [OF assms(1,10) facts(2) price facts(3,8)] .
  have total: "numeric pg 12 (TotalAmount bill) = Some (TotalAmount bill)"
    using assms(10) by (simp add: invoice_stored_def)
  have "tax_of bill < TotalAmount bill" using facts(2) price by simp
  from charge_commits [OF assms(1,4,3) total tax facts(3) this assms(5,7,11), of "sub_franchise_id r"
      "''auto-renewal: '' @ plan_name p"]
  obtain legs g tx where post: "Post (BillingStore pg) (bl_db w) (renewal_request ?c bill)
    = ((bl_db w)\<lparr>wallet_ledgers := wallet_ledgers (bl_db w) @ legs, wallet_seq := wallet_seq (bl_db w) + 2,
          subscribers := update_where (\<lambda>x. sub_id x = ?i) (\<lambda>x. x\<lparr>sub_balance := sub_balance r - TotalAmount bill\<rparr>)
                           (subscribers (bl_db w)),
          gl_entries := gl_entries (bl_db w) @ [g], gl_seq := gl_seq (bl_db w) + 1,
          gl_lines := gl_lines (bl_db w) @ charge_lines (bl_db w) (TotalAmount bill) (tax_of bill)\<rparr>, Inr tx)"
    (is "_ = (?db1, _)") unfolding renewal_request_charge .
  define db1 where "db1 = ?db1"
  have db1: "subscribers db1 = update_where (\<lambda>x. sub_id x = ?i)
      (\<lambda>x. x\<lparr>sub_balance := sub_balance r - TotalAmount bill\<rparr>) (subscribers (bl_db w))"
    "gl_lines db1 = gl_lines (bl_db w) @ charge_lines (bl_db w) (TotalAmount bill) (tax_of bill)"
    "gst_rates db1 = gst_rates (bl_db w)" "invoices db1 = invoices (bl_db w)" "invoice_seq db1 = invoice_seq (bl_db w)"
    by (simp_all add: db1_def)
  note frame1 = charge_frame [OF assms(7) db1(1)]
  have "ids_distinct db1"
    using assms(4) frame1(3) by (simp add: ids_distinct_def wallet_inv_def subscribers_ok_def)
  moreover have "\<exists>g \<in> set (gst_rates db1). gr_id g = GstRateID bill" unfolding db1 by (rule facts(7))
  ultimately obtain w' where "renew dp dbnow now flt pg w ?c = (w', Inr ())"
    and found: "\<And>j. find_subscriber (bl_db w') j = (if j = ?i
        then Some (moved DunningActive (stamped ?e (r\<lparr>sub_balance := sub_balance r - TotalAmount bill\<rparr>)))
        else find_subscriber db1 j)"
    and "invoices (bl_db w') = invoices db1 @ [(invoice_seq db1, bill)]" and "gl_lines (bl_db w') = gl_lines db1"
    using renew_after_charge [OF assms(1,3,9,10) facts(4,6,5) post [folded db1_def], of
        "r\<lparr>sub_balance := sub_balance r - TotalAmount bill\<rparr>" now flt] frame1(1) assms(11)
    by (auto simp: to_renewal_def)
  moreover have "find_subscriber db1 j = find_subscriber (bl_db w) j" if "j \<noteq> ?i" for j
    using frame1(2) that .
  ultimately show ?thesis unfolding db1(2,4,5) renewed_def by auto
qed

lemma new_expiry_max: "new_expiry now (to_renewal r p) = max now (rc_PlanExpiry (to_renewal r p)) + plan_validity_days p * Day"
  by (simp add: new_expiry_def to_renewal_def)

text \<open>
  C7. A renewal does what it announces. For a candidate who can pay the taxed price, with the
  statements running: the wallet is debited with exactly the invoice total, the plan runs for its
  validity from the later of now and the old expiry, a first-time subscriber is activated and a
  dunned one is restored, the very invoice that was priced is stored, the journal credits revenue
  net of tax and GST Payable with the invoice's tax, and no other subscriber is touched.
\<close>

theorem renew_charges_and_extends:
  assumes "numeric_ok pg" and "decimal_pkg_ok dp" and "pg_faults pg = no_faults" and "wallet_inv pg (bl_db w)"
    and "charge_accounts (bl_db w)" and "rates_nonneg (bl_db w)"
    and "find_subscriber (bl_db w) (sub_id r) = Some r" and "0 < plan_price p"
    and "buildInvoice dp pg dbnow (bl_db w) (to_renewal r p) = Inr bill" and "invoice_stored pg bill"
    and "TotalAmount bill \<le> sub_balance r"
  shows "\<exists>w'. renew dp dbnow now flt pg w (to_renewal r p) = (w', Inr ())
       \<and> (\<forall>j. find_subscriber (bl_db w') j =
              (if j = sub_id r then Some (renewed bill (max now (rc_PlanExpiry (to_renewal r p)) + plan_validity_days p * Day) r)
               else find_subscriber (bl_db w) j))
       \<and> invoices (bl_db w') = invoices (bl_db w) @ [(invoice_seq (bl_db w), bill)]
       \<and> gl_lines (bl_db w') = gl_lines (bl_db w) @ charge_lines (bl_db w) (TotalAmount bill) (tax_of bill)"
  using renew_effect [OF assms] unfolding new_expiry_max .

lemma Post_Inl_unchanged:
  assumes "Post (BillingStore pg) db req = (db', Inl e)"
  shows "db' = db"
  using assms RecordRecharge_Inl
  by (auto simp: Post_def Let_def record_posting_def BillingStore_def split: if_splits option.splits sum.splits prod.splits)

text \<open>
  A renewal that cannot be paid for is not half done. Without an effective GST rate, and whenever
  the debit fails for whatever reason, the database, the task queue and the partner events are as
  they were; a balance that covers the price but not the tax is such a case, and no error.
\<close>

theorem renew_refuses_cleanly:
  assumes "decimal_pkg_ok dp" and "rates_nonneg (bl_db w)" and "0 < rc_PlanPrice c"
  shows "(GetActiveGstRate pg dbnow (bl_db w) = Inl e \<longrightarrow> renew dp dbnow now flt pg w c = (w, Inl e))
    \<and> (buildInvoice dp pg dbnow (bl_db w) c = Inr bill \<and>
         snd (Post (BillingStore pg) (bl_db w) (renewal_request c bill)) = Inl e'
         \<longrightarrow> fst (renew dp dbnow now flt pg w c) = w)
    \<and> (buildInvoice dp pg dbnow (bl_db w) c = Inr bill \<and> pg_faults pg ''get balance'' = None \<and>
         balance_of (bl_db w) (rc_SubscriberID c) = Some b \<and> b < TotalAmount bill
         \<longrightarrow> renew dp dbnow now flt pg w c = (w, Inr ()))"
proof (intro conjI impI)
  assume "GetActiveGstRate pg dbnow (bl_db w) = Inl e"
  then show "renew dp dbnow now flt pg w c = (w, Inl e)" by (simp add: renew_def buildInvoice_def)
next
  assume *: "buildInvoice dp pg dbnow (bl_db w) c = Inr bill \<and>
         snd (Post (BillingStore pg) (bl_db w) (renewal_request c bill)) = Inl e'"
  then have "Post (BillingStore pg) (bl_db w) (renewal_request c bill) = (bl_db w, Inl e')"
    using Post_Inl_unchanged by (metis prod.collapse)
  with * show "fst (renew dp dbnow now flt pg w c) = w" by (simp add: renew_def split: err.split)
next
  assume *: "buildInvoice dp pg dbnow (bl_db w) c = Inr bill \<and> pg_faults pg ''get balance'' = None \<and>
         balance_of (bl_db w) (rc_SubscriberID c) = Some b \<and> b < TotalAmount bill"
  note facts = invoice_facts [OF assms(1,2) conjunct1 [OF *] assms(3)]
  from * have "GetSubscriberBalance pg (bl_db w) (rc_SubscriberID c) = Inr b"
    by (auto simp: GetSubscriberBalance_def balance_of_def stmt_def)
  then have "Post (BillingStore pg) (bl_db w) (renewal_request c bill) = (bl_db w, Inl ErrInsufficientBalance)"
    using facts(2,3) assms(3) *
    by (simp add: Post_def renewal_request_def existing_tx_def BillingStore_def tax_of_def [symmetric])
  with * show "renew dp dbnow now flt pg w c = (w, Inr ())" by (simp add: renew_def)
qed

lemma charge_effect:
  assumes "Post (BillingStore pg) db (charge_request i f amt tax d) = (db', Inr tx)"
    and r: "find_subscriber db i = Some r" and "numeric_ok pg" and "numeric pg 12 amt = Some amt"
    and "numeric pg 12 (sub_balance r) = Some (sub_balance r)"
  shows "find_subscriber db' i = Some (r\<lparr>sub_balance := sub_balance r - amt\<rparr>)
       \<and> invoices db' = invoices db \<and> plans db' = plans db"
proof -
  let ?p = "post_posting (charge_request i f amt tax d) (sub_balance r - amt)"
  have "existing_tx (BillingStore pg) db [] = None" by (simp add: existing_tx_def)
  with assms(1) r obtain tx' where rec: "RecordRecharge pg db ?p = (db', Inr tx')"
    by (auto simp: Post_def charge_request_def BillingStore_def GetSubscriberBalance_def bindE_def record_posting_def
        Let_def split: if_splits sum.splits prod.splits)
  have p: "rp_NewBalance ?p = sub_balance r - amt" "rp_SubscriberID ?p = i"
    by (simp_all add: post_posting_def charge_request_def)
  from rec show ?thesis
  proof (cases rule: RecordRecharge_Inr)
    case (1 a b a' b' nb g ls)
    have "nb = sub_balance r - amt"
      using 1(3) assms(3-5) unfolding p numeric_ok_def by blast
    then show ?thesis using r find_subscriber_id [OF r]
      by (simp add: 1(10) p find_subscriber_def find_update_where)
  qed
qed


section \<open>Instances\<close>

text \<open>A plan of 500.00 for 30 days at 9% + 9%, and a hard-suspended subscriber with 1000.00.\<close>

definition rn_plan :: "rat plan" where
  "rn_plan = \<lparr>plan_id = 1, plan_name = ''Home 100'', plan_price = 500, plan_validity_days = 30,
              plan_volume_gb = 300, plan_rate_limit = ''100M/100M'', plan_fup_throttle = ''2M/2M'',
              plan_fup_threshold = 0\<rparr>"

definition rn_sub :: "rat \<Rightarrow> rat subscriber" where
  "rn_sub b = wb_sub\<lparr>sub_balance := b, sub_status := HardSuspended, sub_dunning := DunningHardSuspended\<rparr>"

definition rn_db :: "rat \<Rightarrow> rat db" where
  "rn_db b = wb_db\<lparr>subscribers := [rn_sub b], plans := [rn_plan],
                   gst_rates := [\<lparr>gr_id = 3, gr_cgst = 9, gr_sgst = 9, gr_igst = 18, gr_effective_from = 1\<rparr>]\<rparr>"

definition rn_world :: "rat \<Rightarrow> rat billing" where
  "rn_world b = \<lparr>bl_db = rn_db b, bl_tasks = Some empty_queue, bl_events = Some []\<rparr>"

definition rn_bill :: "rat Invoice" where
  "rn_bill = \<lparr>inv_SubscriberID = 7, BaseAmount = 500, CgstAmount = 45, SgstAmount = 45, IgstAmount = 0,
              TotalAmount = 590, GstRateID = 3, GbIncluded = 300, GbUsed = 0\<rparr>"

definition no_extend :: faults where
  "no_extend l = (if l = ''set plan expiry'' then Some ''conn closed'' else None)"

lemmas rn_defs = rn_plan_def rn_sub_def rn_db_def rn_world_def rn_bill_def wb_defs

lemma rn_bill_built:
  "buildInvoice rat_decimals (rat_pg no_faults) (10 * Day) (rn_db 1000) (to_renewal (rn_sub 1000) rn_plan) = Inr rn_bill"
  "buildInvoice rat_decimals (rat_pg no_faults) (10 * Day) (rn_db 550) (to_renewal (rn_sub 550) rn_plan) = Inr rn_bill"
  "buildInvoice rat_decimals (rat_pg no_extend) (10 * Day) (rn_db 1200) (to_renewal (rn_sub 1200) rn_plan) = Inr rn_bill"
  by code_simp+

lemma rn_numeric:
  "rat_numeric 12 1000 = Some 1000" "rat_numeric 12 1200 = Some 1200" "rat_numeric 12 590 = Some 590"
  "rat_numeric 12 500 = Some 500" "rat_numeric 12 45 = Some 45" "rat_numeric 12 0 = Some 0"
  by code_simp+

lemma rn_inv: "b = 1000 \<or> b = 1200 \<Longrightarrow> wallet_inv (rat_pg flt) (rn_db b)"
  using rn_numeric
  by (auto simp: wallet_inv_def subscribers_ok_def subscriber_checks_def chk_wallet_balance_nonneg_def
      chk_authorised_subscriber_is_billable_def gl_ok_def entry_debits_def entry_credits_def rat_pg_def rn_defs)

lemma rn_found: "find_subscriber (rn_db b) (sub_id (rn_sub b)) = Some (rn_sub b)"
  by (simp add: find_subscriber_def rn_defs)

lemma rn_rates: "rates_nonneg (rn_db b)" and rn_accounts: "charge_accounts (rn_db b)"
  by (simp_all add: rates_nonneg_def charge_accounts_def rn_defs)

theorem renew_charges_and_extends_witness:
  "\<exists>w'. renew rat_decimals (10 * Day) (10 * Day) no_faults (rat_pg no_faults) (rn_world 1000)
          (to_renewal (rn_sub 1000) rn_plan) = (w', Inr ())
     \<and> find_subscriber (bl_db w') 7 = Some (wb_sub\<lparr>sub_balance := 410, sub_expiry := Some (40 * Day)\<rparr>)
     \<and> invoices (bl_db w') = [(1, rn_bill)] \<and> map gl_credit (gl_lines (bl_db w')) = [500, 90, 0]"
proof -
  have "invoice_stored (rat_pg no_faults) rn_bill"
    using rn_numeric by (simp add: invoice_stored_def rat_pg_def rn_bill_def)
  moreover have "pg_faults (rat_pg no_faults) = no_faults" "bl_db (rn_world 1000) = rn_db 1000" "0 < plan_price rn_plan"
    "TotalAmount rn_bill \<le> sub_balance (rn_sub 1000)"
    by (simp_all add: rat_pg_def rn_defs)
  ultimately obtain w' where w': "renew rat_decimals (10 * Day) (10 * Day) no_faults (rat_pg no_faults) (rn_world 1000)
          (to_renewal (rn_sub 1000) rn_plan) = (w', Inr ())"
    and found: "\<forall>j. find_subscriber (bl_db w') j = (if j = sub_id (rn_sub 1000)
          then Some (renewed rn_bill (max (10 * Day) (rc_PlanExpiry (to_renewal (rn_sub 1000) rn_plan)) + plan_validity_days rn_plan * Day) (rn_sub 1000))
          else find_subscriber (rn_db 1000) j)"
    and "invoices (bl_db w') = invoices (rn_db 1000) @ [(invoice_seq (rn_db 1000), rn_bill)]"
    and "gl_lines (bl_db w') = gl_lines (rn_db 1000) @ charge_lines (rn_db 1000) (TotalAmount rn_bill) (tax_of rn_bill)"
    using renew_charges_and_extends [OF rat_pg_ok rat_decimals_ok, of no_faults "rn_world 1000" "rn_sub 1000" rn_plan
        "10 * Day" rn_bill "10 * Day" no_faults] rn_inv rn_accounts rn_rates rn_found rn_bill_built(1)
    by auto
  moreover have "max (10 * Day) (rc_PlanExpiry (to_renewal (rn_sub 1000) rn_plan)) + plan_validity_days rn_plan * Day = 40 * Day"
    by (simp add: to_renewal_def rn_defs clock_simps)
  then have "renewed rn_bill (max (10 * Day) (rc_PlanExpiry (to_renewal (rn_sub 1000) rn_plan)) + plan_validity_days rn_plan * Day) (rn_sub 1000)
      = wb_sub\<lparr>sub_balance := 410, sub_expiry := Some (40 * Day)\<rparr>"
    by (simp add: renewed_def stamped_def moved_def movable_def rn_defs)
  ultimately show ?thesis
    by (intro exI [of _ w']) (simp add: rn_defs charge_lines_def tax_of_def)
qed

theorem renew_refuses_cleanly_witness:
  "renew rat_decimals (10 * Day) (10 * Day) no_faults (rat_pg no_faults) (rn_world 550)
     (to_renewal (rn_sub 550) rn_plan) = (rn_world 550, Inr ())"
proof -
  have "0 < rc_PlanPrice (to_renewal (rn_sub 550) rn_plan)" and "bl_db (rn_world 550) = rn_db 550"
    and "balance_of (rn_db 550) (rc_SubscriberID (to_renewal (rn_sub 550) rn_plan)) = Some 550"
    and "550 < TotalAmount rn_bill"
    by (simp_all add: to_renewal_def balance_of_def find_subscriber_def rn_defs)
  then show ?thesis
    using renew_refuses_cleanly [OF rat_decimals_ok, of "rn_world 550" "to_renewal (rn_sub 550) rn_plan"
        "rat_pg no_faults" "10 * Day" _ "10 * Day" no_faults rn_bill _ 550] rn_rates rn_bill_built(2)
    by (simp add: rat_pg_def)
qed

lemma rn_charged: "isl (snd (Post (BillingStore (rat_pg no_extend)) (rn_db 1200)
    (renewal_request (to_renewal (rn_sub 1200) rn_plan) rn_bill))) = False"
  by code_simp


end
