(* ===== verification/Nas.thy ===== *)
theory Nas
  imports Prelude "HOL-Library.Word"
begin

text \<open>
  Network access servers (\<open>src/internal/nas\<close>): the vendor-specific attributes of an Access-Accept or
  a CoA, the parser of rate strings behind the numeric vendors, and the resolver that maps the
  sender of a packet to its registered device.

  The cache of plan profiles is keyed by the printed pair of plan and vendor; printing is injective
  (a number never contains the colon), so the model uses the pair.

  \<open>radius.NewVendorSpecific\<close> belongs to the RADIUS package the code imports; it is the argument \<open>nvs\<close> of
  the builders, and \<open>vendor_specific_ok\<close> is what that package documents. Decryption of the stored
  secrets is the argument \<open>decrypt\<close> of \<open>Refresh\<close>.
\<close>

unbundle bit_operations_syntax

section \<open>Bytes\<close>

type_synonym bytes = "8 word list"

text \<open>Go's conversions \<open>[]byte(s)\<close> and \<open>string(b)\<close>.\<close>

definition bytes_of :: "string \<Rightarrow> bytes" where "bytes_of s = map (\<lambda>c. word_of_nat (of_char c)) s"
definition string_of :: "bytes \<Rightarrow> string" where "string_of b = map (\<lambda>w. char_of (unat w)) b"

lemma string_of_bytes_of [simp]: "string_of (bytes_of s) = s"
proof -
  have "unat (word_of_nat (of_char c) :: 8 word) = of_char c" for c :: char
  proof -
    have "(of_char c :: nat) mod 256 = of_char c" by (metis char_of_char of_char_of)
    then have "(of_char c :: nat) < 2 ^ 8" using mod_less_divisor [of 256 "of_char c"] by simp
    then show ?thesis by (simp add: unat_of_nat take_bit_nat_eq_self)
  qed
  then show ?thesis by (simp add: string_of_def bytes_of_def comp_def)
qed

lemma length_bytes_of [simp]: "length (bytes_of s) = length s"
  by (simp add: bytes_of_def)

lemma length_string_of [simp]: "length (string_of b) = length b"
  by (simp add: string_of_def)

lemma bytes_of_string_of [simp]: "bytes_of (string_of b) = b"
proof -
  have "unat w < 2 ^ LENGTH(8)" for w :: "8 word" by (rule unsigned_less)
  then have "unat w mod 256 = unat w" for w :: "8 word" by simp
  then show ?thesis by (simp add: bytes_of_def string_of_def comp_def)
qed

lemma bytes_of_inj [simp]: "bytes_of s = bytes_of t \<longleftrightarrow> s = t"
  using string_of_bytes_of by metis

definition uint32BE :: "32 word \<Rightarrow> bytes" where
  "uint32BE v = [ucast (drop_bit 24 v), ucast (drop_bit 16 v), ucast (drop_bit 8 v), ucast v]"

definition be32 :: "8 word \<Rightarrow> 8 word \<Rightarrow> 8 word \<Rightarrow> 8 word \<Rightarrow> 32 word" where
  "be32 a b c d = push_bit 24 (ucast a) OR push_bit 16 (ucast b) OR push_bit 8 (ucast c) OR ucast d"

lemma be32_uint32BE: "be32 (ucast (drop_bit 24 v)) (ucast (drop_bit 16 v)) (ucast (drop_bit 8 v)) (ucast v) = v"
proof (rule bit_word_eqI)
  fix n assume "n < LENGTH(32)"
  then consider "n < 8" | "8 \<le> n" "n < 16" | "16 \<le> n" "n < 24" | "24 \<le> n" "n < 32" by fastforce
  then show "bit (be32 (ucast (drop_bit 24 v)) (ucast (drop_bit 16 v)) (ucast (drop_bit 8 v)) (ucast v)) n = bit v n"
    by cases (auto simp: be32_def bit_simps)
qed

section \<open>Vendors and attributes\<close>

datatype Vendor =
    VendorMikrotik | VendorHuawei | VendorZTE | VendorCisco | VendorJuniper
  | VendorCiscoWLC | VendorAruba | VendorRuckus
  | OtherVendor string

record RateProfile =
  RateLimitString :: string
  ProfileName :: string

record Attr =
  attr_Type :: nat
  attr_Value :: bytes

text \<open>The RADIUS package's constructor of a vendor-specific attribute value.\<close>

type_synonym new_vsa = "32 word \<Rightarrow> bytes \<Rightarrow> string + bytes"

definition vendor_specific_ok :: "new_vsa \<Rightarrow> bool" where
  "vendor_specific_ok nvs \<longleftrightarrow>
     (\<forall>v x. length x \<le> 249 \<longrightarrow> nvs v x = Inr (uint32BE v @ x)) \<and> (\<forall>v x. 249 < length x \<longrightarrow> isl (nvs v x))"

definition bindS :: "string + 'a \<Rightarrow> ('a \<Rightarrow> string + 'b) \<Rightarrow> string + 'b" where
  "bindS m f = (case m of Inl e \<Rightarrow> Inl e | Inr x \<Rightarrow> f x)"

lemma bindS_simps [simp]: "bindS (Inl e) f = Inl e" "bindS (Inr x) f = f x"
  by (simp_all add: bindS_def)

lemma isl_bindS: "isl (bindS m f) \<longleftrightarrow> isl m \<or> (\<exists>x. m = Inr x \<and> isl (f x))"
  by (cases m) auto

lemma bindS_Inr: "bindS m f = Inr y \<longleftrightarrow> (\<exists>x. m = Inr x \<and> f x = Inr y)"
  by (cases m) auto

definition buildVendorSubAttr :: "new_vsa \<Rightarrow> 32 word \<Rightarrow> 8 word \<Rightarrow> bytes \<Rightarrow> string + Attr" where
  "buildVendorSubAttr nvs vendorID subType value =
     (if 255 < 2 + length value then Inl ''nas: value too long''
      else bindS (nvs vendorID ([subType, word_of_nat (2 + length value)] @ value)) (\<lambda>v.
             Inr \<lparr>attr_Type = 26, attr_Value = v\<rparr>))"

section \<open>Rate strings\<close>

text \<open>\<open>strconv.ParseUint(s, 10, 32)\<close>: decimal digits only, refused from \<open>2 ^ 32\<close> on; the result is a \<open>uint64\<close>.\<close>

fun parse_digits :: "nat \<Rightarrow> string \<Rightarrow> nat option" where
  "parse_digits acc [] = Some acc"
| "parse_digits acc (c # cs) = (if is_digit c then parse_digits (10 * acc + (of_char c - 48)) cs else None)"

definition ParseUint32 :: "string \<Rightarrow> string + 64 word" where
  "ParseUint32 s =
     (if s = [] then Inl ''invalid syntax''
      else case parse_digits 0 s of
        None \<Rightarrow> Inl ''invalid syntax''
      | Some n \<Rightarrow> if n < 2 ^ 32 then Inr (word_of_nat n) else Inl ''value out of range'')"

definition suffix_mult :: "char \<Rightarrow> (64 word) option" where
  "suffix_mult c =
     (if c = CHR ''k'' \<or> c = CHR ''K'' then Some 1000
      else if c = CHR ''m'' \<or> c = CHR ''M'' then Some 1000000
      else if c = CHR ''g'' \<or> c = CHR ''G'' then Some 1000000000
      else None)"

definition parseRateToken :: "string \<Rightarrow> string + 32 word" where
  "parseRateToken tok0 =
     (let tok = TrimSpace tok0 in
      if tok = [] then Inl ''empty rate token''
      else let (mult, numPart) = (case suffix_mult (last tok) of
                                    Some m \<Rightarrow> (m, butlast tok)
                                  | None \<Rightarrow> (1, tok))
           in bindS (ParseUint32 numPart) (\<lambda>n.
                let val = n * mult
                in if 4294967295 < val then Inl ''rate token overflows a 32-bit bps value''
                   else Inr (ucast val)))"

text \<open>\<open>strings.SplitN(s, "/", 2)\<close>.\<close>

definition split_slash :: "string \<Rightarrow> string list" where
  "split_slash s = (let a = takeWhile (\<lambda>c. c \<noteq> CHR ''/'') s; b = dropWhile (\<lambda>c. c \<noteq> CHR ''/'') s
                    in case b of [] \<Rightarrow> [a] | _ # rest \<Rightarrow> [a, rest])"

definition parseRateLimitString :: "string \<Rightarrow> string + (32 word \<times> 32 word)" where
  "parseRateLimitString s =
     (case split_slash s of
        [a, b] \<Rightarrow> bindS (parseRateToken a) (\<lambda>first. bindS (parseRateToken b) (\<lambda>second. Inr (first, second)))
      | _ \<Rightarrow> Inl ''rate limit: expected first/second format'')"

section \<open>Builders\<close>

definition mikrotikRateLimitAttrs :: "new_vsa \<Rightarrow> string \<Rightarrow> string + Attr list" where
  "mikrotikRateLimitAttrs nvs rateLimit =
     (if rateLimit = [] then Inl ''nas: mikrotik: empty rate limit string''
      else let rlBytes = bytes_of rateLimit;
               len = (if 2 + length rlBytes \<le> 255 then word_of_nat (2 + length rlBytes) else 255)
           in bindS (nvs 14988 ([8, len] @ rlBytes)) (\<lambda>v. Inr [\<lparr>attr_Type = 26, attr_Value = v\<rparr>]))"

text \<open>Huawei and ZTE: two numeric sub-attributes.\<close>

definition rateAttrs :: "new_vsa \<Rightarrow> 32 word \<Rightarrow> 8 word \<Rightarrow> 8 word \<Rightarrow> string \<Rightarrow> string + Attr list" where
  "rateAttrs nvs vendorID inType outType rateLimit =
     bindS (parseRateLimitString rateLimit) (\<lambda>(i, out).
     bindS (buildVendorSubAttr nvs vendorID inType (uint32BE i)) (\<lambda>inAttr.
     bindS (buildVendorSubAttr nvs vendorID outType (uint32BE out)) (\<lambda>outAttr.
       Inr [inAttr, outAttr])))"

definition huaweiRateAttrs :: "new_vsa \<Rightarrow> string \<Rightarrow> string + Attr list" where
  "huaweiRateAttrs nvs rateLimit = rateAttrs nvs 2011 24 25 rateLimit"

definition zteRateAttrs :: "new_vsa \<Rightarrow> string \<Rightarrow> string + Attr list" where
  "zteRateAttrs nvs rateLimit = rateAttrs nvs 3902 201 202 rateLimit"

definition buildAVPair :: "new_vsa \<Rightarrow> string \<Rightarrow> string + Attr" where
  "buildAVPair nvs pair = buildVendorSubAttr nvs 9 1 (bytes_of pair)"

definition ciscoAVPairAttrs :: "new_vsa \<Rightarrow> string \<Rightarrow> string + Attr list" where
  "ciscoAVPairAttrs nvs profileName =
     (if profileName = [] then Inl ''nas: cisco: empty QoS profile name''
      else bindS (buildAVPair nvs (''subscriber:sub-qos-policy-in='' @ profileName)) (\<lambda>i.
           bindS (buildAVPair nvs (''subscriber:sub-qos-policy-out='' @ profileName)) (\<lambda>out.
             Inr [i, out])))"

definition juniperFilterAttrs :: "string \<Rightarrow> string + Attr list" where
  "juniperFilterAttrs profileName =
     (if profileName = [] then Inl ''nas: juniper: empty QoS profile name''
      else Inr [\<lparr>attr_Type = 11, attr_Value = bytes_of profileName\<rparr>])"

definition wirelessProfileAttrs :: "new_vsa \<Rightarrow> 32 word \<Rightarrow> 8 word \<Rightarrow> string \<Rightarrow> string + Attr list" where
  "wirelessProfileAttrs nvs vendorID subType profileName =
     (if profileName = [] then Inl ''nas: empty QoS profile/role name''
      else bindS (buildVendorSubAttr nvs vendorID subType (bytes_of profileName)) (\<lambda>attr. Inr [attr]))"

text \<open>\<open>BuilderFor\<close>: both operations of every builder run the same function; an unknown vendor is MikroTik.\<close>

fun BuilderFor :: "new_vsa \<Rightarrow> Vendor \<Rightarrow> RateProfile \<Rightarrow> string + Attr list" where
  "BuilderFor nvs VendorMikrotik p = mikrotikRateLimitAttrs nvs (RateLimitString p)"
| "BuilderFor nvs VendorHuawei p = huaweiRateAttrs nvs (RateLimitString p)"
| "BuilderFor nvs VendorZTE p = zteRateAttrs nvs (RateLimitString p)"
| "BuilderFor nvs VendorCisco p = ciscoAVPairAttrs nvs (ProfileName p)"
| "BuilderFor nvs VendorJuniper p = juniperFilterAttrs (ProfileName p)"
| "BuilderFor nvs VendorCiscoWLC p = wirelessProfileAttrs nvs 14179 2 (ProfileName p)"
| "BuilderFor nvs VendorAruba p = wirelessProfileAttrs nvs 14823 1 (ProfileName p)"
| "BuilderFor nvs VendorRuckus p = wirelessProfileAttrs nvs 25053 1 (ProfileName p)"
| "BuilderFor nvs (OtherVendor _) p = mikrotikRateLimitAttrs nvs (RateLimitString p)"

definition BuildAcceptAttrs :: "new_vsa \<Rightarrow> Vendor \<Rightarrow> RateProfile \<Rightarrow> string + Attr list" where
  "BuildAcceptAttrs nvs vendor p = BuilderFor nvs vendor p"

definition BuildCoAAttrs :: "new_vsa \<Rightarrow> Vendor \<Rightarrow> RateProfile \<Rightarrow> string + Attr list" where
  "BuildCoAAttrs nvs vendor p = BuilderFor nvs vendor p"

definition KnownVendor :: "Vendor \<Rightarrow> bool" where
  "KnownVendor v = (case v of OtherVendor _ \<Rightarrow> False | _ \<Rightarrow> True)"

section \<open>The resolver\<close>

record Device =
  dev_ID :: int
  dev_IP :: string
  dev_Vendor :: Vendor
  dev_Secret :: bytes
  dev_CoAPort :: int
  dev_PoDPort :: int
  dev_AllowMAB :: bool

record DeviceRow =
  dr_ID :: int
  dr_IP :: string
  dr_Vendor :: Vendor
  dr_SecretEncrypted :: string
  dr_CoAPort :: int
  dr_PoDPort :: int
  dr_AllowMAB :: bool

record PlanProfileRow =
  pp_PlanID :: int
  pp_Vendor :: Vendor
  pp_ProfileName :: string

record Resolver =
  byIP :: "string \<rightharpoonup> Device"
  planProfiles :: "(int \<times> Vendor) \<rightharpoonup> string"
  defaultSecret :: bytes
  defaultCoAPort :: int
  defaultPoDPort :: int

definition NewResolver :: "bytes \<Rightarrow> int \<Rightarrow> Resolver" where
  "NewResolver secret port = \<lparr>byIP = Map.empty, planProfiles = Map.empty, defaultSecret = secret,
                              defaultCoAPort = port, defaultPoDPort = port\<rparr>"

definition row_device :: "Resolver \<Rightarrow> bytes \<Rightarrow> DeviceRow \<Rightarrow> Device" where
  "row_device r secret row =
     \<lparr>dev_ID = dr_ID row, dev_IP = dr_IP row, dev_Vendor = dr_Vendor row, dev_Secret = secret,
      dev_CoAPort = (if dr_CoAPort row = 0 then defaultCoAPort r else dr_CoAPort row),
      dev_PoDPort = (if dr_PoDPort row = 0 then defaultPoDPort r else dr_PoDPort row),
      dev_AllowMAB = dr_AllowMAB row\<rparr>"

fun load_devices :: "(string \<Rightarrow> bytes option) \<Rightarrow> Resolver \<Rightarrow> DeviceRow list \<Rightarrow> (string \<rightharpoonup> Device) \<Rightarrow> (string \<rightharpoonup> Device)" where
  "load_devices decrypt r [] m = m"
| "load_devices decrypt r (row # rows) m =
     (case decrypt (dr_SecretEncrypted row) of
        None \<Rightarrow> load_devices decrypt r rows m
      | Some secret \<Rightarrow> load_devices decrypt r rows (m(dr_IP row \<mapsto> row_device r secret row)))"

fun load_profiles :: "PlanProfileRow list \<Rightarrow> ((int \<times> Vendor) \<rightharpoonup> string) \<Rightarrow> ((int \<times> Vendor) \<rightharpoonup> string)" where
  "load_profiles [] m = m"
| "load_profiles (row # rows) m = load_profiles rows (m((pp_PlanID row, pp_Vendor row) \<mapsto> pp_ProfileName row))"

text \<open>\<open>Refresh\<close>: either list failing keeps the previous cache.\<close>

definition Refresh ::
  "(string \<Rightarrow> bytes option) \<Rightarrow> string + DeviceRow list \<Rightarrow> string + PlanProfileRow list \<Rightarrow> Resolver
   \<Rightarrow> Resolver \<times> (string + unit)" where
  "Refresh decrypt devices profiles r =
     (case devices of
        Inl e \<Rightarrow> (r, Inl e)
      | Inr rows \<Rightarrow>
          (case profiles of
             Inl e \<Rightarrow> (r, Inl e)
           | Inr prows \<Rightarrow> (r\<lparr>byIP := load_devices decrypt r rows Map.empty,
                            planProfiles := load_profiles prows Map.empty\<rparr>, Inr ())))"

definition ResolveProfile :: "Resolver \<Rightarrow> int \<Rightarrow> Vendor \<Rightarrow> string" where
  "ResolveProfile r planID vendor = (case planProfiles r (planID, vendor) of None \<Rightarrow> [] | Some n \<Rightarrow> n)"

definition fallback_device :: "Resolver \<Rightarrow> string \<Rightarrow> Device" where
  "fallback_device r ip =
     \<lparr>dev_ID = 0, dev_IP = ip, dev_Vendor = VendorMikrotik, dev_Secret = defaultSecret r,
      dev_CoAPort = defaultCoAPort r, dev_PoDPort = defaultPoDPort r, dev_AllowMAB = False\<rparr>"

definition Resolve :: "Resolver \<Rightarrow> string \<Rightarrow> Device" where
  "Resolve r ip = (case byIP r ip of Some d \<Rightarrow> d | None \<Rightarrow> fallback_device r ip)"

text \<open>A remote address: the host it parses to, or none.\<close>

definition ResolveAddr :: "Resolver \<Rightarrow> string option \<Rightarrow> Device" where
  "ResolveAddr r addr = (case addr of None \<Rightarrow> fallback_device r [] | Some ip \<Rightarrow> Resolve r ip)"

definition RADIUSSecret :: "Resolver \<Rightarrow> string option \<Rightarrow> bytes" where
  "RADIUSSecret r addr = dev_Secret (ResolveAddr r addr)"

section \<open>Rate strings read back\<close>

lemma parse_digits_append: "parse_digits a (xs @ ys) = Option.bind (parse_digits a xs) (\<lambda>b. parse_digits b ys)"
  by (induction xs arbitrary: a) simp_all

lemma parse_digits_digit: "d < 10 \<Longrightarrow> parse_digits a [digit_char d] = Some (10 * a + d)"
  using is_digit_digit_char [of d] by (simp add: digit_char_def)

lemma parse_digits_show_nat: "parse_digits 0 (show_nat n) = Some n"
proof (induction n rule: show_nat.induct)
  case (1 n)
  show ?case
  proof (cases "n < 10")
    case True
    then show ?thesis using parse_digits_digit [of n 0] by (simp add: show_nat_small)
  next
    case False
    then show ?thesis
      using 1 parse_digits_digit [of "n mod 10" "n div 10"] by (simp add: show_nat_large parse_digits_append)
  qed
qed

lemma digit_not_space: "is_digit c \<Longrightarrow> \<not> is_space c"
  by (auto simp: is_digit_def is_space_def Let_def)

lemma dropWhile_none: "\<forall>c \<in> set xs. \<not> P c \<Longrightarrow> dropWhile P xs = xs"
  by (cases xs) auto

lemma TrimSpace_none: "\<forall>c \<in> set s. \<not> is_space c \<Longrightarrow> TrimSpace s = s"
  by (simp add: TrimSpace_def dropWhile_none)

text \<open>The multiplication cannot wrap: a 32-bit number times at most a thousand million fits 64 bits.\<close>

lemma scale_exact:
  assumes "n < 2 ^ 32" and "m \<le> 1000000000"
  shows "unat ((word_of_nat n :: 64 word) * word_of_nat m) = n * m"
proof -
  have "n * m \<le> 2 ^ 32 * 1000000000" using assms by (intro mult_le_mono) simp_all
  then have "n * m < 2 ^ 64" by simp
  then show ?thesis by (simp add: unat_of_nat take_bit_nat_eq_self flip: of_nat_mult)
qed

definition suffix_value :: "string \<Rightarrow> nat" where
  "suffix_value suf = (case suf of [] \<Rightarrow> 1 | c # _ \<Rightarrow> (case suffix_mult c of Some m \<Rightarrow> unat m | None \<Rightarrow> 1))"

definition rate_suffixes :: "string list" where
  "rate_suffixes = [[], ''k'', ''K'', ''m'', ''M'', ''g'', ''G'']"

lemma rate_suffix_table:
  "list_all (\<lambda>suf. suf = [] \<or> (case suffix_mult (hd suf) of None \<Rightarrow> False | Some m \<Rightarrow>
      suf = [hd suf] \<and> m = word_of_nat (suffix_value suf) \<and> suffix_value suf \<le> 1000000000 \<and> 0 < suffix_value suf
      \<and> \<not> is_space (hd suf) \<and> hd suf \<noteq> CHR ''/'')) rate_suffixes"
  by (simp add: rate_suffixes_def suffix_value_def suffix_mult_def is_space_def)

lemma rate_suffix_cases:
  assumes "suf \<in> set rate_suffixes"
  obtains "suf = []" "suffix_value suf = 1"
  | c m where "suf = [c]" "suffix_mult c = Some m" "m = word_of_nat (suffix_value suf)"
      "suffix_value suf \<le> 1000000000" "\<not> is_space c" "c \<noteq> CHR ''/''"
proof (cases "suf = []")
  case True
  then show thesis by (intro that(1)) (simp_all add: suffix_value_def)
next
  case False
  with assms rate_suffix_table obtain m where "suffix_mult (hd suf) = Some m" "suf = [hd suf]"
      "m = word_of_nat (suffix_value suf)" "suffix_value suf \<le> 1000000000" "\<not> is_space (hd suf)" "hd suf \<noteq> CHR ''/''"
    unfolding list_all_iff by (fastforce split: option.splits)
  then show thesis by (intro that(2) [of "hd suf" m])
qed

lemma suffix_mult_digit: "is_digit c \<Longrightarrow> suffix_mult c = None"
  by (auto simp: suffix_mult_def is_digit_def)

lemma last_show_nat: "is_digit (last (show_nat n))"
  using show_nat_digits [of "last (show_nat n)" n] show_nat_nonempty [of n] by simp

lemma ParseUint32_show:
  "ParseUint32 (show_nat n) = (if n < 2 ^ 32 then Inr (word_of_nat n) else Inl ''value out of range'')"
  by (simp add: ParseUint32_def show_nat_nonempty parse_digits_show_nat)

lemma ucast_exact: "unat (x :: 64 word) = k \<Longrightarrow> k < 2 ^ 32 \<Longrightarrow> (ucast x :: 32 word) = word_of_nat k"
  by (metis of_nat_unat)

lemma parseRateToken_show:
  assumes "suf \<in> set rate_suffixes"
  shows "parseRateToken (show_nat n @ suf) =
    (if 2 ^ 32 \<le> n then Inl ''value out of range''
     else if 2 ^ 32 \<le> n * suffix_value suf then Inl ''rate token overflows a 32-bit bps value''
     else Inr (word_of_nat (n * suffix_value suf)))"
proof -
  have trim: "TrimSpace (show_nat n @ suf) = show_nat n @ suf"
    using assms show_nat_digits digit_not_space by (intro TrimSpace_none) (auto elim: rate_suffix_cases)
  have le: "(4294967295 < x) = (2 ^ 32 \<le> k)" if "unat (x :: 64 word) = k" for x k
    using that by (auto simp: word_less_nat_alt)
  from assms show ?thesis
  proof (cases rule: rate_suffix_cases)
    case 1
    have "unat (word_of_nat n :: 64 word) = n" if "n < 2 ^ 32" using that scale_exact [of n 1] by simp
    with le [of "word_of_nat n" n] ucast_exact [of "word_of_nat n" n] show ?thesis
      unfolding parseRateToken_def Let_def trim
      using 1 show_nat_nonempty [of n] suffix_mult_digit [OF last_show_nat [of n]] by (simp add: ParseUint32_show)
  next
    case (2 c m)
    let ?k = "n * suffix_value suf" and ?x = "word_of_nat n * m"
    have exact: "unat ?x = ?k" if "n < 2 ^ 32" using that scale_exact 2(3,4) by blast
    have "parseRateToken (show_nat n @ suf)
        = (if n < 2 ^ 32 then if 4294967295 < ?x then Inl ''rate token overflows a 32-bit bps value'' else Inr (ucast ?x)
           else Inl ''value out of range'')"
      unfolding parseRateToken_def Let_def trim using 2(1,2) by (simp add: ParseUint32_show)
    also have "\<dots> = (if n < 2 ^ 32 then if 2 ^ 32 \<le> ?k then Inl ''rate token overflows a 32-bit bps value''
            else Inr (word_of_nat ?k) else Inl ''value out of range'')"
      using exact le [of ?x ?k] ucast_exact [of ?x ?k] by (cases "n < 2 ^ 32"; cases "2 ^ 32 \<le> ?k") (simp_all del: of_nat_mult)
    finally show ?thesis by (simp del: of_nat_mult add: not_less)
  qed
qed

lemma split_slash_pair: "CHR ''/'' \<notin> set a \<Longrightarrow> split_slash (a @ CHR ''/'' # b) = [a, b]"
  by (simp add: split_slash_def takeWhile_append dropWhile_append)

lemma token_no_slash: "suf \<in> set rate_suffixes \<Longrightarrow> CHR ''/'' \<notin> set (show_nat n @ suf)"
  using show_nat_digits [of "CHR ''/''" n] by (auto simp: is_digit_def elim: rate_suffix_cases)

lemma suffix_value_pos:
  assumes "suf \<in> set rate_suffixes"
  shows "0 < suffix_value suf"
proof (cases "suf = []")
  case False
  with assms rate_suffix_table show ?thesis unfolding list_all_iff by (fastforce split: option.splits)
qed (simp add: suffix_value_def)

lemma parseRateToken_printed:
  assumes "suf \<in> set rate_suffixes"
  shows "n * suffix_value suf < 2 ^ 32 \<Longrightarrow> parseRateToken (show_nat n @ suf) = Inr (word_of_nat (n * suffix_value suf))"
    and "2 ^ 32 \<le> n * suffix_value suf \<Longrightarrow> isl (parseRateToken (show_nat n @ suf))"
proof -
  have "n \<le> n * suffix_value suf" using suffix_value_pos [OF assms] by simp
  moreover assume "n * suffix_value suf < 2 ^ 32"
  ultimately have "\<not> 2 ^ 32 \<le> n" and "\<not> 2 ^ 32 \<le> n * suffix_value suf" by linarith+
  then show "parseRateToken (show_nat n @ suf) = Inr (word_of_nat (n * suffix_value suf))"
    unfolding parseRateToken_show [OF assms] by simp
qed (simp add: parseRateToken_show [OF assms])

text \<open>
  Rate strings are read as written: for numbers with an optional K, M or G on both sides, the
  parser returns exactly the two products as 32-bit values, and an error when one of them does not
  fit, so no plan speed wraps around into another.
\<close>

theorem parse_printed_rate:
  assumes "sa \<in> set rate_suffixes" and "sb \<in> set rate_suffixes"
    and "s = show_nat m @ sa @ ''/'' @ show_nat n @ sb"
  shows "(m * suffix_value sa < 2 ^ 32 \<and> n * suffix_value sb < 2 ^ 32
            \<longrightarrow> parseRateLimitString s = Inr (word_of_nat (m * suffix_value sa), word_of_nat (n * suffix_value sb)))
       \<and> (2 ^ 32 \<le> m * suffix_value sa \<or> 2 ^ 32 \<le> n * suffix_value sb \<longrightarrow> isl (parseRateLimitString s))"
proof -
  have split: "split_slash s = [show_nat m @ sa, show_nat n @ sb]"
    using split_slash_pair [OF token_no_slash [OF assms(1), of m], of "show_nat n @ sb"] assms(3) by simp
  note a = parseRateToken_printed [OF assms(1), of m] and b = parseRateToken_printed [OF assms(2), of n]
  show ?thesis
    unfolding parseRateLimitString_def split
    using a b by (cases "parseRateToken (show_nat m @ sa)"; cases "parseRateToken (show_nat n @ sb)")
      (auto simp del: of_nat_mult)
qed

theorem parse_printed_rate_witness:
  "parseRateLimitString ''50M/512k'' = Inr (50000000, 512000) \<and> isl (parseRateLimitString ''5G/1M'')"
proof -
  have "show_nat 50 = ''50''" "show_nat 512 = ''512''" "show_nat 5 = ''5''" "show_nat 1 = ''1''"
    by code_simp+
  then show ?thesis
    using parse_printed_rate [of "''M''" "''k''" "''50M/512k''" 50 512] parse_printed_rate [of "''G''" "''M''" "''5G/1M''" 5 1]
    by (simp add: rate_suffixes_def suffix_value_def suffix_mult_def)
qed

section \<open>Attributes on the wire\<close>

text \<open>What a NAS reads from a vendor-specific value: vendor id, sub-type and payload, if the lengths agree.\<close>

fun decode_vsa :: "bytes \<Rightarrow> (32 word \<times> 8 word \<times> bytes) option" where
  "decode_vsa (a # b # c # d # t # l # v) = (if unat l = 2 + length v then Some (be32 a b c d, t, v) else None)"
| "decode_vsa _ = None"

definition accept_meaning :: "Vendor \<Rightarrow> RateProfile \<Rightarrow> (32 word \<times> 8 word \<times> bytes) list" where
  "accept_meaning vendor p =
     (case vendor of
        VendorHuawei \<Rightarrow> (case parseRateLimitString (RateLimitString p) of
            Inr (i, out) \<Rightarrow> [(2011, 24, uint32BE i), (2011, 25, uint32BE out)] | Inl _ \<Rightarrow> [])
      | VendorZTE \<Rightarrow> (case parseRateLimitString (RateLimitString p) of
            Inr (i, out) \<Rightarrow> [(3902, 201, uint32BE i), (3902, 202, uint32BE out)] | Inl _ \<Rightarrow> [])
      | VendorCisco \<Rightarrow> [(9, 1, bytes_of (''subscriber:sub-qos-policy-in='' @ ProfileName p)),
                         (9, 1, bytes_of (''subscriber:sub-qos-policy-out='' @ ProfileName p))]
      | VendorCiscoWLC \<Rightarrow> [(14179, 2, bytes_of (ProfileName p))]
      | VendorAruba \<Rightarrow> [(14823, 1, bytes_of (ProfileName p))]
      | VendorRuckus \<Rightarrow> [(25053, 1, bytes_of (ProfileName p))]
      | VendorJuniper \<Rightarrow> []
      | _ \<Rightarrow> [(14988, 8, bytes_of (RateLimitString p))])"

definition profile_fits :: "Vendor \<Rightarrow> RateProfile \<Rightarrow> bool" where
  "profile_fits vendor p =
     (case vendor of
        VendorHuawei \<Rightarrow> \<not> isl (parseRateLimitString (RateLimitString p))
      | VendorZTE \<Rightarrow> \<not> isl (parseRateLimitString (RateLimitString p))
      | VendorCisco \<Rightarrow> ProfileName p \<noteq> [] \<and> length (ProfileName p) \<le> 217
      | VendorCiscoWLC \<Rightarrow> ProfileName p \<noteq> [] \<and> length (ProfileName p) \<le> 247
      | VendorAruba \<Rightarrow> ProfileName p \<noteq> [] \<and> length (ProfileName p) \<le> 247
      | VendorRuckus \<Rightarrow> ProfileName p \<noteq> [] \<and> length (ProfileName p) \<le> 247
      | VendorJuniper \<Rightarrow> ProfileName p \<noteq> []
      | _ \<Rightarrow> RateLimitString p \<noteq> [] \<and> length (RateLimitString p) \<le> 247)"

definition vsa_attr :: "32 word \<times> 8 word \<times> bytes \<Rightarrow> Attr" where
  "vsa_attr x = (case x of (v, t, b) \<Rightarrow> \<lparr>attr_Type = 26, attr_Value = uint32BE v @ [t, word_of_nat (2 + length b)] @ b\<rparr>)"

lemma decode_vsa_attr: "length b \<le> 247 \<Longrightarrow> decode_vsa (attr_Value (vsa_attr (v, t, b))) = Some (v, t, b)"
proof -
  assume "length b \<le> 247"
  moreover have "unat (word_of_nat k :: 8 word) = k" if "k < 256" for k
    using that by (simp add: unat_of_nat take_bit_nat_eq_self)
  ultimately have "unat (word_of_nat (2 + length b) :: 8 word) = 2 + length b" by (simp only:)
  then show ?thesis by (simp add: vsa_attr_def uint32BE_def be32_uint32BE del: of_nat_add)
qed

lemma length_vsa_attr: "length (attr_Value (vsa_attr (v, t, b))) = 6 + length b"
  by (simp add: vsa_attr_def uint32BE_def)

lemma buildVendorSubAttr_ok:
  assumes "vendor_specific_ok nvs"
  shows "length b \<le> 247 \<Longrightarrow> buildVendorSubAttr nvs v t b = Inr (vsa_attr (v, t, b))"
    and "247 < length b \<Longrightarrow> isl (buildVendorSubAttr nvs v t b)"
proof -
  let ?x = "[t, word_of_nat (2 + length b)] @ b"
  have "length ?x \<le> 249 \<Longrightarrow> nvs v ?x = Inr (uint32BE v @ ?x)" and "249 < length ?x \<Longrightarrow> isl (nvs v ?x)"
    using assms unfolding vendor_specific_ok_def by blast+
  then show "length b \<le> 247 \<Longrightarrow> buildVendorSubAttr nvs v t b = Inr (vsa_attr (v, t, b))"
    and "247 < length b \<Longrightarrow> isl (buildVendorSubAttr nvs v t b)"
    unfolding buildVendorSubAttr_def vsa_attr_def by (auto simp: isl_def simp del: of_nat_add)
qed

lemma uint32BE_length [simp]: "length (uint32BE v) = 4"
  by (simp add: uint32BE_def)

lemma mikrotik_ok:
  assumes "vendor_specific_ok nvs"
  shows "s \<noteq> [] \<Longrightarrow> length s \<le> 247 \<Longrightarrow> mikrotikRateLimitAttrs nvs s = Inr [vsa_attr (14988, 8, bytes_of s)]"
    and "247 < length s \<Longrightarrow> isl (mikrotikRateLimitAttrs nvs s)"
proof -
  let ?x = "\<lambda>l. [8, l] @ bytes_of s"
  have "length s \<le> 247 \<Longrightarrow> nvs 14988 (?x l) = Inr (uint32BE 14988 @ ?x l)" and "247 < length s \<Longrightarrow> isl (nvs 14988 (?x l))" for l
    using assms unfolding vendor_specific_ok_def by simp_all
  then show "s \<noteq> [] \<Longrightarrow> length s \<le> 247 \<Longrightarrow> mikrotikRateLimitAttrs nvs s = Inr [vsa_attr (14988, 8, bytes_of s)]"
    and "247 < length s \<Longrightarrow> isl (mikrotikRateLimitAttrs nvs s)"
    unfolding mikrotikRateLimitAttrs_def vsa_attr_def Let_def by (auto simp: isl_bindS simp del: of_nat_add)
qed

lemma mikrotik_empty: "isl (mikrotikRateLimitAttrs nvs [])"
  by (simp add: mikrotikRateLimitAttrs_def)

text \<open>Every builder but Juniper's succeeds exactly when the profile fits, with the attributes of its meaning.\<close>

lemma Builder_vsa:
  assumes "vendor_specific_ok nvs" and "v \<noteq> VendorJuniper"
  shows "profile_fits v p \<Longrightarrow> BuilderFor nvs v p = Inr (map vsa_attr (accept_meaning v p))"
    and "\<not> profile_fits v p \<Longrightarrow> isl (BuilderFor nvs v p)"
proof -
  note [simp] = buildVendorSubAttr_ok [OF assms(1)] mikrotik_ok [OF assms(1)] profile_fits_def accept_meaning_def
    rateAttrs_def huaweiRateAttrs_def zteRateAttrs_def ciscoAVPairAttrs_def buildAVPair_def wirelessProfileAttrs_def
  show "BuilderFor nvs v p = Inr (map vsa_attr (accept_meaning v p))" if "profile_fits v p"
    using that assms(2) by (cases v) (auto split: sum.splits)
  show "isl (BuilderFor nvs v p)" if "\<not> profile_fits v p"
  proof (cases v)
    case VendorCisco
    with that show ?thesis
      by (cases "ProfileName p = []"; cases "length (ProfileName p) \<le> 218") (auto simp: isl_bindS)
  qed (use that assms(2) in \<open>auto simp: not_le mikrotik_empty isl_bindS\<close>)
qed

lemma accept_meaning_short:
  assumes "profile_fits v p" and "(i, t, b) \<in> set (accept_meaning v p)"
  shows "length b \<le> 247"
  using assms by (auto simp: profile_fits_def accept_meaning_def split: Vendor.splits sum.splits)


definition layeh_vsa :: new_vsa where
  "layeh_vsa v x = (if length x \<le> 249 then Inr (uint32BE v @ x) else Inl ''value too long'')"

lemma layeh_vsa_ok: "vendor_specific_ok layeh_vsa"
  by (simp add: vendor_specific_ok_def layeh_vsa_def)


section \<open>The resolver\<close>

lemma load_devices_find:
  "load_devices decrypt r rows m ip =
     (case find (\<lambda>row. dr_IP row = ip \<and> decrypt (dr_SecretEncrypted row) \<noteq> None) (rev rows) of
        Some row \<Rightarrow> Some (row_device r (the (decrypt (dr_SecretEncrypted row))) row)
      | None \<Rightarrow> m ip)"
proof (induction rows arbitrary: m)
  case (Cons row rows)
  show ?case
    by (cases "decrypt (dr_SecretEncrypted row)") (auto simp: Cons find_append split: option.splits)
qed simp

text \<open>
  Who a NAS is. After a successful refresh, an address resolves to its (last) registered row with
  a readable secret, default ports filled in, and to the MikroTik fallback otherwise; MAC
  authentication is allowed only where such a row says so. A refresh that fails changes nothing.
\<close>

theorem Refresh_resolves:
  assumes "Refresh decrypt devices profiles r = (r', res)"
  shows "(isl res \<longrightarrow> r' = r)
       \<and> (devices = Inr rows \<and> profiles = Inr prows \<longrightarrow> res = Inr () \<and>
            Resolve r' ip =
              (case find (\<lambda>row. dr_IP row = ip \<and> decrypt (dr_SecretEncrypted row) \<noteq> None) (rev rows) of
                 Some row \<Rightarrow> row_device r (the (decrypt (dr_SecretEncrypted row))) row
               | None \<Rightarrow> fallback_device r ip)
            \<and> (dev_AllowMAB (ResolveAddr r' addr) \<longrightarrow>
                 (\<exists>row \<in> set rows. addr = Some (dr_IP row) \<and> dr_AllowMAB row \<and> decrypt (dr_SecretEncrypted row) \<noteq> None)))"
proof -
  have fb: "fallback_device (r\<lparr>byIP := m, planProfiles := n\<rparr>) i = fallback_device r i" for m n i
    by (simp add: fallback_device_def)
  have res: "Resolve r' i = (case find (\<lambda>row. dr_IP row = i \<and> decrypt (dr_SecretEncrypted row) \<noteq> None) (rev rows) of
                 Some row \<Rightarrow> row_device r (the (decrypt (dr_SecretEncrypted row))) row
               | None \<Rightarrow> fallback_device r i)"
    if "devices = Inr rows" "profiles = Inr prows" for i
    using assms that by (auto simp: Refresh_def Resolve_def load_devices_find fb split: option.splits)
  have "\<exists>row \<in> set rows. addr = Some (dr_IP row) \<and> dr_AllowMAB row \<and> decrypt (dr_SecretEncrypted row) \<noteq> None"
    if ok: "devices = Inr rows" "profiles = Inr prows" and mab: "dev_AllowMAB (ResolveAddr r' addr)"
  proof (cases addr)
    case None
    with mab show ?thesis by (simp add: ResolveAddr_def fallback_device_def)
  next
    case (Some i)
    with mab res [OF ok, of i] obtain row
      where row: "find (\<lambda>row. dr_IP row = i \<and> decrypt (dr_SecretEncrypted row) \<noteq> None) (rev rows) = Some row"
        and "dr_AllowMAB row"
      by (auto simp: ResolveAddr_def fallback_device_def row_device_def split: option.splits)
    with find_SomeD [OF row] Some show ?thesis by auto
  qed
  moreover have "isl res \<longrightarrow> r' = r" and "devices = Inr rows \<and> profiles = Inr prows \<longrightarrow> res = Inr ()"
    using assms by (auto simp: Refresh_def split: sum.splits)
  ultimately show ?thesis using res by blast
qed

definition nas_row :: DeviceRow where
  "nas_row = \<lparr>dr_ID = 4, dr_IP = ''10.0.0.4'', dr_Vendor = VendorHuawei, dr_SecretEncrypted = ''v1:abc'', dr_CoAPort = 0,
              dr_PoDPort = 3799, dr_AllowMAB = True\<rparr>"

theorem Refresh_resolves_witness:
  "Resolve (fst (Refresh (\<lambda>_. Some [1, 2]) (Inr [nas_row]) (Inr []) (NewResolver [7] 1700))) ''10.0.0.4''
     = \<lparr>dev_ID = 4, dev_IP = ''10.0.0.4'', dev_Vendor = VendorHuawei, dev_Secret = [1, 2], dev_CoAPort = 1700,
        dev_PoDPort = 3799, dev_AllowMAB = True\<rparr>"
proof -
  obtain r' res where r': "Refresh (\<lambda>_. Some [1, 2]) (Inr [nas_row]) (Inr []) (NewResolver [7] 1700) = (r', res)"
    by force
  from Refresh_resolves [OF this, of "[nas_row]" "[]" "''10.0.0.4''"]
  show ?thesis unfolding r' by (simp add: nas_row_def row_device_def NewResolver_def)
qed

end
