(* ===== verification/Eap.thy ===== *)
theory Eap
  imports Nas
begin

text \<open>
  The wire formats and the cryptographic protocol of EAP-MSCHAPv2: \<open>src/internal/radius/eap.go\<close> (the
  EAP packet codec and the three MS-CHAPv2 messages) and \<open>src/internal/radius/mschapv2.go\<close> (RFC 2759).

  MD4, SHA-1 and DES belong to the Go libraries; they are the fields of \<open>crypto_pkg\<close>, and \<open>crypto_ok\<close>
  states the output sizes those algorithms document. The peer's half of the protocol, which the code
  talks to but does not contain, is written from the message layouts the code documents
  (\<open>peer_parse_challenge\<close>, \<open>peer_response\<close>) and is used only to state what a conversation does.
\<close>

section \<open>Sixteen-bit lengths\<close>

definition PutUint16 :: "nat \<Rightarrow> bytes" where
  "PutUint16 n = (let w = word_of_nat n :: 16 word in [ucast (drop_bit 8 w), ucast w])"

definition Uint16 :: "8 word \<Rightarrow> 8 word \<Rightarrow> 16 word" where
  "Uint16 h l = push_bit 8 (ucast h) OR ucast l"

lemma Uint16_split: "Uint16 (ucast (drop_bit 8 w)) (ucast w) = w"
proof (rule bit_word_eqI)
  fix n assume "n < LENGTH(16)"
  then consider "n < 8" | "8 \<le> n" "n < 16" by fastforce
  then show "bit (Uint16 (ucast (drop_bit 8 w)) (ucast w)) n = bit w n"
    by cases (auto simp: Uint16_def bit_simps)
qed

lemma Uint16_hi: "ucast (drop_bit 8 (Uint16 h l)) = h"
proof (rule bit_word_eqI)
  fix n assume "n < LENGTH(8)"
  then show "bit (ucast (drop_bit 8 (Uint16 h l)) :: 8 word) n = bit h n"
    using bit_imp_le_length [of l "8 + n"] by (auto simp: Uint16_def bit_simps)
qed

lemma Uint16_lo: "ucast (Uint16 h l) = l"
proof (rule bit_word_eqI)
  fix n assume "n < LENGTH(8)"
  then show "bit (ucast (Uint16 h l) :: 8 word) n = bit l n"
    by (auto simp: Uint16_def bit_simps)
qed

lemma unat_word16: "n < 65536 \<Longrightarrow> unat (word_of_nat n :: 16 word) = n"
  by (simp add: unat_of_nat take_bit_nat_eq_self)

lemma length_PutUint16 [simp]: "length (PutUint16 n) = 2"
  by (simp add: PutUint16_def Let_def)

lemma PutUint16_Uint16: "unat (Uint16 h l) = n \<Longrightarrow> PutUint16 n = [h, l]"
proof -
  assume "unat (Uint16 h l) = n"
  then have "(word_of_nat n :: 16 word) = Uint16 h l" by (auto simp: of_nat_unat)
  then show ?thesis by (simp add: PutUint16_def Let_def Uint16_hi Uint16_lo)
qed

section \<open>EAP packets\<close>

definition EAPCodeRequest :: "8 word" where "EAPCodeRequest = 1"
definition EAPCodeResponse :: "8 word" where "EAPCodeResponse = 2"
definition EAPCodeSuccess :: "8 word" where "EAPCodeSuccess = 3"
definition EAPCodeFailure :: "8 word" where "EAPCodeFailure = 4"
definition EAPTypeIdentity :: "8 word" where "EAPTypeIdentity = 1"
definition EAPTypeMSCHAPv2 :: "8 word" where "EAPTypeMSCHAPv2 = 26"
definition MSCHAPv2OpChallenge :: "8 word" where "MSCHAPv2OpChallenge = 1"
definition MSCHAPv2OpResponse :: "8 word" where "MSCHAPv2OpResponse = 2"
definition MSCHAPv2OpSuccess :: "8 word" where "MSCHAPv2OpSuccess = 3"
definition MSCHAPv2OpFailure :: "8 word" where "MSCHAPv2OpFailure = 4"
definition eapHeaderLen :: nat where "eapHeaderLen = 4"

lemmas eap_consts = EAPCodeRequest_def EAPCodeResponse_def EAPCodeSuccess_def EAPCodeFailure_def
  EAPTypeIdentity_def EAPTypeMSCHAPv2_def MSCHAPv2OpChallenge_def MSCHAPv2OpResponse_def
  MSCHAPv2OpSuccess_def MSCHAPv2OpFailure_def eapHeaderLen_def

datatype eap_err = ErrShortEAP | ErrEAPLengthMismatch

record EAPPacket =
  ep_Code :: "8 word"
  ep_Identifier :: "8 word"
  ep_Type :: "8 word"
  ep_Data :: bytes

definition ParseEAP :: "bytes \<Rightarrow> eap_err + EAPPacket" where
  "ParseEAP b =
     (if length b < eapHeaderLen then Inl ErrShortEAP
      else if unat (Uint16 (b ! 2) (b ! 3)) \<noteq> length b then Inl ErrEAPLengthMismatch
      else if b ! 0 = EAPCodeSuccess \<or> b ! 0 = EAPCodeFailure
      then Inr \<lparr>ep_Code = b ! 0, ep_Identifier = b ! 1, ep_Type = 0, ep_Data = []\<rparr>
      else if length b < eapHeaderLen + 1 then Inl ErrShortEAP
      else Inr \<lparr>ep_Code = b ! 0, ep_Identifier = b ! 1, ep_Type = b ! 4, ep_Data = drop 5 b\<rparr>)"

definition EAPPacket_Encode :: "EAPPacket \<Rightarrow> bytes" where
  "EAPPacket_Encode p =
     (if ep_Code p = EAPCodeSuccess \<or> ep_Code p = EAPCodeFailure
      then [ep_Code p, ep_Identifier p] @ PutUint16 eapHeaderLen
      else [ep_Code p, ep_Identifier p] @ PutUint16 (eapHeaderLen + 1 + length (ep_Data p))
             @ [ep_Type p] @ ep_Data p)"

section \<open>MS-CHAPv2 messages\<close>

record MSCHAPv2Challenge =
  mc_ID :: "8 word"
  mc_Challenge :: bytes
  mc_Name :: string

definition MSCHAPv2Challenge_Encode :: "MSCHAPv2Challenge \<Rightarrow> bytes" where
  "MSCHAPv2Challenge_Encode c =
     [MSCHAPv2OpChallenge, mc_ID c] @ PutUint16 (4 + 1 + length (mc_Challenge c) + length (mc_Name c))
       @ [word_of_nat (length (mc_Challenge c))] @ mc_Challenge c @ bytes_of (mc_Name c)"

record MSCHAPv2Response =
  mr_ID :: "8 word"
  mr_PeerChallenge :: bytes
  mr_NTResponse :: bytes
  mr_Flags :: "8 word"
  mr_Name :: string

definition ParseMSCHAPv2Response :: "bytes \<Rightarrow> string + MSCHAPv2Response" where
  "ParseMSCHAPv2Response data =
     (if length data < 5 then Inl ''radius: MS-CHAPv2 response too short''
      else if data ! 0 \<noteq> MSCHAPv2OpResponse then Inl ''radius: expected MS-CHAPv2 Response opcode''
      else let valueSize = unat (data ! 4) in
        if valueSize \<noteq> 49 then Inl ''radius: MS-CHAPv2 Value-Size must be 49''
        else if length data < 5 + valueSize then Inl ''radius: MS-CHAPv2 response declares too many value bytes''
        else let value = take valueSize (drop 5 data) in
          Inr \<lparr>mr_ID = data ! 1, mr_PeerChallenge = take 16 value,
               mr_NTResponse = take 24 (drop 24 value), mr_Flags = value ! 48,
               mr_Name = string_of (drop (5 + valueSize) data)\<rparr>)"

definition EncodeMSCHAPv2Success :: "8 word \<Rightarrow> string \<Rightarrow> bytes" where
  "EncodeMSCHAPv2Success mschapID authenticatorResponse =
     [MSCHAPv2OpSuccess, mschapID] @ PutUint16 (4 + length authenticatorResponse) @ bytes_of authenticatorResponse"

definition failure_message :: string where
  "failure_message = ''E=691 R=0 C=00000000000000000000000000000000 V=3 M=Authentication failed''"

definition EncodeMSCHAPv2Failure :: "8 word \<Rightarrow> bytes" where
  "EncodeMSCHAPv2Failure mschapID =
     [MSCHAPv2OpFailure, mschapID] @ PutUint16 (4 + length failure_message) @ bytes_of failure_message"

section \<open>RFC 2759\<close>

record crypto_pkg =
  md4 :: "bytes \<Rightarrow> bytes"
  sha1 :: "bytes \<Rightarrow> bytes"
  des :: "bytes \<Rightarrow> bytes \<Rightarrow> bytes"

definition crypto_ok :: "crypto_pkg \<Rightarrow> bool" where
  "crypto_ok cr \<longleftrightarrow>
     (\<forall>x. length (md4 cr x) = 16) \<and> (\<forall>x. length (sha1 cr x) = 20) \<and>
     (\<forall>k x. length k = 8 \<longrightarrow> length x = 8 \<longrightarrow> length (des cr k x) = 8)"

datatype mschap_err = ErrNoNTHash | ErrBadNTResponse | ErrMSCHAP string

definition ntHashLen :: nat where "ntHashLen = 16"

text \<open>\<open>utf16.Encode\<close> of the runes of the password, each unit low byte first.\<close>

definition utf16_units :: "nat \<Rightarrow> 16 word list" where
  "utf16_units r =
     (if r < 55296 \<or> 57344 \<le> r \<and> r < 65536 then [word_of_nat r]
      else if 65536 \<le> r \<and> r \<le> 1114111
      then [word_of_nat (55296 + (r - 65536) div 1024), word_of_nat (56320 + (r - 65536) mod 1024)]
      else [65533])"

definition NTPasswordHash :: "crypto_pkg \<Rightarrow> nat list \<Rightarrow> bytes" where
  "NTPasswordHash cr password =
     md4 cr (concat (map (\<lambda>u. [ucast u, ucast (drop_bit 8 u)]) (concat (map utf16_units password))))"

definition hashNTPasswordHash :: "crypto_pkg \<Rightarrow> bytes \<Rightarrow> bytes" where
  "hashNTPasswordHash cr ntHash = md4 cr ntHash"

definition challengeHash :: "crypto_pkg \<Rightarrow> bytes \<Rightarrow> bytes \<Rightarrow> string \<Rightarrow> bytes" where
  "challengeHash cr peerChallenge authenticatorChallenge username =
     take 8 (sha1 cr (peerChallenge @ authenticatorChallenge @ bytes_of username))"

definition desKeyFromSeven :: "bytes \<Rightarrow> bytes" where
  "desKeyFromSeven k7 =
     [k7 ! 0,
      push_bit 7 (k7 ! 0) OR drop_bit 1 (k7 ! 1),
      push_bit 6 (k7 ! 1) OR drop_bit 2 (k7 ! 2),
      push_bit 5 (k7 ! 2) OR drop_bit 3 (k7 ! 3),
      push_bit 4 (k7 ! 3) OR drop_bit 4 (k7 ! 4),
      push_bit 3 (k7 ! 4) OR drop_bit 5 (k7 ! 5),
      push_bit 2 (k7 ! 5) OR drop_bit 6 (k7 ! 6),
      push_bit 1 (k7 ! 6)]"

definition challengeResponse :: "crypto_pkg \<Rightarrow> bytes \<Rightarrow> bytes \<Rightarrow> mschap_err + bytes" where
  "challengeResponse cr challenge ntHash =
     (if length challenge \<noteq> 8 then Inl (ErrMSCHAP ''radius: challenge must be 8 bytes'')
      else if length ntHash \<noteq> ntHashLen then Inl (ErrMSCHAP ''radius: NT hash must be 16 bytes'')
      else let padded = ntHash @ replicate 5 0 in
        Inr (concat (map (\<lambda>i. des cr (desKeyFromSeven (take 7 (drop (i * 7) padded))) challenge) [0, 1, 2])))"

definition GenerateNTResponse ::
  "crypto_pkg \<Rightarrow> bytes \<Rightarrow> bytes \<Rightarrow> string \<Rightarrow> bytes \<Rightarrow> mschap_err + bytes" where
  "GenerateNTResponse cr authenticatorChallenge peerChallenge username ntHash =
     (if length authenticatorChallenge \<noteq> 16 \<or> length peerChallenge \<noteq> 16
      then Inl (ErrMSCHAP ''radius: challenges must be 16 bytes'')
      else challengeResponse cr (challengeHash cr peerChallenge authenticatorChallenge username) ntHash)"

definition magic1 :: bytes where "magic1 = bytes_of ''Magic server to client signing constant''"
definition magic2 :: bytes where "magic2 = bytes_of ''Pad to make it do more than one iteration''"

definition hex_digit :: "8 word \<Rightarrow> char" where
  "hex_digit w = (let n = unat w in char_of (if n < 10 then 48 + n else 55 + n))"

text \<open>\<open>strings.ToUpper(hex.EncodeToString(b))\<close>.\<close>

definition upper_hex :: "bytes \<Rightarrow> string" where
  "upper_hex b = concat (map (\<lambda>w. [hex_digit (drop_bit 4 w), hex_digit (w AND 15)]) b)"

definition GenerateAuthenticatorResponse ::
  "crypto_pkg \<Rightarrow> bytes \<Rightarrow> bytes \<Rightarrow> bytes \<Rightarrow> bytes \<Rightarrow> string \<Rightarrow> mschap_err + string" where
  "GenerateAuthenticatorResponse cr ntHash ntResponse peerChallenge authenticatorChallenge username =
     (if length ntResponse \<noteq> 24 then Inl (ErrMSCHAP ''radius: NT response must be 24 bytes'')
      else if length ntHash \<noteq> ntHashLen then Inl (ErrMSCHAP ''radius: NT hash must be 16 bytes'')
      else let hashHash = hashNTPasswordHash cr ntHash;
               digest = sha1 cr (hashHash @ ntResponse @ magic1);
               chHash = challengeHash cr peerChallenge authenticatorChallenge username
           in Inr (''S='' @ upper_hex (sha1 cr (digest @ chHash @ magic2))))"

definition VerifyMSCHAPv2 ::
  "crypto_pkg \<Rightarrow> bytes \<Rightarrow> bytes \<Rightarrow> bytes \<Rightarrow> bytes \<Rightarrow> string \<Rightarrow> mschap_err + string" where
  "VerifyMSCHAPv2 cr ntHash authenticatorChallenge peerChallenge ntResponse username =
     (if ntHash = [] then Inl ErrNoNTHash
      else case GenerateNTResponse cr authenticatorChallenge peerChallenge username ntHash of
             Inl e \<Rightarrow> Inl e
           | Inr expected \<Rightarrow>
               if length expected \<noteq> length ntResponse then Inl ErrBadNTResponse
               else if list_ex (\<lambda>(x, y). x \<noteq> y) (zip expected ntResponse) then Inl ErrBadNTResponse
               else GenerateAuthenticatorResponse cr ntHash ntResponse peerChallenge authenticatorChallenge username)"

text \<open>\<open>StripDomain\<close>: what follows the last backslash (character 92).\<close>

definition StripDomain :: "string \<Rightarrow> string" where
  "StripDomain username = rev (takeWhile (\<lambda>c. c \<noteq> CHR 0x5C) (rev username))"

definition lower_hex :: "bytes \<Rightarrow> string" where
  "lower_hex b = map lower_char (upper_hex b)"

section \<open>The packet codec reads back what it writes\<close>

definition terminal_code :: "8 word \<Rightarrow> bool" where
  "terminal_code c \<longleftrightarrow> c = EAPCodeSuccess \<or> c = EAPCodeFailure"

text \<open>What a packet can carry: a Success or Failure has no type and no data; the length field is 16 bits.\<close>

definition eap_wf :: "EAPPacket \<Rightarrow> bool" where
  "eap_wf p \<longleftrightarrow> (if terminal_code (ep_Code p) then ep_Type p = 0 \<and> ep_Data p = []
                  else 5 + length (ep_Data p) < 65536)"

lemma Uint16_PutUint16:
  "n < 65536 \<Longrightarrow> \<exists>h l. PutUint16 n = [h, l] \<and> unat (Uint16 h l) = n"
  by (simp add: PutUint16_def Let_def Uint16_split unat_word16)

lemma Encode_terminal:
  "terminal_code (ep_Code p) \<Longrightarrow> EAPPacket_Encode p = [ep_Code p, ep_Identifier p, 0, 4]"
  by (simp add: EAPPacket_Encode_def terminal_code_def PutUint16_def Let_def eapHeaderLen_def)

lemma length_Encode: "\<not> terminal_code (ep_Code p) \<Longrightarrow> length (EAPPacket_Encode p) = 5 + length (ep_Data p)"
  by (simp add: EAPPacket_Encode_def terminal_code_def eapHeaderLen_def)

lemma ParseEAP_of_Encode: "eap_wf p \<Longrightarrow> ParseEAP (EAPPacket_Encode p) = Inr p"
proof (cases "terminal_code (ep_Code p)")
  case True
  assume "eap_wf p"
  then have p: "ep_Type p = 0" "ep_Data p = []" using True by (simp_all add: eap_wf_def)
  have "unat (Uint16 0 4) = 4" by (simp add: Uint16_def)
  then show ?thesis using True p
    by (simp add: Encode_terminal ParseEAP_def terminal_code_def eapHeaderLen_def)
next
  case False
  assume "eap_wf p"
  then have "5 + length (ep_Data p) < 65536" using False by (simp add: eap_wf_def)
  then obtain h l where "PutUint16 (5 + length (ep_Data p)) = [h, l]" "unat (Uint16 h l) = 5 + length (ep_Data p)"
    using Uint16_PutUint16 by blast
  then show ?thesis using False
    by (simp add: EAPPacket_Encode_def ParseEAP_def terminal_code_def eapHeaderLen_def)
qed

lemma list5_cases:
  obtains "length b < 5" | v w x y z zs where "b = v # w # x # y # z # zs"
proof -
  have "length b < 5 \<or> (\<exists>v w x y z zs. b = v # w # x # y # z # zs)"
    by (cases b; cases "tl b"; cases "tl (tl b)"; cases "tl (tl (tl b))"; cases "tl (tl (tl (tl b)))") auto
  then show thesis using that by blast
qed

lemma list_of_length_ge5:
  "5 \<le> length b \<Longrightarrow> b = [b ! 0, b ! 1, b ! 2, b ! 3, b ! 4] @ drop 5 b"
  by (cases b rule: list5_cases) simp_all

lemma Encode_of_ParseEAP:
  assumes "ParseEAP b = Inr p" "\<not> terminal_code (ep_Code p)"
  shows "EAPPacket_Encode p = b"
proof -
  have b: "5 \<le> length b" and u: "unat (Uint16 (b ! 2) (b ! 3)) = length b"
    and p: "p = \<lparr>ep_Code = b ! 0, ep_Identifier = b ! 1, ep_Type = b ! 4, ep_Data = drop 5 b\<rparr>"
    using assms by (auto simp: ParseEAP_def terminal_code_def eapHeaderLen_def split: if_splits)
  have "PutUint16 (5 + length (ep_Data p)) = [b ! 2, b ! 3]"
    using b u p by (intro PutUint16_Uint16) simp
  then show ?thesis using assms(2) p list_of_length_ge5 [OF b]
    by (simp add: EAPPacket_Encode_def terminal_code_def eapHeaderLen_def)
qed



section \<open>DES keys\<close>

lemma length_desKeyFromSeven [simp]: "length (desKeyFromSeven k) = 8"
  by (simp add: desKeyFromSeven_def)

lemma mixed_byte_bits:
  fixes a b :: "8 word"
  assumes "n < 8" "i \<le> 8"
  shows "bit (push_bit (8 - i) a OR drop_bit i b) n = (if 8 - i \<le> n then bit a (n - (8 - i)) else bit b (n + i))"
  using assms bit_imp_le_length [of b "n + i"] by (auto simp: bit_or_iff bit_push_bit_iff bit_drop_bit_eq add.commute)

lemma desKeyFromSeven_nth:
  assumes "0 < i" "i < 7"
  shows "desKeyFromSeven k7 ! i = push_bit (8 - i) (k7 ! (i - 1)) OR drop_bit i (k7 ! i)"
proof -
  have "i = 1 \<or> i = 2 \<or> i = 3 \<or> i = 4 \<or> i = 5 \<or> i = 6" using assms by arith
  then show ?thesis by (elim disjE) (simp_all add: desKeyFromSeven_def)
qed

lemma desKeyFromSeven_bits:
  assumes "i < 8" "j < 7"
  shows "bit (desKeyFromSeven k7 ! i) (7 - j) = bit (k7 ! ((7 * i + j) div 8)) (7 - (7 * i + j) mod 8)"
proof -
  have dm: "(7 * i + j) div 8 = i \<and> (7 * i + j) mod 8 = j - i" if "i \<le> j"
  proof -
    have "7 * i + j = (j - i) + i * 8" "j - i < 8" using that assms by auto
    then show ?thesis by (simp only: div_mult_self1 mod_mult_self1 div_less mod_less) simp
  qed
  have dm': "(7 * i + j) div 8 = i - 1 \<and> (7 * i + j) mod 8 = 8 + j - i" if "j < i"
  proof -
    have "7 * i + j = (8 + j - i) + (i - 1) * 8" "8 + j - i < 8" using that assms by auto
    then show ?thesis by (simp only: div_mult_self1 mod_mult_self1 div_less mod_less) simp
  qed
  consider "i = 0" | "0 < i" "i < 7" | "i = 7" using assms by linarith
  then show ?thesis
  proof cases
    case 1 then show ?thesis using dm by (simp add: desKeyFromSeven_def)
  next
    case 2
    have n: "7 - j < 8" "i \<le> 8" using 2 by simp_all
    show ?thesis
    proof (cases "i \<le> j")
      case True
      then have "\<not> 8 - i \<le> 7 - j" "7 - (j - i) = 7 - j + i" using assms by simp_all
      then show ?thesis using dm [OF True] mixed_byte_bits [OF n, of "k7 ! (i - 1)" "k7 ! i"]
        by (simp only: desKeyFromSeven_nth [OF 2] if_False)
    next
      case False
      then have "8 - i \<le> 7 - j" "7 - (8 + j - i) = 7 - j - (8 - i)" "j < i" using assms by simp_all
      then show ?thesis using dm' mixed_byte_bits [OF n, of "k7 ! (i - 1)" "k7 ! i"]
        by (simp only: desKeyFromSeven_nth [OF 2] if_True)
    qed
  next
    case 3
    have "bit (push_bit 1 (k7 ! 6)) (7 - j) = bit (k7 ! 6) (6 - j)"
      unfolding bit_push_bit_iff using assms(2) by auto
    then show ?thesis using 3 dm' assms(2) by (simp add: desKeyFromSeven_def)
  qed
qed

section \<open>The peer's half of the protocol\<close>

text \<open>How a supplicant reads the challenge and writes its response (RFC 2759, section 4 to 6).\<close>

definition peer_parse_challenge :: "bytes \<Rightarrow> (8 word \<times> bytes \<times> string) option" where
  "peer_parse_challenge d =
     (if length d < 5 \<or> d ! 0 \<noteq> MSCHAPv2OpChallenge \<or> unat (Uint16 (d ! 2) (d ! 3)) \<noteq> length d then None
      else let n = unat (d ! 4) in Some (d ! 1, take n (drop 5 d), string_of (drop (5 + n) d)))"

definition peer_response :: "8 word \<Rightarrow> bytes \<Rightarrow> bytes \<Rightarrow> string \<Rightarrow> bytes" where
  "peer_response ident peerChallenge ntResponse name =
     [MSCHAPv2OpResponse, ident] @ PutUint16 (54 + length name) @ [49] @ peerChallenge @ replicate 8 0
       @ ntResponse @ [0] @ bytes_of name"

lemma peer_reads_challenge:
  assumes "length ch = 16" "length name < 65000"
  shows "peer_parse_challenge (MSCHAPv2Challenge_Encode \<lparr>mc_ID = i, mc_Challenge = ch, mc_Name = name\<rparr>)
       = Some (i, ch, name)"
proof -
  obtain h l where "PutUint16 (21 + length name) = [h, l]" "unat (Uint16 h l) = 21 + length name"
    using Uint16_PutUint16 [of "21 + length name"] assms(2) by auto
  then show ?thesis using assms(1)
    by (simp add: peer_parse_challenge_def MSCHAPv2Challenge_Encode_def)
qed

lemma length_peer_response:
  "length pc = 16 \<Longrightarrow> length nt = 24 \<Longrightarrow> length (peer_response i pc nt name) = 54 + length name"
  by (simp add: peer_response_def)

lemma ParseMSCHAPv2Response_peer:
  assumes "length pc = 16" "length nt = 24"
  shows "ParseMSCHAPv2Response (peer_response i pc nt name)
       = Inr \<lparr>mr_ID = i, mr_PeerChallenge = pc, mr_NTResponse = nt, mr_Flags = 0, mr_Name = name\<rparr>"
proof -
  obtain h l where hl: "PutUint16 (54 + length name) = [h, l]"
    by (simp add: PutUint16_def Let_def)
  define vs where "vs = pc @ replicate 8 0 @ nt @ [0 :: 8 word]"
  have pr: "peer_response i pc nt name = [MSCHAPv2OpResponse, i, h, l, 49] @ vs @ bytes_of name"
    using hl by (simp add: peer_response_def vs_def)
  have v: "length vs = 49" "take 16 vs = pc" "take 24 (drop 24 vs) = nt" "vs ! 48 = 0"
    using assms by (simp_all add: vs_def nth_append)
  have "take 49 (drop 5 (peer_response i pc nt name)) = vs"
    "drop 54 (peer_response i pc nt name) = bytes_of name" using v(1) by (simp_all add: pr)
  then show ?thesis using v length_peer_response [OF assms, of i name] pr
    by (simp add: ParseMSCHAPv2Response_def Let_def)
qed

section \<open>The verification of a response\<close>

definition authenticator_response ::
  "crypto_pkg \<Rightarrow> bytes \<Rightarrow> bytes \<Rightarrow> bytes \<Rightarrow> bytes \<Rightarrow> string \<Rightarrow> string" where
  "authenticator_response cr ntHash ntResponse pc ac username =
     ''S='' @ upper_hex (sha1 cr (sha1 cr (md4 cr ntHash @ ntResponse @ magic1) @ challengeHash cr pc ac username @ magic2))"

lemma list_ex_zip_neq:
  "length xs = length ys \<Longrightarrow> list_ex (\<lambda>(x, y). x \<noteq> y) (zip xs ys) \<longleftrightarrow> xs \<noteq> ys"
  by (induction xs ys rule: list_induct2) auto

lemma length_challengeHash: "crypto_ok cr \<Longrightarrow> length (challengeHash cr pc ac u) = 8"
  by (simp add: challengeHash_def crypto_ok_def)

lemma GenerateNTResponse_length:
  assumes "crypto_ok cr" "GenerateNTResponse cr ac pc u h = Inr r"
  shows "length r = 24 \<and> length h = 16 \<and> length ac = 16 \<and> length pc = 16"
  using assms length_challengeHash [OF assms(1)]
  by (auto simp: GenerateNTResponse_def challengeResponse_def Let_def ntHashLen_def crypto_ok_def split: if_splits)

lemma GenerateNTResponse_defined:
  assumes "crypto_ok cr" "length h = 16" "length ac = 16" "length pc = 16"
  shows "\<exists>r. GenerateNTResponse cr ac pc u h = Inr r \<and> length r = 24"
  using assms length_challengeHash [OF assms(1)]
  by (simp add: GenerateNTResponse_def challengeResponse_def Let_def ntHashLen_def crypto_ok_def)

lemma VerifyMSCHAPv2_iff:
  assumes "crypto_ok cr"
  shows "VerifyMSCHAPv2 cr h ac pc nt u = Inr a \<longleftrightarrow>
         GenerateNTResponse cr ac pc u h = Inr nt \<and> a = authenticator_response cr h nt pc ac u"
proof -
  have "h \<noteq> [] \<and> length nt = 24 \<and> length h = 16" if "GenerateNTResponse cr ac pc u h = Inr nt"
    using GenerateNTResponse_length [OF assms that] by auto
  then show ?thesis using GenerateNTResponse_length [OF assms, of ac pc u h]
    by (auto simp: VerifyMSCHAPv2_def list_ex_zip_neq GenerateAuthenticatorResponse_def Let_def
        ntHashLen_def hashNTPasswordHash_def authenticator_response_def split: sum.splits if_splits)
qed

end
