(* ===== verification/Radius.thy ===== *)
theory Radius
  imports Eap LocalCache Schema
begin

text \<open>
  The RADIUS authentication server (\<open>src/internal/radius\<close>): the status allowlist
  (\<open>authorisation.go\<close>), the brute-force guard (\<open>ratelimit.go\<close>), the fast-verifier cache and its
  PostgreSQL tier (\<open>verifiercache.go\<close>, \<open>db/verifiercache.go\<close>), MAC authentication bypass (\<open>mab.go\<close>),
  EAP-MSCHAPv2 conversations (\<open>eap_session.go\<close>, \<open>eap_handler.go\<close>) and the dispatch with PAP
  (\<open>handlers.go\<close>, \<open>daemon.go\<close>).

  A handler runs on the daemon's in-memory state and answers with the packets it writes. What it
  reads from outside during one request is the record \<open>RadiusEnv\<close>: the clock, the subscriber lookup,
  the MAC lookup, the NAS resolver, the random bytes, and the library primitives (bcrypt, HMAC, the
  RFC 2759 primitives, the attribute encoder). Each request has its own environment, so a run may
  change passwords, statuses and devices between requests. Log lines and the metrics other than the
  per-NAS outcome are not modelled.
\<close>

section \<open>Subscribers\<close>

record Subscriber =
  s_ID :: int
  s_Username :: string
  s_PasswordHash :: string
  s_Status :: string
  s_RateLimitStr :: string
  s_FUPActive :: bool
  s_FUPThrottle :: string
  s_SpeedOverrideRateLimit :: string
  s_SpeedOverrideExpiresAt :: "time option"
  s_PlanID :: int
  s_NTHash :: bytes
  s_VolumeGB :: int

definition AuthorisesService :: "string \<Rightarrow> bool" where
  "AuthorisesService status \<longleftrightarrow> status \<in> {''active'', ''grace_period'', ''soft_suspended''}"

fun status_text :: "sub_status \<Rightarrow> string" where
  "status_text Active = ''active''"
| "status_text GracePeriod = ''grace_period''"
| "status_text SoftSuspended = ''soft_suspended''"
| "status_text HardSuspended = ''hard_suspended''"
| "status_text Terminated = ''terminated''"
| "status_text PendingPayment = ''pending_payment''"

text \<open>\<open>RadiusStore.GetSubscriberByUsername\<close>: an inner join with the plan; no row is \<open>(nil, nil)\<close>.\<close>

definition GetSubscriberByUsername :: "faults \<Rightarrow> 'd db \<Rightarrow> string \<Rightarrow> string + Subscriber option" where
  "GetSubscriberByUsername flt db username =
     (case flt ''GetSubscriberByUsername'' of
        Some e \<Rightarrow> Inl e
      | None \<Rightarrow>
          (case find (\<lambda>s. sub_username s = username) (subscribers db) of
             None \<Rightarrow> Inr None
           | Some s \<Rightarrow>
               (case find (\<lambda>p. plan_id p = sub_plan_id s) (plans db) of
                  None \<Rightarrow> Inr None
                | Some p \<Rightarrow>
                    Inr (Some \<lparr>s_ID = sub_id s, s_Username = sub_username s,
                               s_PasswordHash = sub_password_hash s, s_Status = status_text (sub_status s),
                               s_RateLimitStr = plan_rate_limit p, s_FUPActive = sub_fup_active s,
                               s_FUPThrottle = plan_fup_throttle p,
                               s_SpeedOverrideRateLimit = sub_override_rate s,
                               s_SpeedOverrideExpiresAt = sub_override_expires s,
                               s_PlanID = sub_plan_id s, s_NTHash = sub_nt_hash s,
                               s_VolumeGB = plan_volume_gb p\<rparr>))))"

section \<open>The brute-force guard\<close>

definition MaxFailedAttempts :: int where "MaxFailedAttempts = 10"
definition LockoutDuration :: duration where "LockoutDuration = 15 * Minute"

definition BruteForceKey :: "string \<Rightarrow> string" where
  "BruteForceKey username = ''bf_attempts:'' @ username"

definition Guard_Check :: "time \<Rightarrow> Counter \<Rightarrow> string \<Rightarrow> bool \<times> bool" where
  "Guard_Check now g username =
     (case Counter_Get now g (BruteForceKey username) of
        None \<Rightarrow> (False, False)
      | Some n \<Rightarrow> if MaxFailedAttempts \<le> n then (True, True) else (False, True))"

definition IsBlocked :: "time \<Rightarrow> Counter \<Rightarrow> string \<Rightarrow> bool" where
  "IsBlocked now g username = fst (Guard_Check now g username)"

definition RecordFailure :: "time \<Rightarrow> Counter \<Rightarrow> string \<Rightarrow> Counter" where
  "RecordFailure now g username =
     (let key = BruteForceKey username in
      Counter_Expire now (fst (Counter_Incr now g key)) key LockoutDuration)"

definition Guard_Reset :: "Counter \<Rightarrow> string \<Rightarrow> Counter" where
  "Guard_Reset g username = Counter_Reset g (BruteForceKey username)"

section \<open>The fast-verifier cache\<close>

record PersistedVerifier =
  pv_SubscriberID :: int
  pv_Username :: string
  pv_Verifier :: bytes
  pv_ExpiresAt :: time

record VerifierCache =
  vc_store :: "bytes Store"
  vc_secret :: bytes
  vc_persist :: "PersistedVerifier list option"

definition verifierCacheTTL :: duration where "verifierCacheTTL = 5 * Minute"

definition verifierKey :: "string \<Rightarrow> string" where
  "verifierKey username = ''radius_verifier:'' @ username"

text \<open>\<open>binary.BigEndian.PutUint64\<close> of the length, then the bytes.\<close>

definition PutUint64 :: "nat \<Rightarrow> bytes" where
  "PutUint64 n = (let w = word_of_nat n :: 64 word in map (\<lambda>i. ucast (drop_bit (56 - 8 * i) w)) [0..<8])"

definition writeLengthPrefixed :: "string \<Rightarrow> bytes" where
  "writeLengthPrefixed s = PutUint64 (length s) @ bytes_of s"

definition verifier_message :: "string \<Rightarrow> string \<Rightarrow> bytes" where
  "verifier_message password passwordHash = writeLengthPrefixed password @ writeLengthPrefixed passwordHash"

definition verifier :: "(bytes \<Rightarrow> bytes \<Rightarrow> bytes) \<Rightarrow> VerifierCache \<Rightarrow> string \<Rightarrow> string \<Rightarrow> bytes" where
  "verifier hmac c password passwordHash = hmac (vc_secret c) (verifier_message password passwordHash)"

definition Verifier_Check ::
  "(bytes \<Rightarrow> bytes \<Rightarrow> bytes) \<Rightarrow> time \<Rightarrow> VerifierCache \<Rightarrow> string \<Rightarrow> string \<Rightarrow> string \<Rightarrow> bool" where
  "Verifier_Check hmac now c username password passwordHash =
     (case Store_Get now (vc_store c) (verifierKey username) of
        None \<Rightarrow> False
      | Some cachedMAC \<Rightarrow> verifier hmac c password passwordHash = cachedMAC)"

text \<open>
  The PostgreSQL tier: the primary key is the subscriber, the username is unique, and the upsert's
  conflict target is the primary key, so a username held by another subscriber's row is an error.
\<close>

definition Verifier_Save ::
  "faults \<Rightarrow> PersistedVerifier list \<Rightarrow> int \<Rightarrow> string \<Rightarrow> bytes \<Rightarrow> time \<Rightarrow> string + PersistedVerifier list" where
  "Verifier_Save flt rows subscriberID username mac expiresAt =
     (case flt ''Verifier.Save'' of
        Some e \<Rightarrow> Inl e
      | None \<Rightarrow>
          if list_ex (\<lambda>r. pv_Username r = username \<and> pv_SubscriberID r \<noteq> subscriberID) rows
          then Inl ''unique_violation''
          else let row = \<lparr>pv_SubscriberID = subscriberID, pv_Username = username, pv_Verifier = mac,
                          pv_ExpiresAt = expiresAt\<rparr>
               in if list_ex (\<lambda>r. pv_SubscriberID r = subscriberID) rows
                  then Inr (update_where (\<lambda>r. pv_SubscriberID r = subscriberID) (\<lambda>_. row) rows)
                  else Inr (rows @ [row]))"

definition Verifier_LoadActive :: "faults \<Rightarrow> time \<Rightarrow> PersistedVerifier list \<Rightarrow> string + PersistedVerifier list" where
  "Verifier_LoadActive flt now rows =
     (case flt ''Verifier.LoadActive'' of
        Some e \<Rightarrow> Inl e
      | None \<Rightarrow> Inr (take 100000 (rev (sort_key pv_ExpiresAt (filter (\<lambda>r. now < pv_ExpiresAt r) rows)))))"

definition Verifier_DeleteByUsername ::
  "faults \<Rightarrow> PersistedVerifier list \<Rightarrow> string \<Rightarrow> string + PersistedVerifier list" where
  "Verifier_DeleteByUsername flt rows username =
     (case flt ''Verifier.DeleteByUsername'' of
        Some e \<Rightarrow> Inl e
      | None \<Rightarrow> Inr (delete_where (\<lambda>r. pv_Username r = username) rows))"

definition Verifier_ReapExpired :: "faults \<Rightarrow> time \<Rightarrow> PersistedVerifier list \<Rightarrow> string + PersistedVerifier list \<times> nat" where
  "Verifier_ReapExpired flt now rows =
     (case flt ''Verifier.ReapExpired'' of
        Some e \<Rightarrow> Inl e
      | None \<Rightarrow> Inr (delete_where (\<lambda>r. pv_ExpiresAt r \<le> now) rows, rows_affected (\<lambda>r. pv_ExpiresAt r \<le> now) rows))"

definition Verifier_Store ::
  "(bytes \<Rightarrow> bytes \<Rightarrow> bytes) \<Rightarrow> faults \<Rightarrow> time \<Rightarrow> VerifierCache \<Rightarrow> int \<Rightarrow> string \<Rightarrow> string \<Rightarrow> string
   \<Rightarrow> VerifierCache \<times> (string + unit)" where
  "Verifier_Store hmac flt now c subscriberID username password passwordHash =
     (let mac = verifier hmac c password passwordHash;
          expiresAt = now + verifierCacheTTL;
          c1 = c\<lparr>vc_store := Store_Set now (vc_store c) (verifierKey username) mac verifierCacheTTL\<rparr>
      in case vc_persist c of
           None \<Rightarrow> (c1, Inr ())
         | Some rows \<Rightarrow>
             (case Verifier_Save flt rows subscriberID username mac expiresAt of
                Inl e \<Rightarrow> (c1, Inl e)
              | Inr rows' \<Rightarrow> (c1\<lparr>vc_persist := Some rows'\<rparr>, Inr ())))"

fun warm_rows :: "time \<Rightarrow> PersistedVerifier list \<Rightarrow> bytes Store \<Rightarrow> nat \<Rightarrow> bytes Store \<times> nat" where
  "warm_rows now [] s restored = (s, restored)"
| "warm_rows now (row # rows) s restored =
     (let ttl = pv_ExpiresAt row - now in
      if ttl \<le> 0 then warm_rows now rows s restored
      else warm_rows now rows (Store_Set now s (verifierKey (pv_Username row)) (pv_Verifier row) ttl) (restored + 1))"

definition Verifier_Warm :: "faults \<Rightarrow> time \<Rightarrow> VerifierCache \<Rightarrow> VerifierCache \<times> (string + nat)" where
  "Verifier_Warm flt now c =
     (case vc_persist c of
        None \<Rightarrow> (c, Inr 0)
      | Some rows \<Rightarrow>
          (case Verifier_LoadActive flt now rows of
             Inl e \<Rightarrow> (c, Inl e)
           | Inr active \<Rightarrow>
               (let (s, restored) = warm_rows now active (vc_store c) 0 in (c\<lparr>vc_store := s\<rparr>, Inr restored))))"

definition Verifier_Invalidate :: "faults \<Rightarrow> VerifierCache \<Rightarrow> string \<Rightarrow> VerifierCache \<times> (string + unit)" where
  "Verifier_Invalidate flt c username =
     (let c1 = c\<lparr>vc_store := Store_Delete (vc_store c) (verifierKey username)\<rparr> in
      case vc_persist c of
        None \<Rightarrow> (c1, Inr ())
      | Some rows \<Rightarrow>
          (case Verifier_DeleteByUsername flt rows username of
             Inl e \<Rightarrow> (c1, Inl e)
           | Inr rows' \<Rightarrow> (c1\<lparr>vc_persist := Some rows'\<rparr>, Inr ())))"

section \<open>The daemon\<close>

datatype EAPStage = StageIdentityRequested | StageChallengeIssued | StageAwaitingSuccessAck

record EAPSession =
  es_Stage :: EAPStage
  es_Username :: string
  es_AuthenticatorChallenge :: bytes
  es_PeerChallenge :: bytes
  es_NTResponse :: bytes
  es_MSCHAPv2ID :: "8 word"
  es_EAPIdentifier :: "8 word"
  es_AuthenticatorResponse :: string

datatype radius_code = AccessRequest | AccountingRequest | OtherCode nat
datatype reply_code = AccessAccept | AccessReject | AccessChallenge | AccountingResponse

record Request =
  rq_Code :: radius_code
  rq_RemoteAddr :: "string option"
  rq_UserName :: string
  rq_UserPassword :: string
  rq_EAPMessage :: bytes
  rq_State :: string

record Packet =
  pk_Code :: reply_code
  pk_Attrs :: "Attr list"
  pk_EAPMessage :: "bytes option"
  pk_State :: "string option"
  pk_MessageAuthenticator :: "bytes option"

record RadiusEnv =
  en_now :: time
  en_db :: "string \<Rightarrow> string + Subscriber option"
  en_mabDB :: "(string \<Rightarrow> int \<Rightarrow> string + Subscriber option) option"
  en_nasResolver :: "Resolver option"
  en_bcrypt :: "string \<Rightarrow> string \<Rightarrow> bool"
  en_hmac :: "bytes \<Rightarrow> bytes \<Rightarrow> bytes"
  en_crypto :: crypto_pkg
  en_nvs :: new_vsa
  en_set_ok :: "string \<Rightarrow> bytes \<Rightarrow> bool"
  en_challenge :: "bytes option"
  en_state :: "bytes option"
  en_faults :: faults

record Daemon =
  guard :: Counter
  verifierCache :: VerifierCache
  eapSessions :: "EAPSession Store option"
  acctDedup :: "unit Store"
  outcomes :: "(string \<times> bool) list"

definition NewRadiusDaemon :: "bytes \<Rightarrow> Daemon" where
  "NewRadiusDaemon verifierSecret =
     \<lparr>guard = NewCounter,
      verifierCache = \<lparr>vc_store = New_Store, vc_secret = verifierSecret, vc_persist = None\<rparr>,
      eapSessions = None, acctDedup = New_Store, outcomes = []\<rparr>"

definition Response :: "reply_code \<Rightarrow> Packet" where
  "Response code = \<lparr>pk_Code = code, pk_Attrs = [], pk_EAPMessage = None, pk_State = None,
                    pk_MessageAuthenticator = None\<rparr>"

definition unregisteredNAS :: string where "unregisteredNAS = ''unregistered''"

definition recordAuthOutcome :: "RadiusEnv \<Rightarrow> 'r Request_scheme \<Rightarrow> bool \<Rightarrow> Daemon \<Rightarrow> Daemon" where
  "recordAuthOutcome env r accepted d =
     (let nasLabel = (case (en_nasResolver env, rq_RemoteAddr r) of
                        (Some res, Some addr) \<Rightarrow>
                          if dev_IP (ResolveAddr res (Some addr)) \<noteq> [] then dev_IP (ResolveAddr res (Some addr))
                          else unregisteredNAS
                      | _ \<Rightarrow> unregisteredNAS)
      in d\<lparr>outcomes := outcomes d @ [(nasLabel, accepted)]\<rparr>)"

definition authAccepted :: "RadiusEnv \<Rightarrow> 'r Request_scheme \<Rightarrow> Daemon \<Rightarrow> Daemon" where
  "authAccepted env r d = recordAuthOutcome env r True d"

definition authRejected :: "RadiusEnv \<Rightarrow> 'r Request_scheme \<Rightarrow> Daemon \<Rightarrow> Daemon" where
  "authRejected env r d = recordAuthOutcome env r False d"

text \<open>
  The packet queue between the listeners and the worker pool. The \<open>select\<close> sends if the channel has
  room, gives up if the context is done (\<open>send_first\<close> is the runtime's choice when both are ready), and
  otherwise drops the packet and counts it.
\<close>

definition queueCapacity :: nat where "queueCapacity = 128 * 4"

definition tryEnqueue :: "bool \<Rightarrow> bool \<Rightarrow> 'r \<Rightarrow> 'r list \<times> nat \<Rightarrow> ('r list \<times> nat) \<times> bool" where
  "tryEnqueue ctxDone send_first job qd =
     (let (q, dropped) = qd in
      if length q < queueCapacity \<and> (\<not> ctxDone \<or> send_first) then ((q @ [job], dropped), True)
      else if ctxDone then ((q, dropped), False)
      else ((q, dropped + 1), False))"

section \<open>Rate limits\<close>

definition effectiveRateLimit :: "time \<Rightarrow> Subscriber \<Rightarrow> string" where
  "effectiveRateLimit now sub =
     (if s_SpeedOverrideRateLimit sub \<noteq> [] \<and>
         (case s_SpeedOverrideExpiresAt sub of None \<Rightarrow> True | Some t \<Rightarrow> now < t)
      then s_SpeedOverrideRateLimit sub
      else if s_FUPActive sub \<and> s_FUPThrottle sub \<noteq> [] then s_FUPThrottle sub
      else s_RateLimitStr sub)"

definition nas_dialect :: "RadiusEnv \<Rightarrow> 'r Request_scheme \<Rightarrow> Subscriber \<Rightarrow> Vendor \<times> string" where
  "nas_dialect env r sub =
     (case en_nasResolver env of
        None \<Rightarrow> (VendorMikrotik, [])
      | Some res \<Rightarrow> (let vendor = dev_Vendor (ResolveAddr res (rq_RemoteAddr r))
                    in (vendor, ResolveProfile res (s_PlanID sub) vendor)))"

definition bandwidth_attrs :: "RadiusEnv \<Rightarrow> 'r Request_scheme \<Rightarrow> Subscriber \<Rightarrow> string \<Rightarrow> Attr list" where
  "bandwidth_attrs env r sub rateLimit =
     (let (vendor, profileName) = nas_dialect env r sub in
      case BuildAcceptAttrs (en_nvs env) vendor \<lparr>RateLimitString = rateLimit, ProfileName = profileName\<rparr> of
        Inl _ \<Rightarrow> []
      | Inr attrs \<Rightarrow> attrs)"

definition applyRateLimit :: "RadiusEnv \<Rightarrow> Packet \<Rightarrow> Subscriber \<Rightarrow> 'r Request_scheme \<Rightarrow> Packet" where
  "applyRateLimit env resp sub r =
     resp\<lparr>pk_Attrs := pk_Attrs resp @ bandwidth_attrs env r sub (effectiveRateLimit (en_now env) sub)\<rparr>"

section \<open>PAP\<close>

type_synonym handled = "Daemon \<times> Packet list"

definition recordAuthFailure :: "RadiusEnv \<Rightarrow> string \<Rightarrow> Daemon \<Rightarrow> Daemon" where
  "recordAuthFailure env username d = d\<lparr>guard := RecordFailure (en_now env) (guard d) username\<rparr>"

definition reject :: "RadiusEnv \<Rightarrow> 'r Request_scheme \<Rightarrow> Daemon \<Rightarrow> handled" where
  "reject env r d = (authRejected env r d, [Response AccessReject])"

definition handlePAP :: "RadiusEnv \<Rightarrow> 'r Request_scheme \<Rightarrow> Daemon \<Rightarrow> handled" where
  "handlePAP env r d =
     (let username = rq_UserName r; password = rq_UserPassword r;
          (blocked, hasFailures) = Guard_Check (en_now env) (guard d) username
      in if blocked then reject env r d
         else case en_db env username of
           Inl _ \<Rightarrow> reject env r (recordAuthFailure env username d)
         | Inr None \<Rightarrow> reject env r (recordAuthFailure env username d)
         | Inr (Some sub) \<Rightarrow>
             if \<not> AuthorisesService (s_Status sub) then reject env r d
             else let authenticated =
                        Verifier_Check (en_hmac env) (en_now env) (verifierCache d) username password (s_PasswordHash sub)
                  in if \<not> authenticated \<and> \<not> en_bcrypt env (s_PasswordHash sub) password
                     then reject env r (recordAuthFailure env username d)
                     else let d1 = (if authenticated then d
                                    else d\<lparr>verifierCache :=
                                      fst (Verifier_Store (en_hmac env) (en_faults env) (en_now env) (verifierCache d)
                                             (s_ID sub) username password (s_PasswordHash sub))\<rparr>);
                              d2 = (if hasFailures then d1\<lparr>guard := Guard_Reset (guard d1) username\<rparr> else d1)
                          in (authAccepted env r d2, [applyRateLimit env (Response AccessAccept) sub r]))"

section \<open>MAC authentication bypass\<close>

text \<open>The runes of the source string that a MAC may contain are ASCII; any other byte refuses.\<close>

fun mac_hex :: "string \<Rightarrow> string option" where
  "mac_hex [] = Some []"
| "mac_hex (c # cs) =
     (let n = of_char c :: nat in
      if 48 \<le> n \<and> n \<le> 57 \<or> 65 \<le> n \<and> n \<le> 70 then map_option ((#) c) (mac_hex cs)
      else if 97 \<le> n \<and> n \<le> 102 then map_option ((#) (char_of (n - 32))) (mac_hex cs)
      else if c \<in> {CHR '':'', CHR ''-'', CHR ''.'', CHR '' ''} then mac_hex cs
      else None)"

fun colon_pairs :: "string \<Rightarrow> string" where
  "colon_pairs (a # b # c # cs) = a # b # CHR '':'' # colon_pairs (c # cs)"
| "colon_pairs cs = cs"

definition NormaliseMAC :: "string \<Rightarrow> string option" where
  "NormaliseMAC s =
     (case mac_hex s of
        None \<Rightarrow> None
      | Some h \<Rightarrow> if length h \<noteq> 12 then None else Some (colon_pairs h))"

definition looksLikeMAB :: "string \<Rightarrow> string \<Rightarrow> bool" where
  "looksLikeMAB username password =
     (case NormaliseMAC username of
        None \<Rightarrow> False
      | Some mac \<Rightarrow> password = [] \<or> NormaliseMAC password = Some mac)"

definition handleMAB :: "RadiusEnv \<Rightarrow> 'r Request_scheme \<Rightarrow> Daemon \<Rightarrow> handled option" where
  "handleMAB env r d =
     (if \<not> looksLikeMAB (rq_UserName r) (rq_UserPassword r) then None
      else case en_mabDB env of
        None \<Rightarrow> None
      | Some authorizeMAC \<Rightarrow>
          (case en_nasResolver env of
             None \<Rightarrow> Some (reject env r d)
           | Some res \<Rightarrow>
               (let device = ResolveAddr res (rq_RemoteAddr r) in
                if \<not> dev_AllowMAB device then Some (reject env r d)
                else let mac = (case NormaliseMAC (rq_UserName r) of None \<Rightarrow> [] | Some m \<Rightarrow> m) in
                  case authorizeMAC mac (dev_ID device) of
                    Inl _ \<Rightarrow> Some (reject env r d)
                  | Inr None \<Rightarrow> Some (reject env r d)
                  | Inr (Some sub) \<Rightarrow>
                      if \<not> AuthorisesService (s_Status sub) then Some (reject env r d)
                      else Some (authAccepted env r d, [applyRateLimit env (Response AccessAccept) sub r]))))"

section \<open>EAP-MSCHAPv2 conversations\<close>

definition eapSessionTTL :: duration where "eapSessionTTL = 60 * Second"

definition eapSessionKey :: "string \<Rightarrow> string" where "eapSessionKey state = ''radius_eap:'' @ state"

definition NewState :: "RadiusEnv \<Rightarrow> string option" where "NewState env = map_option lower_hex (en_state env)"
definition NewChallenge :: "RadiusEnv \<Rightarrow> bytes option" where "NewChallenge env = en_challenge env"

definition EAP_Save :: "time \<Rightarrow> EAPSession Store \<Rightarrow> string \<Rightarrow> EAPSession \<Rightarrow> EAPSession Store" where
  "EAP_Save now s state sess = Store_Set now s (eapSessionKey state) sess eapSessionTTL"

definition EAP_Load :: "time \<Rightarrow> EAPSession Store \<Rightarrow> string \<Rightarrow> EAPSession option" where
  "EAP_Load now s state = Store_Get now s (eapSessionKey state)"

definition EAP_Delete :: "EAPSession Store \<Rightarrow> string \<Rightarrow> EAPSession Store" where
  "EAP_Delete s state = Store_Delete s (eapSessionKey state)"

definition eapServerName :: string where "eapServerName = ''isp-bss-oss''"

text \<open>Sixteen zero bytes, which the RADIUS package is left to replace when it encodes the packet.\<close>

definition writeWithMessageAuthenticator :: "RadiusEnv \<Rightarrow> Packet \<Rightarrow> Packet" where
  "writeWithMessageAuthenticator env resp =
     (if en_set_ok env ''Message-Authenticator'' (replicate 16 0)
      then resp\<lparr>pk_MessageAuthenticator := Some (replicate 16 0)\<rparr> else resp)"

definition writeEAPReject :: "RadiusEnv \<Rightarrow> 'r Request_scheme \<Rightarrow> 8 word \<Rightarrow> Daemon \<Rightarrow> handled" where
  "writeEAPReject env r eapID d =
     (let failure = EAPPacket_Encode \<lparr>ep_Code = EAPCodeFailure, ep_Identifier = eapID, ep_Type = 0, ep_Data = []\<rparr>;
          resp = (Response AccessReject)\<lparr>pk_EAPMessage :=
                    (if en_set_ok env ''EAP-Message'' failure then Some failure else None)\<rparr>
      in (authRejected env r d, [writeWithMessageAuthenticator env resp]))"

definition writeEAPChallenge ::
  "RadiusEnv \<Rightarrow> 'r Request_scheme \<Rightarrow> string \<Rightarrow> EAPPacket \<Rightarrow> Daemon \<Rightarrow> handled" where
  "writeEAPChallenge env r state pkt d =
     (if \<not> en_set_ok env ''EAP-Message'' (EAPPacket_Encode pkt) then writeEAPReject env r (ep_Identifier pkt) d
      else if \<not> en_set_ok env ''State'' (bytes_of state) then writeEAPReject env r (ep_Identifier pkt) d
      else (d, [writeWithMessageAuthenticator env
                  ((Response AccessChallenge)\<lparr>pk_EAPMessage := Some (EAPPacket_Encode pkt), pk_State := Some state\<rparr>)]))"

definition eap_username :: "'r Request_scheme \<Rightarrow> EAPPacket \<Rightarrow> string" where
  "eap_username r pkt =
     StripDomain (if ep_Type pkt = EAPTypeIdentity \<and> 0 < length (ep_Data pkt) then string_of (ep_Data pkt)
                  else rq_UserName r)"

definition eapStart ::
  "RadiusEnv \<Rightarrow> 'r Request_scheme \<Rightarrow> EAPPacket \<Rightarrow> EAPSession Store \<Rightarrow> Daemon \<Rightarrow> handled" where
  "eapStart env r pkt sessions d =
     (let username = eap_username r pkt in
      if username = [] then writeEAPReject env r (ep_Identifier pkt) d
      else if fst (Guard_Check (en_now env) (guard d) username)
      then (let (d1, resp) = writeEAPReject env r (ep_Identifier pkt) d in (authRejected env r d1, resp))
      else case NewChallenge env of
        None \<Rightarrow> writeEAPReject env r (ep_Identifier pkt) d
      | Some challenge \<Rightarrow>
          (case NewState env of
             None \<Rightarrow> writeEAPReject env r (ep_Identifier pkt) d
           | Some state \<Rightarrow>
               (let sess = \<lparr>es_Stage = StageChallengeIssued, es_Username = username,
                            es_AuthenticatorChallenge = challenge, es_PeerChallenge = [], es_NTResponse = [],
                            es_MSCHAPv2ID = 0, es_EAPIdentifier = ep_Identifier pkt + 1,
                            es_AuthenticatorResponse = []\<rparr>;
                    payload = MSCHAPv2Challenge_Encode
                      \<lparr>mc_ID = ep_Identifier pkt, mc_Challenge = challenge, mc_Name = eapServerName\<rparr>
                in writeEAPChallenge env r state
                     \<lparr>ep_Code = EAPCodeRequest, ep_Identifier = es_EAPIdentifier sess,
                      ep_Type = EAPTypeMSCHAPv2, ep_Data = payload\<rparr>
                     (d\<lparr>eapSessions := Some (EAP_Save (en_now env) sessions state sess)\<rparr>))))"

definition eapFail ::
  "RadiusEnv \<Rightarrow> 'r Request_scheme \<Rightarrow> 8 word \<Rightarrow> string \<Rightarrow> EAPSession Store \<Rightarrow> Daemon \<Rightarrow> handled" where
  "eapFail env r eapID state sessions d =
     writeEAPReject env r eapID
       (if state \<noteq> [] then d\<lparr>eapSessions := Some (EAP_Delete sessions state)\<rparr> else d)"

definition eapVerifyResponse ::
  "RadiusEnv \<Rightarrow> 'r Request_scheme \<Rightarrow> EAPPacket \<Rightarrow> string \<Rightarrow> EAPSession \<Rightarrow> EAPSession Store \<Rightarrow> Daemon \<Rightarrow> handled" where
  "eapVerifyResponse env r pkt state sess sessions d =
     (case ParseMSCHAPv2Response (ep_Data pkt) of
        Inl _ \<Rightarrow> eapFail env r (ep_Identifier pkt) state sessions d
      | Inr resp \<Rightarrow>
          (case en_db env (es_Username sess) of
             Inl _ \<Rightarrow> eapFail env r (ep_Identifier pkt) state sessions (recordAuthFailure env (es_Username sess) d)
           | Inr None \<Rightarrow> eapFail env r (ep_Identifier pkt) state sessions (recordAuthFailure env (es_Username sess) d)
           | Inr (Some sub) \<Rightarrow>
               if \<not> AuthorisesService (s_Status sub) then eapFail env r (ep_Identifier pkt) state sessions d
               else case VerifyMSCHAPv2 (en_crypto env) (s_NTHash sub) (es_AuthenticatorChallenge sess)
                           (mr_PeerChallenge resp) (mr_NTResponse resp) (es_Username sess) of
                 Inl e \<Rightarrow>
                   if e = ErrNoNTHash then eapFail env r (ep_Identifier pkt) state sessions d
                   else eapFail env r (ep_Identifier pkt) state sessions (recordAuthFailure env (es_Username sess) d)
               | Inr authenticatorResponse \<Rightarrow>
                   (let sess' = sess\<lparr>es_Stage := StageAwaitingSuccessAck,
                                     es_PeerChallenge := mr_PeerChallenge resp,
                                     es_NTResponse := mr_NTResponse resp,
                                     es_MSCHAPv2ID := mr_ID resp,
                                     es_EAPIdentifier := ep_Identifier pkt + 1,
                                     es_AuthenticatorResponse := authenticatorResponse\<rparr>
                    in writeEAPChallenge env r state
                         \<lparr>ep_Code = EAPCodeRequest, ep_Identifier = es_EAPIdentifier sess',
                          ep_Type = EAPTypeMSCHAPv2, ep_Data = EncodeMSCHAPv2Success (mr_ID resp) authenticatorResponse\<rparr>
                         (d\<lparr>eapSessions := Some (EAP_Save (en_now env) sessions state sess')\<rparr>))))"

definition eap_rate_limit :: "Subscriber \<Rightarrow> string" where
  "eap_rate_limit sub = (if s_FUPActive sub \<and> s_FUPThrottle sub \<noteq> [] then s_FUPThrottle sub else s_RateLimitStr sub)"

definition eapFinish ::
  "RadiusEnv \<Rightarrow> 'r Request_scheme \<Rightarrow> string \<Rightarrow> EAPSession \<Rightarrow> EAPSession Store \<Rightarrow> Daemon \<Rightarrow> handled" where
  "eapFinish env r state sess sessions d =
     (let d1 = d\<lparr>eapSessions := Some (EAP_Delete sessions state)\<rparr> in
      case en_db env (es_Username sess) of
        Inl _ \<Rightarrow> writeEAPReject env r (es_EAPIdentifier sess) d1
      | Inr None \<Rightarrow> writeEAPReject env r (es_EAPIdentifier sess) d1
      | Inr (Some sub) \<Rightarrow>
          (let d2 = d1\<lparr>guard := Guard_Reset (guard d1) (es_Username sess)\<rparr>;
               success = EAPPacket_Encode \<lparr>ep_Code = EAPCodeSuccess, ep_Identifier = es_EAPIdentifier sess,
                                           ep_Type = 0, ep_Data = []\<rparr>
           in if \<not> en_set_ok env ''EAP-Message'' success then writeEAPReject env r (es_EAPIdentifier sess) d2
              else (authAccepted env r d2,
                    [writeWithMessageAuthenticator env
                       ((Response AccessAccept)\<lparr>pk_EAPMessage := Some success,
                          pk_Attrs := bandwidth_attrs env r sub (eap_rate_limit sub)\<rparr>)])))"

definition handleEAP :: "RadiusEnv \<Rightarrow> 'r Request_scheme \<Rightarrow> Daemon \<Rightarrow> handled option" where
  "handleEAP env r d =
     (if length (rq_EAPMessage r) = 0 then None
      else case eapSessions d of
        None \<Rightarrow> Some (writeEAPReject env r 0 d)
      | Some sessions \<Rightarrow>
          (case ParseEAP (rq_EAPMessage r) of
             Inl _ \<Rightarrow> Some (writeEAPReject env r 0 d)
           | Inr pkt \<Rightarrow>
               if rq_State r = [] then Some (eapStart env r pkt sessions d)
               else case EAP_Load (en_now env) sessions (rq_State r) of
                 None \<Rightarrow> Some (writeEAPReject env r (ep_Identifier pkt) d)
               | Some sess \<Rightarrow>
                   Some (case es_Stage sess of
                           StageChallengeIssued \<Rightarrow> eapVerifyResponse env r pkt (rq_State r) sess sessions d
                         | StageAwaitingSuccessAck \<Rightarrow> eapFinish env r (rq_State r) sess sessions d
                         | StageIdentityRequested \<Rightarrow> eapFail env r (ep_Identifier pkt) (rq_State r) sessions d)))"

section \<open>Dispatch\<close>

definition handleAuth :: "RadiusEnv \<Rightarrow> 'r Request_scheme \<Rightarrow> Daemon \<Rightarrow> handled" where
  "handleAuth env r d =
     (case handleEAP env r d of
        Some res \<Rightarrow> res
      | None \<Rightarrow> (case handleMAB env r d of Some res \<Rightarrow> res | None \<Rightarrow> handlePAP env r d))"

section \<open>The guard refines a count of consecutive failures\<close>

datatype guard_call = GFail time string | GReset time string | GSweep time

fun gc_time :: "guard_call \<Rightarrow> time" where
  "gc_time (GFail t _) = t" | "gc_time (GReset t _) = t" | "gc_time (GSweep t) = t"

text \<open>The counter after a history of calls, newest first.\<close>

fun guard_after :: "guard_call list \<Rightarrow> Counter" where
  "guard_after [] = NewCounter"
| "guard_after (GFail t u # h) = RecordFailure t (guard_after h) u"
| "guard_after (GReset t u # h) = Guard_Reset (guard_after h) u"
| "guard_after (GSweep t # h) = Counter_sweep t (guard_after h)"

text \<open>
  The specification: how many failures of \<open>u\<close> in a row precede \<open>now\<close>, each at most the lockout
  duration before the next one (the last, before \<open>now\<close>), with no reset in between.
\<close>

fun streak :: "string \<Rightarrow> guard_call list \<Rightarrow> time \<Rightarrow> nat" where
  "streak u [] now = 0"
| "streak u (GFail t v # h) now =
     (if v = u then (if now \<le> t + LockoutDuration then streak u h t + 1 else 0) else streak u h now)"
| "streak u (GReset t v # h) now = (if v = u then 0 else streak u h now)"
| "streak u (GSweep t # h) now = streak u h now"

fun chronological :: "time \<Rightarrow> guard_call list \<Rightarrow> bool" where
  "chronological now [] = True"
| "chronological now (c # h) \<longleftrightarrow> gc_time c \<le> now \<and> gc_time c + LockoutDuration \<noteq> 0 \<and> chronological (gc_time c) h"

lemma chronological_mono: "chronological t h \<Longrightarrow> t \<le> u \<Longrightarrow> chronological u h"
  by (cases h) auto

lemma BruteForceKey_inj [simp]: "BruteForceKey u = BruteForceKey v \<longleftrightarrow> u = v"
  by (simp add: BruteForceKey_def)

lemma inv_guard_after: "distinct (map fst (guard_after h))"
  by (induction h rule: guard_after.induct)
     (simp_all add: NewCounter_def RecordFailure_def Guard_Reset_def Let_def wc.inv_incr wc.inv_expire
       wc.inv_reset wc.inv_counter_sweep)

lemma Counter_Get_RecordFailure:
  assumes "t + LockoutDuration \<noteq> 0"
  shows "Counter_Get now (RecordFailure t c v) (BruteForceKey u) =
     (if v = u then (if now \<le> t + LockoutDuration
                     then Some (case Counter_Get t c (BruteForceKey u) of None \<Rightarrow> 1 | Some n \<Rightarrow> n + 1) else None)
      else Counter_Get now c (BruteForceKey u))"
  using wc.get_incr_expire [OF assms, of now c "BruteForceKey u"]
  by (auto simp: RecordFailure_def Let_def wc.incr_value wc.expire_other wc.incr_other)

lemma Counter_Get_guard_after:
  assumes "chronological now h"
  shows "Counter_Get now (guard_after h) (BruteForceKey u)
       = (if streak u h now = 0 then None else Some (int (streak u h now)))"
  using assms
proof (induction u h now rule: streak.induct)
  case (1 u now)
  then show ?case by (simp add: NewCounter_def Counter_Get_def)
next
  case (2 u t v h now)
  then show ?case
    by (auto simp: Counter_Get_RecordFailure chronological_mono split: if_splits)
next
  case (3 u t v h now)
  then show ?case by (auto simp: Guard_Reset_def wc.get_reset chronological_mono)
next
  case (4 u t h now)
  then have "chronological now h" using chronological_mono by auto
  with 4 show ?case by (simp add: wc.counter_sweep [OF inv_guard_after])
qed



section \<open>The verifier cache only ever vouches for checked passwords\<close>

lemma length_PutUint64 [simp]: "length (PutUint64 n) = 8"
  by (simp add: PutUint64_def Let_def)

lemma PutUint64_inj:
  assumes "PutUint64 m = PutUint64 n" "m < 2 ^ 64" "n < 2 ^ 64"
  shows "m = n"
proof -
  let ?v = "word_of_nat m :: 64 word" and ?w = "word_of_nat n :: 64 word"
  have eq: "ucast (drop_bit (56 - 8 * i) ?v) = (ucast (drop_bit (56 - 8 * i) ?w) :: 8 word)" if "i < 8" for i
    using assms(1) that by (simp add: PutUint64_def Let_def list_eq_iff_nth_eq del: upt_Suc)
  have "?v = ?w"
  proof (rule bit_word_eqI)
    fix k assume "k < LENGTH(64)"
    then have k: "k < 64" by simp
    have "k div 8 < 8" using k by simp
    then have off: "56 - 8 * (7 - k div 8) = 8 * (k div 8)" and lt: "7 - k div 8 < 8" by simp_all
    have "bit (ucast (drop_bit (8 * (k div 8)) x) :: 8 word) (k mod 8) = bit x k" for x :: "64 word"
      by (simp add: bit_simps)
    then show "bit ?v k = bit ?w k" using eq [OF lt] unfolding off by metis
  qed
  then have "unat ?v = unat ?w" by simp
  then show ?thesis using assms(2,3) by (simp add: unat_of_nat take_bit_nat_eq_self)
qed

text \<open>The two length prefixes make the message of a password and a hash unambiguous.\<close>

lemma verifier_message_inj:
  assumes "verifier_message p h = verifier_message p' h'" "length p < 2 ^ 64" "length p' < 2 ^ 64"
  shows "p = p' \<and> h = h'"
proof -
  have "PutUint64 (length p) = PutUint64 (length p')"
    and rest: "bytes_of p @ writeLengthPrefixed h = bytes_of p' @ writeLengthPrefixed h'"
    using assms(1) by (simp_all add: verifier_message_def writeLengthPrefixed_def)
  then have "length p = length p'" using PutUint64_inj assms(2,3) by blast
  then have "bytes_of p = bytes_of p'" "writeLengthPrefixed h = writeLengthPrefixed h'"
    using rest by simp_all
  then show ?thesis by (simp add: writeLengthPrefixed_def)
qed

text \<open>
  A cache is sound for a set \<open>M\<close> of password and hash pairs when every verifier it holds, in either
  tier, is that of a pair in \<open>M\<close> that bcrypt accepted.
\<close>

definition vouched :: "(bytes \<Rightarrow> bytes \<Rightarrow> bytes) \<Rightarrow> (string \<Rightarrow> string \<Rightarrow> bool) \<Rightarrow> (string \<times> string) set \<Rightarrow> bytes \<Rightarrow> bytes \<Rightarrow> bool" where
  "vouched hmac bcrypt M secret mac \<longleftrightarrow>
     (\<exists>p h. (p, h) \<in> M \<and> bcrypt h p \<and> mac = hmac secret (verifier_message p h))"

definition cache_sound ::
  "(bytes \<Rightarrow> bytes \<Rightarrow> bytes) \<Rightarrow> (string \<Rightarrow> string \<Rightarrow> bool) \<Rightarrow> (string \<times> string) set \<Rightarrow> VerifierCache \<Rightarrow> bool" where
  "cache_sound hmac bcrypt M c \<longleftrightarrow>
     (\<forall>t u m. Store_Get t (vc_store c) (verifierKey u) = Some m \<longrightarrow> vouched hmac bcrypt M (vc_secret c) m) \<and>
     (\<forall>rows. vc_persist c = Some rows \<longrightarrow> (\<forall>r \<in> set rows. vouched hmac bcrypt M (vc_secret c) (pv_Verifier r)))"

text \<open>HMAC has no collision among the messages of \<open>M\<close>, whose passwords have a 64-bit length.\<close>

definition mac_ok :: "(bytes \<Rightarrow> bytes \<Rightarrow> bytes) \<Rightarrow> bytes \<Rightarrow> (string \<times> string) set \<Rightarrow> bool" where
  "mac_ok hmac secret M \<longleftrightarrow>
     inj_on (hmac secret) ((\<lambda>(p, h). verifier_message p h) ` M) \<and> (\<forall>(p, h) \<in> M. length p < 2 ^ 64)"

lemma Store_Get_Set_cases:
  "Store_Get t (Store_Set now s k v d) k' = Some m \<Longrightarrow>
     (k' = k \<and> m = v \<and> t \<le> now + d) \<or> (k' \<noteq> k \<and> Store_Get t s k' = Some m)"
  by (auto simp: store_defs alist_simps split: if_splits option.splits)

lemma Store_Get_Delete_cases:
  "Store_Get t (Store_Delete s k) k' = Some m \<Longrightarrow> k' \<noteq> k \<and> Store_Get t s k' = Some m"
  by (auto simp: ts.get_delete split: if_splits)

lemma Verifier_Check_sound:
  assumes "cache_sound hmac bcrypt M c" "mac_ok hmac (vc_secret c) M" "(p, h) \<in> M"
    and "Verifier_Check hmac now c u p h"
  shows "bcrypt h p"
proof -
  obtain m where "Store_Get now (vc_store c) (verifierKey u) = Some m" "verifier hmac c p h = m"
    using assms(4) by (auto simp: Verifier_Check_def split: option.splits)
  then obtain p' h' where ph: "(p', h') \<in> M" "bcrypt h' p'"
    and eq: "hmac (vc_secret c) (verifier_message p h) = hmac (vc_secret c) (verifier_message p' h')"
    using assms(1) by (fastforce simp: cache_sound_def vouched_def verifier_def)
  have "verifier_message p h = verifier_message p' h'"
    by (rule inj_onD [OF conjunct1 [OF assms(2) [unfolded mac_ok_def]] eq]) (use assms(3) ph(1) in force)+
  moreover have "length p < 2 ^ 64" "length p' < 2 ^ 64"
    using assms(2,3) ph(1) by (auto simp: mac_ok_def)
  ultimately show ?thesis using verifier_message_inj ph(2) by blast
qed

lemma vc_secret_Verifier_Store [simp]:
  "vc_secret (fst (Verifier_Store hmac flt now c i u p h)) = vc_secret c"
  by (auto simp: Verifier_Store_def Let_def split: option.split sum.split)

lemma Verifier_Save_rows:
  "Verifier_Save flt rows i u mac e = Inr rows' \<Longrightarrow> r \<in> set rows' \<Longrightarrow> r \<in> set rows \<or> pv_Verifier r = mac"
  by (auto simp: Verifier_Save_def Let_def set_update_where split: option.splits if_splits)

lemma cache_sound_Store:
  assumes "cache_sound hmac bcrypt M c" "(p, h) \<in> M" "bcrypt h p"
  shows "cache_sound hmac bcrypt M (fst (Verifier_Store hmac flt now c i u p h))"
proof -
  have v: "vouched hmac bcrypt M (vc_secret c) (verifier hmac c p h)"
    using assms(2,3) by (auto simp: vouched_def verifier_def)
  have "vouched hmac bcrypt M (vc_secret c) m"
    if "Store_Get t (Store_Set now (vc_store c) (verifierKey u) (verifier hmac c p h) verifierCacheTTL) (verifierKey w) = Some m"
    for t w m using Store_Get_Set_cases [OF that] v assms(1) by (auto simp: cache_sound_def)
  moreover have "vouched hmac bcrypt M (vc_secret c) (pv_Verifier r)"
    if "vc_persist c = Some rows" "Verifier_Save flt rows i u (verifier hmac c p h) e = Inr rows'" "r \<in> set rows'"
    for rows rows' r e
    using Verifier_Save_rows [OF that(2,3)] v assms(1) that(1) by (auto simp: cache_sound_def)
  ultimately show ?thesis using assms(1)
    by (auto simp: Verifier_Store_def cache_sound_def Let_def split: option.splits sum.splits)
qed

lemma cache_sound_warm_rows:
  assumes "\<forall>t u m. Store_Get t s (verifierKey u) = Some m \<longrightarrow> Q m" "\<forall>r \<in> set rows. Q (pv_Verifier r)"
  shows "Store_Get t (fst (warm_rows now rows s n)) (verifierKey u) = Some m \<Longrightarrow> Q m"
  using assms
proof (induction now rows s n rule: warm_rows.induct)
  case (2 now row rows s n)
  have "Q m'" if "Store_Get t' (Store_Set now s (verifierKey (pv_Username row)) (pv_Verifier row) d) (verifierKey u') = Some m'"
    for t' u' m' d using Store_Get_Set_cases [OF that] 2(4,5) by auto
  then show ?case using 2 by (simp add: Let_def split: if_splits)
qed simp

lemma cache_sound_Warm:
  assumes "cache_sound hmac bcrypt M c"
  shows "cache_sound hmac bcrypt M (fst (Verifier_Warm flt now c))"
proof (cases "vc_persist c")
  case None
  then show ?thesis using assms by (simp add: Verifier_Warm_def)
next
  case (Some rows)
  show ?thesis
  proof (cases "Verifier_LoadActive flt now rows")
    case (Inl e)
    then show ?thesis using Some assms by (simp add: Verifier_Warm_def)
  next
    case (Inr active)
    have sub: "set active \<subseteq> set rows"
      using Inr by (auto simp: Verifier_LoadActive_def dest!: in_set_takeD split: option.splits)
    then have "Store_Get t (fst (warm_rows now active (vc_store c) 0)) (verifierKey u) = Some m \<Longrightarrow>
      vouched hmac bcrypt M (vc_secret c) m" for t u m
      using assms Some by (intro cache_sound_warm_rows [of "vc_store c" "vouched hmac bcrypt M (vc_secret c)" active])
        (auto simp: cache_sound_def)
    then show ?thesis using assms Some Inr
      by (simp add: Verifier_Warm_def cache_sound_def split: prod.split)
  qed
qed

lemma cache_sound_Invalidate:
  "cache_sound hmac bcrypt M c \<Longrightarrow> cache_sound hmac bcrypt M (fst (Verifier_Invalidate flt c u))"
  by (auto simp: Verifier_Invalidate_def Let_def cache_sound_def Verifier_DeleteByUsername_def table_simps
      dest!: Store_Get_Delete_cases split: option.splits sum.splits)

section \<open>What the handlers leave alone\<close>

lemma outcome_fields [simp]:
  "guard (recordAuthOutcome env r a d) = guard d"
  "verifierCache (recordAuthOutcome env r a d) = verifierCache d"
  "eapSessions (recordAuthOutcome env r a d) = eapSessions d"
  "acctDedup (recordAuthOutcome env r a d) = acctDedup d"
  by (simp_all add: recordAuthOutcome_def Let_def)

lemma failure_fields [simp]:
  "guard (recordAuthFailure env u d) = RecordFailure (en_now env) (guard d) u"
  "verifierCache (recordAuthFailure env u d) = verifierCache d"
  "eapSessions (recordAuthFailure env u d) = eapSessions d"
  "acctDedup (recordAuthFailure env u d) = acctDedup d"
  by (simp_all add: recordAuthFailure_def)

lemmas answer_defs = reject_def authRejected_def authAccepted_def writeEAPReject_def Let_def

lemma reject_fields [simp]:
  "guard (fst (reject env r d)) = guard d"
  "verifierCache (fst (reject env r d)) = verifierCache d"
  "eapSessions (fst (reject env r d)) = eapSessions d"
  "snd (reject env r d) = [Response AccessReject]"
  by (simp_all add: answer_defs)

lemma eap_reject_fields [simp]:
  "guard (fst (writeEAPReject env r i d)) = guard d"
  "verifierCache (fst (writeEAPReject env r i d)) = verifierCache d"
  "eapSessions (fst (writeEAPReject env r i d)) = eapSessions d"
  by (simp_all add: answer_defs)

lemma authenticator_code [simp]: "pk_Code (writeWithMessageAuthenticator env p) = pk_Code p"
  by (simp add: writeWithMessageAuthenticator_def)

lemma Response_code [simp]: "pk_Code (Response c) = c"
  by (simp add: Response_def)

lemma applyRateLimit_code [simp]: "pk_Code (applyRateLimit env p sub r) = pk_Code p"
  by (simp add: applyRateLimit_def)

text \<open>The packets an EAP rejection or challenge consists of are no acceptance.\<close>

definition accepts :: "handled \<Rightarrow> bool" where
  "accepts res \<longleftrightarrow> (\<exists>p \<in> set (snd res). pk_Code p = AccessAccept)"

lemma accepts_simps [simp]:
  "\<not> accepts (reject env r d)"
  "\<not> accepts (writeEAPReject env r i d)"
  "\<not> accepts (writeEAPChallenge env r st pkt d)"
  "\<not> accepts (eapFail env r i st s d)"
  by (simp_all add: accepts_def answer_defs writeEAPChallenge_def eapFail_def)

lemma not_accepts_eapStart [simp]: "\<not> accepts (eapStart env r pkt s d)"
  by (simp add: eapStart_def Let_def accepts_def answer_defs writeEAPChallenge_def split: option.split)

lemma not_accepts_eapVerify [simp]: "\<not> accepts (eapVerifyResponse env r pkt st sess s d)"
  by (simp add: eapVerifyResponse_def Let_def split: option.split sum.split)

lemma writeEAPChallenge_fields [simp]:
  "verifierCache (fst (writeEAPChallenge env r st pkt d)) = verifierCache d"
  "eapSessions (fst (writeEAPChallenge env r st pkt d)) = eapSessions d"
  by (simp_all add: writeEAPChallenge_def)

lemma eapFail_fields [simp]:
  "verifierCache (fst (eapFail env r i st s d)) = verifierCache d"
  "eapSessions (fst (eapFail env r i st s d)) = (if st \<noteq> [] then Some (EAP_Delete s st) else eapSessions d)"
  by (simp_all add: eapFail_def)

lemma verifierCache_eapStart [simp]: "verifierCache (fst (eapStart env r pkt s d)) = verifierCache d"
  by (auto simp: eapStart_def Let_def authRejected_def split: option.split prod.split)
     (metis eap_reject_fields(2) fst_conv)

lemma verifierCache_eapVerify [simp]: "verifierCache (fst (eapVerifyResponse env r pkt st sess s d)) = verifierCache d"
  by (simp add: eapVerifyResponse_def Let_def split: option.split sum.split)

lemma verifierCache_eapFinish [simp]: "verifierCache (fst (eapFinish env r st sess s d)) = verifierCache d"
  by (simp add: eapFinish_def Let_def authAccepted_def split: option.split sum.split)

lemma verifierCache_handleEAP: "handleEAP env r d = Some res \<Longrightarrow> verifierCache (fst res) = verifierCache d"
  by (auto simp: handleEAP_def split: if_splits option.splits sum.splits EAPStage.splits)

lemma handleMAB_fields:
  "handleMAB env r d = Some res \<Longrightarrow>
     guard (fst res) = guard d \<and> verifierCache (fst res) = verifierCache d \<and> eapSessions (fst res) = eapSessions d"
  by (auto simp: handleMAB_def Let_def authAccepted_def split: if_splits option.splits sum.splits)

section \<open>The decision of PAP\<close>

definition presented :: "RadiusEnv \<Rightarrow> 'r Request_scheme \<Rightarrow> (string \<times> string) set" where
  "presented env r = {(rq_UserPassword r, s_PasswordHash sub) |sub. en_db env (rq_UserName r) = Inr (Some sub)}"

definition pap_spec :: "RadiusEnv \<Rightarrow> 'r Request_scheme \<Rightarrow> Daemon \<Rightarrow> Subscriber option" where
  "pap_spec env r d =
     (case en_db env (rq_UserName r) of
        Inr (Some sub) \<Rightarrow>
          if \<not> IsBlocked (en_now env) (guard d) (rq_UserName r) \<and> AuthorisesService (s_Status sub)
             \<and> en_bcrypt env (s_PasswordHash sub) (rq_UserPassword r) then Some sub else None
      | _ \<Rightarrow> None)"

lemma handlePAP_decides:
  assumes "cache_sound (en_hmac env) (en_bcrypt env) M (verifierCache d)"
    and "mac_ok (en_hmac env) (vc_secret (verifierCache d)) M" "presented env r \<subseteq> M"
  shows "snd (handlePAP env r d) =
     (case pap_spec env r d of
        None \<Rightarrow> [Response AccessReject]
      | Some sub \<Rightarrow> [applyRateLimit env (Response AccessAccept) sub r])"
proof -
  have chk: "en_bcrypt env (s_PasswordHash sub) (rq_UserPassword r)"
    if "en_db env (rq_UserName r) = Inr (Some sub)"
      "Verifier_Check (en_hmac env) (en_now env) (verifierCache d) (rq_UserName r) (rq_UserPassword r) (s_PasswordHash sub)"
    for sub using Verifier_Check_sound [OF assms(1,2) _ that(2)] that(1) assms(3) by (auto simp: presented_def)
  show ?thesis
    by (auto simp: handlePAP_def pap_spec_def IsBlocked_def Let_def dest: chk split: prod.splits sum.splits option.splits)
qed

lemma cache_sound_handlePAP:
  assumes "cache_sound (en_hmac env) (en_bcrypt env) M (verifierCache d)" "presented env r \<subseteq> M"
  shows "cache_sound (en_hmac env) (en_bcrypt env) M (verifierCache (fst (handlePAP env r d)))"
proof -
  have "(rq_UserPassword r, s_PasswordHash sub) \<in> M" if "en_db env (rq_UserName r) = Inr (Some sub)" for sub
    using assms(2) that by (auto simp: presented_def)
  then show ?thesis using assms(1)
    by (auto simp: handlePAP_def Let_def authAccepted_def intro!: cache_sound_Store split: prod.splits sum.splits option.splits)
qed

lemma vc_secret_handlePAP [simp]: "vc_secret (verifierCache (fst (handlePAP env r d))) = vc_secret (verifierCache d)"
  by (auto simp: handlePAP_def Let_def authAccepted_def split: prod.splits sum.splits option.splits)

lemma eapSessions_handlePAP [simp]: "eapSessions (fst (handlePAP env r d)) = eapSessions d"
  by (auto simp: handlePAP_def Let_def authAccepted_def split: prod.splits sum.splits option.splits)

section \<open>Runs of the server\<close>

type_synonym auth_step = "RadiusEnv \<times> Request"

text \<open>The daemon after a history of Access-Requests, newest first.\<close>

fun auth_run :: "Daemon \<Rightarrow> auth_step list \<Rightarrow> Daemon" where
  "auth_run d [] = d"
| "auth_run d ((env, r) # h) = fst (handleAuth env r (auth_run d h))"

text \<open>Some request of the history was answered with the challenge \<open>ch\<close> for \<open>u\<close> under the state \<open>st\<close>.\<close>

definition issued :: "auth_step list \<Rightarrow> string \<Rightarrow> string \<Rightarrow> bytes \<Rightarrow> bool" where
  "issued h st u ch \<longleftrightarrow>
     (\<exists>(env, r) \<in> set h. NewState env = Some st \<and> NewChallenge env = Some ch \<and>
        (\<exists>pkt. ParseEAP (rq_EAPMessage r) = Inr pkt \<and> eap_username r pkt = u))"

text \<open>
  Some request of the history, at most one session lifetime before \<open>t\<close>, carried the state \<open>st\<close> and a
  response to the challenge \<open>ch\<close> computed with the NT hash of the then authorised subscriber \<open>u\<close>.
\<close>

definition proved :: "auth_step list \<Rightarrow> string \<Rightarrow> string \<Rightarrow> bytes \<Rightarrow> time \<Rightarrow> bool" where
  "proved h st u ch t \<longleftrightarrow>
     (\<exists>(env, r) \<in> set h. rq_State r = st \<and> t \<le> en_now env + eapSessionTTL \<and>
        (\<exists>pkt resp sub. ParseEAP (rq_EAPMessage r) = Inr pkt \<and> ParseMSCHAPv2Response (ep_Data pkt) = Inr resp \<and>
           en_db env u = Inr (Some sub) \<and> AuthorisesService (s_Status sub) \<and>
           GenerateNTResponse (en_crypto env) ch (mr_PeerChallenge resp) u (s_NTHash sub) = Inr (mr_NTResponse resp)))"

definition sessions_ok :: "auth_step list \<Rightarrow> EAPSession Store \<Rightarrow> bool" where
  "sessions_ok h s \<longleftrightarrow>
     (\<forall>t st sess. EAP_Load t s st = Some sess \<longrightarrow>
        issued h st (es_Username sess) (es_AuthenticatorChallenge sess) \<and>
        (es_Stage sess = StageChallengeIssued \<or>
         es_Stage sess = StageAwaitingSuccessAck \<and> proved h st (es_Username sess) (es_AuthenticatorChallenge sess) t))"

definition daemon_ok :: "auth_step list \<Rightarrow> Daemon \<Rightarrow> bool" where
  "daemon_ok h d \<longleftrightarrow> (case eapSessions d of None \<Rightarrow> True | Some s \<Rightarrow> sessions_ok h s)"

lemma history_mono: "issued h st u ch \<Longrightarrow> issued (x # h) st u ch" "proved h st u ch t \<Longrightarrow> proved (x # h) st u ch t"
  by (auto simp: issued_def proved_def)

lemma sessions_ok_mono: "sessions_ok h s \<Longrightarrow> sessions_ok (x # h) s"
  unfolding sessions_ok_def by (blast intro: history_mono)

lemma daemon_ok_mono: "daemon_ok h d \<Longrightarrow> eapSessions d' = eapSessions d \<Longrightarrow> daemon_ok (x # h) d'"
  by (auto simp: daemon_ok_def sessions_ok_mono split: option.splits)

lemma sessions_ok_Delete: "sessions_ok h s \<Longrightarrow> sessions_ok h (EAP_Delete s st)"
  by (auto simp: sessions_ok_def EAP_Load_def EAP_Delete_def dest!: Store_Get_Delete_cases)

lemma sessions_ok_Save:
  assumes "sessions_ok h s" "issued h st (es_Username sess) (es_AuthenticatorChallenge sess)"
    and "es_Stage sess = StageChallengeIssued \<or> es_Stage sess = StageAwaitingSuccessAck \<and>
         (\<forall>t \<le> now + eapSessionTTL. proved h st (es_Username sess) (es_AuthenticatorChallenge sess) t)"
  shows "sessions_ok h (EAP_Save now s st sess)"
  using assms
  by (auto simp: sessions_ok_def EAP_Load_def EAP_Save_def eapSessionKey_def dest!: Store_Get_Set_cases)

lemma VerifyMSCHAPv2_sound:
  "VerifyMSCHAPv2 cr h ac pc nt u = Inr a \<Longrightarrow> GenerateNTResponse cr ac pc u h = Inr nt"
  by (auto simp: VerifyMSCHAPv2_def list_ex_zip_neq split: if_splits sum.splits)

lemma daemon_ok_eapStart:
  assumes "sessions_ok h s" "eapSessions d = Some s" "ParseEAP (rq_EAPMessage r) = Inr pkt"
  shows "daemon_ok ((env, r) # h) (fst (eapStart env r pkt s d))"
proof -
  have ok: "sessions_ok ((env, r) # h) s" using assms(1) by (rule sessions_ok_mono)
  have iss: "issued ((env, r) # h) st (eap_username r pkt) ch"
    if "NewState env = Some st" "NewChallenge env = Some ch" for st ch
    using that assms(3) by (auto simp: issued_def)
  have blocked: "eapSessions (fst (case writeEAPReject env r i d of (d1, resp) \<Rightarrow> (authRejected env r d1, resp))) = Some s" for i
    using assms(2) by (simp add: answer_defs)
  show ?thesis using assms(2) blocked
    by (auto simp: eapStart_def Let_def daemon_ok_def ok iss intro!: sessions_ok_Save split: option.split)
qed

lemma daemon_ok_eapVerify:
  assumes "sessions_ok h s" "eapSessions d = Some s" "ParseEAP (rq_EAPMessage r) = Inr pkt" "rq_State r = st"
    and "EAP_Load (en_now env) s st = Some sess" "st \<noteq> []"
  shows "daemon_ok ((env, r) # h) (fst (eapVerifyResponse env r pkt st sess s d))"
proof -
  have ok: "sessions_ok ((env, r) # h) s" using assms(1) by (rule sessions_ok_mono)
  have iss: "issued ((env, r) # h) st (es_Username sess) (es_AuthenticatorChallenge sess)"
    using ok assms(5) by (auto simp: sessions_ok_def)
  have prov: "proved ((env, r) # h) st (es_Username sess) (es_AuthenticatorChallenge sess) t"
    if "t \<le> en_now env + eapSessionTTL" "ParseMSCHAPv2Response (ep_Data pkt) = Inr resp"
      "en_db env (es_Username sess) = Inr (Some sub)" "AuthorisesService (s_Status sub)"
      "VerifyMSCHAPv2 (en_crypto env) (s_NTHash sub) (es_AuthenticatorChallenge sess)
         (mr_PeerChallenge resp) (mr_NTResponse resp) (es_Username sess) = Inr a" for t resp sub a
    using that assms(3,4) VerifyMSCHAPv2_sound [OF that(5)] by (auto simp: proved_def)
  show ?thesis using assms(2,6)
    by (auto simp: eapVerifyResponse_def Let_def daemon_ok_def ok iss sessions_ok_Delete
        intro!: sessions_ok_Save intro: prov split: sum.split option.split)
qed

lemma daemon_ok_eapFinish:
  assumes "sessions_ok h s"
  shows "daemon_ok (x # h) (fst (eapFinish env r st sess s d))"
  using sessions_ok_Delete [OF sessions_ok_mono [OF assms, of x], of st]
  by (simp add: eapFinish_def Let_def daemon_ok_def authAccepted_def split: sum.split option.split)

lemma daemon_ok_handleEAP:
  assumes "daemon_ok h d" "handleEAP env r d = Some res"
  shows "daemon_ok ((env, r) # h) (fst res)"
proof (cases "eapSessions d")
  case None
  then show ?thesis using assms by (auto simp: handleEAP_def daemon_ok_def split: if_splits)
next
  case (Some s)
  then have ok: "sessions_ok h s" using assms(1) by (simp add: daemon_ok_def)
  have fail: "daemon_ok ((env, r) # h) (fst (eapFail env r i st s d))" for i st
    using Some ok by (simp add: daemon_ok_def sessions_ok_mono sessions_ok_Delete)
  have rej: "daemon_ok ((env, r) # h) (fst (writeEAPReject env r i d))" for i
    using Some ok by (simp add: daemon_ok_def sessions_ok_mono)
  show ?thesis using assms(2) Some
    by (auto simp: handleEAP_def intro: fail rej daemon_ok_eapStart [OF ok] daemon_ok_eapVerify [OF ok]
        daemon_ok_eapFinish [OF ok] split: if_splits sum.splits option.splits EAPStage.splits)
qed

lemma daemon_ok_handleAuth:
  assumes "daemon_ok h d"
  shows "daemon_ok ((env, r) # h) (fst (handleAuth env r d))"
proof -
  have "daemon_ok ((env, r) # h) (fst res)" if "handleMAB env r d = Some res" for res
    using daemon_ok_mono [OF assms] handleMAB_fields [OF that] by blast
  moreover have "daemon_ok ((env, r) # h) (fst (handlePAP env r d))"
    using daemon_ok_mono [OF assms] by simp
  ultimately show ?thesis using daemon_ok_handleEAP [OF assms]
    by (simp add: handleAuth_def split: option.split)
qed

lemma daemon_ok_run: "daemon_ok [] d \<Longrightarrow> daemon_ok h (auth_run d h)"
  by (induction d h rule: auth_run.induct) (auto intro: daemon_ok_handleAuth)

lemma accepts_handleEAP:
  assumes "daemon_ok h d" "handleEAP env r d = Some res" "accepts res"
  shows "\<exists>u ch. issued h (rq_State r) u ch \<and> proved h (rq_State r) u ch (en_now env)"
proof -
  obtain s sess where s: "eapSessions d = Some s" "EAP_Load (en_now env) s (rq_State r) = Some sess"
    and stage: "es_Stage sess = StageAwaitingSuccessAck"
    using assms(2,3) by (auto simp: handleEAP_def split: if_splits option.splits sum.splits EAPStage.splits)
  have "sessions_ok h s" using assms(1) s(1) by (simp add: daemon_ok_def)
  then have "issued h (rq_State r) (es_Username sess) (es_AuthenticatorChallenge sess) \<and>
    proved h (rq_State r) (es_Username sess) (es_AuthenticatorChallenge sess) (en_now env)"
    using s(2) stage unfolding sessions_ok_def by fastforce
  then show ?thesis by blast
qed

definition mab_allows :: "RadiusEnv \<Rightarrow> 'r Request_scheme \<Rightarrow> bool" where
  "mab_allows env r \<longleftrightarrow>
     looksLikeMAB (rq_UserName r) (rq_UserPassword r) \<and>
     (\<exists>authorizeMAC res mac sub.
        en_mabDB env = Some authorizeMAC \<and> en_nasResolver env = Some res \<and>
        dev_AllowMAB (ResolveAddr res (rq_RemoteAddr r)) \<and> NormaliseMAC (rq_UserName r) = Some mac \<and>
        authorizeMAC mac (dev_ID (ResolveAddr res (rq_RemoteAddr r))) = Inr (Some sub) \<and>
        AuthorisesService (s_Status sub))"

lemma accepts_handleMAB: "handleMAB env r d = Some res \<Longrightarrow> accepts res \<Longrightarrow> mab_allows env r"
  by (auto simp: handleMAB_def Let_def mab_allows_def looksLikeMAB_def split: if_splits option.splits sum.splits)

text \<open>One world: every request sees the same primitives and only password pairs of \<open>M\<close>.\<close>

definition same_world ::
  "(bytes \<Rightarrow> bytes \<Rightarrow> bytes) \<Rightarrow> (string \<Rightarrow> string \<Rightarrow> bool) \<Rightarrow> (string \<times> string) set \<Rightarrow> auth_step list \<Rightarrow> bool" where
  "same_world hmac bcrypt M h \<longleftrightarrow>
     (\<forall>(env, r) \<in> set h. en_hmac env = hmac \<and> en_bcrypt env = bcrypt \<and> presented env r \<subseteq> M)"

lemma cache_sound_handleAuth:
  assumes "cache_sound (en_hmac env) (en_bcrypt env) M (verifierCache d)" "presented env r \<subseteq> M"
  shows "cache_sound (en_hmac env) (en_bcrypt env) M (verifierCache (fst (handleAuth env r d))) \<and>
         vc_secret (verifierCache (fst (handleAuth env r d))) = vc_secret (verifierCache d)"
  using assms cache_sound_handlePAP [OF assms]
  by (auto simp: handleAuth_def dest: verifierCache_handleEAP handleMAB_fields split: option.split)

lemma cache_sound_run:
  assumes "same_world hmac bcrypt M h" "cache_sound hmac bcrypt M (verifierCache d)"
  shows "cache_sound hmac bcrypt M (verifierCache (auth_run d h)) \<and>
         vc_secret (verifierCache (auth_run d h)) = vc_secret (verifierCache d)"
  using assms
proof (induction d h rule: auth_run.induct)
  case (2 d env r h)
  then have "same_world hmac bcrypt M h" and w: "en_hmac env = hmac" "en_bcrypt env = bcrypt" "presented env r \<subseteq> M"
    by (auto simp: same_world_def)
  with 2 have IH: "cache_sound hmac bcrypt M (verifierCache (auth_run d h))"
    "vc_secret (verifierCache (auth_run d h)) = vc_secret (verifierCache d)" by simp_all
  then show ?case using cache_sound_handleAuth [of env M "auth_run d h" r] w by simp
qed simp

text \<open>
  C10. Nobody is let onto the network without proof. Take any history of Access-Requests, each with its
  own clock, database and devices, starting from a daemon whose verifier cache is sound, and suppose
  HMAC has no collision among the password and hash pairs the history presents. If the next request is
  accepted then either it ends an EAP conversation in which a response computed with the NT hash of a
  then authorised subscriber, to a challenge issued under the same state, arrived at most a minute
  before; or it is a MAC bypass from a device that allows it, for a MAC the store resolves to an
  authorised subscriber; or its user is not locked out, is authorised, and bcrypt accepts its password.
\<close>

theorem accept_justified:
  assumes "same_world hmac bcrypt M ((env, r) # h)" "mac_ok hmac (vc_secret (verifierCache d)) M"
    and "cache_sound hmac bcrypt M (verifierCache d)" "eapSessions d \<in> {None, Some New_Store}"
    and "accepts (handleAuth env r (auth_run d h))"
  shows "if rq_EAPMessage r \<noteq> []
         then \<exists>u ch. issued h (rq_State r) u ch \<and> proved h (rq_State r) u ch (en_now env)
         else mab_allows env r \<or> pap_spec env r (auth_run d h) \<noteq> None"
proof -
  let ?d = "auth_run d h"
  have "daemon_ok [] d"
    using assms(4) by (auto simp: daemon_ok_def sessions_ok_def EAP_Load_def New_Store_def Store_Get_def)
  then have ok: "daemon_ok h ?d" by (rule daemon_ok_run)
  have w: "en_hmac env = hmac" "en_bcrypt env = bcrypt" "presented env r \<subseteq> M" and wh: "same_world hmac bcrypt M h"
    using assms(1) by (auto simp: same_world_def)
  note snd = cache_sound_run [OF wh assms(3)]
  have pap: "pap_spec env r ?d \<noteq> None" if "accepts (handlePAP env r ?d)"
    using handlePAP_decides [of env M ?d r] snd assms(2) w that
    by (auto simp: accepts_def split: option.splits)
  have "handleEAP env r ?d = None \<longleftrightarrow> rq_EAPMessage r = []"
    by (auto simp: handleEAP_def split: option.splits sum.splits)
  then show ?thesis
    using assms(5) accepts_handleEAP [OF ok] accepts_handleMAB pap
    by (auto simp: handleAuth_def split: option.splits)
qed

section \<open>A conversation that ends in acceptance\<close>

text \<open>The packets a supplicant sends: its identity, its response to a challenge, its acknowledgement.\<close>

definition eap_identity :: "8 word \<Rightarrow> string \<Rightarrow> EAPPacket" where
  "eap_identity i name = \<lparr>ep_Code = EAPCodeResponse, ep_Identifier = i, ep_Type = EAPTypeIdentity, ep_Data = bytes_of name\<rparr>"

definition eap_answer :: "8 word \<Rightarrow> bytes \<Rightarrow> EAPPacket" where
  "eap_answer i payload = \<lparr>ep_Code = EAPCodeResponse, ep_Identifier = i, ep_Type = EAPTypeMSCHAPv2, ep_Data = payload\<rparr>"

lemma eap_wf_peer:
  "length name < 65000 \<Longrightarrow> eap_wf (eap_identity i name)"
  "length payload < 65000 \<Longrightarrow> eap_wf (eap_answer i payload)"
  by (simp_all add: eap_wf_def eap_identity_def eap_answer_def terminal_code_def eap_consts)

definition issued_session :: "string \<Rightarrow> bytes \<Rightarrow> 8 word \<Rightarrow> EAPSession" where
  "issued_session u ch i =
     \<lparr>es_Stage = StageChallengeIssued, es_Username = u, es_AuthenticatorChallenge = ch, es_PeerChallenge = [],
      es_NTResponse = [], es_MSCHAPv2ID = 0, es_EAPIdentifier = i + 1, es_AuthenticatorResponse = []\<rparr>"

definition challenge_packet :: "RadiusEnv \<Rightarrow> string \<Rightarrow> EAPPacket \<Rightarrow> Packet" where
  "challenge_packet env st pkt =
     writeWithMessageAuthenticator env
       ((Response AccessChallenge)\<lparr>pk_EAPMessage := Some (EAPPacket_Encode pkt), pk_State := Some st\<rparr>)"

definition sets_all :: "RadiusEnv \<Rightarrow> bool" where "sets_all env \<longleftrightarrow> en_set_ok env = (\<lambda>_ _. True)"

lemma writeEAPChallenge_ok:
  "sets_all env \<Longrightarrow> writeEAPChallenge env r st pkt d = (d, [challenge_packet env st pkt])"
  by (simp add: writeEAPChallenge_def challenge_packet_def sets_all_def)

lemma Encode_nonempty: "EAPPacket_Encode p \<noteq> []"
  by (simp add: EAPPacket_Encode_def)

lemma eap_step1:
  assumes "eapSessions d = Some s" "sets_all env" "rq_State r = []"
    and "rq_EAPMessage r = EAPPacket_Encode (eap_identity i name)" "name \<noteq> []" "length name < 65000"
    and "StripDomain name = u" "u \<noteq> []" "\<not> IsBlocked (en_now env) (guard d) u"
    and "NewChallenge env = Some ch" "NewState env = Some st"
  shows "handleAuth env r d =
     (d\<lparr>eapSessions := Some (EAP_Save (en_now env) s st (issued_session u ch i))\<rparr>,
      [challenge_packet env st \<lparr>ep_Code = EAPCodeRequest, ep_Identifier = i + 1, ep_Type = EAPTypeMSCHAPv2,
         ep_Data = MSCHAPv2Challenge_Encode \<lparr>mc_ID = i, mc_Challenge = ch, mc_Name = eapServerName\<rparr>\<rparr>])"
proof -
  have parse: "ParseEAP (rq_EAPMessage r) = Inr (eap_identity i name)"
    using assms(4) ParseEAP_of_Encode [OF eap_wf_peer(1) [OF assms(6)]] by simp
  have user: "eap_username r (eap_identity i name) = u"
    using assms(5,7) by (simp add: eap_username_def eap_identity_def)
  have "eapStart env r (eap_identity i name) s d =
     (d\<lparr>eapSessions := Some (EAP_Save (en_now env) s st (issued_session u ch i))\<rparr>,
      [challenge_packet env st \<lparr>ep_Code = EAPCodeRequest, ep_Identifier = i + 1, ep_Type = EAPTypeMSCHAPv2,
         ep_Data = MSCHAPv2Challenge_Encode \<lparr>mc_ID = i, mc_Challenge = ch, mc_Name = eapServerName\<rparr>\<rparr>])"
    using assms(2,8-) user by (simp add: eapStart_def IsBlocked_def writeEAPChallenge_ok issued_session_def eap_identity_def)
  then show ?thesis using assms(1,3,4) parse
    by (simp add: handleAuth_def handleEAP_def Encode_nonempty)
qed

lemma EAP_Load_Save:
  "now + eapSessionTTL \<noteq> 0 \<Longrightarrow> t \<le> now + eapSessionTTL \<Longrightarrow> EAP_Load t (EAP_Save now s st sess) st = Some sess"
  by (simp add: EAP_Load_def EAP_Save_def ts.get_set)

lemma eap_step2:
  assumes "eapSessions d = Some s" "sets_all env" "st \<noteq> []" "rq_State r = st"
    and "EAP_Load (en_now env) s st = Some (issued_session u ch i)"
    and "rq_EAPMessage r = EAPPacket_Encode (eap_answer j (peer_response k pc nt name))" "length name < 60000"
    and "en_db env u = Inr (Some sub)" "AuthorisesService (s_Status sub)" "crypto_ok (en_crypto env)"
    and "GenerateNTResponse (en_crypto env) ch pc u (s_NTHash sub) = Inr nt"
  defines "a \<equiv> authenticator_response (en_crypto env) (s_NTHash sub) nt pc ch u"
  shows "handleAuth env r d =
     (d\<lparr>eapSessions := Some (EAP_Save (en_now env) s st ((issued_session u ch i)\<lparr>es_Stage := StageAwaitingSuccessAck,
          es_PeerChallenge := pc, es_NTResponse := nt, es_MSCHAPv2ID := k, es_EAPIdentifier := j + 1,
          es_AuthenticatorResponse := a\<rparr>))\<rparr>,
      [challenge_packet env st \<lparr>ep_Code = EAPCodeRequest, ep_Identifier = j + 1, ep_Type = EAPTypeMSCHAPv2,
         ep_Data = EncodeMSCHAPv2Success k a\<rparr>])"
proof -
  note len = GenerateNTResponse_length [OF assms(10,11)]
  have "length (peer_response k pc nt name) < 65000" using len assms(7) by (simp add: length_peer_response)
  then have parse: "ParseEAP (rq_EAPMessage r) = Inr (eap_answer j (peer_response k pc nt name))"
    using assms(6) ParseEAP_of_Encode [OF eap_wf_peer(2)] by simp
  have resp: "ParseMSCHAPv2Response (peer_response k pc nt name)
    = Inr \<lparr>mr_ID = k, mr_PeerChallenge = pc, mr_NTResponse = nt, mr_Flags = 0, mr_Name = name\<rparr>"
    using ParseMSCHAPv2Response_peer len by simp
  have ver: "VerifyMSCHAPv2 (en_crypto env) (s_NTHash sub) ch pc nt u = Inr a"
    using VerifyMSCHAPv2_iff [OF assms(10)] assms(11) by (simp add: a_def)
  show ?thesis using assms(1-6,8,9) parse resp ver
    by (simp add: handleAuth_def handleEAP_def Encode_nonempty eapVerifyResponse_def issued_session_def
        eap_answer_def writeEAPChallenge_ok)
qed

lemma eap_step3:
  assumes "eapSessions d = Some s" "sets_all env" "st \<noteq> []" "rq_State r = st"
    and "EAP_Load (en_now env) s st = Some sess" "es_Stage sess = StageAwaitingSuccessAck"
    and "ParseEAP (rq_EAPMessage r) = Inr pkt" "en_db env (es_Username sess) = Inr (Some sub)"
  shows "snd (handleAuth env r d) = [writeWithMessageAuthenticator env ((Response AccessAccept)
           \<lparr>pk_EAPMessage := Some [3, es_EAPIdentifier sess, 0, 4],
            pk_Attrs := bandwidth_attrs env r sub (eap_rate_limit sub)\<rparr>)]"
proof -
  have "rq_EAPMessage r \<noteq> []" using assms(7) by (auto simp: ParseEAP_def eapHeaderLen_def)
  moreover have "EAPPacket_Encode \<lparr>ep_Code = EAPCodeSuccess, ep_Identifier = i, ep_Type = 0, ep_Data = []\<rparr> = [3, i, 0, 4]" for i
    by (simp add: Encode_terminal terminal_code_def) (simp add: eap_consts)
  ultimately show ?thesis using assms
    by (simp add: handleAuth_def handleEAP_def eapFinish_def sets_all_def)
qed

lemma challenge_packet_fields:
  "pk_Code (challenge_packet env st pkt) = AccessChallenge"
  "pk_State (challenge_packet env st pkt) = Some st"
  "pk_EAPMessage (challenge_packet env st pkt) = Some (EAPPacket_Encode pkt)"
  by (simp_all add: challenge_packet_def writeWithMessageAuthenticator_def)

lemma lower_hex_nonempty: "b \<noteq> [] \<Longrightarrow> lower_hex b \<noteq> []"
  by (cases b) (simp_all add: lower_hex_def upper_hex_def)


section \<open>Instances\<close>

text \<open>Stand-ins with the documented sizes, to run the theorems on: truncations padded with zeros.\<close>

definition pad_to :: "nat \<Rightarrow> bytes \<Rightarrow> bytes" where "pad_to n x = take n (x @ replicate n 0)"

definition pad_crypto :: crypto_pkg where
  "pad_crypto = \<lparr>md4 = pad_to 16, sha1 = pad_to 20, des = (\<lambda>k x. pad_to 8 x)\<rparr>"

lemma length_pad_to [simp]: "length (pad_to n x) = n"
  by (auto simp: pad_to_def)

lemma pad_crypto_ok: "crypto_ok pad_crypto"
  by (simp add: crypto_ok_def pad_crypto_def)

definition rdemo_sub :: Subscriber where
  "rdemo_sub = \<lparr>s_ID = 7, s_Username = ''asha'', s_PasswordHash = ''hash'', s_Status = ''active'',
     s_RateLimitStr = ''50M/50M'', s_FUPActive = False, s_FUPThrottle = [], s_SpeedOverrideRateLimit = [],
     s_SpeedOverrideExpiresAt = None, s_PlanID = 1, s_NTHash = replicate 16 9, s_VolumeGB = 100\<rparr>"

definition rdemo_env :: "time \<Rightarrow> RadiusEnv" where
  "rdemo_env now = \<lparr>en_now = now, en_db = (\<lambda>u. Inr (if u = ''asha'' then Some rdemo_sub else None)),
     en_mabDB = None, en_nasResolver = None, en_bcrypt = (\<lambda>h p. h = ''hash'' \<and> p = ''secret''),
     en_hmac = (\<lambda>k m. k @ m), en_crypto = pad_crypto, en_nvs = layeh_vsa, en_set_ok = (\<lambda>_ _. True),
     en_challenge = Some (replicate 16 5), en_state = Some [1, 2], en_faults = no_faults\<rparr>"

definition rdemo_request :: "string \<Rightarrow> string \<Rightarrow> bytes \<Rightarrow> string \<Rightarrow> Request" where
  "rdemo_request u p e st = \<lparr>rq_Code = AccessRequest, rq_RemoteAddr = None, rq_UserName = u, rq_UserPassword = p,
     rq_EAPMessage = e, rq_State = st\<rparr>"

definition rdemo_daemon :: Daemon where
  "rdemo_daemon = (NewRadiusDaemon [1])\<lparr>eapSessions := Some New_Store\<rparr>"

lemmas rdemo_defs = rdemo_env_def rdemo_request_def rdemo_daemon_def rdemo_sub_def NewRadiusDaemon_def

lemma rdemo_not_blocked [simp]: "\<not> IsBlocked t (guard rdemo_daemon) u"
  by (simp add: rdemo_defs IsBlocked_def Guard_Check_def NewCounter_def Counter_Get_def)


lemma rdemo_world: "same_world (\<lambda>k m. k @ m) (\<lambda>h p. h = ''hash'' \<and> p = ''secret'') {(''secret'', ''hash'')}
    [(rdemo_env 2, rdemo_request ''asha'' ''secret'' [] []), (rdemo_env 1, rdemo_request ''asha'' ''secret'' [] [])]"
  by (auto simp: same_world_def rdemo_defs presented_def)

lemma rdemo_cache_sound: "cache_sound hmac bcrypt M (verifierCache rdemo_daemon)"
  by (simp add: cache_sound_def rdemo_defs New_Store_def Store_Get_def)

lemma rdemo_mac_ok: "mac_ok (\<lambda>k m. k @ m) secret {(''secret'', ''hash'')}"
  by (simp add: mac_ok_def)

lemma rdemo_first_login:
  "handleAuth (rdemo_env 1) (rdemo_request ''asha'' ''secret'' [] []) rdemo_daemon
   = handlePAP (rdemo_env 1) (rdemo_request ''asha'' ''secret'' [] []) rdemo_daemon"
  by (simp add: handleAuth_def handleEAP_def handleMAB_def looksLikeMAB_def NormaliseMAC_def rdemo_request_def)

lemma rdemo_guard:
  "guard (fst (handlePAP (rdemo_env 1) (rdemo_request ''asha'' ''secret'' [] []) rdemo_daemon)) = NewCounter"
  by (simp add: handlePAP_def rdemo_defs Guard_Check_def NewCounter_def Counter_Get_def AuthorisesService_def
      authAccepted_def Let_def)

lemma rdemo_second_login:
  "accepts (handleAuth (rdemo_env 2) (rdemo_request ''asha'' ''secret'' [] [])
     (auth_run rdemo_daemon [(rdemo_env 1, rdemo_request ''asha'' ''secret'' [] [])]))"
proof -
  let ?r = "rdemo_request ''asha'' ''secret'' [] []" and ?h = "[(rdemo_env 1, rdemo_request ''asha'' ''secret'' [] [])]"
  have h: "same_world (\<lambda>k m. k @ m) (\<lambda>h p. h = ''hash'' \<and> p = ''secret'') {(''secret'', ''hash'')} ?h"
    using rdemo_world by (simp add: same_world_def)
  have nb: "\<not> IsBlocked 2 (guard (auth_run rdemo_daemon ?h)) ''asha''"
    by (simp add: rdemo_first_login rdemo_guard IsBlocked_def Guard_Check_def NewCounter_def Counter_Get_def)
  have "pap_spec env ?r d = Some rdemo_sub"
    if "env = rdemo_env 2" "d = auth_run rdemo_daemon ?h" for env d
    using nb unfolding that(2) [symmetric] by (simp add: that(1) pap_spec_def rdemo_defs AuthorisesService_def)
  then have "pap_spec (rdemo_env 2) ?r (auth_run rdemo_daemon ?h) = Some rdemo_sub" by blast
  moreover have "presented (rdemo_env 2) ?r \<subseteq> {(''secret'', ''hash'')}"
    by (auto simp: presented_def rdemo_defs)
  ultimately have "accepts (handlePAP (rdemo_env 2) ?r (auth_run rdemo_daemon ?h))"
    using handlePAP_decides [of "rdemo_env 2" "{(''secret'', ''hash'')}" "auth_run rdemo_daemon ?h" ?r]
      cache_sound_run [OF h rdemo_cache_sound] rdemo_mac_ok
    by (simp add: accepts_def) (simp add: rdemo_env_def)
  then show ?thesis
    by (simp add: handleAuth_def handleEAP_def handleMAB_def looksLikeMAB_def NormaliseMAC_def rdemo_request_def)
qed

theorem accept_justified_witness:
  "accepts (handleAuth (rdemo_env 2) (rdemo_request ''asha'' ''secret'' [] [])
     (auth_run rdemo_daemon [(rdemo_env 1, rdemo_request ''asha'' ''secret'' [] [])])) \<and>
   (mab_allows (rdemo_env 2) (rdemo_request ''asha'' ''secret'' [] []) \<or>
    (\<exists>sub. pap_spec (rdemo_env 2) (rdemo_request ''asha'' ''secret'' [] [])
       (auth_run rdemo_daemon [(rdemo_env 1, rdemo_request ''asha'' ''secret'' [] [])]) = Some sub))"
proof -
  have e: "rq_EAPMessage (rdemo_request ''asha'' ''secret'' [] []) = []" by (simp add: rdemo_request_def)
  have s: "eapSessions rdemo_daemon \<in> {None, Some New_Store}" by (simp add: rdemo_daemon_def)
  show ?thesis
    using accept_justified [OF rdemo_world rdemo_mac_ok rdemo_cache_sound s rdemo_second_login] e rdemo_second_login
    by (simp del: auth_run.simps)
qed

section \<open>Normalised MAC addresses\<close>

definition upper_hex_char :: "char \<Rightarrow> bool" where
  "upper_hex_char c \<longleftrightarrow> (let n = of_char c :: nat in 48 \<le> n \<and> n \<le> 57 \<or> 65 \<le> n \<and> n \<le> 70)"

lemma mac_hex_chars: "mac_hex s = Some h \<Longrightarrow> list_all upper_hex_char h"
proof (induction s arbitrary: h)
  case (Cons c s)
  have "(of_char (char_of (n - 32 :: nat) :: char) :: nat) = n - 32" if "97 \<le> n" "n \<le> 102" for n :: nat
    using that by simp
  with Cons show ?case
    by (auto simp: Let_def upper_hex_char_def split: if_splits)
qed simp

lemma mac_hex_upper: "upper_hex_char c \<Longrightarrow> mac_hex (c # cs) = map_option ((#) c) (mac_hex cs)"
  by (simp add: upper_hex_char_def Let_def)

lemma mac_hex_colon: "mac_hex (CHR '':'' # cs) = mac_hex cs"
  by simp

lemma mac_hex_colon_pairs: "list_all upper_hex_char h \<Longrightarrow> mac_hex (colon_pairs h) = Some h"
proof (induction h rule: colon_pairs.induct)
  case (1 a b c cs)
  then show ?case by (simp add: mac_hex_upper mac_hex_colon del: mac_hex.simps)
qed (simp_all add: mac_hex_upper del: mac_hex.simps(2))

lemma length_colon_pairs: "length h = 12 \<Longrightarrow> length (colon_pairs h) = 17"
proof -
  have "length (colon_pairs h) = length h + (length h - 1) div 2"
    by (induction h rule: colon_pairs.induct) auto
  then show "length h = 12 \<Longrightarrow> ?thesis" by simp
qed

text \<open>
  \<open>NormaliseMAC\<close> computes a canonical form: its result has the seventeen characters of six
  colon-separated pairs, normalises to itself, and two spellings have the same normal form exactly when
  they spell the same twelve hexadecimal digits, whatever their case and separators.
\<close>

theorem NormaliseMAC_canonical:
  assumes "NormaliseMAC s = Some m"
  shows "length m = 17 \<and> NormaliseMAC m = Some m \<and> (NormaliseMAC t = Some m \<longleftrightarrow> mac_hex t = mac_hex s)"
proof -
  obtain h where h: "mac_hex s = Some h" "length h = 12" "m = colon_pairs h"
    using assms by (auto simp: NormaliseMAC_def split: option.splits if_splits)
  have m: "mac_hex m = Some h" using mac_hex_colon_pairs [OF mac_hex_chars [OF h(1)]] h(3) by simp
  have "mac_hex t = Some h" if t: "NormaliseMAC t = Some m"
  proof -
    obtain g where g: "mac_hex t = Some g" "m = colon_pairs g"
      using t by (auto simp: NormaliseMAC_def split: option.splits if_splits)
    then show ?thesis using mac_hex_colon_pairs [OF mac_hex_chars [OF g(1)]] m by simp
  qed
  then show ?thesis using h m length_colon_pairs [OF h(2)] by (auto simp: NormaliseMAC_def)
qed

theorem NormaliseMAC_canonical_witness:
  "NormaliseMAC ''00-1a-2b-3C-4d-5e'' = Some ''00:1A:2B:3C:4D:5E''
   \<and> NormaliseMAC ''001a.2b3c.4d5e'' = Some ''00:1A:2B:3C:4D:5E''"
proof -
  have hx: "mac_hex ''00-1a-2b-3C-4d-5e'' = Some ''001A2B3C4D5E''" "mac_hex ''001a.2b3c.4d5e'' = Some ''001A2B3C4D5E''"
    by code_simp+
  then have "NormaliseMAC ''00-1a-2b-3C-4d-5e'' = Some ''00:1A:2B:3C:4D:5E''" by (simp add: NormaliseMAC_def)
  moreover from this have "NormaliseMAC ''001a.2b3c.4d5e'' = Some ''00:1A:2B:3C:4D:5E''"
    using NormaliseMAC_canonical [of "''00-1a-2b-3C-4d-5e''" _ "''001a.2b3c.4d5e''"] hx by simp
  ultimately show ?thesis ..
qed

section \<open>A restart keeps the verifiers\<close>

lemma verifierKey_inj [simp]: "verifierKey u = verifierKey v \<longleftrightarrow> u = v"
  by (simp add: verifierKey_def)

lemma Verifier_Save_row:
  assumes "Verifier_Save no_faults rows i u m e = Inr rows'"
  shows "\<lparr>pv_SubscriberID = i, pv_Username = u, pv_Verifier = m, pv_ExpiresAt = e\<rparr> \<in> set rows'"
proof (cases "list_ex (\<lambda>r. pv_SubscriberID r = i) rows")
  case True
  then obtain r where "r \<in> set rows" "pv_SubscriberID r = i" by (auto simp: list_ex_iff)
  then have "\<lparr>pv_SubscriberID = i, pv_Username = u, pv_Verifier = m, pv_ExpiresAt = e\<rparr>
    \<in> set (update_where (\<lambda>r. pv_SubscriberID r = i)
        (\<lambda>_. \<lparr>pv_SubscriberID = i, pv_Username = u, pv_Verifier = m, pv_ExpiresAt = e\<rparr>) rows)"
    by (force simp: update_where_def)
  with True assms show ?thesis by (auto simp: Verifier_Save_def Let_def split: if_splits)
next
  case False
  with assms show ?thesis by (auto simp: Verifier_Save_def Let_def split: if_splits)
qed

lemma warm_rows_other:
  "u \<notin> pv_Username ` set rows \<Longrightarrow> now < t \<Longrightarrow> \<forall>r \<in> set rows. pv_ExpiresAt r \<noteq> 0 \<Longrightarrow>
     Store_Get t (fst (warm_rows now rows s n)) (verifierKey u) = Store_Get t s (verifierKey u)"
  by (induction now rows s n rule: warm_rows.induct) (auto simp: Let_def ts.get_set)

lemma warm_rows_restores:
  assumes "distinct (map pv_Username rows)" "row \<in> set rows" "now < t" "\<forall>r \<in> set rows. pv_ExpiresAt r \<noteq> 0"
    and "now < pv_ExpiresAt row"
  shows "Store_Get t (fst (warm_rows now rows s n)) (verifierKey (pv_Username row))
       = (if t \<le> pv_ExpiresAt row then Some (pv_Verifier row) else None)"
  using assms
proof (induction now rows s n rule: warm_rows.induct)
  case (2 now r rows s n)
  show ?case
  proof (cases "r = row")
    case True
    with 2 show ?thesis by (auto simp: Let_def warm_rows_other ts.get_set)
  next
    case False
    with 2 show ?thesis by (auto simp: Let_def)
  qed
qed simp

text \<open>
  The verifier written by \<open>Store\<close> survives a restart with its original expiry: an empty cache warmed
  from the persisted rows answers every later check of that user as the old cache did.
\<close>

lemma warm_after_restart:
  assumes "Verifier_Store hmac no_faults now c i u p h = (c', Inr ())" "vc_persist c = Some rows"
    and "vc_persist c' = Some rows'" "distinct (map pv_Username rows')" "length rows' \<le> 100000"
    and "\<forall>r \<in> set rows'. pv_ExpiresAt r \<noteq> 0" "now \<le> boot" "boot < now + verifierCacheTTL" "boot < t"
  shows "Verifier_Check hmac t (fst (Verifier_Warm no_faults boot (c'\<lparr>vc_store := New_Store\<rparr>))) u q g
       = Verifier_Check hmac t c' u q g"
proof -
  let ?row = "\<lparr>pv_SubscriberID = i, pv_Username = u, pv_Verifier = verifier hmac c p h,
    pv_ExpiresAt = now + verifierCacheTTL\<rparr>"
  have c': "c' = c\<lparr>vc_store := Store_Set now (vc_store c) (verifierKey u) (verifier hmac c p h) verifierCacheTTL,
      vc_persist := Some rows'\<rparr>" and row: "?row \<in> set rows'"
    using assms(1-3) by (auto simp: Verifier_Store_def Let_def intro: Verifier_Save_row split: sum.splits)
  let ?act = "rev (sort_key pv_ExpiresAt (filter (\<lambda>r. boot < pv_ExpiresAt r) rows'))"
  have load: "Verifier_LoadActive no_faults boot rows' = Inr ?act"
    using assms(5) le_trans [OF length_filter_le assms(5)] by (simp add: Verifier_LoadActive_def)
  have dist: "distinct (map pv_Username ?act)"
    using assms(4) by (simp add: rev_map [symmetric] distinct_map inj_on_def)
  have nz: "now + verifierCacheTTL \<noteq> 0" using assms(6) row by fastforce
  have "Store_Get t (fst (warm_rows boot ?act New_Store 0)) (verifierKey u)
      = (if t \<le> now + verifierCacheTTL then Some (verifier hmac c p h) else None)"
    using warm_rows_restores [OF dist, of ?row boot t New_Store 0] row assms(6,8,9) by simp
  moreover have "Store_Get t (vc_store c') (verifierKey u)
      = (if t \<le> now + verifierCacheTTL then Some (verifier hmac c p h) else None)"
    using nz by (simp add: c' ts.get_set)
  moreover have "vc_store (fst (Verifier_Warm no_faults boot (c'\<lparr>vc_store := New_Store\<rparr>)))
      = fst (warm_rows boot ?act New_Store 0)"
    "vc_secret (fst (Verifier_Warm no_faults boot (c'\<lparr>vc_store := New_Store\<rparr>))) = vc_secret c'"
    using load by (simp_all add: c' Verifier_Warm_def case_prod_unfold Let_def)
  ultimately show ?thesis by (simp only: Verifier_Check_def verifier_def)
qed

end
