(* ===== verification/Hotspot.thy ===== *)
theory Hotspot
  imports Radius
begin

text \<open>
  Public hotspots: voucher codes and the captive portal (\<open>src/internal/hotspot/hotspot.go\<close>,
  \<open>portal.go\<close>), the attempt limiter (\<open>limiter.go\<close>), the data-cap scanner (\<open>quota.go\<close>) and their store
  (\<open>src/internal/db/hotspot.go\<close>), which also answers the MAC lookups of \<open>Radius\<close>.

  SHA-256, the random source, bcrypt, the parser of network addresses behind the \<open>inet\<close> casts and the
  \<open>ROUND\<close> of a commission are arguments. Page rendering is reduced to the HTTP status; the columns
  \<open>first_seen_at\<close> and \<open>last_seen_at\<close>, which nothing reads, are left out.
\<close>

section \<open>Voucher codes\<close>

definition codeAlphabet :: string where "codeAlphabet = ''23456789ABCDEFGHJKMNPQRSTVWXYZ''"
definition codeSecretLen :: nat where "codeSecretLen = 12"
definition codeGroupLen :: nat where "codeGroupLen = 4"
definition codeLabel :: string where "codeLabel = ''HS''"

definition NormaliseCode :: "string \<Rightarrow> string" where
  "NormaliseCode s = filter (\<lambda>c. \<not> (c = CHR ''-'' \<or> c = CHR '' '')) (ToUpper (TrimSpace s))"

definition HashCode :: "(bytes \<Rightarrow> bytes) \<Rightarrow> string \<Rightarrow> string" where
  "HashCode sha256 plaintext = lower_hex (sha256 (bytes_of (NormaliseCode plaintext)))"

record GeneratedVoucher =
  gv_Plaintext :: string
  gv_Prefix :: string
  gv_Hash :: string

fun dashed_groups :: "nat \<Rightarrow> string \<Rightarrow> string" where
  "dashed_groups 0 cs = []"
| "dashed_groups (Suc n) cs = CHR ''-'' # take codeGroupLen cs @ dashed_groups n (drop codeGroupLen cs)"

text \<open>\<open>rnd i\<close> is the \<open>i\<close>-th draw below the alphabet's size, or a failure of the random source.\<close>

definition GenerateCode :: "(bytes \<Rightarrow> bytes) \<Rightarrow> (nat \<Rightarrow> nat option) \<Rightarrow> string + GeneratedVoucher" where
  "GenerateCode sha256 rnd =
     (if \<exists>i < codeSecretLen. rnd i = None then Inl ''hotspot: generate voucher code''
      else let chars = map (\<lambda>i. codeAlphabet ! the (rnd i)) [0..<codeSecretLen];
               plaintext = codeLabel @ dashed_groups (codeSecretLen div codeGroupLen) chars
           in Inr \<lparr>gv_Plaintext = plaintext, gv_Prefix = codeLabel @ ''-'' @ take codeGroupLen chars,
                   gv_Hash = HashCode sha256 plaintext\<rparr>)"

section \<open>Tables\<close>

datatype voucher_status = VUnused | VActive | VUsed | VExpired | VVoid

record device_row =
  hd_id :: int
  hd_mac :: string
  hd_subscriber :: int
  hd_label :: string
  hd_nas :: "int option"
  hd_active :: bool

record 'd voucher_row =
  vr_id :: int
  vr_code_hash :: string
  vr_code_prefix :: string
  vr_plan :: int
  vr_franchise :: "int option"
  vr_duration_minutes :: int
  vr_data_cap_bytes :: int
  vr_status :: voucher_status
  vr_redeemed_by_mac :: "string option"
  vr_redeemed_at :: "time option"
  vr_expires_at :: "time option"
  vr_valid_until :: "time option"
  vr_batch_ref :: string
  vr_created_by :: string
  vr_sale_amount :: 'd

record grant_row =
  hg_id :: int
  hg_mac :: string
  hg_subscriber :: "int option"
  hg_voucher :: "int option"
  hg_nas :: "int option"
  hg_plan :: int
  hg_expires_at :: time
  hg_revoked_at :: "time option"
  hg_exhausted_at :: "time option"
  hg_bytes_used :: int
  hg_session_id :: string
  hg_nas_ip :: string

record 'd commission_row =
  vc_franchise :: int
  vc_voucher :: int
  vc_sale_amount :: 'd
  vc_rate_pct :: 'd
  vc_amount :: 'd

record 'd hotspot =
  devices :: "device_row list"
  vouchers :: "'d voucher_row list"
  grants :: "grant_row list"
  commissions :: "'d commission_row list"
  franchise_rates :: "(int \<times> 'd) list"
  device_seq :: int
  voucher_seq :: int
  grant_seq :: int

record 'd NewVoucher =
  nv_CodeHash :: string
  nv_CodePrefix :: string
  nv_PlanID :: int
  nv_FranchiseID :: "int option"
  nv_DurationMinutes :: int
  nv_DataCapBytes :: int
  nv_ExpiresAt :: "time option"
  nv_BatchRef :: string
  nv_CreatedBy :: string
  nv_SaleAmount :: 'd

section \<open>The store\<close>

definition live_grant :: "time \<Rightarrow> grant_row \<Rightarrow> bool" where
  "live_grant now g \<longleftrightarrow> hg_revoked_at g = None \<and> now < hg_expires_at g"

definition nas_matches :: "int option \<Rightarrow> int \<Rightarrow> bool" where
  "nas_matches bound nasID = (case bound of None \<Rightarrow> True | Some n \<Rightarrow> n = nasID)"

definition mac_subscriber ::
  "int \<Rightarrow> string \<Rightarrow> string \<Rightarrow> string \<Rightarrow> bool \<Rightarrow> 'd plan \<Rightarrow> Subscriber" where
  "mac_subscriber i username hash status fup p =
     \<lparr>s_ID = i, s_Username = username, s_PasswordHash = hash, s_Status = status,
      s_RateLimitStr = plan_rate_limit p, s_FUPActive = fup, s_FUPThrottle = plan_fup_throttle p,
      s_SpeedOverrideRateLimit = [], s_SpeedOverrideExpiresAt = None, s_PlanID = plan_id p, s_NTHash = [],
      s_VolumeGB = 0\<rparr>"

definition find_plan :: "'d db \<Rightarrow> int \<Rightarrow> 'd plan option" where
  "find_plan db i = find (\<lambda>p. plan_id p = i) (plans db)"

definition device_match :: "'d db \<Rightarrow> 'd hotspot \<Rightarrow> string \<Rightarrow> int \<Rightarrow> Subscriber option" where
  "device_match db hs mac nasID =
     (case find (\<lambda>h. hd_mac h = mac \<and> hd_active h \<and> nas_matches (hd_nas h) nasID) (devices hs) of
        None \<Rightarrow> None
      | Some h \<Rightarrow>
          (case find_subscriber db (hd_subscriber h) of
             None \<Rightarrow> None
           | Some s \<Rightarrow>
               (case find_plan db (sub_plan_id s) of
                  None \<Rightarrow> None
                | Some p \<Rightarrow> Some (mac_subscriber (sub_id s) (sub_username s) (sub_password_hash s)
                                   (status_text (sub_status s)) (sub_fup_active s) p))))"

text \<open>\<open>ORDER BY expires_at DESC LIMIT 1\<close> over the rows whose plan exists.\<close>

definition latest_grant :: "time \<Rightarrow> 'd db \<Rightarrow> 'd hotspot \<Rightarrow> string \<Rightarrow> int \<Rightarrow> grant_row option" where
  "latest_grant now db hs mac nasID =
     (case sort_key (\<lambda>g. - hg_expires_at g)
             (filter (\<lambda>g. hg_mac g = mac \<and> live_grant now g \<and> nas_matches (hg_nas g) nasID
                          \<and> find_plan db (hg_plan g) \<noteq> None) (grants hs)) of
        [] \<Rightarrow> None
      | g # _ \<Rightarrow> Some g)"

definition grant_match :: "time \<Rightarrow> 'd db \<Rightarrow> 'd hotspot \<Rightarrow> string \<Rightarrow> int \<Rightarrow> Subscriber option" where
  "grant_match now db hs mac nasID =
     (case latest_grant now db hs mac nasID of
        None \<Rightarrow> None
      | Some g \<Rightarrow>
          (case find_plan db (hg_plan g) of
             None \<Rightarrow> None
           | Some p \<Rightarrow>
               (case Option.bind (hg_subscriber g) (find_subscriber db) of
                  None \<Rightarrow> Some (mac_subscriber 0 (''voucher:'' @ show_int (hg_id g)) [] ''active'' False p)
                | Some s \<Rightarrow> Some (mac_subscriber (sub_id s) (sub_username s) (sub_password_hash s)
                                   (status_text (sub_status s)) (sub_fup_active s) p))))"

definition AuthorizeMAC ::
  "faults \<Rightarrow> time \<Rightarrow> 'd db \<Rightarrow> 'd hotspot \<Rightarrow> string \<Rightarrow> int \<Rightarrow> string + Subscriber option" where
  "AuthorizeMAC flt now db hs mac nasID =
     (case flt ''AuthorizeMAC'' of
        Some e \<Rightarrow> Inl e
      | None \<Rightarrow> Inr (case device_match db hs mac nasID of
                       Some sub \<Rightarrow> Some sub
                     | None \<Rightarrow> grant_match now db hs mac nasID))"

definition mac_format :: "string \<Rightarrow> bool" where
  "mac_format mac \<longleftrightarrow> NormaliseMAC mac = Some mac"

definition RegisterDevice ::
  "faults \<Rightarrow> 'd hotspot \<Rightarrow> string \<Rightarrow> int \<Rightarrow> string \<Rightarrow> int option \<Rightarrow> 'd hotspot \<times> (string + int)" where
  "RegisterDevice flt hs mac subscriberID label nasID =
     (case flt ''RegisterDevice'' of
        Some e \<Rightarrow> (hs, Inl e)
      | None \<Rightarrow>
          if \<not> mac_format mac then (hs\<lparr>device_seq := device_seq hs + 1\<rparr>, Inl ''chk_hotspot_mac_format'')
          else case find (\<lambda>h. hd_mac h = mac) (devices hs) of
            Some h \<Rightarrow> (hs\<lparr>devices := update_where (\<lambda>h. hd_mac h = mac)
                           (\<lambda>h. h\<lparr>hd_subscriber := subscriberID, hd_label := label, hd_nas := nasID, hd_active := True\<rparr>)
                           (devices hs), device_seq := device_seq hs + 1\<rparr>, Inr (hd_id h))
          | None \<Rightarrow> (hs\<lparr>devices := devices hs @ [\<lparr>hd_id = device_seq hs, hd_mac = mac, hd_subscriber = subscriberID,
                          hd_label = label, hd_nas = nasID, hd_active = True\<rparr>], device_seq := device_seq hs + 1\<rparr>,
                     Inr (device_seq hs)))"

definition DeactivateDevice :: "faults \<Rightarrow> 'd hotspot \<Rightarrow> string \<Rightarrow> 'd hotspot \<times> (string + bool)" where
  "DeactivateDevice flt hs mac =
     (case flt ''DeactivateDevice'' of
        Some e \<Rightarrow> (hs, Inl e)
      | None \<Rightarrow>
          (hs\<lparr>devices := update_where (\<lambda>h. hd_mac h = mac \<and> hd_active h) (\<lambda>h. h\<lparr>hd_active := False\<rparr>) (devices hs)\<rparr>,
           Inr (rows_affected (\<lambda>h. hd_mac h = mac \<and> hd_active h) (devices hs) = 1)))"

definition CreateVoucher ::
  "faults \<Rightarrow> 'd::linordered_idom hotspot \<Rightarrow> 'd NewVoucher \<Rightarrow> 'd hotspot \<times> (string + int)" where
  "CreateVoucher flt hs v =
     (case flt ''CreateVoucher'' of
        Some e \<Rightarrow> (hs, Inl e)
      | None \<Rightarrow>
          if nv_DurationMinutes v \<le> 0 \<or> nv_DataCapBytes v < 0 \<or> nv_SaleAmount v < 0
          then (hs\<lparr>voucher_seq := voucher_seq hs + 1\<rparr>, Inl ''check_violation'')
          else if list_ex (\<lambda>r. vr_code_hash r = nv_CodeHash v) (vouchers hs)
          then (hs\<lparr>voucher_seq := voucher_seq hs + 1\<rparr>, Inl ''unique_violation'')
          else (hs\<lparr>vouchers := vouchers hs @
                     [\<lparr>vr_id = voucher_seq hs, vr_code_hash = nv_CodeHash v, vr_code_prefix = nv_CodePrefix v,
                       vr_plan = nv_PlanID v, vr_franchise = nv_FranchiseID v,
                       vr_duration_minutes = nv_DurationMinutes v, vr_data_cap_bytes = nv_DataCapBytes v,
                       vr_status = VUnused, vr_redeemed_by_mac = None, vr_redeemed_at = None,
                       vr_expires_at = nv_ExpiresAt v, vr_valid_until = None, vr_batch_ref = nv_BatchRef v,
                       vr_created_by = nv_CreatedBy v, vr_sale_amount = nv_SaleAmount v\<rparr>],
                   voucher_seq := voucher_seq hs + 1\<rparr>, Inr (voucher_seq hs)))"

definition VoidVoucher :: "faults \<Rightarrow> 'd hotspot \<Rightarrow> int \<Rightarrow> 'd hotspot \<times> (string + bool)" where
  "VoidVoucher flt hs voucherID =
     (case flt ''VoidVoucher'' of
        Some e \<Rightarrow> (hs, Inl e)
      | None \<Rightarrow>
          (hs\<lparr>vouchers := update_where (\<lambda>v. vr_id v = voucherID \<and> vr_status v = VUnused)
                (\<lambda>v. v\<lparr>vr_status := VVoid\<rparr>) (vouchers hs)\<rparr>,
           Inr (rows_affected (\<lambda>v. vr_id v = voucherID \<and> vr_status v = VUnused) (vouchers hs) = 1)))"

definition redeemable :: "time \<Rightarrow> string \<Rightarrow> 'd voucher_row \<Rightarrow> bool" where
  "redeemable now codeHash v \<longleftrightarrow>
     vr_code_hash v = codeHash \<and> vr_status v = VUnused \<and> (case vr_expires_at v of None \<Rightarrow> True | Some e \<Rightarrow> now < e)"

definition claimed_voucher :: "time \<Rightarrow> string \<Rightarrow> 'd voucher_row \<Rightarrow> 'd voucher_row" where
  "claimed_voucher now mac v =
     v\<lparr>vr_status := VUsed, vr_redeemed_by_mac := Some mac, vr_redeemed_at := Some now,
       vr_valid_until := Some (now + vr_duration_minutes v * Minute)\<rparr>"

text \<open>The commission rows the statement inserts for a claimed voucher: the join with its franchise.\<close>

definition commission_of ::
  "('d::linordered_idom \<Rightarrow> 'd \<Rightarrow> 'd) \<Rightarrow> 'd hotspot \<Rightarrow> 'd voucher_row \<Rightarrow> 'd commission_row list" where
  "commission_of round_pct hs v =
     (case Option.bind (vr_franchise v) (\<lambda>f. map_option (\<lambda>r. (f, r)) (map_of (franchise_rates hs) f)) of
        None \<Rightarrow> []
      | Some (f, rate) \<Rightarrow>
          if 0 < vr_sale_amount v
          then [\<lparr>vc_franchise = f, vc_voucher = vr_id v, vc_sale_amount = vr_sale_amount v, vc_rate_pct = rate,
                 vc_amount = round_pct (vr_sale_amount v) rate\<rparr>]
          else [])"

definition RedeemVoucher ::
  "('d::linordered_idom \<Rightarrow> 'd \<Rightarrow> 'd) \<Rightarrow> faults \<Rightarrow> time \<Rightarrow> 'd hotspot \<Rightarrow> string \<Rightarrow> string \<Rightarrow> int option
   \<Rightarrow> 'd hotspot \<times> (string + int)" where
  "RedeemVoucher round_pct flt now hs codeHash mac nasID =
     (case flt ''RedeemVoucher'' of
        Some e \<Rightarrow> (hs, Inl e)
      | None \<Rightarrow>
          (case find (redeemable now codeHash) (vouchers hs) of
             None \<Rightarrow> (hs, Inr 0)
           | Some v \<Rightarrow>
               (let cs = commission_of round_pct hs v in
                if list_ex (\<lambda>c. vc_voucher c = vr_id v) (commissions hs) \<and> cs \<noteq> []
                then (hs\<lparr>grant_seq := grant_seq hs + 1\<rparr>, Inl ''unique_violation'')
                else (hs\<lparr>vouchers := update_where (redeemable now codeHash) (claimed_voucher now mac) (vouchers hs),
                         commissions := commissions hs @ cs,
                         grants := grants hs @
                           [\<lparr>hg_id = grant_seq hs, hg_mac = mac, hg_subscriber = None, hg_voucher = Some (vr_id v),
                             hg_nas = nasID, hg_plan = vr_plan v,
                             hg_expires_at = now + vr_duration_minutes v * Minute, hg_revoked_at = None,
                             hg_exhausted_at = None, hg_bytes_used = 0, hg_session_id = [], hg_nas_ip = []\<rparr>],
                         grant_seq := grant_seq hs + 1\<rparr>, Inr (grant_seq hs)))))"

definition GrantForSubscriber ::
  "faults \<Rightarrow> time \<Rightarrow> 'd db \<Rightarrow> 'd hotspot \<Rightarrow> string \<Rightarrow> int \<Rightarrow> int option \<Rightarrow> int \<Rightarrow> 'd hotspot \<times> (string + int)" where
  "GrantForSubscriber flt now db hs mac subscriberID nasID minutes =
     (case flt ''GrantForSubscriber'' of
        Some e \<Rightarrow> (hs, Inl e)
      | None \<Rightarrow>
          (case find_subscriber db subscriberID of
             None \<Rightarrow> (hs, Inr 0)
           | Some s \<Rightarrow>
               if sub_status s \<in> {HardSuspended, Terminated} then (hs, Inr 0)
               else (hs\<lparr>grants := grants hs @
                          [\<lparr>hg_id = grant_seq hs, hg_mac = mac, hg_subscriber = Some (sub_id s), hg_voucher = None,
                            hg_nas = nasID, hg_plan = sub_plan_id s, hg_expires_at = now + minutes * Minute,
                            hg_revoked_at = None, hg_exhausted_at = None, hg_bytes_used = 0, hg_session_id = [],
                            hg_nas_ip = []\<rparr>],
                        grant_seq := grant_seq hs + 1\<rparr>, Inr (grant_seq hs))))"

definition metered_grant :: "(string \<Rightarrow> string option) \<Rightarrow> string \<Rightarrow> string \<Rightarrow> int \<Rightarrow> grant_row \<Rightarrow> grant_row" where
  "metered_grant inet sessionID nasIP bytesUsed g =
     g\<lparr>hg_bytes_used := bytesUsed,
       hg_session_id := (if sessionID = [] then hg_session_id g else sessionID),
       hg_nas_ip := (if nasIP = [] then hg_nas_ip g else the (inet nasIP))\<rparr>"

definition RecordGrantUsage ::
  "(string \<Rightarrow> string option) \<Rightarrow> faults \<Rightarrow> time \<Rightarrow> 'd hotspot \<Rightarrow> string \<Rightarrow> string \<Rightarrow> string \<Rightarrow> int
   \<Rightarrow> 'd hotspot \<times> (string + bool)" where
  "RecordGrantUsage inet flt now hs mac sessionID nasIP bytesUsed =
     (case flt ''RecordGrantUsage'' of
        Some e \<Rightarrow> (hs, Inl e)
      | None \<Rightarrow>
          if nasIP \<noteq> [] \<and> inet nasIP = None then (hs, Inl ''invalid inet'')
          else let P = (\<lambda>g. hg_mac g = mac \<and> live_grant now g) in
            (hs\<lparr>grants := update_where P (metered_grant inet sessionID nasIP bytesUsed) (grants hs)\<rparr>,
             Inr (0 < rows_affected P (grants hs))))"

record OverCapGrant =
  oc_GrantID :: int
  oc_MAC :: string
  oc_VoucherID :: int
  oc_SessionID :: string
  oc_NASIP :: string
  oc_BytesUsed :: int
  oc_CapBytes :: int

definition grant_cap :: "'d hotspot \<Rightarrow> grant_row \<Rightarrow> 'd voucher_row option" where
  "grant_cap hs g = Option.bind (hg_voucher g) (\<lambda>i. find (\<lambda>v. vr_id v = i) (vouchers hs))"

definition over_cap :: "time \<Rightarrow> 'd hotspot \<Rightarrow> grant_row \<Rightarrow> bool" where
  "over_cap now hs g \<longleftrightarrow>
     live_grant now g \<and>
     (case grant_cap hs g of
        None \<Rightarrow> False
      | Some v \<Rightarrow> 0 < vr_data_cap_bytes v \<and> vr_data_cap_bytes v \<le> hg_bytes_used g)"

definition to_over_cap :: "'d hotspot \<Rightarrow> grant_row \<Rightarrow> OverCapGrant" where
  "to_over_cap hs g =
     (let v = the (grant_cap hs g) in
      \<lparr>oc_GrantID = hg_id g, oc_MAC = hg_mac g, oc_VoucherID = vr_id v, oc_SessionID = hg_session_id g,
       oc_NASIP = hg_nas_ip g, oc_BytesUsed = hg_bytes_used g, oc_CapBytes = vr_data_cap_bytes v\<rparr>)"

definition ListGrantsOverCap :: "faults \<Rightarrow> time \<Rightarrow> 'd hotspot \<Rightarrow> int \<Rightarrow> string + OverCapGrant list" where
  "ListGrantsOverCap flt now hs limit =
     (case flt ''ListGrantsOverCap'' of
        Some e \<Rightarrow> Inl e
      | None \<Rightarrow>
          (let n = (if limit \<le> 0 \<or> 500 < limit then 100 else limit) in
           Inr (map (to_over_cap hs)
                 (take (nat n) (sort_key (\<lambda>g. - hg_bytes_used g) (filter (over_cap now hs) (grants hs)))))))"

definition MarkGrantExhausted :: "faults \<Rightarrow> time \<Rightarrow> 'd hotspot \<Rightarrow> int \<Rightarrow> 'd hotspot \<times> (string + bool)" where
  "MarkGrantExhausted flt now hs grantID =
     (case flt ''MarkGrantExhausted'' of
        Some e \<Rightarrow> (hs, Inl e)
      | None \<Rightarrow>
          (let P = (\<lambda>g. hg_id g = grantID \<and> hg_revoked_at g = None) in
           (hs\<lparr>grants := update_where P (\<lambda>g. g\<lparr>hg_revoked_at := Some now, hg_exhausted_at := Some now\<rparr>) (grants hs)\<rparr>,
            Inr (rows_affected P (grants hs) = 1))))"

definition RevokeGrant :: "faults \<Rightarrow> time \<Rightarrow> 'd hotspot \<Rightarrow> int \<Rightarrow> 'd hotspot \<times> (string + bool)" where
  "RevokeGrant flt now hs grantID =
     (case flt ''RevokeGrant'' of
        Some e \<Rightarrow> (hs, Inl e)
      | None \<Rightarrow>
          (let P = (\<lambda>g. hg_id g = grantID \<and> hg_revoked_at g = None) in
           (hs\<lparr>grants := update_where P (\<lambda>g. g\<lparr>hg_revoked_at := Some now\<rparr>) (grants hs)\<rparr>,
            Inr (rows_affected P (grants hs) = 1))))"

definition GetVoucherCommissionSummary ::
  "faults \<Rightarrow> 'd::linordered_idom hotspot \<Rightarrow> int \<Rightarrow> string + (nat \<times> 'd \<times> 'd)" where
  "GetVoucherCommissionSummary flt hs franchiseID =
     (case flt ''GetVoucherCommissionSummary'' of
        Some e \<Rightarrow> Inl e
      | None \<Rightarrow>
          (let cs = filter (\<lambda>c. vc_franchise c = franchiseID) (commissions hs) in
           Inr (length cs, sum_list (map vc_sale_amount cs), sum_list (map vc_amount cs))))"

section \<open>The attempt limiter\<close>

definition DefaultAttemptLimit :: int where "DefaultAttemptLimit = 10"
definition DefaultAttemptWindow :: duration where "DefaultAttemptWindow = 15 * Minute"

record Limiter =
  lm_counter :: Counter
  lm_limit :: int
  lm_window :: duration

definition NewLimiter :: Limiter where
  "NewLimiter = \<lparr>lm_counter = NewCounter, lm_limit = DefaultAttemptLimit, lm_window = DefaultAttemptWindow\<rparr>"

definition attempts_key :: "string \<Rightarrow> string" where "attempts_key key = ''hotspot:attempts:'' @ key"

definition Allow :: "time \<Rightarrow> Limiter \<Rightarrow> string \<Rightarrow> Limiter \<times> bool" where
  "Allow now l key =
     (let (c, n) = Counter_Incr now (lm_counter l) (attempts_key key);
          c' = (if n = 1 then Counter_Expire now c (attempts_key key) (lm_window l) else c)
      in (l\<lparr>lm_counter := c'\<rparr>, n \<le> lm_limit l))"

section \<open>The data-cap scanner\<close>

text \<open>
  \<open>done g\<close> says that the context is cancelled when the loop reaches the grant \<open>g\<close>; the second component
  of the state collects the disconnects sent, \<open>pod\<close> being absent when the scanner has no disconnector
  (whether a disconnect succeeds only shows in a metric).
\<close>

fun quota_loop ::
  "faults \<Rightarrow> time \<Rightarrow> (int \<Rightarrow> bool) \<Rightarrow> bool \<Rightarrow> OverCapGrant list \<Rightarrow> 'd hotspot \<times> (string \<times> string) list \<Rightarrow> nat
   \<Rightarrow> ('d hotspot \<times> (string \<times> string) list) \<times> nat \<times> bool" where
  "quota_loop flt now cancelled pod [] st ended = (st, ended, False)"
| "quota_loop flt now cancelled pod (g # gs) st ended =
     (if cancelled (oc_GrantID g) then (st, ended, True)
      else case MarkGrantExhausted flt now (fst st) (oc_GrantID g) of
        (hs', Inl _) \<Rightarrow> quota_loop flt now cancelled pod gs (hs', snd st) ended
      | (hs', Inr claimed) \<Rightarrow>
          if \<not> claimed then quota_loop flt now cancelled pod gs (hs', snd st) ended
          else quota_loop flt now cancelled pod gs
                 (hs', if \<not> pod \<or> oc_SessionID g = [] \<or> oc_NASIP g = [] then snd st
                       else snd st @ [(oc_NASIP g, oc_SessionID g)]) (ended + 1))"

definition ScanOnce ::
  "faults \<Rightarrow> time \<Rightarrow> (int \<Rightarrow> bool) \<Rightarrow> bool \<Rightarrow> int \<Rightarrow> 'd hotspot \<times> (string \<times> string) list
   \<Rightarrow> ('d hotspot \<times> (string \<times> string) list) \<times> (string + nat)" where
  "ScanOnce flt now cancelled pod batch st =
     (case ListGrantsOverCap flt now (fst st) batch of
        Inl e \<Rightarrow> (st, Inl e)
      | Inr over \<Rightarrow>
          (case quota_loop flt now cancelled pod over st 0 of
             (st', ended, stopped) \<Rightarrow> (st', if stopped then Inl ''context canceled'' else Inr ended)))"

section \<open>The captive portal\<close>

record portal_request =
  pr_form_ok :: bool
  pr_mac :: string
  pr_nasid :: string
  pr_link_orig :: string
  pr_host :: string
  pr_code :: string
  pr_username :: string
  pr_password :: string

record sessionRequest =
  sr_MAC :: string
  sr_NASID :: "int option"
  sr_Redirect :: string

definition HasPrefix :: "string \<Rightarrow> string \<Rightarrow> bool" where "HasPrefix s p = (take (length p) s = p)"

definition safeRedirect :: "string \<Rightarrow> string" where
  "safeRedirect raw =
     (if raw = [] then []
      else let lower = ToLower raw in
        if \<not> HasPrefix lower ''http://'' \<and> \<not> HasPrefix lower ''https://'' then [] else raw)"

text \<open>\<open>strconv.Atoi\<close> restricted to what the caller keeps: a positive value.\<close>

definition Atoi_positive :: "string \<Rightarrow> int option" where
  "Atoi_positive s =
     (let ds = (case s of c # cs \<Rightarrow> if c = CHR ''+'' then cs else s | [] \<Rightarrow> s) in
      if ds = [] then None
      else case parse_digits 0 ds of
        None \<Rightarrow> None
      | Some n \<Rightarrow> if 0 < n \<and> n < 2 ^ 63 then Some (int n) else None)"

definition readSessionRequest :: "portal_request \<Rightarrow> sessionRequest option" where
  "readSessionRequest r =
     (case NormaliseMAC (pr_mac r) of
        None \<Rightarrow> None
      | Some mac \<Rightarrow> Some \<lparr>sr_MAC = mac, sr_NASID = Atoi_positive (pr_nasid r),
                          sr_Redirect = safeRedirect (pr_link_orig r)\<rparr>)"

definition clientKey :: "portal_request \<Rightarrow> string \<Rightarrow> string" where
  "clientKey r mac = pr_host r @ ''|'' @ mac"

text \<open>
  The portal's state: the store, the limiter (\<open>None\<close> when not configured) and the outcomes counted by
  method. A reply is the HTTP status of the page.
\<close>

record 'd garden =
  gd_store :: "'d hotspot"
  gd_limiter :: "Limiter option"
  gd_attempts :: "(string \<times> string) list"

definition count_attempt :: "string \<Rightarrow> string \<Rightarrow> 'd garden \<Rightarrow> 'd garden" where
  "count_attempt meth outc g = g\<lparr>gd_attempts := gd_attempts g @ [(meth, outc)]\<rparr>"

definition portal_begin ::
  "time \<Rightarrow> 'd garden \<Rightarrow> portal_request \<Rightarrow> string \<Rightarrow> 'd garden \<times> (nat + sessionRequest)" where
  "portal_begin now g r meth =
     (case gd_limiter g of
        None \<Rightarrow> (g, Inl 503)
      | Some l \<Rightarrow>
          if \<not> pr_form_ok r then (g, Inl 400)
          else case readSessionRequest r of
            None \<Rightarrow> (count_attempt meth ''malformed'' g, Inl 400)
          | Some req \<Rightarrow>
              (case Allow now l (clientKey r (sr_MAC req)) of
                 (l', allowed) \<Rightarrow>
                   if allowed then (g\<lparr>gd_limiter := Some l'\<rparr>, Inr req)
                   else (count_attempt meth ''rate_limited'' (g\<lparr>gd_limiter := Some l'\<rparr>), Inl 429)))"

definition portal_Landing :: "portal_request \<Rightarrow> nat \<times> bool" where
  "portal_Landing r = (200, readSessionRequest r \<noteq> None)"

definition portal_RedeemVoucher ::
  "(bytes \<Rightarrow> bytes) \<Rightarrow> ('d::linordered_idom \<Rightarrow> 'd \<Rightarrow> 'd) \<Rightarrow> faults \<Rightarrow> time \<Rightarrow> 'd garden \<Rightarrow> portal_request
   \<Rightarrow> 'd garden \<times> nat" where
  "portal_RedeemVoucher sha256 round_pct flt now g r =
     (case portal_begin now g r ''voucher'' of
        (g1, Inl status) \<Rightarrow> (g1, status)
      | (g1, Inr req) \<Rightarrow>
          (let code = NormaliseCode (pr_code r) in
           if code = [] then (count_attempt ''voucher'' ''malformed'' g1, 422)
           else case RedeemVoucher round_pct flt now (gd_store g1) (HashCode sha256 code) (sr_MAC req) (sr_NASID req) of
             (hs, Inl _) \<Rightarrow> (count_attempt ''voucher'' ''error'' (g1\<lparr>gd_store := hs\<rparr>), 500)
           | (hs, Inr grantID) \<Rightarrow>
               if grantID = 0 then (count_attempt ''voucher'' ''refused'' (g1\<lparr>gd_store := hs\<rparr>), 401)
               else (count_attempt ''voucher'' ''granted'' (g1\<lparr>gd_store := hs\<rparr>), 200)))"

definition PortalGetSubscriberByUsername ::
  "faults \<Rightarrow> 'd db \<Rightarrow> string \<Rightarrow> string + (int \<times> string \<times> string) option" where
  "PortalGetSubscriberByUsername flt db username =
     (case flt ''PortalGetSubscriberByUsername'' of
        Some e \<Rightarrow> Inl e
      | None \<Rightarrow> Inr (map_option (\<lambda>s. (sub_id s, sub_username s, sub_password_hash s))
                       (find (\<lambda>s. sub_username s = username) (subscribers db))))"

datatype auth_err = InvalidCredentials | LookupFailed string

definition portal_authenticate ::
  "(string \<Rightarrow> string \<Rightarrow> bool) \<Rightarrow> faults \<Rightarrow> 'd db \<Rightarrow> string \<Rightarrow> string \<Rightarrow> auth_err + int" where
  "portal_authenticate bcrypt flt db username password =
     (case PortalGetSubscriberByUsername flt db username of
        Inl e \<Rightarrow> Inl (LookupFailed e)
      | Inr None \<Rightarrow> Inl InvalidCredentials
      | Inr (Some (i, _, hash)) \<Rightarrow> if bcrypt hash password then Inr i else Inl InvalidCredentials)"

definition DefaultLoginMinutes :: int where "DefaultLoginMinutes = 12 * 60"

definition portal_Login ::
  "(string \<Rightarrow> string \<Rightarrow> bool) \<Rightarrow> faults \<Rightarrow> time \<Rightarrow> int \<Rightarrow> 'd db \<Rightarrow> 'd garden \<Rightarrow> portal_request \<Rightarrow> 'd garden \<times> nat" where
  "portal_Login bcrypt flt now loginMinutes db g r =
     (case portal_begin now g r ''login'' of
        (g1, Inl status) \<Rightarrow> (g1, status)
      | (g1, Inr req) \<Rightarrow>
          if pr_username r = [] \<or> pr_password r = [] then (count_attempt ''login'' ''malformed'' g1, 422)
          else case portal_authenticate bcrypt flt db (pr_username r) (pr_password r) of
            Inl InvalidCredentials \<Rightarrow> (count_attempt ''login'' ''refused'' g1, 401)
          | Inl (LookupFailed _) \<Rightarrow> (count_attempt ''login'' ''error'' g1, 500)
          | Inr subscriberID \<Rightarrow>
              (let minutes = (if loginMinutes \<le> 0 then DefaultLoginMinutes else loginMinutes) in
               case GrantForSubscriber flt now db (gd_store g1) (sr_MAC req) subscriberID (sr_NASID req) minutes of
                 (hs, Inl _) \<Rightarrow> (count_attempt ''login'' ''error'' (g1\<lparr>gd_store := hs\<rparr>), 500)
               | (hs, Inr grantID) \<Rightarrow>
                   if grantID = 0 then (count_attempt ''login'' ''not_active'' (g1\<lparr>gd_store := hs\<rparr>), 401)
                   else (count_attempt ''login'' ''granted'' (g1\<lparr>gd_store := hs\<rparr>), 200)))"

section \<open>A voucher is redeemed at most once\<close>

datatype 'd hs_call =
    HCreate "'d NewVoucher"
  | HVoid int
  | HRedeem time string string "int option"
  | HGrant time "'d db" string int "int option" int
  | HUsage time string string string int
  | HExhaust time int
  | HRevoke time int

fun run_hs ::
  "('d::linordered_idom \<Rightarrow> 'd \<Rightarrow> 'd) \<Rightarrow> (string \<Rightarrow> string option) \<Rightarrow> faults \<times> 'd hs_call \<Rightarrow> 'd hotspot \<Rightarrow> 'd hotspot" where
  "run_hs rp inet (flt, HCreate v) hs = fst (CreateVoucher flt hs v)"
| "run_hs rp inet (flt, HVoid i) hs = fst (VoidVoucher flt hs i)"
| "run_hs rp inet (flt, HRedeem now h mac nas) hs = fst (RedeemVoucher rp flt now hs h mac nas)"
| "run_hs rp inet (flt, HGrant now db mac sub nas mins) hs = fst (GrantForSubscriber flt now db hs mac sub nas mins)"
| "run_hs rp inet (flt, HUsage now mac sid ip n) hs = fst (RecordGrantUsage inet flt now hs mac sid ip n)"
| "run_hs rp inet (flt, HExhaust now i) hs = fst (MarkGrantExhausted flt now hs i)"
| "run_hs rp inet (flt, HRevoke now i) hs = fst (RevokeGrant flt now hs i)"

definition grants_of :: "'d hotspot \<Rightarrow> int \<Rightarrow> nat" where
  "grants_of hs i = length (filter (\<lambda>g. hg_voucher g = Some i) (grants hs))"

definition voucher_inv :: "'d hotspot \<Rightarrow> bool" where
  "voucher_inv hs \<longleftrightarrow>
     distinct (map vr_id (vouchers hs)) \<and> distinct (map vr_code_hash (vouchers hs)) \<and>
     distinct (map vc_voucher (commissions hs)) \<and>
     (\<forall>v \<in> set (vouchers hs). vr_id v < voucher_seq hs) \<and>
     (\<forall>g \<in> set (grants hs). \<forall>i. hg_voucher g = Some i \<longrightarrow> i < voucher_seq hs) \<and>
     (\<forall>c \<in> set (commissions hs). vc_voucher c < voucher_seq hs) \<and>
     (\<forall>v \<in> set (vouchers hs). grants_of hs (vr_id v) = (if vr_status v = VUsed then 1 else 0)) \<and>
     (\<forall>v \<in> set (vouchers hs). vr_status v \<noteq> VUsed \<longrightarrow> (\<forall>c \<in> set (commissions hs). vc_voucher c \<noteq> vr_id v))"

definition empty_hotspot :: "(int \<times> 'd) list \<Rightarrow> 'd hotspot" where
  "empty_hotspot rates = \<lparr>devices = [], vouchers = [], grants = [], commissions = [], franchise_rates = rates,
     device_seq = 1, voucher_seq = 1, grant_seq = 1\<rparr>"

lemma voucher_inv_empty: "voucher_inv (empty_hotspot rates)"
  by (simp add: voucher_inv_def empty_hotspot_def)

text \<open>The update of the grants' metering and revocation columns leaves the count alone.\<close>

lemma voucher_inv_grants_update:
  assumes "voucher_inv hs" "\<And>g. hg_voucher (f g) = hg_voucher g"
  shows "voucher_inv (hs\<lparr>grants := update_where P f (grants hs)\<rparr>)"
proof -
  have "grants_of (hs\<lparr>grants := update_where P f (grants hs)\<rparr>) i = grants_of hs i" for i
    using filter_update_where_same [of "\<lambda>g. hg_voucher g = Some i" f P "grants hs"] assms(2)
    by (simp add: grants_of_def)
  then show ?thesis using assms by (simp add: voucher_inv_def ball_update_where)
qed

lemma voucher_inv_Create:
  assumes "voucher_inv hs"
  shows "voucher_inv (fst (CreateVoucher flt hs v))"
proof -
  have free: "grants_of hs (voucher_seq hs) = 0" "\<forall>c \<in> set (commissions hs). vc_voucher c \<noteq> voucher_seq hs"
    using assms by (auto simp: voucher_inv_def grants_of_def filter_empty_conv)
  have g: "grants_of (hs\<lparr>vouchers := vs, voucher_seq := n\<rparr>) i = grants_of hs i"
    "grants_of (hs\<lparr>voucher_seq := n\<rparr>) i = grants_of hs i" for vs n i
    by (simp_all add: grants_of_def)
  have lt: "i < voucher_seq hs \<Longrightarrow> i < voucher_seq hs + 1" for i by simp
  show ?thesis using assms free
    by (auto simp: CreateVoucher_def voucher_inv_def g list_ex_iff split: option.split intro: lt)
qed

lemma voucher_inv_Void:
  assumes "voucher_inv hs"
  shows "voucher_inv (fst (VoidVoucher flt hs i))"
proof -
  have g: "grants_of (hs\<lparr>vouchers := vs\<rparr>) j = grants_of hs j" for vs j
    by (simp add: grants_of_def)
  have "map vr_id (update_where P (\<lambda>v. v\<lparr>vr_status := VVoid\<rparr>) vs) = map vr_id vs"
    "map vr_code_hash (update_where P (\<lambda>v. v\<lparr>vr_status := VVoid\<rparr>) vs) = map vr_code_hash vs" for P and vs :: "'a voucher_row list"
    by (simp_all add: map_update_where)
  then show ?thesis using assms
    by (auto simp: VoidVoucher_def voucher_inv_def g ball_update_where split: option.split)
qed

lemma commission_of_cases:
  "commission_of rp hs v = [] \<or> (\<exists>c. commission_of rp hs v = [c] \<and> vc_voucher c = vr_id v)"
  by (auto simp: commission_of_def split: option.split)

lemma voucher_inv_Redeem:
  assumes "voucher_inv hs"
  shows "voucher_inv (fst (RedeemVoucher rp flt now hs h mac nas))"
proof (cases "flt ''RedeemVoucher''")
  case (Some e)
  then show ?thesis using assms by (simp add: RedeemVoucher_def)
next
  case None
  show ?thesis
  proof (cases "find (redeemable now h) (vouchers hs)")
    case None
    then show ?thesis using assms \<open>flt _ = None\<close> by (simp add: RedeemVoucher_def)
  next
    case (Some v)
    then have v: "v \<in> set (vouchers hs)" "redeemable now h v" using find_SomeD by fastforce+
    have only: "redeemable now h w \<longleftrightarrow> w = v" if "w \<in> set (vouchers hs)" for w
      using assms v that by (auto simp: voucher_inv_def redeemable_def distinct_map inj_on_def)
    let ?f = "claimed_voucher now mac"
    have maps: "map vr_id (update_where P ?f vs) = map vr_id vs"
      "map vr_code_hash (update_where P ?f vs) = map vr_code_hash vs" for P vs
      by (simp_all add: map_update_where claimed_voucher_def)
    have st: "vr_status v = VUnused" using v(2) by (simp add: redeemable_def)
    have noc: "\<not> list_ex (\<lambda>c. vc_voucher c = vr_id v) (commissions hs)"
      using assms v(1) st by (auto simp: voucher_inv_def list_ex_iff)
    let ?hs = "fst (RedeemVoucher rp flt now hs h mac nas)"
    let ?g = "\<lparr>hg_id = grant_seq hs, hg_mac = mac, hg_subscriber = None, hg_voucher = Some (vr_id v), hg_nas = nas,
      hg_plan = vr_plan v, hg_expires_at = now + vr_duration_minutes v * Minute, hg_revoked_at = None,
      hg_exhausted_at = None, hg_bytes_used = 0, hg_session_id = [], hg_nas_ip = []\<rparr>"
    have hs: "?hs = hs\<lparr>vouchers := update_where (redeemable now h) ?f (vouchers hs),
        commissions := commissions hs @ commission_of rp hs v, grants := grants hs @ [?g],
        grant_seq := grant_seq hs + 1\<rparr>"
      using None \<open>flt _ = None\<close> Some noc by (simp add: RedeemVoucher_def Let_def)
    have cnt: "grants_of ?hs i = grants_of hs i + (if i = vr_id v then 1 else 0)" for i
      by (simp add: hs grants_of_def)
    have upd: "vr_id (?f w) = vr_id w" "vr_status (?f w) = VUsed" for w by (simp_all add: claimed_voucher_def)
    have ids: "vr_id w = vr_id v \<longleftrightarrow> w = v" if "w \<in> set (vouchers hs)" for w
      using assms v(1) that by (auto simp: voucher_inv_def distinct_map inj_on_def)
    have vs: "vr_id v < voucher_seq hs" "grants_of hs (vr_id v) = 0"
      using assms v(1) st by (auto simp: voucher_inv_def)
    have fld: "vouchers ?hs = update_where (redeemable now h) ?f (vouchers hs)" "grants ?hs = grants hs @ [?g]"
      "commissions ?hs = commissions hs @ commission_of rp hs v" "voucher_seq ?hs = voucher_seq hs"
      by (simp_all add: hs)
    have com: "set (commission_of rp hs v) \<subseteq> {c. vc_voucher c = vr_id v}"
      "distinct (map vc_voucher (commission_of rp hs v))"
      using commission_of_cases [of rp hs v] by auto
    have "distinct (map vc_voucher (commissions hs @ commission_of rp hs v))"
      using assms com noc by (auto simp: voucher_inv_def list_ex_iff)
    moreover have "\<forall>c \<in> set (commissions hs @ commission_of rp hs v). vc_voucher c < voucher_seq hs"
      using assms com vs by (auto simp: voucher_inv_def)
    moreover have "grants_of ?hs (vr_id (if redeemable now h w then ?f w else w))
        = (if vr_status (if redeemable now h w then ?f w else w) = VUsed then 1 else 0)" if "w \<in> set (vouchers hs)" for w
      using assms that only [OF that] ids [OF that] vs by (cases "w = v") (simp_all add: voucher_inv_def upd cnt)
    moreover have "vc_voucher c \<noteq> vr_id (if redeemable now h w then ?f w else w)"
      if "w \<in> set (vouchers hs)" "vr_status (if redeemable now h w then ?f w else w) \<noteq> VUsed"
        "c \<in> set (commissions hs @ commission_of rp hs v)" for w c
      using assms that only [OF that(1)] ids [OF that(1)] com
      by (cases "w = v") (auto simp: voucher_inv_def upd)
    moreover have "\<forall>w \<in> set (vouchers hs). vr_id (if redeemable now h w then ?f w else w) < voucher_seq hs"
      using assms by (simp add: voucher_inv_def upd)
    moreover have "\<forall>g \<in> set (grants hs @ [?g]). \<forall>i. hg_voucher g = Some i \<longrightarrow> i < voucher_seq hs"
      using assms vs by (simp add: voucher_inv_def)
    ultimately show ?thesis using assms
      unfolding voucher_inv_def fld maps ball_update_where by blast
  qed
qed

lemma voucher_inv_run_hs: "voucher_inv hs \<Longrightarrow> voucher_inv (run_hs rp inet c hs)"
proof (induction rp inet c hs rule: run_hs.induct)
  case (4 rp inet flt now db mac sub nas mins hs)
  have "grants_of (hs\<lparr>grants := grants hs @ [g], grant_seq := n\<rparr>) i = grants_of hs i" if "hg_voucher g = None" for g n i
    using that by (simp add: grants_of_def)
  with 4 show ?case
    by (auto simp: GrantForSubscriber_def voucher_inv_def split: option.split)
qed (auto simp: voucher_inv_Create voucher_inv_Void voucher_inv_Redeem RecordGrantUsage_def MarkGrantExhausted_def
      RevokeGrant_def Let_def voucher_inv_grants_update metered_grant_def split: option.split)

text \<open>
  C16. A printed voucher code puts exactly one device online. In every run of the store (creation,
  voiding, redemption, grants to subscribers, metering, exhaustion and revocation in any order, with
  any statement failing at any point) a voucher has one grant if it is used and none otherwise, and at
  most one commission, which exists only if it is used; and once a code was redeemed every later
  attempt to redeem it is refused without touching the store.
\<close>

theorem voucher_single_use:
  assumes "hs = fold (run_hs rp inet) cs (empty_hotspot rates)" "v \<in> set (vouchers hs)"
  shows "grants_of hs (vr_id v) = (if vr_status v = VUsed then 1 else 0)
       \<and> length (filter (\<lambda>c. vc_voucher c = vr_id v) (commissions hs)) \<le> (if vr_status v = VUsed then 1 else 0)
       \<and> (vr_status v = VUsed \<longrightarrow> RedeemVoucher rp no_faults now hs (vr_code_hash v) mac nas = (hs, Inr 0))"
proof -
  have run: "voucher_inv (fold (run_hs rp inet) cs h0)" if "voucher_inv h0" for h0
    using that by (induction cs arbitrary: h0) (simp_all add: voucher_inv_run_hs)
  have i: "voucher_inv hs" using run [OF voucher_inv_empty, of rates] by (simp add: assms(1))
  have "length (filter (\<lambda>c. vc_voucher c = vr_id v) (commissions hs)) \<le> 1"
    using i length_filter_distinct [of vc_voucher "commissions hs"] by (simp add: voucher_inv_def)
  moreover have "filter (\<lambda>c. vc_voucher c = vr_id v) (commissions hs) = []" if "vr_status v \<noteq> VUsed"
    using i assms(2) that by (auto simp: voucher_inv_def filter_empty_conv)
  moreover have "find (redeemable now (vr_code_hash v)) (vouchers hs) = None" if "vr_status v = VUsed"
    unfolding find_None_iff using i assms(2) that
    by (auto simp: voucher_inv_def redeemable_def distinct_map inj_on_def)
  ultimately show ?thesis using i assms(2) by (auto simp: voucher_inv_def RedeemVoucher_def)
qed

definition hdemo_voucher :: "int NewVoucher" where
  "hdemo_voucher = \<lparr>nv_CodeHash = ''h1'', nv_CodePrefix = ''HS-AAAA'', nv_PlanID = 1, nv_FranchiseID = Some 3,
     nv_DurationMinutes = 60, nv_DataCapBytes = 1000, nv_ExpiresAt = None, nv_BatchRef = [], nv_CreatedBy = ''ops'',
     nv_SaleAmount = 50\<rparr>"

definition hdemo_calls :: "(faults \<times> int hs_call) list" where
  "hdemo_calls = [(no_faults, HCreate hdemo_voucher), (no_faults, HRedeem 5 ''h1'' ''m1'' None),
     (no_faults, HVoid 1), (no_faults, HRedeem 6 ''h1'' ''m2'' None)]"

lemma hdemo_run:
  "map (\<lambda>v. (vr_id v, vr_status v)) (vouchers (fold (run_hs (\<lambda>a b. a * b div 100) Some) hdemo_calls (empty_hotspot [(3, 10)])))
     = [(1, VUsed)]
   \<and> map vc_amount (commissions (fold (run_hs (\<lambda>a b. a * b div 100) Some) hdemo_calls (empty_hotspot [(3, 10)]))) = [5]"
  by (simp add: hdemo_calls_def hdemo_voucher_def empty_hotspot_def CreateVoucher_def RedeemVoucher_def
      VoidVoucher_def redeemable_def claimed_voucher_def commission_of_def Let_def)

theorem voucher_single_use_witness:
  "\<exists>hs v. hs = fold (run_hs (\<lambda>a b. a * b div 100) Some) hdemo_calls (empty_hotspot [(3, 10 :: int)])
     \<and> vouchers hs = [v] \<and> vr_status v = VUsed \<and> grants_of hs (vr_id v) = 1
     \<and> RedeemVoucher (\<lambda>a b. a * b div 100) no_faults 7 hs (vr_code_hash v) ''m3'' None = (hs, Inr 0)"
proof -
  let ?hs = "fold (run_hs (\<lambda>a b. a * b div 100) Some) hdemo_calls (empty_hotspot [(3, 10 :: int)])"
  obtain v where v: "vouchers ?hs = [v]" "vr_status v = VUsed" using hdemo_run by (auto simp: map_eq_Cons_conv)
  then have "v \<in> set (vouchers ?hs)" by simp
  from voucher_single_use [OF refl this, of 7 "''m3''" None] v show ?thesis by auto
qed

section \<open>The limiter bounds the attempts in any window\<close>

fun allow_run :: "Limiter \<Rightarrow> (time \<times> string) list \<Rightarrow> (time \<times> string \<times> bool) list" where
  "allow_run l [] = []"
| "allow_run l ((t, k) # cs) = (let (l', b) = Allow t l k in (t, k, b) # allow_run l' cs)"

text \<open>
  The specification of one client: no window, or the number of attempts of the current window and the
  last instant it covers.
\<close>

fun window_run :: "int \<Rightarrow> duration \<Rightarrow> (int \<times> time) option \<Rightarrow> time list \<Rightarrow> (time \<times> bool) list" where
  "window_run mx w st [] = []"
| "window_run mx w st (t # ts) =
     (case st of
        Some (n, e) \<Rightarrow>
          if t \<le> e then (t, n + 1 \<le> mx) # window_run mx w (Some (n + 1, e)) ts
          else (t, 1 \<le> mx) # window_run mx w (Some (1, t + w)) ts
      | None \<Rightarrow> (t, 1 \<le> mx) # window_run mx w (Some (1, t + w)) ts)"

definition tracks :: "Counter \<Rightarrow> string \<Rightarrow> (int \<times> time) option \<Rightarrow> bool" where
  "tracks c k st \<longleftrightarrow>
     (case st of
        None \<Rightarrow> \<forall>t. Counter_Get t c k = None
      | Some (n, e) \<Rightarrow> 1 \<le> n \<and> (\<forall>t. Counter_Get t c k = (if t \<le> e then Some n else None)))"

lemma attempts_key_inj [simp]: "attempts_key a = attempts_key b \<longleftrightarrow> a = b"
  by (simp add: attempts_key_def)

lemma Allow_tracks:
  assumes "tracks (lm_counter l) (attempts_key k) st" "Allow t l k = (l', b)" "t + lm_window l \<noteq> 0"
  shows "lm_limit l' = lm_limit l \<and> lm_window l' = lm_window l \<and>
     (case st of
        Some (n, e) \<Rightarrow>
          if t \<le> e then b = (n + 1 \<le> lm_limit l) \<and> tracks (lm_counter l') (attempts_key k) (Some (n + 1, e))
          else b = (1 \<le> lm_limit l) \<and> tracks (lm_counter l') (attempts_key k) (Some (1, t + lm_window l))
      | None \<Rightarrow> b = (1 \<le> lm_limit l) \<and> tracks (lm_counter l') (attempts_key k) (Some (1, t + lm_window l)))"
proof -
  let ?k = "attempts_key k" and ?c = "lm_counter l"
  have live: ?thesis if "st = Some (n, e)" "t \<le> e" for n e
  proof -
    have n: "1 \<le> n" "Counter_Get t ?c ?k = Some n" using assms(1) that by (simp_all add: tracks_def)
    then have "snd (Counter_Incr t ?c ?k) = n + 1" by (simp add: wc.incr_value)
    then show ?thesis using assms(1,2) that n wc.incr_live [OF n(2)]
      by (auto simp: Allow_def tracks_def case_prod_beta Let_def)
  qed
  have fresh: "lm_limit l' = lm_limit l \<and> lm_window l' = lm_window l \<and> b = (1 \<le> lm_limit l) \<and>
    tracks (lm_counter l') ?k (Some (1, t + lm_window l))" if "Counter_Get t ?c ?k = None"
    using assms(2) wc.get_incr_expire [OF assms(3), of _ ?c ?k] that
    by (auto simp: Allow_def tracks_def case_prod_beta Let_def wc.incr_value)
  show ?thesis
  proof (cases st)
    case None
    then show ?thesis using fresh assms(1) by (simp add: tracks_def)
  next
    case (Some p)
    obtain n e where p: "p = (n, e)" by fastforce
    then have "Counter_Get t ?c ?k = None" if "\<not> t \<le> e" using assms(1) Some that by (simp add: tracks_def)
    then show ?thesis using live fresh Some p by (cases "t \<le> e") simp_all
  qed
qed

lemma Allow_other:
  assumes "Allow t l k' = (l', b)" "k' \<noteq> k"
  shows "Counter_Get u (lm_counter l') (attempts_key k) = Counter_Get u (lm_counter l) (attempts_key k)
    \<and> lm_limit l' = lm_limit l \<and> lm_window l' = lm_window l"
  using assms by (auto simp: Allow_def case_prod_beta Let_def wc.incr_other wc.expire_other)

lemma allow_run_window_run:
  assumes "tracks (lm_counter l) (attempts_key key) st" "\<forall>(t, k) \<in> set cs. t + lm_window l \<noteq> 0"
  shows "[(t, b). (t, k, b) \<leftarrow> allow_run l cs, k = key]
       = window_run (lm_limit l) (lm_window l) st [t. (t, k) \<leftarrow> cs, k = key]"
  using assms
proof (induction l cs arbitrary: st rule: allow_run.induct)
  case (2 l t k cs)
  obtain l' b where al: "Allow t l k = (l', b)" by fastforce
  show ?case
  proof (cases "k = key")
    case True
    note tr = Allow_tracks [OF _ al, of st]
    show ?thesis using 2(1) [of "(l', b)" l' b] 2(2,3) al True tr
      by (auto simp: split: option.splits if_splits)
  next
    case False
    note ot = Allow_other [OF al False]
    then have eq: "Counter_Get u (lm_counter l') (attempts_key key) = Counter_Get u (lm_counter l) (attempts_key key)" for u
      by blast
    have "tracks (lm_counter l') (attempts_key key) st" using 2(2) unfolding tracks_def eq .
    then show ?thesis using 2(1) [of "(l', b)" l' b st] 2(3) al False ot by simp
  qed
qed simp

text \<open>How many more attempts an interval of one window's length starting at \<open>a\<close> can still see.\<close>

definition window_bound :: "int \<Rightarrow> duration \<Rightarrow> time \<Rightarrow> time \<Rightarrow> (int \<times> time) option \<Rightarrow> nat" where
  "window_bound mx w a now st =
     (if a + w < now then 0
      else case st of
        None \<Rightarrow> 2 * nat mx
      | Some (n, e) \<Rightarrow> if a + w \<le> e then nat (mx - n) else if a \<le> e then nat (mx - n) + nat mx else 2 * nat mx)"

definition in_window :: "duration \<Rightarrow> time \<Rightarrow> time \<times> bool \<Rightarrow> bool" where
  "in_window w a x \<longleftrightarrow> snd x \<and> a \<le> fst x \<and> fst x \<le> a + w"

lemma window_bound_step:
  assumes "0 \<le> w" "now \<le> t" "\<And>n e. st = Some (n, e) \<Longrightarrow> 1 \<le> n"
  shows "(case st of
            Some (n, e) \<Rightarrow>
              if t \<le> e
              then (if in_window w a (t, n + 1 \<le> mx) then 1 else 0) + window_bound mx w a t (Some (n + 1, e))
              else (if in_window w a (t, 1 \<le> mx) then 1 else 0) + window_bound mx w a t (Some (1, t + w))
          | None \<Rightarrow> (if in_window w a (t, 1 \<le> mx) then 1 else 0) + window_bound mx w a t (Some (1, t + w)))
       \<le> window_bound mx w a now st"
proof (cases st)
  case None
  then show ?thesis using assms(1,2) by (auto simp: window_bound_def in_window_def)
next
  case (Some p)
  obtain n e where "p = (n, e)" by fastforce
  then show ?thesis using Some assms by (auto simp: window_bound_def in_window_def)
qed

lemma window_run_bound:
  assumes "0 \<le> w" "sorted (now # ts)" "\<And>n e. st = Some (n, e) \<Longrightarrow> 1 \<le> n"
  shows "length (filter (in_window w a) (window_run mx w st ts)) \<le> window_bound mx w a now st"
  using assms(2,3)
proof (induction ts arbitrary: st now)
  case (Cons t ts)
  have le: "now \<le> t" and srt: "sorted (t # ts)" using Cons.prems(1) by auto
  have tail: "length (filter (in_window w a) (window_run mx w (Some (n, e)) ts)) \<le> window_bound mx w a t (Some (n, e))"
    if "1 \<le> n" for n e using Cons.IH [OF srt, of "Some (n, e)"] that by simp
  have step: "(case st of
            Some (n, e) \<Rightarrow>
              if t \<le> e
              then (if in_window w a (t, n + 1 \<le> mx) then 1 else 0) + window_bound mx w a t (Some (n + 1, e))
              else (if in_window w a (t, 1 \<le> mx) then 1 else 0) + window_bound mx w a t (Some (1, t + w))
          | None \<Rightarrow> (if in_window w a (t, 1 \<le> mx) then 1 else 0) + window_bound mx w a t (Some (1, t + w)))
       \<le> window_bound mx w a now st"
    by (rule window_bound_step [OF assms(1) le]) (rule Cons.prems(2))
  show ?case
  proof (cases st)
    case None
    then show ?thesis using step tail [of 1 "t + w"] by (simp split: if_splits)
  next
    case (Some p)
    obtain n e where p: "p = (n, e)" by fastforce
    then have "1 \<le> n" using Cons.prems(2) Some by blast
    then show ?thesis using step tail [of 1 "t + w"] tail [of "n + 1" e] Some p by (cases "t \<le> e") (simp_all split: if_splits)
  qed
qed simp

text \<open>
  The attempt limiter admits no client more than twice the limit in any interval as long as its
  window: whatever attempts arrive from whatever clients, in the order of the clock, the attempts of one
  client that pass within \<open>[a, a + window]\<close> number at most twice the limit.
\<close>

theorem limiter_bound:
  assumes "sorted (map fst cs)" "\<forall>(t, k) \<in> set cs. 0 < t" "0 \<le> lm_window l" "lm_counter l = NewCounter"
  shows "length (filter (\<lambda>(t, k, b). k = key \<and> b \<and> a \<le> t \<and> t \<le> a + lm_window l) (allow_run l cs)) \<le> 2 * nat (lm_limit l)"
proof -
  let ?ts = "[t. (t, k) \<leftarrow> cs, k = key]" and ?run = "[(t, b). (t, k, b) \<leftarrow> allow_run l cs, k = key]"
  have flt: "length (filter (\<lambda>(t, k, b). k = key \<and> b \<and> a \<le> t \<and> t \<le> a + lm_window l) xs)
    = length (filter (in_window (lm_window l) a) [(t, b). (t, k, b) \<leftarrow> xs, k = key])" for xs
    by (induction xs) (auto simp: in_window_def split: if_splits)
  have "tracks (lm_counter l) (attempts_key key) None"
    using assms(4) by (simp add: tracks_def NewCounter_def Counter_Get_def)
  moreover have "\<forall>(t, k) \<in> set cs. t + lm_window l \<noteq> 0" using assms(2,3) by fastforce
  ultimately have run: "?run = window_run (lm_limit l) (lm_window l) None ?ts" by (rule allow_run_window_run)
  have "[t. (t, k) \<leftarrow> ys, k = key] = map fst (filter (\<lambda>p. snd p = key) ys)" for ys :: "(int \<times> string) list"
    by (induction ys) auto
  moreover have "sorted (map fst (filter (\<lambda>p. snd p = key) cs))" by (rule sorted_filter [OF assms(1)])
  moreover have "\<forall>x \<in> set (map fst (filter (\<lambda>p. snd p = key) cs)). 0 \<le> x" using assms(2) by auto
  ultimately have "sorted (0 # ?ts)" by simp
  then have "length (filter (in_window (lm_window l) a) ?run) \<le> window_bound (lm_limit l) (lm_window l) a 0 None"
    unfolding run using assms(3) by (intro window_run_bound) auto
  also have "\<dots> \<le> 2 * nat (lm_limit l)" by (simp add: window_bound_def)
  finally show ?thesis by (simp only: flt)
qed

theorem limiter_bound_witness:
  "length (filter (\<lambda>(t, k, b). k = ''c'' \<and> b \<and> 1 \<le> t \<and> t \<le> 1 + 5)
     (allow_run \<lparr>lm_counter = NewCounter, lm_limit = 1, lm_window = 5\<rparr> [(1, ''c''), (2, ''d''), (3, ''c''), (7, ''c'')])) \<le> 2
   \<and> allow_run \<lparr>lm_counter = NewCounter, lm_limit = 1, lm_window = 5\<rparr> [(1, ''c''), (2, ''d''), (3, ''c''), (7, ''c'')]
     = [(1, ''c'', True), (2, ''d'', True), (3, ''c'', False), (7, ''c'', True)]"
  using limiter_bound [of "[(1, ''c''), (2, ''d''), (3, ''c''), (7, ''c'')]"
      "\<lparr>lm_counter = NewCounter, lm_limit = 1, lm_window = 5\<rparr>" "''c''" 1]
  by (simp add: Allow_def NewCounter_def Counter_Incr_def Counter_Expire_def counter_dead_def attempts_key_def)

section \<open>Spent vouchers are cut off\<close>

lemma MarkGrantExhausted_ok:
  "MarkGrantExhausted no_faults now hs i =
     (hs\<lparr>grants := update_where (\<lambda>g. hg_id g = i \<and> hg_revoked_at g = None)
          (\<lambda>g. g\<lparr>hg_revoked_at := Some now, hg_exhausted_at := Some now\<rparr>) (grants hs)\<rparr>,
      Inr (rows_affected (\<lambda>g. hg_id g = i \<and> hg_revoked_at g = None) (grants hs) = 1))"
  by (simp add: MarkGrantExhausted_def Let_def)

definition exhaust :: "time \<Rightarrow> int set \<Rightarrow> grant_row \<Rightarrow> grant_row" where
  "exhaust now S g = (if hg_id g \<in> S \<and> hg_revoked_at g = None
                      then g\<lparr>hg_revoked_at := Some now, hg_exhausted_at := Some now\<rparr> else g)"

lemma hg_id_exhaust [simp]: "hg_id (exhaust now S g) = hg_id g"
  by (simp add: exhaust_def)

lemma rows_affected_one:
  assumes "distinct (map hg_id gs)" "g \<in> set gs" "hg_revoked_at g = None"
  shows "rows_affected (\<lambda>h. hg_id h = hg_id g \<and> hg_revoked_at h = None) gs = 1"
proof -
  have "rows_affected (\<lambda>h. hg_id h = hg_id g \<and> hg_revoked_at h = None) gs \<le> length (filter (\<lambda>h. hg_id h = hg_id g) gs)"
    unfolding rows_affected_def by (induction gs) auto
  moreover have "length (filter (\<lambda>h. hg_id h = hg_id g) gs) \<le> 1"
    by (rule length_filter_distinct [OF assms(1)])
  moreover have "0 < rows_affected (\<lambda>h. hg_id h = hg_id g \<and> hg_revoked_at h = None) gs"
    using assms(2,3) by (auto simp: rows_affected_pos)
  ultimately show ?thesis by simp
qed

lemma quota_loop_ok:
  assumes "distinct (map hg_id (grants hs))" "distinct (map oc_GrantID over)"
    and "\<forall>o' \<in> set over. \<exists>g \<in> set (grants hs). hg_id g = oc_GrantID o' \<and> hg_revoked_at g = None"
  shows "quota_loop no_faults now (\<lambda>_. False) pod over (hs, ds) n =
     ((hs\<lparr>grants := map (exhaust now (set (map oc_GrantID over))) (grants hs)\<rparr>,
       ds @ [(oc_NASIP o', oc_SessionID o'). o' \<leftarrow> over, pod \<and> oc_SessionID o' \<noteq> [] \<and> oc_NASIP o' \<noteq> []]),
      n + length over, False)"
  using assms
proof (induction over arbitrary: hs ds n)
  case Nil
  have "exhaust now {} = id" by (rule ext) (simp add: exhaust_def)
  then show ?case by simp
next
  case (Cons o' over)
  let ?i = "oc_GrantID o'" and ?P = "\<lambda>g. hg_id g = oc_GrantID o' \<and> hg_revoked_at g = None"
  let ?hs = "hs\<lparr>grants := map (exhaust now {?i}) (grants hs)\<rparr>"
  obtain g where g: "g \<in> set (grants hs)" "hg_id g = ?i" "hg_revoked_at g = None" using Cons.prems(3) by auto
  have one: "rows_affected ?P (grants hs) = 1" using rows_affected_one [OF Cons.prems(1) g(1,3)] g(2) by simp
  have upd: "update_where ?P (\<lambda>g. g\<lparr>hg_revoked_at := Some now, hg_exhausted_at := Some now\<rparr>) gs
    = map (exhaust now {?i}) gs" for gs by (simp add: update_where_def exhaust_def)
  have comp: "map (exhaust now S) (map (exhaust now {?i}) gs) = map (exhaust now (insert ?i S)) gs" for S gs
    by (auto simp: exhaust_def)
  have "\<exists>g' \<in> set (grants ?hs). hg_id g' = oc_GrantID p \<and> hg_revoked_at g' = None" if "p \<in> set over" for p
  proof -
    have "\<exists>g' \<in> set (grants hs). hg_id g' = oc_GrantID p \<and> hg_revoked_at g' = None"
      using Cons.prems(3) that by simp
    then obtain g' where "g' \<in> set (grants hs)" "hg_id g' = oc_GrantID p" "hg_revoked_at g' = None" by blast
    moreover have "oc_GrantID p \<noteq> ?i" using Cons.prems(2) that by (auto simp: image_iff)
    ultimately show ?thesis by (auto simp: exhaust_def intro!: bexI [of _ g'] image_eqI [of _ _ g'])
  qed
  then have IH: "quota_loop no_faults now (\<lambda>_. False) pod over (?hs, ds') m =
     ((?hs\<lparr>grants := map (exhaust now (set (map oc_GrantID over))) (grants ?hs)\<rparr>,
       ds' @ [(oc_NASIP o', oc_SessionID o'). o' \<leftarrow> over, pod \<and> oc_SessionID o' \<noteq> [] \<and> oc_NASIP o' \<noteq> []]),
      m + length over, False)" for ds' m
    using Cons.prems(1,2) by (intro Cons.IH) (simp_all add: comp_def)
  show ?case using one by (simp add: MarkGrantExhausted_ok upd comp IH del: map_map no_faults_apply)
qed

text \<open>
  A data-cap pass cuts off every spent voucher. With no statement failing and no more grants over
  their cap than the batch holds, one pass revokes exactly the live voucher grants that have reached their
  cap and marks them exhausted, touches no other grant, reports their number, and leaves none over its cap.
\<close>

theorem quota_scan_enforces:
  assumes "distinct (map hg_id (grants hs))" "0 < batch" "batch \<le> 500"
    and "int (length (filter (over_cap now hs) (grants hs))) \<le> batch"
  shows "\<exists>hs' ds'. ScanOnce no_faults now (\<lambda>_. False) pod batch (hs, ds)
             = ((hs', ds'), Inr (length (filter (over_cap now hs) (grants hs))))
         \<and> hs' = hs\<lparr>grants := map (\<lambda>g. if over_cap now hs g
                       then g\<lparr>hg_revoked_at := Some now, hg_exhausted_at := Some now\<rparr> else g) (grants hs)\<rparr>
         \<and> \<not> list_ex (over_cap now hs') (grants hs')"
proof -
  let ?over = "sort_key (\<lambda>g. - hg_bytes_used g) (filter (over_cap now hs) (grants hs))"
  let ?mark = "\<lambda>g. if over_cap now hs g then g\<lparr>hg_revoked_at := Some now, hg_exhausted_at := Some now\<rparr> else g"
  have list: "ListGrantsOverCap no_faults now hs batch = Inr (map (to_over_cap hs) ?over)"
    using assms(2-4) by (simp add: ListGrantsOverCap_def Let_def)
  have id: "oc_GrantID (to_over_cap hs g) = hg_id g" for g by (simp add: to_over_cap_def Let_def)
  have ids: "distinct (map oc_GrantID (map (to_over_cap hs) ?over))"
    using assms(1) by (auto simp: id comp_def distinct_map inj_on_def)
  have live: "hg_revoked_at g = None" if "over_cap now hs g" for g
    using that by (simp add: over_cap_def live_grant_def)
  have ex: "exhaust now (set (map oc_GrantID (map (to_over_cap hs) ?over))) g = ?mark g" if "g \<in> set (grants hs)" for g
  proof -
    have "hg_id g \<in> set (map oc_GrantID (map (to_over_cap hs) ?over)) \<longleftrightarrow> over_cap now hs g"
      using assms(1) that by (auto simp: id distinct_map inj_on_def image_iff)
    then show ?thesis using live by (simp add: exhaust_def)
  qed
  let ?hs = "hs\<lparr>grants := map ?mark (grants hs)\<rparr>"
  have "\<forall>o' \<in> set (map (to_over_cap hs) ?over). \<exists>g \<in> set (grants hs). hg_id g = oc_GrantID o' \<and> hg_revoked_at g = None"
    using live by (auto simp: id)
  note loop = quota_loop_ok [OF assms(1) ids this, of now pod ds 0]
  have "map (exhaust now (set (map oc_GrantID (map (to_over_cap hs) ?over)))) (grants hs) = map ?mark (grants hs)"
    using ex by (intro map_cong) simp_all
  then have scan: "\<exists>ds'. ScanOnce no_faults now (\<lambda>_. False) pod batch (hs, ds)
      = ((?hs, ds'), Inr (length (filter (over_cap now hs) (grants hs))))"
    using loop by (simp add: ScanOnce_def list del: map_map)
  have oc: "over_cap now (hs\<lparr>grants := gs\<rparr>) g = over_cap now hs g" for gs g
    by (simp add: over_cap_def grant_cap_def)
  have "\<not> over_cap now ?hs (?mark g)" for g
    unfolding oc by (cases "over_cap now hs g") (simp_all add: over_cap_def [of now hs "_\<lparr>hg_revoked_at := _, hg_exhausted_at := _\<rparr>"] live_grant_def)
  then have "\<not> list_ex (over_cap now ?hs) (map ?mark (grants hs))" by (rule not_list_ex_map)
  then have "\<not> list_ex (over_cap now ?hs) (grants ?hs)" by simp
  with scan show ?thesis by blast
qed

definition hdemo_grant :: "int \<Rightarrow> int \<Rightarrow> grant_row" where
  "hdemo_grant i used = \<lparr>hg_id = i, hg_mac = ''m1'', hg_subscriber = None, hg_voucher = Some 1, hg_nas = None, hg_plan = 1,
     hg_expires_at = 100, hg_revoked_at = None, hg_exhausted_at = None, hg_bytes_used = used, hg_session_id = ''s'',
     hg_nas_ip = ''10.0.0.1''\<rparr>"

definition hdemo_store :: "int list \<Rightarrow> int hotspot" where
  "hdemo_store used = (fst (CreateVoucher no_faults (empty_hotspot []) hdemo_voucher))
     \<lparr>grants := map2 hdemo_grant [1..int (length used)] used\<rparr>"

theorem quota_scan_enforces_witness:
  "\<exists>hs' ds'. ScanOnce no_faults 5 (\<lambda>_. False) True 100 (hdemo_store [1000, 999], []) = ((hs', ds'), Inr 1)
     \<and> map hg_exhausted_at (grants hs') = [Some 5, None] \<and> \<not> list_ex (over_cap 5 hs') (grants hs')"
proof -
  have g: "grants (hdemo_store [1000, 999]) = [hdemo_grant 1 1000, hdemo_grant 2 999]"
    by (simp add: hdemo_store_def upto.simps)
  have c: "over_cap 5 (hdemo_store [1000, 999]) (hdemo_grant i u) \<longleftrightarrow> 1000 \<le> u" for i u
    by (simp add: over_cap_def live_grant_def grant_cap_def hdemo_grant_def hdemo_store_def CreateVoucher_def
        hdemo_voucher_def empty_hotspot_def)
  have "distinct (map hg_id (grants (hdemo_store [1000, 999])))" by (simp add: g hdemo_grant_def)
  from quota_scan_enforces [OF this, of 100 5 True "[]"] show ?thesis
    by (simp add: g c) (auto simp: hdemo_grant_def g)
qed

section \<open>Reconnecting resets the meter\<close>

text \<open>
  The data cap bounds a session, not a voucher. The meter is assigned the running total of the current
  session, so after two sessions that together used the whole allowance, each less than it, the grant is
  not over its cap and the scanner leaves it alone.
\<close>

theorem reconnect_evades_data_cap:
  assumes "g \<in> set (grants hs)" "hg_mac g = mac" "live_grant now1 g" "live_grant now2 g"
    and "grant_cap hs g = Some v" "b1 < vr_data_cap_bytes v" "b2 < vr_data_cap_bytes v" "vr_data_cap_bytes v \<le> b1 + b2"
    and "hs1 = fst (RecordGrantUsage inet no_faults now1 hs mac s1 [] b1)"
    and "hs2 = fst (RecordGrantUsage inet no_faults now2 hs1 mac s2 [] b2)"
  shows "\<exists>g' \<in> set (grants hs2). hg_id g' = hg_id g \<and> hg_voucher g' = hg_voucher g \<and> hg_bytes_used g' = b2
           \<and> \<not> over_cap now2 hs2 g'"
proof -
  let ?u = "\<lambda>b s. metered_grant inet s [] b" and ?P = "\<lambda>now g. hg_mac g = mac \<and> live_grant now g"
  have fld: "hg_mac (?u b s h) = hg_mac h" "live_grant t (?u b s h) = live_grant t h" "hg_id (?u b s h) = hg_id h"
    "hg_voucher (?u b s h) = hg_voucher h" "hg_bytes_used (?u b s h) = b" for t b s h
    by (simp_all add: live_grant_def metered_grant_def)
  have h1: "hs1 = hs\<lparr>grants := update_where (?P now1) (?u b1 s1) (grants hs)\<rparr>"
    and h2: "hs2 = hs1\<lparr>grants := update_where (?P now2) (?u b2 s2) (grants hs1)\<rparr>"
    using assms(9,10) by (simp_all add: RecordGrantUsage_def Let_def)
  let ?g = "?u b2 s2 (?u b1 s1 g)"
  have "?u b1 s1 g \<in> set (grants hs1)" using update_whereI [of g "grants hs" "?P now1" "?u b1 s1"] assms(1-3) by (simp add: h1)
  then have "?g \<in> set (grants hs2)"
    using update_whereI [of "?u b1 s1 g" "grants hs1" "?P now2" "?u b2 s2"] assms(2,4) by (simp add: h2 fld)
  moreover have "grant_cap hs2 ?g = Some v" using assms(5) by (simp add: grant_cap_def h1 h2 fld)
  then have "\<not> over_cap now2 hs2 ?g" using assms(7) by (simp add: over_cap_def fld)
  ultimately show ?thesis using fld by (intro bexI [of _ ?g]) simp_all
qed

theorem reconnect_evades_data_cap_witness:
  "\<exists>hs1 hs2 g'. hs1 = fst (RecordGrantUsage Some no_faults 5 (hdemo_store [0]) ''m1'' ''s1'' [] 900)
     \<and> hs2 = fst (RecordGrantUsage Some no_faults 6 hs1 ''m1'' ''s2'' [] 800)
     \<and> g' \<in> set (grants hs2) \<and> hg_id g' = 1 \<and> hg_bytes_used g' = 800 \<and> \<not> over_cap 6 hs2 g'"
proof -
  have g: "grants (hdemo_store [0]) = [hdemo_grant 1 0]" by (simp add: hdemo_store_def upto.simps)
  obtain v where v: "grant_cap (hdemo_store [0]) (hdemo_grant 1 0) = Some v" "vr_data_cap_bytes v = 1000"
    by (simp add: grant_cap_def hdemo_grant_def hdemo_store_def CreateVoucher_def hdemo_voucher_def empty_hotspot_def)
  have "live_grant t (hdemo_grant 1 0) \<longleftrightarrow> t < 100" for t by (simp add: live_grant_def hdemo_grant_def)
  with reconnect_evades_data_cap [of "hdemo_grant 1 0" "hdemo_store [0]" "''m1''" 5 6 v 900 800 _ Some "''s1''" _ "''s2''"] g v
  show ?thesis by (fastforce simp: hdemo_grant_def)
qed

section \<open>Codes survive retyping\<close>

definition separator :: "char \<Rightarrow> bool" where "separator c \<longleftrightarrow> c = CHR ''-'' \<or> c = CHR '' ''"

lemma separator_upper: "separator (upper_char c) \<longleftrightarrow> separator c"
proof -
  have "(of_char (upper_char c) :: nat) = 45 \<longleftrightarrow> (of_char c :: nat) = 45" "(of_char (upper_char c) :: nat) = 32 \<longleftrightarrow> (of_char c :: nat) = 32"
    by (auto simp: of_char_upper)
  moreover have "c = CHR ''-'' \<longleftrightarrow> (of_char c :: nat) = 45" "c = CHR '' '' \<longleftrightarrow> (of_char c :: nat) = 32" for c
    by (simp_all add: of_char_eq_iff [symmetric, where 'a = nat] del: of_char_eq_iff)
  ultimately show ?thesis unfolding separator_def by metis
qed

lemma NormaliseCode_eq:
  assumes "\<And>c. c \<in> set s \<Longrightarrow> is_space c \<Longrightarrow> separator c"
  shows "NormaliseCode s = map upper_char (filter (\<lambda>c. \<not> separator c) s)"
proof -
  have "NormaliseCode s = map upper_char (filter (\<lambda>c. \<not> separator c) (TrimSpace s))"
    by (simp add: NormaliseCode_def ToUpper_def filter_map comp_def separator_upper separator_def [symmetric])
  then show ?thesis using assms by (subst (asm) filter_TrimSpace_on) auto
qed

text \<open>
  A typed code that differs from the printed one only in case, dashes and blanks has the stored hash, and
  normalising it before hashing, as the portal does, changes nothing.
\<close>

lemma voucher_code_spelling:
  assumes "\<And>c. c \<in> set s \<union> set t \<Longrightarrow> is_space c \<Longrightarrow> separator c"
    and "map upper_char (filter (\<lambda>c. \<not> separator c) s) = map upper_char (filter (\<lambda>c. \<not> separator c) t)"
  shows "HashCode sha256 s = HashCode sha256 t \<and> HashCode sha256 (NormaliseCode s) = HashCode sha256 t"
proof -
  have n: "NormaliseCode s = NormaliseCode t" using assms by (simp add: NormaliseCode_eq)
  have "c \<notin> set (NormaliseCode s)" if "separator c \<or> is_space c" for c
    using that assms(1) by (auto simp: NormaliseCode_eq separator_upper)
  then have "NormaliseCode (NormaliseCode s) = map upper_char (filter (\<lambda>c. \<not> separator c) (NormaliseCode s))"
    by (intro NormaliseCode_eq) blast
  also have "\<dots> = NormaliseCode s"
    using assms(1) by (simp add: NormaliseCode_eq filter_map comp_def separator_upper)
  finally show ?thesis using n by (simp add: HashCode_def)
qed

end
