(* ===== verification/Sessions.thy ===== *)
theory Sessions
  imports Hotspot Dunning
begin

text \<open>
  Session accounting: the RADIUS accounting handler (\<open>src/internal/radius/accounting.go\<close>), the session
  history it writes (\<open>src/internal/db/fup.go\<close>, the session and lawful-intercept queries), and the table
  of live sessions (\<open>src/internal/cache/session.go\<close>).

  The history is the table \<open>subscriber_session_history\<close>: a row is open while \<open>stop_time\<close> is null. The
  parsers behind the \<open>inet\<close> and \<open>cidr\<close> casts are arguments that return the canonical spelling. A refused
  foreign key or a missing monthly partition is one of the failing statements of the fault oracle; the
  length limits of \<open>session_id\<close> and \<open>terminate_cause\<close> exceed what a RADIUS attribute can carry. Octet
  counters are the 64-bit words the source computes, stored as the signed value Go reads them as.
\<close>

section \<open>Tables\<close>

record session_row =
  h_id :: int
  h_subscriber :: int
  h_session :: string
  h_nas :: string
  h_ipv4 :: "string option"
  h_ipv6 :: "string option"
  h_start :: time
  h_stop :: "time option"
  h_in :: int
  h_out :: int
  h_cause :: "string option"

record live_row =
  lv_subscriber :: int
  lv_session :: string
  lv_nas :: string
  lv_assigned :: string
  lv_in :: int
  lv_out :: int
  lv_total :: int
  lv_speed :: string
  lv_throttled :: bool
  lv_started :: time
  lv_updated :: time

record net =
  history :: "session_row list"
  history_seq :: int
  live :: "live_row list"

definition is_open :: "session_row \<Rightarrow> bool" where "is_open h \<longleftrightarrow> h_stop h = None"

section \<open>The session history\<close>

text \<open>\<open>NULLIF(s,'')\<close> cast with a parser: absent, or parsed, or an error.\<close>

definition nullif_cast :: "(string \<Rightarrow> string option) \<Rightarrow> string \<Rightarrow> string + string option" where
  "nullif_cast parse s =
     (if s = [] then Inr None
      else case parse s of None \<Rightarrow> Inl ''invalid input syntax'' | Some v \<Rightarrow> Inr (Some v))"

definition StartSession ::
  "(string \<Rightarrow> string option) \<Rightarrow> (string \<Rightarrow> string option) \<Rightarrow> faults \<Rightarrow> time \<Rightarrow> net
   \<Rightarrow> int \<Rightarrow> string \<Rightarrow> string \<Rightarrow> string \<Rightarrow> string \<Rightarrow> net \<times> (string + unit)" where
  "StartSession inet cidr flt now n subscriberID sessionID nasIP assignedIP ipv6Prefix =
     (case flt ''StartSession'' of
        Some e \<Rightarrow> (n, Inl e)
      | None \<Rightarrow>
          (case (inet nasIP, nullif_cast inet assignedIP, nullif_cast cidr ipv6Prefix) of
             (Some nas, Inr v4, Inr v6) \<Rightarrow>
               if list_ex (\<lambda>h. h_session h = sessionID \<and> is_open h) (history n) then (n, Inr ())
               else (n\<lparr>history := history n @
                        [\<lparr>h_id = history_seq n, h_subscriber = subscriberID, h_session = sessionID, h_nas = nas,
                          h_ipv4 = v4, h_ipv6 = v6, h_start = now, h_stop = None, h_in = 0, h_out = 0, h_cause = None\<rparr>],
                       history_seq := history_seq n + 1\<rparr>, Inr ())
           | _ \<Rightarrow> (n, Inl ''invalid input syntax'')))"

definition UpdateSessionOctets :: "faults \<Rightarrow> net \<Rightarrow> string \<Rightarrow> int \<Rightarrow> int \<Rightarrow> net \<times> (string + bool)" where
  "UpdateSessionOctets flt n sessionID inOct outOct =
     (case flt ''UpdateSessionOctets'' of
        Some e \<Rightarrow> (n, Inl e)
      | None \<Rightarrow>
          (let P = (\<lambda>h. h_session h = sessionID \<and> is_open h) in
           (n\<lparr>history := update_where P (\<lambda>h. h\<lparr>h_in := inOct, h_out := outOct\<rparr>) (history n)\<rparr>,
            Inr (0 < rows_affected P (history n)))))"

definition stopped_row :: "time \<Rightarrow> int \<Rightarrow> int \<Rightarrow> string \<Rightarrow> session_row \<Rightarrow> session_row" where
  "stopped_row now inOct outOct cause h =
     h\<lparr>h_stop := Some now, h_in := inOct, h_out := outOct, h_cause := (if cause = [] then None else Some cause)\<rparr>"

definition StopSession :: "faults \<Rightarrow> time \<Rightarrow> net \<Rightarrow> string \<Rightarrow> int \<Rightarrow> int \<Rightarrow> string \<Rightarrow> net \<times> (string + bool)" where
  "StopSession flt now n sessionID inOct outOct cause =
     (case flt ''StopSession'' of
        Some e \<Rightarrow> (n, Inl e)
      | None \<Rightarrow>
          (let P = (\<lambda>h. h_session h = sessionID \<and> is_open h) in
           (n\<lparr>history := update_where P (stopped_row now inOct outOct cause) (history n)\<rparr>,
            Inr (0 < rows_affected P (history n)))))"

text \<open>The start of the earliest later session of the same subscriber on the same device.\<close>

definition successor_start :: "session_row list \<Rightarrow> session_row \<Rightarrow> time option" where
  "successor_start hs a =
     (case map h_start (filter (\<lambda>b. h_subscriber b = h_subscriber a \<and> h_nas b = h_nas a \<and> h_start a < h_start b) hs) of
        [] \<Rightarrow> None
      | t # ts \<Rightarrow> Some (fold min ts t))"

definition closed_row :: "session_row list \<Rightarrow> session_row \<Rightarrow> session_row" where
  "closed_row hs h =
     h\<lparr>h_stop := successor_start hs h,
       h_cause := (case h_cause h of None \<Rightarrow> Some ''superseded-no-acct-stop'' | Some c \<Rightarrow> Some c)\<rparr>"

definition CloseSupersededSessions :: "faults \<Rightarrow> net \<Rightarrow> net \<times> (string + nat)" where
  "CloseSupersededSessions flt n =
     (case flt ''CloseSupersededSessions'' of
        Some e \<Rightarrow> (n, Inl e)
      | None \<Rightarrow>
          (let P = (\<lambda>h. is_open h \<and> successor_start (history n) h \<noteq> None) in
           (n\<lparr>history := update_where P (closed_row (history n)) (history n)\<rparr>, Inr (rows_affected P (history n)))))"

definition ResolveSessionSubscriber :: "faults \<Rightarrow> net \<Rightarrow> string \<Rightarrow> err + (int \<times> string)" where
  "ResolveSessionSubscriber flt n sessionID =
     (case flt ''ResolveSessionSubscriber'' of
        Some e \<Rightarrow> Inl (Err e)
      | None \<Rightarrow>
          (case find (\<lambda>h. h_session h = sessionID \<and> is_open h) (history n) of
             None \<Rightarrow> Inl ErrNotFound
           | Some h \<Rightarrow> Inr (h_subscriber h, h_nas h)))"

section \<open>Lawful-intercept lookups\<close>

record LEAResult =
  lr_SubscriberID :: int
  lr_SessionID :: string
  lr_CAFNumber :: string
  lr_Username :: string
  lr_MobileNumber :: string
  lr_RegisteredState :: string
  lr_Start :: time
  lr_Stop :: "time option"
  lr_Source :: string

record cgnat_row =
  cg_subscriber :: int
  cg_ip :: string
  cg_port_start :: int
  cg_port_end :: int
  cg_allocated :: time
  cg_released :: "time option"

text \<open>\<open>ORDER BY t DESC LIMIT 1\<close>.\<close>

definition latest_by :: "('r \<Rightarrow> time) \<Rightarrow> 'r list \<Rightarrow> 'r option" where
  "latest_by t rows = (case sort_key (\<lambda>r. - t r) rows of [] \<Rightarrow> None | r # _ \<Rightarrow> Some r)"

definition lea_result :: "'d subscriber \<Rightarrow> string \<Rightarrow> time \<Rightarrow> time option \<Rightarrow> string \<Rightarrow> LEAResult" where
  "lea_result s sid start stop src =
     \<lparr>lr_SubscriberID = sub_id s, lr_SessionID = sid, lr_CAFNumber = sub_caf s,
      lr_Username = sub_username s, lr_MobileNumber = sub_mobile s,
      lr_RegisteredState = sub_state s, lr_Start = start, lr_Stop = stop, lr_Source = src\<rparr>"

definition lookupDirectIP :: "(string \<Rightarrow> string option) \<Rightarrow> faults \<Rightarrow> 'd db \<Rightarrow> net \<Rightarrow> string \<Rightarrow> time \<Rightarrow> string + LEAResult option" where
  "lookupDirectIP inet flt db n publicIP atTime =
     (case (flt ''lookupDirectIP'', inet publicIP) of
        (Some e, _) \<Rightarrow> Inl e
      | (None, None) \<Rightarrow> Inl ''invalid input syntax''
      | (None, Some ip) \<Rightarrow>
          (case latest_by h_start (filter (\<lambda>h. h_ipv4 h = Some ip \<and> h_start h \<le> atTime
                                            \<and> find_subscriber db (h_subscriber h) \<noteq> None) (history n)) of
             None \<Rightarrow> Inr None
           | Some h \<Rightarrow>
               if (case h_stop h of None \<Rightarrow> False | Some t \<Rightarrow> t < atTime) then Inr None
               else Inr (map_option (\<lambda>s. lea_result s (h_session h) (h_start h) (h_stop h) ''direct_ip'')
                           (find_subscriber db (h_subscriber h)))))"

definition lookupCGNAT ::
  "(string \<Rightarrow> string option) \<Rightarrow> faults \<Rightarrow> 'd db \<Rightarrow> cgnat_row list \<Rightarrow> string \<Rightarrow> int \<Rightarrow> time \<Rightarrow> string + LEAResult option" where
  "lookupCGNAT inet flt db cgnat publicIP port atTime =
     (case (flt ''lookupCGNAT'', inet publicIP) of
        (Some e, _) \<Rightarrow> Inl e
      | (None, None) \<Rightarrow> Inl ''invalid input syntax''
      | (None, Some ip) \<Rightarrow>
          (case latest_by cg_allocated (filter (\<lambda>c. cg_ip c = ip \<and> cg_port_start c \<le> port \<and> port \<le> cg_port_end c
                   \<and> cg_allocated c \<le> atTime \<and> find_subscriber db (cg_subscriber c) \<noteq> None) cgnat) of
             None \<Rightarrow> Inr None
           | Some c \<Rightarrow>
               if (case cg_released c of None \<Rightarrow> False | Some t \<Rightarrow> t < atTime) then Inr None
               else Inr (map_option (\<lambda>s. lea_result s [] (cg_allocated c) (cg_released c) ''cgnat'')
                           (find_subscriber db (cg_subscriber c)))))"

definition LookupByPublicIP ::
  "(string \<Rightarrow> string option) \<Rightarrow> faults \<Rightarrow> 'd db \<Rightarrow> net \<Rightarrow> cgnat_row list \<Rightarrow> string \<Rightarrow> int option \<Rightarrow> time
   \<Rightarrow> string + LEAResult option" where
  "LookupByPublicIP inet flt db n cgnat publicIP port atTime =
     (case port of
        Some p \<Rightarrow> lookupCGNAT inet flt db cgnat publicIP p atTime
      | None \<Rightarrow> lookupDirectIP inet flt db n publicIP atTime)"

section \<open>Live sessions\<close>

definition SessionTTL :: duration where "SessionTTL = 30 * Minute"

record LiveSession =
  ls_SessionID :: string
  ls_SubscriberID :: int
  ls_NasIP :: string
  ls_AssignedIP :: string
  ls_BytesTotal :: int
  ls_SpeedProfile :: string
  ls_FUPThrottled :: bool

definition Live_Put :: "faults \<Rightarrow> time \<Rightarrow> net \<Rightarrow> LiveSession \<Rightarrow> net \<times> (string + unit)" where
  "Live_Put flt now n s =
     (case flt ''Live.Put'' of
        Some e \<Rightarrow> (n, Inl e)
      | None \<Rightarrow>
          (let row = \<lparr>lv_subscriber = ls_SubscriberID s, lv_session = ls_SessionID s, lv_nas = ls_NasIP s,
                      lv_assigned = ls_AssignedIP s, lv_in = 0, lv_out = 0, lv_total = ls_BytesTotal s,
                      lv_speed = ls_SpeedProfile s, lv_throttled = ls_FUPThrottled s, lv_started = now,
                      lv_updated = now\<rparr>
           in if list_ex (\<lambda>r. lv_subscriber r = ls_SubscriberID s) (live n)
              then (n\<lparr>live := update_where (\<lambda>r. lv_subscriber r = ls_SubscriberID s) (\<lambda>_. row) (live n)\<rparr>, Inr ())
              else (n\<lparr>live := live n @ [row]\<rparr>, Inr ())))"

definition Live_UpdateOctets :: "faults \<Rightarrow> time \<Rightarrow> net \<Rightarrow> string \<Rightarrow> int \<Rightarrow> int \<Rightarrow> net \<times> (string + unit)" where
  "Live_UpdateOctets flt now n sessionID inOct outOct =
     (case flt ''Live.UpdateOctets'' of
        Some e \<Rightarrow> (n, Inl e)
      | None \<Rightarrow> (n\<lparr>live := update_where (\<lambda>r. lv_session r = sessionID)
                        (\<lambda>r. r\<lparr>lv_in := inOct, lv_out := outOct, lv_updated := now\<rparr>) (live n)\<rparr>, Inr ()))"

definition Live_Delete :: "faults \<Rightarrow> net \<Rightarrow> int \<Rightarrow> net \<times> (string + unit)" where
  "Live_Delete flt n subscriberID =
     (case flt ''Live.Delete'' of
        Some e \<Rightarrow> (n, Inl e)
      | None \<Rightarrow> (n\<lparr>live := delete_where (\<lambda>r. lv_subscriber r = subscriberID) (live n)\<rparr>, Inr ()))"

definition Live_DeleteBySessionID :: "faults \<Rightarrow> net \<Rightarrow> string \<Rightarrow> net \<times> (string + unit)" where
  "Live_DeleteBySessionID flt n sessionID =
     (case flt ''Live.DeleteBySessionID'' of
        Some e \<Rightarrow> (n, Inl e)
      | None \<Rightarrow> (n\<lparr>live := delete_where (\<lambda>r. lv_session r = sessionID) (live n)\<rparr>, Inr ()))"

definition Live_UpdateSpeedProfile :: "faults \<Rightarrow> time \<Rightarrow> net \<Rightarrow> string \<Rightarrow> string \<Rightarrow> net \<times> (string + unit)" where
  "Live_UpdateSpeedProfile flt now n sessionID rateLimit =
     (case flt ''Live.UpdateSpeedProfile'' of
        Some e \<Rightarrow> (n, Inl e)
      | None \<Rightarrow> (n\<lparr>live := update_where (\<lambda>r. lv_session r = sessionID)
                        (\<lambda>r. r\<lparr>lv_speed := rateLimit, lv_updated := now\<rparr>) (live n)\<rparr>, Inr ()))"

definition Live_get :: "faults \<Rightarrow> time \<Rightarrow> net \<Rightarrow> int \<Rightarrow> string + live_row option" where
  "Live_get flt now n subscriberID =
     (case flt ''Live.get'' of
        Some e \<Rightarrow> Inl e
      | None \<Rightarrow> Inr (find (\<lambda>r. lv_subscriber r = subscriberID \<and> now - SessionTTL < lv_updated r) (live n)))"

definition Live_sweep :: "faults \<Rightarrow> time \<Rightarrow> net \<Rightarrow> net" where
  "Live_sweep flt now n =
     (case flt ''Live.sweep'' of
        Some _ \<Rightarrow> n
      | None \<Rightarrow> n\<lparr>live := delete_where (\<lambda>r. lv_updated r < now - SessionTTL) (live n)\<rparr>)"

definition BytesUsed :: "live_row \<Rightarrow> int" where "BytesUsed r = lv_in r + lv_out r"

text \<open>
  \<open>PctUsed\<close> divides decimals and truncates. The decimal package keeps sixteen places, so the truncated
  quotient is the integer one for every quota below \<open>10 ^ 16\<close> bytes.
\<close>

definition PctUsed :: "live_row \<Rightarrow> int" where
  "PctUsed r = (if lv_total r \<le> 0 then 0 else go_div (BytesUsed r * 100) (lv_total r))"

definition formatAge :: "duration \<Rightarrow> string" where
  "formatAge d0 =
     (let d = max 0 d0; hours = d div Hour; minutes = (d div Minute) mod 60 in
      if 0 < hours then show_int hours @ ''h'' @ show_int minutes @ ''m'' else show_int minutes @ ''m'')"

section \<open>Lawful-intercept audit\<close>

record LEAAuditEntry =
  la_AccessorIdentity :: string
  la_AccessorRole :: string
  la_QueriedPublicIP :: string
  la_QueriedPort :: "int option"
  la_QueriedTimestamp :: time
  la_ResultSubscriberID :: "int option"
  la_ResultRowCount :: int

definition RecordLEAAudit ::
  "(string \<Rightarrow> string option) \<Rightarrow> faults \<Rightarrow> LEAAuditEntry list \<Rightarrow> LEAAuditEntry \<Rightarrow> LEAAuditEntry list \<times> (string + unit)" where
  "RecordLEAAudit inet flt audit entry =
     (case (flt ''RecordLEAAudit'', inet (la_QueriedPublicIP entry)) of
        (Some e, _) \<Rightarrow> (audit, Inl e)
      | (None, None) \<Rightarrow> (audit, Inl ''invalid input syntax'')
      | (None, Some ip) \<Rightarrow> (audit @ [entry\<lparr>la_QueriedPublicIP := ip\<rparr>], Inr ()))"

section \<open>Accounting requests\<close>

datatype AcctStatusType = Acct_Start | Acct_Stop | Acct_InterimUpdate | Acct_On | Acct_Off | Acct_Other nat

text \<open>
  The accounting attributes of a request. The addresses are the strings the attribute accessors
  print, the prefixes likewise, and \<open>aq_TerminateCause\<close> the name the generated \<open>String\<close> gives the cause.
\<close>

record AcctRequest = Request +
  aq_StatusType :: AcctStatusType
  aq_SessionID :: string
  aq_InputOctets :: "32 word"
  aq_OutputOctets :: "32 word"
  aq_InputGigawords :: "32 word"
  aq_OutputGigawords :: "32 word"
  aq_NASIPAddress :: "string option"
  aq_FramedIPAddress :: "string option"
  aq_DelegatedIPv6Prefix :: "string option"
  aq_FramedIPv6Prefix :: "string option"
  aq_TerminateCause :: string

fun acctStatusLabel :: "AcctStatusType \<Rightarrow> string" where
  "acctStatusLabel Acct_Start = ''start''"
| "acctStatusLabel Acct_InterimUpdate = ''interim''"
| "acctStatusLabel Acct_Stop = ''stop''"
| "acctStatusLabel Acct_On = ''on''"
| "acctStatusLabel Acct_Off = ''off''"
| "acctStatusLabel (Acct_Other n) = ''other''"

definition acct_counter :: "32 word \<Rightarrow> 32 word \<Rightarrow> 64 word" where
  "acct_counter gigawords octets = or (push_bit 32 (ucast gigawords)) (ucast octets)"

definition acctOctets :: "AcctRequest \<Rightarrow> 64 word \<times> 64 word" where
  "acctOctets p = (acct_counter (aq_InputGigawords p) (aq_InputOctets p),
                   acct_counter (aq_OutputGigawords p) (aq_OutputOctets p))"

definition accountingNASIP :: "(string \<Rightarrow> string option) \<Rightarrow> AcctRequest \<Rightarrow> string" where
  "accountingNASIP splitHost r =
     (case aq_NASIPAddress r of
        Some ip \<Rightarrow> ip
      | None \<Rightarrow> (case rq_RemoteAddr r of
                  None \<Rightarrow> []
                | Some addr \<Rightarrow> (case splitHost addr of Some host \<Rightarrow> host | None \<Rightarrow> addr)))"

definition framedIP :: "AcctRequest \<Rightarrow> string" where
  "framedIP p = (case aq_FramedIPAddress p of Some ip \<Rightarrow> ip | None \<Rightarrow> [])"

definition framedIPv6Prefix :: "AcctRequest \<Rightarrow> string" where
  "framedIPv6Prefix p =
     (case aq_DelegatedIPv6Prefix p of
        Some pfx \<Rightarrow> pfx
      | None \<Rightarrow> (case aq_FramedIPv6Prefix p of Some pfx \<Rightarrow> pfx | None \<Rightarrow> []))"

section \<open>The accounting handler\<close>

text \<open>
  What the handler is wired to besides the daemon: which optional stores are set, and the parsers
  behind the casts and \<open>net.SplitHostPort\<close>.
\<close>

record AcctEnv =
  ae_env :: RadiusEnv
  ae_acctDB :: bool
  ae_grantUsageDB :: bool
  ae_liveSessions :: bool
  ae_inet :: "string \<Rightarrow> string option"
  ae_cidr :: "string \<Rightarrow> string option"
  ae_splitHost :: "string \<Rightarrow> string option"

text \<open>
  The state the handler changes: the retransmission cache, the two tables, the voucher grants and the
  counters (\<open>radius_acct_processed_total\<close> by label pair, \<open>radius_acct_unmatched_total\<close>,
  \<open>radius_dedup_skipped_total\<close>).
\<close>

record 'd acct =
  ac_dedup :: "unit Store option"
  ac_net :: net
  ac_hotspot :: "'d hotspot"
  ac_processed :: "(string \<times> string) list"
  ac_unmatched :: nat
  ac_dedupSkipped :: nat

definition processed :: "string \<Rightarrow> string \<Rightarrow> 'd acct \<Rightarrow> 'd acct" where
  "processed status outcome st = st\<lparr>ac_processed := ac_processed st @ [(status, outcome)]\<rparr>"

definition unmatched :: "string \<Rightarrow> 'd acct \<Rightarrow> 'd acct" where
  "unmatched status st = processed status ''unmatched'' (st\<lparr>ac_unmatched := ac_unmatched st + 1\<rparr>)"

definition acct_nasID :: "RadiusEnv \<Rightarrow> AcctRequest \<Rightarrow> int" where
  "acct_nasID env r = (case en_nasResolver env of None \<Rightarrow> 0 | Some res \<Rightarrow> dev_ID (ResolveAddr res (rq_RemoteAddr r)))"

definition meterVoucherSession ::
  "AcctEnv \<Rightarrow> AcctRequest \<Rightarrow> string \<Rightarrow> string \<Rightarrow> int \<Rightarrow> 'd acct \<Rightarrow> 'd acct \<times> bool" where
  "meterVoucherSession ae r sessionID status totalOctets st =
     (let env = ae_env ae in
      if \<not> ae_grantUsageDB ae then (st, False)
      else case NormaliseMAC (rq_UserName r) of
        None \<Rightarrow> (st, False)
      | Some mac \<Rightarrow>
          if (case en_mabDB env of
                None \<Rightarrow> False
              | Some authorizeMAC \<Rightarrow>
                  (case authorizeMAC mac (acct_nasID env r) of
                     Inl _ \<Rightarrow> True
                   | Inr None \<Rightarrow> False
                   | Inr (Some sub) \<Rightarrow> s_ID sub \<noteq> 0))
          then (st, False)
          else case RecordGrantUsage (ae_inet ae) (en_faults env) (en_now env) (ac_hotspot st) mac sessionID
                      (accountingNASIP (ae_splitHost ae) r) totalOctets of
            (hs, Inl _) \<Rightarrow> (processed status ''error'' (st\<lparr>ac_hotspot := hs\<rparr>), True)
          | (hs, Inr False) \<Rightarrow> (unmatched status (st\<lparr>ac_hotspot := hs\<rparr>), True)
          | (hs, Inr True) \<Rightarrow> (processed status ''metered_voucher'' (st\<lparr>ac_hotspot := hs\<rparr>), True))"

definition resolveAccountingSubscriber :: "RadiusEnv \<Rightarrow> AcctRequest \<Rightarrow> Subscriber option" where
  "resolveAccountingSubscriber env r =
     (let username = rq_UserName r in
      if username = [] then None
      else case (NormaliseMAC username, en_mabDB env) of
        (Some mac, Some authorizeMAC) \<Rightarrow>
          (case authorizeMAC mac (acct_nasID env r) of
             Inl _ \<Rightarrow> None
           | Inr None \<Rightarrow> None
           | Inr (Some sub) \<Rightarrow> if s_ID sub = 0 then None else Some sub)
      | _ \<Rightarrow> (case en_db env username of Inl _ \<Rightarrow> None | Inr s \<Rightarrow> s))"

text \<open>Go's \<open>int64\<close> product wraps.\<close>

definition bytes_of_gb :: "int \<Rightarrow> int" where
  "bytes_of_gb gb = sint (word_of_int gb * 1073741824 :: 64 word)"

definition acctStart :: "AcctEnv \<Rightarrow> AcctRequest \<Rightarrow> string \<Rightarrow> string \<Rightarrow> 'd acct \<Rightarrow> 'd acct" where
  "acctStart ae r sessionID status st =
     (let env = ae_env ae in
      case resolveAccountingSubscriber env r of
        None \<Rightarrow> processed status ''unresolved_subscriber'' st
      | Some sub \<Rightarrow>
          (let nasIP = accountingNASIP (ae_splitHost ae) r; assignedIP = framedIP r in
           case StartSession (ae_inet ae) (ae_cidr ae) (en_faults env) (en_now env) (ac_net st) (s_ID sub) sessionID
                  nasIP assignedIP (framedIPv6Prefix r) of
             (n, Inl _) \<Rightarrow> processed status ''error'' (st\<lparr>ac_net := n\<rparr>)
           | (n, Inr _) \<Rightarrow>
               (let st' = processed status ''persisted'' (st\<lparr>ac_net := n\<rparr>) in
                if \<not> ae_liveSessions ae then st'
                else st'\<lparr>ac_net := fst (Live_Put (en_faults env) (en_now env) n
                       \<lparr>ls_SessionID = sessionID, ls_SubscriberID = s_ID sub, ls_NasIP = nasIP,
                        ls_AssignedIP = assignedIP, ls_BytesTotal = bytes_of_gb (s_VolumeGB sub),
                        ls_SpeedProfile = s_RateLimitStr sub, ls_FUPThrottled = s_FUPActive sub\<rparr>)\<rparr>)))"

definition acctUpdate :: "AcctEnv \<Rightarrow> string \<Rightarrow> string \<Rightarrow> int \<Rightarrow> int \<Rightarrow> 'd acct \<Rightarrow> 'd acct" where
  "acctUpdate ae sessionID status inOct outOct st =
     (let flt = en_faults (ae_env ae) in
      case UpdateSessionOctets flt (ac_net st) sessionID inOct outOct of
        (n, Inl _) \<Rightarrow> processed status ''error'' (st\<lparr>ac_net := n\<rparr>)
      | (n, Inr False) \<Rightarrow> unmatched status (st\<lparr>ac_net := n\<rparr>)
      | (n, Inr True) \<Rightarrow>
          (let st' = processed status ''persisted'' (st\<lparr>ac_net := n\<rparr>) in
           if \<not> ae_liveSessions ae then st'
           else st'\<lparr>ac_net := fst (Live_UpdateOctets flt (en_now (ae_env ae)) n sessionID inOct outOct)\<rparr>))"

definition acctStop :: "AcctEnv \<Rightarrow> AcctRequest \<Rightarrow> string \<Rightarrow> string \<Rightarrow> int \<Rightarrow> int \<Rightarrow> 'd acct \<Rightarrow> 'd acct" where
  "acctStop ae r sessionID status inOct outOct st =
     (let flt = en_faults (ae_env ae) in
      case StopSession flt (en_now (ae_env ae)) (ac_net st) sessionID inOct outOct (aq_TerminateCause r) of
        (n, Inl _) \<Rightarrow> processed status ''error'' (st\<lparr>ac_net := n\<rparr>)
      | (n, Inr False) \<Rightarrow> unmatched status (st\<lparr>ac_net := n\<rparr>)
      | (n, Inr True) \<Rightarrow>
          (let st' = processed status ''persisted'' (st\<lparr>ac_net := n\<rparr>) in
           if \<not> ae_liveSessions ae then st'
           else st'\<lparr>ac_net := fst (Live_DeleteBySessionID flt n sessionID)\<rparr>))"

definition dedup_key :: "string \<Rightarrow> string \<Rightarrow> int \<Rightarrow> int \<Rightarrow> string" where
  "dedup_key sessionID status inOct outOct =
     ''acct_dedup:'' @ sessionID @ '':'' @ status @ '':'' @ show_int inOct @ '':'' @ show_int outOct"

text \<open>The part of \<open>handleAccounting\<close> behind the retransmission check.\<close>

definition acct_record :: "AcctEnv \<Rightarrow> AcctRequest \<Rightarrow> 'd acct \<Rightarrow> 'd acct" where
  "acct_record ae r st =
     (let status = acctStatusLabel (aq_StatusType r); sessionID = aq_SessionID r; (i, p) = acctOctets r in
      if \<not> ae_acctDB ae then processed status ''no_store'' st
      else case meterVoucherSession ae r sessionID status (sint (i + p)) st of
        (st', True) \<Rightarrow> st'
      | (st', False) \<Rightarrow>
          (case aq_StatusType r of
             Acct_Start \<Rightarrow> acctStart ae r sessionID status st'
           | Acct_InterimUpdate \<Rightarrow> acctUpdate ae sessionID status (sint i) (sint p) st'
           | Acct_Stop \<Rightarrow> acctStop ae r sessionID status (sint i) (sint p) st'
           | _ \<Rightarrow> processed status ''ignored'' st'))"

definition handleAccounting :: "AcctEnv \<Rightarrow> AcctRequest \<Rightarrow> 'd acct \<Rightarrow> 'd acct \<times> Packet list" where
  "handleAccounting ae r st =
     (let status = acctStatusLabel (aq_StatusType r); (i, p) = acctOctets r in
      (if aq_StatusType r = Acct_On \<or> aq_StatusType r = Acct_Off then processed status ''acknowledged'' st
       else if aq_SessionID r = [] then processed status ''no_session_id'' st
       else case ac_dedup st of
         None \<Rightarrow> acct_record ae r st
       | Some dedup \<Rightarrow>
           (case Store_TrySet (en_now (ae_env ae)) dedup (dedup_key (aq_SessionID r) status (sint i) (sint p)) ()
                   (30 * Second) of
              (dedup', False) \<Rightarrow> st\<lparr>ac_dedup := Some dedup', ac_dedupSkipped := ac_dedupSkipped st + 1\<rparr>
            | (dedup', True) \<Rightarrow> acct_record ae r (st\<lparr>ac_dedup := Some dedup'\<rparr>)),
       [Response AccountingResponse]))"


section \<open>What the tables keep\<close>

text \<open>The events that change the tables: a request, the supersession pass, the staleness sweep.\<close>

datatype net_call = NRequest AcctEnv AcctRequest | NClose faults | NSweep faults time

fun run_net :: "'d acct \<Rightarrow> net_call list \<Rightarrow> 'd acct" where
  "run_net st [] = st"
| "run_net st (NRequest ae r # cs) = run_net (fst (handleAccounting ae r st)) cs"
| "run_net st (NClose flt # cs) = run_net (st\<lparr>ac_net := fst (CloseSupersededSessions flt (ac_net st))\<rparr>) cs"
| "run_net st (NSweep flt t # cs) = run_net (st\<lparr>ac_net := Live_sweep flt t (ac_net st)\<rparr>) cs"

definition open_sessions :: "net \<Rightarrow> string list" where
  "open_sessions n = map h_session (filter is_open (history n))"

definition net_inv :: "net \<Rightarrow> bool" where
  "net_inv n \<longleftrightarrow> distinct (open_sessions n) \<and> distinct (map lv_subscriber (live n))
     \<and> distinct (map h_id (history n)) \<and> (\<forall>h \<in> set (history n). h_id h < history_seq n)"

lemma distinct_open_sessions:
  assumes "\<And>h. h_session (f h) = h_session h" and "\<And>h. P h \<Longrightarrow> is_open (f h) \<Longrightarrow> is_open h"
    and "distinct (map h_session (filter is_open hs))"
  shows "distinct (map h_session (filter is_open (update_where P f hs)))"
proof -
  let ?g = "\<lambda>h. if P h then f h else h"
  have "map h_session (filter is_open (update_where P f hs)) = map (h_session \<circ> ?g) (filter (is_open \<circ> ?g) hs)"
    by (simp add: update_where_def filter_map)
  moreover have "h_session \<circ> ?g = h_session" using assms(1) by auto
  moreover have "filter (is_open \<circ> ?g) hs = filter (is_open \<circ> ?g) (filter is_open hs)"
    unfolding filter_filter using assms(2) by (intro filter_cong) (auto split: if_splits)
  ultimately have "map h_session (filter is_open (update_where P f hs))
      = map h_session (filter (is_open \<circ> ?g) (filter is_open hs))" by (simp only:)
  with distinct_map_filter [OF assms(3), of "is_open \<circ> ?g"] show ?thesis by (simp only:)
qed

lemma net_inv_update:
  assumes "\<And>h. h_session (f h) = h_session h" and "\<And>h. h_id (f h) = h_id h"
    and "\<And>h. P h \<Longrightarrow> is_open (f h) \<Longrightarrow> is_open h" and "net_inv n"
  shows "net_inv (n\<lparr>history := update_where P f (history n)\<rparr>)"
proof -
  have "set (map h_id (update_where P f (history n))) = set (map h_id (history n))"
    using map_update_where [of P h_id f] assms(2) by simp
  then have "\<forall>h \<in> set (update_where P f (history n)). h_id h < history_seq n"
    using assms(4) unfolding net_inv_def set_map by (metis (no_types, lifting) imageE imageI)
  with assms show ?thesis
    by (simp add: net_inv_def open_sessions_def distinct_open_sessions map_update_where)
qed

lemma net_inv_StartSession:
  assumes "net_inv n"
  shows "net_inv (fst (StartSession inet cidr flt now n i sid nas v4 v6))"
proof -
  have "sid \<notin> set (open_sessions n)" if "\<not> list_ex (\<lambda>h. h_session h = sid \<and> is_open h) (history n)"
    using that by (auto simp: open_sessions_def list_ex_iff)
  with assms show ?thesis
    by (auto simp: StartSession_def net_inv_def open_sessions_def is_open_def less_le_trans
        split: option.splits sum.splits)
qed

lemma net_inv_live: "net_inv n \<Longrightarrow> distinct (map lv_subscriber l) \<Longrightarrow> net_inv (n\<lparr>live := l\<rparr>)"
  by (simp add: net_inv_def open_sessions_def)

lemma distinct_delete_where: "distinct (map g xs) \<Longrightarrow> distinct (map g (delete_where P xs))"
  by (simp add: delete_where_def distinct_map_filter)

lemma net_inv_Live_Put: "net_inv n \<Longrightarrow> net_inv (fst (Live_Put flt now n s))"
proof -
  assume n: "net_inv n"
  let ?P = "\<lambda>r. lv_subscriber r = ls_SubscriberID s"
  have "map lv_subscriber (update_where ?P (\<lambda>_. row) (live n)) = map lv_subscriber (live n)"
    if "lv_subscriber row = ls_SubscriberID s" for row
    using that by (simp add: update_where_def)
  moreover have "distinct (map lv_subscriber (live n))" using n by (simp add: net_inv_def)
  ultimately show ?thesis
    using n by (auto simp: Live_Put_def Let_def list_ex_iff image_iff intro!: net_inv_live split: option.split) blast
qed

lemma net_inv_Live_UpdateOctets: "net_inv n \<Longrightarrow> net_inv (fst (Live_UpdateOctets flt now n sid i p))"
  by (simp add: Live_UpdateOctets_def map_update_where net_inv_live net_inv_def [of n] split: option.split)

lemma net_inv_Live_DeleteBySessionID: "net_inv n \<Longrightarrow> net_inv (fst (Live_DeleteBySessionID flt n sid))"
  by (simp add: Live_DeleteBySessionID_def distinct_delete_where net_inv_live net_inv_def [of n] split: option.split)

lemma net_inv_Live_sweep: "net_inv n \<Longrightarrow> net_inv (Live_sweep flt now n)"
  by (simp add: Live_sweep_def distinct_delete_where net_inv_live net_inv_def [of n] split: option.split)

lemma net_inv_UpdateSessionOctets: "net_inv n \<Longrightarrow> net_inv (fst (UpdateSessionOctets flt n sid i p))"
  by (auto simp: UpdateSessionOctets_def Let_def is_open_def intro!: net_inv_update split: option.split)

lemma net_inv_StopSession: "net_inv n \<Longrightarrow> net_inv (fst (StopSession flt now n sid i p c))"
  by (auto simp: StopSession_def Let_def is_open_def stopped_row_def intro!: net_inv_update split: option.split)

lemma net_inv_CloseSupersededSessions: "net_inv n \<Longrightarrow> net_inv (fst (CloseSupersededSessions flt n))"
  by (auto simp: CloseSupersededSessions_def Let_def is_open_def closed_row_def intro!: net_inv_update
      split: option.split)

lemmas net_inv_intros = net_inv_StartSession net_inv_Live_Put net_inv_Live_UpdateOctets
  net_inv_Live_DeleteBySessionID net_inv_Live_sweep net_inv_UpdateSessionOctets net_inv_StopSession
  net_inv_CloseSupersededSessions

lemma ac_net_processed [simp]:
  "ac_net (processed s o' st) = ac_net st" "ac_net (unmatched s st) = ac_net st"
  "ac_dedup (processed s o' st) = ac_dedup st" "ac_dedup (unmatched s st) = ac_dedup st"
  by (simp_all add: processed_def unmatched_def)


lemma net_inv_acctStart: "net_inv (ac_net st) \<Longrightarrow> net_inv (ac_net (acctStart ae r sid status st))"
proof -
  assume inv: "net_inv (ac_net st)"
  have "net_inv n" if "StartSession inet cidr flt now (ac_net st) i sid nas v4 v6 = (n, res)"
    for n res inet cidr flt now i nas v4 v6
    using net_inv_StartSession [OF inv, of inet cidr flt now i sid nas v4 v6] that by simp
  then show ?thesis
    using inv by (simp add: acctStart_def Let_def net_inv_Live_Put split: option.split prod.split sum.split)
qed

lemma net_inv_acctUpdate: "net_inv (ac_net st) \<Longrightarrow> net_inv (ac_net (acctUpdate ae sid status i p st))"
proof -
  assume inv: "net_inv (ac_net st)"
  have "net_inv n" if "UpdateSessionOctets flt (ac_net st) sid i p = (n, res)" for n res flt
    using net_inv_UpdateSessionOctets [OF inv, of flt sid i p] that by simp
  then show ?thesis
    using inv by (simp add: acctUpdate_def Let_def net_inv_Live_UpdateOctets split: prod.split sum.split bool.split)
qed

lemma net_inv_acctStop: "net_inv (ac_net st) \<Longrightarrow> net_inv (ac_net (acctStop ae r sid status i p st))"
proof -
  assume inv: "net_inv (ac_net st)"
  have "net_inv n" if "StopSession flt now (ac_net st) sid i p c = (n, res)" for n res flt now c
    using net_inv_StopSession [OF inv, of flt now sid i p c] that by simp
  then show ?thesis
    using inv by (simp add: acctStop_def Let_def net_inv_Live_DeleteBySessionID split: prod.split sum.split bool.split)
qed

lemma ac_net_meterVoucherSession [simp]: "ac_net (fst (meterVoucherSession ae r sid status k st)) = ac_net st"
  by (simp add: meterVoucherSession_def Let_def split: option.split prod.split sum.split bool.split)

lemma net_inv_acct_record: "net_inv (ac_net st) \<Longrightarrow> net_inv (ac_net (acct_record ae r st))"
proof -
  assume inv: "net_inv (ac_net st)"
  have "net_inv (ac_net st')" if "meterVoucherSession ae r sid status k st = (st', b)" for sid status k st' b
    using inv ac_net_meterVoucherSession [of ae r sid status k st] that by simp
  then show ?thesis
    using inv by (auto simp: acct_record_def Let_def net_inv_acctStart net_inv_acctUpdate net_inv_acctStop
        split: prod.split bool.split AcctStatusType.split)
qed

lemma net_inv_handleAccounting: "net_inv (ac_net st) \<Longrightarrow> net_inv (ac_net (fst (handleAccounting ae r st)))"
  by (auto simp: handleAccounting_def Let_def net_inv_acct_record split: prod.split option.split bool.split)



section \<open>Retransmissions\<close>

definition records :: "AcctRequest \<Rightarrow> bool" where
  "records r \<longleftrightarrow> aq_StatusType r \<noteq> Acct_On \<and> aq_StatusType r \<noteq> Acct_Off \<and> aq_SessionID r \<noteq> []"

definition request_key :: "AcctRequest \<Rightarrow> string" where
  "request_key r = dedup_key (aq_SessionID r) (acctStatusLabel (aq_StatusType r))
                     (sint (fst (acctOctets r))) (sint (snd (acctOctets r)))"

text \<open>The request passes the retransmission check.\<close>

definition admits :: "AcctEnv \<Rightarrow> AcctRequest \<Rightarrow> unit Store \<Rightarrow> bool" where
  "admits ae r s = snd (Store_TrySet (en_now (ae_env ae)) s (request_key r) () (30 * Second))"

definition same_record :: "AcctRequest \<Rightarrow> AcctRequest \<Rightarrow> bool" where
  "same_record r r' \<longleftrightarrow> aq_SessionID r' = aq_SessionID r \<and> aq_StatusType r' = aq_StatusType r
     \<and> acctOctets r' = acctOctets r"

text \<open>The calls run before \<open>e\<close>.\<close>

fun before :: "time \<Rightarrow> net_call \<Rightarrow> bool" where
  "before e (NRequest ae r) = (en_now (ae_env ae) < e)"
| "before e _ = True"

definition held :: "string \<Rightarrow> time \<Rightarrow> 'd acct \<Rightarrow> bool" where
  "held key e st \<longleftrightarrow> (\<exists>s. ac_dedup st = Some s \<and> (\<forall>t < e. 0 < Store_TTL t s key))"

lemma ac_dedup_recorders [simp]:
  "ac_dedup (acctStart ae r sid status st) = ac_dedup st"
  "ac_dedup (acctUpdate ae sid status i p st) = ac_dedup st"
  "ac_dedup (acctStop ae r sid status i p st) = ac_dedup st"
  "ac_dedup (fst (meterVoucherSession ae r sid status k st)) = ac_dedup st"
  by (simp_all add: acctStart_def acctUpdate_def acctStop_def meterVoucherSession_def Let_def
      split: option.split prod.split sum.split bool.split)

lemma ac_dedup_acct_record [simp]: "ac_dedup (acct_record ae r st) = ac_dedup st"
  by (simp add: acct_record_def Let_def case_prod_beta split: bool.split AcctStatusType.split)

lemma ac_dedup_handleAccounting:
  "ac_dedup st = Some s \<Longrightarrow> ac_dedup (fst (handleAccounting ae r st)) =
     Some (if records r then fst (Store_TrySet (en_now (ae_env ae)) s (request_key r) () (30 * Second)) else s)"
  by (auto simp: handleAccounting_def records_def request_key_def Let_def split: prod.splits bool.splits)

lemma handleAccounting_held:
  assumes "held (request_key r) e st" and "en_now (ae_env ae) < e" and "records r"
  shows "handleAccounting ae r st = (st\<lparr>ac_dedupSkipped := ac_dedupSkipped st + 1\<rparr>, [Response AccountingResponse])"
proof -
  obtain s where s: "ac_dedup st = Some s" and "0 < Store_TTL (en_now (ae_env ae)) s (request_key r)"
    using assms(1,2) by (auto simp: held_def)
  then have "Store_TrySet (en_now (ae_env ae)) s (request_key r) () (30 * Second) = (s, False)"
    by (simp add: ts.try_set_cases)
  moreover have "st\<lparr>ac_dedup := Some s, ac_dedupSkipped := k\<rparr> = st\<lparr>ac_dedupSkipped := k\<rparr>" for k
    using s by (cases st) simp
  ultimately show ?thesis
    using s assms(3) by (simp add: handleAccounting_def records_def request_key_def case_prod_beta)
qed

lemma held_step:
  assumes "held key e st" and "before e c"
  shows "held key e (run_net st [c])"
proof (cases c)
  case (NRequest ae r)
  show ?thesis
  proof (cases "records r \<and> request_key r = key")
    case True
    then have "handleAccounting ae r st = (st\<lparr>ac_dedupSkipped := ac_dedupSkipped st + 1\<rparr>, [Response AccountingResponse])"
      using handleAccounting_held assms NRequest by auto
    with assms(1) NRequest show ?thesis by (simp add: held_def)
  next
    case False
    obtain s where s: "ac_dedup st = Some s" "\<forall>t < e. 0 < Store_TTL t s key" using assms(1) by (auto simp: held_def)
    have "Store_TTL t (fst (Store_TrySet u s k v d)) key = Store_TTL t s key" if "k \<noteq> key" for t u k v d
      using that by (simp add: ts.try_set_cases ts.ttl_set_other)
    with False s NRequest show ?thesis by (auto simp: held_def ac_dedup_handleAccounting [OF s(1)])
  qed
qed (use assms in \<open>simp_all add: held_def\<close>)

lemma held_run: "held key e st \<Longrightarrow> \<forall>c \<in> set cs. before e c \<Longrightarrow> held key e (run_net st cs)"
proof (induction cs arbitrary: st)
  case (Cons c cs)
  have "run_net st (c # cs) = run_net (run_net st [c]) cs" by (cases c) simp_all
  with Cons held_step [of key e st c] show ?case by simp
qed simp

text \<open>
  A retransmission is absorbed. Once a record has passed the check, then whatever other requests,
  supersession passes and sweeps follow, a record with the same session, type and counters that
  arrives within thirty seconds is acknowledged and changes nothing but the skipped counter.
\<close>

theorem retransmission_absorbed:
  assumes "ac_dedup st = Some s" and "records r" and "admits ae r s" and "same_record r r'"
    and "en_now (ae_env ae) + 30 * Second \<noteq> 0"
    and "\<forall>c \<in> set cs. before (en_now (ae_env ae) + 30 * Second) c"
    and "en_now (ae_env ae') < en_now (ae_env ae) + 30 * Second"
  shows "let st' = run_net (fst (handleAccounting ae r st)) cs in
         handleAccounting ae' r' st' = (st'\<lparr>ac_dedupSkipped := ac_dedupSkipped st' + 1\<rparr>, [Response AccountingResponse])"
proof -
  let ?e = "en_now (ae_env ae) + 30 * Second"
  have key: "request_key r' = request_key r" and "records r'"
    using assms(2,4) by (simp_all add: request_key_def same_record_def records_def)
  have "held (request_key r) ?e (fst (handleAccounting ae r st))"
    using assms(1-3,5) by (auto simp: held_def ac_dedup_handleAccounting admits_def ts.try_set_cases ts.ttl_set
        split: if_splits)
  then have "held (request_key r') ?e (run_net (fst (handleAccounting ae r st)) cs)"
    unfolding key using assms(6) by (rule held_run)
  with assms(7) \<open>records r'\<close> show ?thesis by (simp add: handleAccounting_held Let_def)
qed

section \<open>Counters\<close>

lemma uint_acct_counter: "uint (acct_counter g p) = uint g * 2 ^ 32 + uint p"
proof -
  have disj: "\<not> bit (push_bit 32 (uint g)) n \<or> \<not> bit (uint p) n" for n
    by (auto simp: bit_push_bit_iff bit_uint_iff dest: bit_imp_le_length)
  have lt: "uint g * 2 ^ 32 + uint p < 2 ^ 64"
    using uint_lt2p [of g] uint_lt2p [of p] by simp
  have tg: "take_bit 64 (uint g) = uint g"
    using uint_lt2p [of g] by (simp add: take_bit_int_eq_self_iff)
  have "uint (acct_counter g p) = take_bit 64 (or (push_bit 32 (uint g)) (uint p))"
    unfolding acct_counter_def by (simp add: unsigned_or_eq unsigned_push_bit_eq unsigned_ucast_eq tg)
  also have "or (push_bit 32 (uint g)) (uint p) = uint g * 2 ^ 32 + uint p"
    using disj by (subst disjunctive_add [symmetric]) (auto simp: push_bit_eq_mult)
  also have "take_bit 64 (uint g * 2 ^ 32 + uint p) = uint g * 2 ^ 32 + uint p"
    using lt by (simp add: take_bit_int_eq_self_iff)
  finally show ?thesis .
qed

lemma sint_acct_counter_iff: "sint (acct_counter g p) = uint g * 2 ^ 32 + uint p \<longleftrightarrow> uint g < 2 ^ 31"
proof -
  have "sint (acct_counter g p) = uint (acct_counter g p) \<longleftrightarrow> uint (acct_counter g p) < 2 ^ 63"
    by (auto simp: sint_uint signed_take_bit_int_eq_self_iff intro: order_trans [OF _ uint_ge_0])
  moreover have "x * 2 ^ 32 + y < 2 ^ 63 \<longleftrightarrow> x < 2 ^ 31" if "0 \<le> y" "y < 2 ^ 32" for x y :: int
    using that by simp linarith
  then have "uint g * 2 ^ 32 + uint p < 2 ^ 63 \<longleftrightarrow> uint g < 2 ^ 31" using uint_lt2p [of p] by simp
  ultimately show ?thesis unfolding uint_acct_counter by blast
qed

text \<open>
  The two accounting words of a direction combine to the full octet count, with nothing lost at the
  4 GiB wrap, exactly as long as fewer than \<open>2 ^ 31\<close> wraps are reported; from there on the signed
  conversion turns the count negative.
\<close>

theorem acctOctets_exact:
  "(sint (fst (acctOctets r)) = uint (aq_InputGigawords r) * 2 ^ 32 + uint (aq_InputOctets r)
      \<longleftrightarrow> uint (aq_InputGigawords r) < 2 ^ 31)
   \<and> (sint (snd (acctOctets r)) = uint (aq_OutputGigawords r) * 2 ^ 32 + uint (aq_OutputOctets r)
      \<longleftrightarrow> uint (aq_OutputGigawords r) < 2 ^ 31)"
  by (simp only: acctOctets_def fst_conv snd_conv sint_acct_counter_iff)


section \<open>Superseded sessions\<close>

definition same_line :: "session_row \<Rightarrow> session_row \<Rightarrow> bool" where
  "same_line a b \<longleftrightarrow> h_subscriber a = h_subscriber b \<and> h_nas a = h_nas b"

text \<open>The columns the supersession rule reads.\<close>

definition line_columns :: "session_row \<Rightarrow> int \<times> string \<times> time" where
  "line_columns h = (h_subscriber h, h_nas h, h_start h)"

lemma fold_min_le: "fold min ts t \<le> t \<and> (\<forall>u \<in> set ts. fold min ts t \<le> u)" for t :: int
proof (induction ts arbitrary: t)
  case (Cons u ts)
  from Cons [of "min u t"] show ?case by auto
qed simp

lemma fold_min_in: "fold min ts t \<in> insert t (set ts)" for t :: int
proof (induction ts arbitrary: t)
  case (Cons u ts)
  from Cons [of "min u t"] show ?case by (auto simp: min_def split: if_splits)
qed simp

lemma successor_start_columns:
  assumes "map line_columns hs = map line_columns hs'" and "line_columns a = line_columns a'"
  shows "successor_start hs a = successor_start hs' a'"
proof -
  have col: "map h_start (filter (\<lambda>b. h_subscriber b = h_subscriber a \<and> h_nas b = h_nas a \<and> h_start a < h_start b) hs)
    = map (snd \<circ> snd) (filter (\<lambda>(s, n, t). (s, n) = (fst (line_columns a), fst (snd (line_columns a)))
        \<and> snd (snd (line_columns a)) < t) (map line_columns hs))" for hs a
    by (induction hs) (auto simp: line_columns_def)
  show ?thesis unfolding successor_start_def col assms ..
qed

lemma successor_start_None:
  "successor_start hs a = None \<longleftrightarrow> (\<forall>b \<in> set hs. same_line b a \<longrightarrow> h_start b \<le> h_start a)"
proof -
  have "successor_start hs a = None \<longleftrightarrow>
      filter (\<lambda>b. h_subscriber b = h_subscriber a \<and> h_nas b = h_nas a \<and> h_start a < h_start b) hs = []"
    by (auto simp: successor_start_def split: list.split)
  then show ?thesis by (auto simp: filter_empty_conv same_line_def not_less)
qed

lemma successor_start_Some:
  assumes "successor_start hs a = Some t"
  shows "h_start a < t" and "\<exists>b \<in> set hs. same_line b a \<and> h_start b = t"
    and "\<And>b. b \<in> set hs \<Longrightarrow> same_line b a \<Longrightarrow> h_start a < h_start b \<Longrightarrow> t \<le> h_start b"
proof -
  let ?later = "filter (\<lambda>b. h_subscriber b = h_subscriber a \<and> h_nas b = h_nas a \<and> h_start a < h_start b) hs"
  obtain u us where u: "map h_start ?later = u # us" and t: "t = fold min us u"
    using assms by (auto simp: successor_start_def split: list.splits)
  have img: "h_start ` set ?later = insert u (set us)" using u by (metis list.simps(15) set_map)
  then have "t \<in> h_start ` set ?later" using fold_min_in [of us u] t by simp
  then show "h_start a < t" and "\<exists>b \<in> set hs. same_line b a \<and> h_start b = t"
    by (auto simp: same_line_def)
  show "t \<le> h_start b" if "b \<in> set hs" "same_line b a" "h_start a < h_start b" for b
  proof -
    have "h_start b \<in> insert u (set us)" unfolding img [symmetric] using that by (auto simp: same_line_def)
    with fold_min_le [of us u] t show ?thesis by auto
  qed
qed

lemma line_columns_closed [simp]: "line_columns (closed_row hs h) = line_columns h"
  by (simp add: line_columns_def closed_row_def)

text \<open>
  The supersession pass does what its comment argues for. Where no two sessions of one subscriber
  on one device begin at the same instant, it leaves at most one open row for each subscriber and
  device, the newest one; it changes no octet count, no identity and no start; each row it closes
  ends at the start of the next session, which is later than its own; every other row is as it was;
  and a second pass closes nothing.
\<close>

theorem close_superseded_settles:
  assumes "CloseSupersededSessions no_faults n = (n', Inr k)"
    and "\<forall>a \<in> set (history n). \<forall>b \<in> set (history n). same_line a b \<and> h_start a = h_start b \<longrightarrow> a = b"
  shows "(\<forall>a \<in> set (history n'). \<forall>b \<in> set (history n'). is_open a \<and> same_line a b \<longrightarrow>
            h_start b \<le> h_start a \<and> (is_open b \<longrightarrow> b = a))
       \<and> list_all2 (\<lambda>a b. if is_open a \<and> successor_start (history n) a \<noteq> None
            then b = a\<lparr>h_stop := h_stop b, h_cause := h_cause b\<rparr> \<and> (\<exists>t > h_start a. h_stop b = Some t)
            else b = a) (history n) (history n')
       \<and> CloseSupersededSessions no_faults n' = (n', Inr 0)"
proof -
  let ?hs = "history n"
  let ?P = "\<lambda>h. is_open h \<and> successor_start ?hs h \<noteq> None"
  have n': "n' = n\<lparr>history := update_where ?P (closed_row ?hs) ?hs\<rparr>"
    using assms(1) by (simp add: CloseSupersededSessions_def Let_def)
  have cols: "map line_columns (history n') = map line_columns ?hs"
    unfolding n' by (simp add: map_update_where)
  have rows: "list_all2 (\<lambda>a b. b = (if ?P a then closed_row ?hs a else a)) ?hs (history n')"
    unfolding n' by (simp add: update_where_def list.rel_map list_all2_same)
  have still: "a \<in> set ?hs \<and> successor_start ?hs a = None" if "a \<in> set (history n')" "is_open a" for a
    using that unfolding n' by (auto simp: update_where_def is_open_def closed_row_def split: if_splits)
  have settled: "successor_start (history n') a = None" if "a \<in> set (history n')" "is_open a" for a
    using still [OF that] successor_start_columns [OF cols, of a a] by simp
  have "rows_affected (\<lambda>h. is_open h \<and> successor_start (history n') h \<noteq> None) (history n') = 0"
    using settled by (auto simp: rows_affected_def filter_empty_conv)
  moreover have "update_where (\<lambda>h. is_open h \<and> successor_start (history n') h \<noteq> None) f (history n') = history n'" for f
    using settled by (auto simp: update_where_def intro!: map_idI)
  ultimately have "CloseSupersededSessions no_faults n' = (n', Inr 0)"
    by (simp add: CloseSupersededSessions_def Let_def)
  moreover have newest: "h_start b \<le> h_start a"
    if "a \<in> set (history n')" "b \<in> set (history n')" "is_open a" "same_line a b" for a b
    using settled [OF that(1,3)] that by (auto simp: successor_start_None same_line_def)
  moreover have "b = a" if "a \<in> set (history n')" "b \<in> set (history n')" "is_open a" "is_open b" "same_line a b" for a b
  proof -
    have "h_start b = h_start a" using newest [of a b] newest [of b a] that by (simp add: same_line_def)
    with still [of a] still [of b] that assms(2) show ?thesis by (metis (no_types, lifting))
  qed
  moreover have "list_all2 (\<lambda>a b. if ?P a
            then b = a\<lparr>h_stop := h_stop b, h_cause := h_cause b\<rparr> \<and> (\<exists>t > h_start a. h_stop b = Some t)
            else b = a) ?hs (history n')"
    using rows by (rule list_all2_mono)
      (auto simp: closed_row_def dest: successor_start_Some(1) split: if_splits)
  ultimately show ?thesis by blast
qed


section \<open>Who held this address\<close>

definition covers :: "time \<Rightarrow> session_row \<Rightarrow> bool" where
  "covers t h \<longleftrightarrow> h_start h \<le> t \<and> (case h_stop h of None \<Rightarrow> True | Some e \<Rightarrow> t \<le> e)"

definition ends_before :: "session_row \<Rightarrow> session_row \<Rightarrow> bool" where
  "ends_before a b \<longleftrightarrow> (case h_stop a of None \<Rightarrow> False | Some e \<Rightarrow> e < h_start b)"

text \<open>The sessions that held an address, each over before the next began.\<close>

definition one_holder :: "string \<Rightarrow> session_row list \<Rightarrow> bool" where
  "one_holder ip hs \<longleftrightarrow>
     (\<forall>a \<in> set hs. h_ipv4 a = Some ip \<longrightarrow> (case h_stop a of None \<Rightarrow> True | Some e \<Rightarrow> h_start a \<le> e)) \<and>
     (\<forall>a \<in> set hs. \<forall>b \<in> set hs. h_ipv4 a = Some ip \<and> h_ipv4 b = Some ip \<and> a \<noteq> b \<longrightarrow>
        ends_before a b \<or> ends_before b a)"

lemma latest_by_cases:
  obtains (none) "latest_by t rows = None" "rows = []"
    | (some) r where "latest_by t rows = Some r" "r \<in> set rows" "\<forall>x \<in> set rows. t x \<le> t r"
proof (cases "sort_key (\<lambda>r. - t r) rows")
  case Nil
  then have "rows = []" by (metis length_0_conv length_sort)
  with Nil show ?thesis using none by (simp add: latest_by_def)
next
  case (Cons r rs)
  have "set rows = insert r (set rs)" using Cons by (metis list.simps(15) set_sort)
  moreover have "\<forall>x \<in> set rs. t x \<le> t r"
    using sorted_sort_key [of "\<lambda>r. - t r" rows] Cons by auto
  ultimately show ?thesis using Cons some by (simp add: latest_by_def)
qed

text \<open>
  C29. Lawful-intercept attribution. As long as an address passes from one session to the next without
  overlap, and every session's subscriber is on file, the newest-start query names the subscriber
  whose session was up at the instant asked about, and answers "nobody" exactly when none was.
\<close>

theorem lea_direct_correct:
  assumes "inet publicIP = Some ip" and "one_holder ip (history n)"
    and "\<forall>h \<in> set (history n). find_subscriber db (h_subscriber h) \<noteq> None"
  shows "LookupByPublicIP inet no_faults db n cgnat publicIP None t =
    Inr (case find (\<lambda>h. h_ipv4 h = Some ip \<and> covers t h) (history n) of
           None \<Rightarrow> None
         | Some h \<Rightarrow> map_option (\<lambda>s. lea_result s (h_session h) (h_start h) (h_stop h) ''direct_ip'')
                       (find_subscriber db (h_subscriber h)))"
proof -
  let ?cand = "filter (\<lambda>h. h_ipv4 h = Some ip \<and> h_start h \<le> t \<and> find_subscriber db (h_subscriber h) \<noteq> None) (history n)"
  let ?F = "\<lambda>h. h_ipv4 h = Some ip \<and> covers t h"
  have cand: "h \<in> set ?cand \<longleftrightarrow> h \<in> set (history n) \<and> h_ipv4 h = Some ip \<and> h_start h \<le> t" for h
    using assms(3) by auto
  have only: "h = r" if "?F h" "h \<in> set (history n)" "r \<in> set ?cand" "\<forall>x \<in> set ?cand. h_start x \<le> h_start r" for h r
  proof (rule ccontr)
    assume "h \<noteq> r"
    have h: "h_start h \<le> h_start r" using that cand by (auto simp: covers_def)
    have "ends_before h r \<or> ends_before r h"
      using assms(2) that \<open>h \<noteq> r\<close> cand unfolding one_holder_def by (metis (no_types, lifting))
    moreover have "\<not> ends_before h r"
      using that cand [of r] by (auto simp: ends_before_def covers_def split: option.splits)
    moreover have "\<not> ends_before r h"
      using h that(3) assms(2) cand [of r] unfolding one_holder_def ends_before_def
      by (fastforce split: option.splits)
    ultimately show False by blast
  qed
  have query: "LookupByPublicIP inet no_faults db n cgnat publicIP None t = (case latest_by h_start ?cand of
      None \<Rightarrow> Inr None
    | Some h \<Rightarrow> if (case h_stop h of None \<Rightarrow> False | Some e \<Rightarrow> e < t) then Inr None
               else Inr (map_option (\<lambda>s. lea_result s (h_session h) (h_start h) (h_stop h) ''direct_ip'')
                           (find_subscriber db (h_subscriber h))))"
    by (simp only: LookupByPublicIP_def lookupDirectIP_def no_faults_apply assms(1) prod.case option.case)
  show ?thesis
  proof (cases rule: latest_by_cases [of h_start ?cand])
    case none
    then have "find ?F (history n) = None" using assms(3) by (auto simp: find_None_iff filter_empty_conv covers_def)
    then show ?thesis unfolding query none(1) by simp
  next
    case (some r)
    have r: "r \<in> set (history n)" "h_ipv4 r = Some ip" "h_start r \<le> t" using some(2) cand by blast+
    have "find ?F (history n) = (if ?F r then Some r else None)"
    proof (cases "find ?F (history n)")
      case None
      with r(1) show ?thesis by (auto simp: find_None_iff)
    next
      case (Some h)
      then have h: "?F h" "h \<in> set (history n)" by (auto simp: find_Some_iff)
      then have "h = r" using only some(2,3) by blast
      with h Some show ?thesis by simp
    qed
    then show ?thesis unfolding query some(1) using r by (simp add: covers_def split: option.split)
  qed
qed

section \<open>Session ids that clash\<close>

text \<open>
  Sessions are keyed by Acct-Session-Id alone, which a device need only keep unique among its own
  sessions. While one device's session is open, another device's Accounting-Start under the same id
  is counted as persisted and writes no history row, and its interim counters overwrite the first
  subscriber's.
\<close>

theorem clashing_session_id_misattributed:
  assumes "ae_acctDB ae" and "\<not> ae_grantUsageDB ae" and "\<not> ae_liveSessions ae" and "en_faults (ae_env ae) = no_faults"
    and "h \<in> set (history (ac_net st))" and "is_open h" and "h_session h = aq_SessionID r"
    and "aq_SessionID r \<noteq> []" and "ac_dedup st = None"
    and "resolveAccountingSubscriber (ae_env ae) r = Some sub" and "s_ID sub \<noteq> h_subscriber h"
    and "ae_inet ae (accountingNASIP (ae_splitHost ae) r) = Some nas" and "nas \<noteq> h_nas h"
    and "framedIP r = []" and "framedIPv6Prefix r = []"
  shows "(aq_StatusType r = Acct_Start \<longrightarrow>
            history (ac_net (fst (handleAccounting ae r st))) = history (ac_net st)
            \<and> ac_processed (fst (handleAccounting ae r st)) = ac_processed st @ [(''start'', ''persisted'')])
       \<and> (aq_StatusType r = Acct_InterimUpdate \<longrightarrow>
            h\<lparr>h_in := sint (fst (acctOctets r)), h_out := sint (snd (acctOctets r))\<rparr>
              \<in> set (history (ac_net (fst (handleAccounting ae r st)))))"
proof -
  have ex: "list_ex (\<lambda>h. h_session h = aq_SessionID r \<and> is_open h) (history (ac_net st))"
    using assms(5-7) by (auto simp: list_ex_iff)
  have "0 < rows_affected (\<lambda>h. h_session h = aq_SessionID r \<and> is_open h) (history (ac_net st))"
    using assms(5-7) by (auto simp: rows_affected_def filter_empty_conv)
  with assms ex show ?thesis
    by (auto simp: handleAccounting_def acct_record_def meterVoucherSession_def acctStart_def acctUpdate_def
        StartSession_def UpdateSessionOctets_def nullif_cast_def processed_def Let_def case_prod_beta
        update_where_def image_iff)
qed


section \<open>Witnesses\<close>

definition acdemo_env :: "time \<Rightarrow> AcctEnv" where
  "acdemo_env t = \<lparr>ae_env = rdemo_env t, ae_acctDB = True, ae_grantUsageDB = False, ae_liveSessions = False,
     ae_inet = Some, ae_cidr = Some, ae_splitHost = Some\<rparr>"

definition acdemo_request :: "AcctStatusType \<Rightarrow> string \<Rightarrow> 32 word \<Rightarrow> AcctRequest" where
  "acdemo_request k nas octets = \<lparr>rq_Code = AccountingRequest, rq_RemoteAddr = None, rq_UserName = ''asha'',
     rq_UserPassword = [], rq_EAPMessage = [], rq_State = [], aq_StatusType = k, aq_SessionID = ''s1'',
     aq_InputOctets = octets, aq_OutputOctets = 0, aq_InputGigawords = 0, aq_OutputGigawords = 0,
     aq_NASIPAddress = Some nas, aq_FramedIPAddress = None, aq_DelegatedIPv6Prefix = None,
     aq_FramedIPv6Prefix = None, aq_TerminateCause = []\<rparr>"

definition acdemo_row :: "int \<Rightarrow> string \<Rightarrow> time \<Rightarrow> time option \<Rightarrow> session_row" where
  "acdemo_row i sid start stop = \<lparr>h_id = i, h_subscriber = 1, h_session = sid, h_nas = ''10.0.0.1'',
     h_ipv4 = Some ''100.64.0.9'', h_ipv6 = None, h_start = start, h_stop = stop, h_in = 0, h_out = 0, h_cause = None\<rparr>"

definition acdemo_net :: "session_row list \<Rightarrow> net" where
  "acdemo_net hs = \<lparr>history = hs, history_seq = 10, live = []\<rparr>"

definition acdemo_state :: "unit Store option \<Rightarrow> net \<Rightarrow> rat acct" where
  "acdemo_state dedup n = \<lparr>ac_dedup = dedup, ac_net = n, ac_hotspot = empty_hotspot [], ac_processed = [],
     ac_unmatched = 0, ac_dedupSkipped = 0\<rparr>"

lemmas acdemo_defs = acdemo_env_def acdemo_request_def acdemo_row_def acdemo_net_def acdemo_state_def rdemo_defs
  is_open_def

lemma resolve_without_mab:
  "en_mabDB env = None \<Longrightarrow> rq_UserName r \<noteq> [] \<Longrightarrow> en_db env (rq_UserName r) = Inr x \<Longrightarrow>
   resolveAccountingSubscriber env r = x"
  by (simp add: resolveAccountingSubscriber_def Let_def split: option.split)

lemma acdemo_resolve [simp]: "resolveAccountingSubscriber (rdemo_env t) (acdemo_request k nas p) = Some rdemo_sub"
  by (rule resolve_without_mab) (simp_all add: acdemo_defs)

lemma acdemo_sel [simp]:
  "ae_env (acdemo_env t) = rdemo_env t" "ae_acctDB (acdemo_env t)" "\<not> ae_grantUsageDB (acdemo_env t)"
  "\<not> ae_liveSessions (acdemo_env t)" "ae_inet (acdemo_env t) = Some" "ae_cidr (acdemo_env t) = Some"
  "aq_StatusType (acdemo_request k nas p) = k" "aq_SessionID (acdemo_request k nas p) = ''s1''"
  "accountingNASIP f (acdemo_request k nas p) = nas" "framedIP (acdemo_request k nas p) = []"
  "framedIPv6Prefix (acdemo_request k nas p) = []" "en_now (rdemo_env t) = t" "en_faults (rdemo_env t) = no_faults"
  "s_ID rdemo_sub = 7" "ac_dedup (acdemo_state d n) = d" "ac_net (acdemo_state d n) = n"
  "(acdemo_state d n)\<lparr>ac_net := n'\<rparr> = acdemo_state d n'"
  by (simp_all add: acdemo_env_def acdemo_request_def accountingNASIP_def framedIP_def framedIPv6Prefix_def
      rdemo_env_def rdemo_sub_def acdemo_state_def)

lemma acdemo_start:
  "handleAccounting (acdemo_env t) (acdemo_request Acct_Start nas 0) (acdemo_state None n) =
     (processed ''start'' ''persisted'' (acdemo_state None
        (fst (StartSession Some Some no_faults t n 7 ''s1'' nas [] []))), [Response AccountingResponse])"
proof -
  have "snd (StartSession Some Some no_faults t n 7 ''s1'' nas [] []) = Inr ()"
    by (simp add: StartSession_def nullif_cast_def)
  then have "acctStart (acdemo_env t) (acdemo_request Acct_Start nas 0) ''s1'' ''start'' (acdemo_state None n) =
      processed ''start'' ''persisted'' (acdemo_state None (fst (StartSession Some Some no_faults t n 7 ''s1'' nas [] [])))"
    by (simp add: acctStart_def Let_def case_prod_beta)
  then show ?thesis
    by (simp add: handleAccounting_def acct_record_def meterVoucherSession_def Let_def case_prod_beta)
qed


theorem retransmission_absorbed_witness:
  "let r = acdemo_request Acct_Start ''10.0.0.1'' 0;
       st = run_net (fst (handleAccounting (acdemo_env 1) r (acdemo_state (Some New_Store) (acdemo_net [])))) [NClose no_faults]
   in handleAccounting (acdemo_env (20 * Second)) r st
      = (st\<lparr>ac_dedupSkipped := ac_dedupSkipped st + 1\<rparr>, [Response AccountingResponse])"
proof -
  let ?r = "acdemo_request Acct_Start ''10.0.0.1'' 0"
  have "admits (acdemo_env 1) ?r New_Store" by (simp add: admits_def New_Store_def Store_TrySet_def)
  then show ?thesis
    using retransmission_absorbed [of "acdemo_state (Some New_Store) (acdemo_net [])" New_Store ?r "acdemo_env 1" ?r
        "[NClose no_faults]" "acdemo_env (20 * Second)"]
    by (simp add: Let_def same_record_def records_def acdemo_defs Second_def)
qed

theorem close_superseded_settles_witness:
  "\<exists>n'. CloseSupersededSessions no_faults (acdemo_net [acdemo_row 1 ''a'' 5 None, acdemo_row 2 ''b'' 9 None]) = (n', Inr 1)
        \<and> CloseSupersededSessions no_faults n' = (n', Inr 0)"
proof -
  let ?n = "acdemo_net [acdemo_row 1 ''a'' 5 None, acdemo_row 2 ''b'' 9 None]"
  have run: "CloseSupersededSessions no_faults ?n = (fst (CloseSupersededSessions no_faults ?n), Inr 1)"
    by (simp add: CloseSupersededSessions_def acdemo_defs successor_start_def rows_affected_def)
  have "\<forall>a \<in> set (history ?n). \<forall>b \<in> set (history ?n). same_line a b \<and> h_start a = h_start b \<longrightarrow> a = b"
    by (simp add: acdemo_defs)
  from close_superseded_settles [OF run this] run show ?thesis by blast
qed

theorem lea_direct_correct_witness:
  "\<exists>r. LookupByPublicIP Some no_faults dun_db
         (acdemo_net [acdemo_row 1 ''a'' 5 (Some 8), acdemo_row 2 ''b'' 9 None]) [] ''100.64.0.9'' None 7 = Inr (Some r)
       \<and> lr_SubscriberID r = 1 \<and> lr_SessionID r = ''a''"
proof -
  let ?n = "acdemo_net [acdemo_row 1 ''a'' 5 (Some 8), acdemo_row 2 ''b'' 9 None]"
  have sub: "\<exists>s. find_subscriber dun_db 1 = Some s \<and> sub_id s = 1"
    by (simp add: find_subscriber_def dun_db_def dun_sub_def)
  have one: "one_holder ''100.64.0.9'' (history ?n)"
    by (simp add: one_holder_def acdemo_defs ends_before_def)
  have "\<forall>h \<in> set (history ?n). find_subscriber dun_db (h_subscriber h) \<noteq> None"
    using sub by (auto simp: acdemo_defs)
  from lea_direct_correct [OF _ one this, of Some "''100.64.0.9''" "[]" 7] sub show ?thesis
    by (auto simp: covers_def acdemo_defs lea_result_def)
qed

theorem clashing_session_id_misattributed_witness:
  "let r = acdemo_request Acct_Start ''10.0.0.2'' 0; st = acdemo_state None (acdemo_net [acdemo_row 1 ''s1'' 5 None]);
       st' = fst (handleAccounting (acdemo_env 6) r st)
   in s_ID rdemo_sub = 7 \<and> map h_subscriber (history (ac_net st')) = [1] \<and> ac_processed st' = [(''start'', ''persisted'')]"
proof -
  let ?row = "acdemo_row 1 ''s1'' 5 None"
  have "?row \<in> set (history (acdemo_net [?row]))" "is_open ?row" "h_session ?row = ''s1''" "h_subscriber ?row = 1"
    "h_nas ?row = ''10.0.0.1''" "ac_processed (acdemo_state None n) = []" "history (acdemo_net [?row]) = [?row]" for n
    by (simp_all add: acdemo_row_def acdemo_net_def is_open_def acdemo_state_def)
  then show ?thesis
    using clashing_session_id_misattributed [of "acdemo_env 6" ?row "acdemo_state None (acdemo_net [?row])"
        "acdemo_request Acct_Start ''10.0.0.2'' 0" rdemo_sub "''10.0.0.2''"]
    by (simp add: Let_def)
qed

end
