(* ===== verification/Fup.thy ===== *)
theory Fup
  imports Sessions Renewal
begin

text \<open>
  Fair-use enforcement (\<open>src/internal/fup\<close>), the store behind it (\<open>src/internal/db/fup.go\<close>), and the
  operator's session controls (\<open>src/internal/api/sessions.go\<close>): the scanner that throttles, the tasks
  that carry the change to the access device, and the monitor that watches for tasks given up on.

  A queued payload is the value its JSON text decodes to. The exchange with the access device is the
  argument \<open>exchange\<close>: the response code to a control packet sent to an address and port under a
  secret, or an error. The greatest of several textual addresses (SQL's \<open>MAX\<close>) is the argument \<open>tmax\<close>;
  it only labels a payload. Prometheus counters are not state.
\<close>

section \<open>Usage\<close>

record SessionStats =
  st_SubscriberID :: int
  st_Username :: string
  st_NasIP :: string
  st_FUPThreshold :: int
  st_BytesUsed :: int
  st_FUPActive :: bool
  st_FUPThrottle :: string

definition open_rows :: "net \<Rightarrow> int \<Rightarrow> session_row list" where
  "open_rows n i = filter (\<lambda>h. is_open h \<and> h_subscriber h = i) (history n)"

definition bytes_used :: "net \<Rightarrow> int \<Rightarrow> int" where
  "bytes_used n i = sum_list (map (\<lambda>h. h_in h + h_out h) (open_rows n i))"

text \<open>One row per subscriber with an open session, in the order of first appearance.\<close>

definition liveSessionUsage :: "(string list \<Rightarrow> string) \<Rightarrow> net \<Rightarrow> (int \<times> string \<times> int) list" where
  "liveSessionUsage tmax n =
     map (\<lambda>i. (i, tmax (map h_nas (open_rows n i)), bytes_used n i))
       (remdups (map h_subscriber (filter is_open (history n))))"

definition session_stats :: "'d db \<Rightarrow> int \<times> string \<times> int \<Rightarrow> ('d subscriber \<times> 'd plan \<times> SessionStats) option" where
  "session_stats db u =
     (case u of (i, nas, used) \<Rightarrow>
        (case find_subscriber db i of
           None \<Rightarrow> None
         | Some s \<Rightarrow>
             (case find_plan db (sub_plan_id s) of
                None \<Rightarrow> None
              | Some p \<Rightarrow>
                  Some (s, p, \<lparr>st_SubscriberID = sub_id s, st_Username = sub_username s, st_NasIP = nas,
                               st_FUPThreshold = plan_fup_threshold p, st_BytesUsed = used,
                               st_FUPActive = sub_fup_active s, st_FUPThrottle = plan_fup_throttle p\<rparr>))))"

definition scanSessionStats ::
  "faults \<Rightarrow> string \<Rightarrow> (string list \<Rightarrow> string) \<Rightarrow> ('d subscriber \<Rightarrow> 'd plan \<Rightarrow> int \<Rightarrow> bool) \<Rightarrow> 'd db \<Rightarrow> net
   \<Rightarrow> string + SessionStats list" where
  "scanSessionStats flt label tmax cond db n =
     (case flt label of
        Some e \<Rightarrow> Inl e
      | None \<Rightarrow> Inr (map (\<lambda>(s, p, x). x)
                  (filter (\<lambda>(s, p, x). cond s p (st_BytesUsed x))
                    (List.map_filter (session_stats db) (liveSessionUsage tmax n)))))"

definition in_service :: "'d subscriber \<Rightarrow> bool" where
  "in_service s \<longleftrightarrow> sub_status s = Active \<or> sub_status s = GracePeriod"

definition breached :: "'d subscriber \<Rightarrow> 'd plan \<Rightarrow> int \<Rightarrow> bool" where
  "breached s p used \<longleftrightarrow> 0 < plan_fup_threshold p \<and> \<not> sub_fup_active s \<and> plan_fup_threshold p \<le> used \<and> in_service s"

definition GetActiveSessionsAboveFUP ::
  "faults \<Rightarrow> (string list \<Rightarrow> string) \<Rightarrow> 'd db \<Rightarrow> net \<Rightarrow> string + SessionStats list" where
  "GetActiveSessionsAboveFUP flt tmax db n = scanSessionStats flt ''GetActiveSessionsAboveFUP'' tmax breached db n"

definition FUPWarningPct :: int where "FUPWarningPct = 80"

definition at_warning :: "int \<Rightarrow> 'd subscriber \<Rightarrow> 'd plan \<Rightarrow> int \<Rightarrow> bool" where
  "at_warning pct s p used \<longleftrightarrow> 0 < plan_fup_threshold p \<and> \<not> sub_fup_active s
     \<and> go_div (plan_fup_threshold p * pct) 100 \<le> used \<and> used < plan_fup_threshold p \<and> in_service s"

definition GetSessionsAtWarning ::
  "faults \<Rightarrow> (string list \<Rightarrow> string) \<Rightarrow> 'd db \<Rightarrow> net \<Rightarrow> int \<Rightarrow> string + SessionStats list" where
  "GetSessionsAtWarning flt tmax db n pct0 =
     (let pct = (if pct0 \<le> 0 \<or> 100 \<le> pct0 then FUPWarningPct else pct0) in
      scanSessionStats flt ''GetSessionsAtWarning'' tmax (at_warning pct) db n)"

section \<open>Flags and overrides\<close>

definition update_subscriber ::
  "faults \<Rightarrow> string \<Rightarrow> 'd db \<Rightarrow> int \<Rightarrow> ('d subscriber \<Rightarrow> 'd subscriber) \<Rightarrow> 'd db \<times> (err + unit)" where
  "update_subscriber flt label db i f =
     (case flt label of
        Some e \<Rightarrow> (db, Inl (Err e))
      | None \<Rightarrow>
          if rows_affected (\<lambda>s. sub_id s = i) (subscribers db) = 0 then (db, Inl ErrNotFound)
          else (db\<lparr>subscribers := update_where (\<lambda>s. sub_id s = i) f (subscribers db)\<rparr>, Inr ()))"

definition SetFUPActive :: "faults \<Rightarrow> 'd db \<Rightarrow> int \<Rightarrow> bool \<Rightarrow> 'd db \<times> (err + unit)" where
  "SetFUPActive flt db i active = update_subscriber flt ''SetFUPActive'' db i (\<lambda>s. s\<lparr>sub_fup_active := active\<rparr>)"

definition SetSpeedOverride :: "faults \<Rightarrow> 'd db \<Rightarrow> int \<Rightarrow> string \<Rightarrow> time option \<Rightarrow> 'd db \<times> (err + unit)" where
  "SetSpeedOverride flt db i rateLimit expiresAt =
     update_subscriber flt ''SetSpeedOverride'' db i
       (\<lambda>s. s\<lparr>sub_override_rate := rateLimit, sub_override_expires := expiresAt\<rparr>)"

definition ClearSpeedOverride :: "faults \<Rightarrow> 'd db \<Rightarrow> int \<Rightarrow> 'd db \<times> (err + unit)" where
  "ClearSpeedOverride flt db i =
     update_subscriber flt ''ClearSpeedOverride'' db i (\<lambda>s. s\<lparr>sub_override_rate := [], sub_override_expires := None\<rparr>)"

definition ListExpiredSpeedOverrides :: "faults \<Rightarrow> time \<Rightarrow> 'd db \<Rightarrow> string + int list" where
  "ListExpiredSpeedOverrides flt now db =
     (case flt ''ListExpiredSpeedOverrides'' of
        Some e \<Rightarrow> Inl e
      | None \<Rightarrow> Inr (map sub_id (filter (\<lambda>s. case sub_override_expires s of None \<Rightarrow> False | Some t \<Rightarrow> t \<le> now)
                       (subscribers db))))"

text \<open>
  The rate the query computes. A null override is the empty string, which the only caller that
  writes one refuses.
\<close>

definition nas_rate :: "time \<Rightarrow> 'd subscriber \<Rightarrow> 'd plan \<Rightarrow> string" where
  "nas_rate now s p =
     (if sub_override_rate s \<noteq> [] \<and> (case sub_override_expires s of None \<Rightarrow> True | Some t \<Rightarrow> now < t)
      then sub_override_rate s
      else if sub_fup_active s \<and> plan_fup_throttle p \<noteq> [] then plan_fup_throttle p
      else plan_rate_limit p)"

definition GetSubscriberNASSession ::
  "faults \<Rightarrow> time \<Rightarrow> 'd db \<Rightarrow> net \<Rightarrow> int \<Rightarrow> err + (string \<times> string \<times> string \<times> int)" where
  "GetSubscriberNASSession flt now db n i =
     (case flt ''GetSubscriberNASSession'' of
        Some e \<Rightarrow> Inl (Err e)
      | None \<Rightarrow>
          (case find_subscriber db i of
             None \<Rightarrow> Inl ErrNotFound
           | Some s \<Rightarrow>
               (case (find_plan db (sub_plan_id s), latest_by h_start (open_rows n i)) of
                  (Some p, Some h) \<Rightarrow> Inr (h_nas h, h_session h, nas_rate now s p, sub_plan_id s)
                | _ \<Rightarrow> Inl ErrNotFound)))"


section \<open>The scanner\<close>

datatype fup_payload =
    CoAPayload int string
  | PoDPayload int string string
  | WarningPayload int string int
  | ThrottledPayload int string string

definition TaskTypeCoA :: string where "TaskTypeCoA = ''network:coa_send''"
definition TaskTypePoD :: string where "TaskTypePoD = ''network:pod_send''"
definition TaskTypeFUPWarning :: string where "TaskTypeFUPWarning = ''notif:fup_warning''"
definition TaskTypeFUPThrottled :: string where "TaskTypeFUPThrottled = ''notif:fup_throttled''"
definition QueueNetCommands :: string where "QueueNetCommands = ''network_commands''"

definition WarningTaskID :: "int \<Rightarrow> int \<Rightarrow> string" where
  "WarningTaskID subscriberID threshold = ''fupwarn-'' @ show_int subscriberID @ ''-'' @ show_int threshold"

definition ThrottledTaskID :: "int \<Rightarrow> int \<Rightarrow> string" where
  "ThrottledTaskID subscriberID threshold = ''fupthrottled-'' @ show_int subscriberID @ ''-'' @ show_int threshold"

definition UsagePct :: "int \<Rightarrow> int \<Rightarrow> int" where
  "UsagePct bytesUsed threshold = (if threshold = 0 then 0 else go_div (bytesUsed * 100) threshold)"

definition coa_task :: "int \<Rightarrow> string \<Rightarrow> fup_payload Task" where
  "coa_task i nasIP = NewTask TaskTypeCoA (CoAPayload i nasIP) [Queue QueueNetCommands, MaxRetry 5, Retention (24 * Hour)]"

record 'd fup =
  fu_db :: "'d db"
  fu_net :: net
  fu_jq :: "fup_payload jobqueue"

definition fup_enqueue ::
  "faults \<Rightarrow> time \<Rightarrow> fup_payload Task \<Rightarrow> 'd fup \<Rightarrow> 'd fup \<times> (job_error + TaskInfo)" where
  "fup_enqueue flt now t st =
     (case EnqueueContext now flt (fu_jq st) (Some t) [] of (jq, res) \<Rightarrow> (st\<lparr>fu_jq := jq\<rparr>, res))"

definition throttled_task :: "SessionStats \<Rightarrow> fup_payload Task" where
  "throttled_task sess =
     NewTask TaskTypeFUPThrottled (ThrottledPayload (st_SubscriberID sess) (st_Username sess) (st_FUPThrottle sess))
       [Queue QueueNotifications, TaskID (ThrottledTaskID (st_SubscriberID sess) (st_FUPThreshold sess)),
        MaxRetry 3, Retention (24 * Hour)]"

definition enqueueThrottledNotice :: "faults \<Rightarrow> time \<Rightarrow> SessionStats \<Rightarrow> 'd fup \<Rightarrow> 'd fup \<times> (job_error + unit)" where
  "enqueueThrottledNotice flt now sess st =
     (case fup_enqueue flt now (throttled_task sess) st of
        (st', Inr _) \<Rightarrow> (st', Inr ())
      | (st', Inl ErrTaskIDConflict) \<Rightarrow> (st', Inr ())
      | (st', Inl e) \<Rightarrow> (st', Inl e))"

fun breach_loop :: "faults \<Rightarrow> time \<Rightarrow> SessionStats list \<Rightarrow> 'd fup \<Rightarrow> 'd fup \<times> (string + unit)" where
  "breach_loop flt now [] st = (st, Inr ())"
| "breach_loop flt now (sess # rest) st =
     (if st_FUPThreshold sess = 0 \<or> st_FUPActive sess then breach_loop flt now rest st
      else if st_FUPThreshold sess \<le> st_BytesUsed sess then
        (case SetFUPActive flt (fu_db st) (st_SubscriberID sess) True of
           (db, Inl _) \<Rightarrow> breach_loop flt now rest (st\<lparr>fu_db := db\<rparr>)
         | (db, Inr _) \<Rightarrow>
             (case fup_enqueue flt now (coa_task (st_SubscriberID sess) (st_NasIP sess)) (st\<lparr>fu_db := db\<rparr>) of
                (st', Inl _) \<Rightarrow> (st', Inl ''fup: enqueue CoA'')
              | (st', Inr _) \<Rightarrow> breach_loop flt now rest (fst (enqueueThrottledNotice flt now sess st'))))
      else breach_loop flt now rest st)"

definition scanBreaches :: "faults \<Rightarrow> (string list \<Rightarrow> string) \<Rightarrow> time \<Rightarrow> 'd fup \<Rightarrow> 'd fup \<times> (string + unit)" where
  "scanBreaches flt tmax now st =
     (case GetActiveSessionsAboveFUP flt tmax (fu_db st) (fu_net st) of
        Inl e \<Rightarrow> (st, Inl e)
      | Inr sessions \<Rightarrow> breach_loop flt now sessions st)"

fun override_loop :: "faults \<Rightarrow> time \<Rightarrow> int list \<Rightarrow> 'd fup \<Rightarrow> 'd fup" where
  "override_loop flt now [] st = st"
| "override_loop flt now (i # ids) st =
     (case ClearSpeedOverride flt (fu_db st) i of
        (db, Inl _) \<Rightarrow> override_loop flt now ids (st\<lparr>fu_db := db\<rparr>)
      | (db, Inr _) \<Rightarrow> override_loop flt now ids (fst (fup_enqueue flt now (coa_task i []) (st\<lparr>fu_db := db\<rparr>))))"

definition scanExpiredOverrides :: "faults \<Rightarrow> time \<Rightarrow> 'd fup \<Rightarrow> 'd fup \<times> (string + unit)" where
  "scanExpiredOverrides flt now st =
     (case ListExpiredSpeedOverrides flt now (fu_db st) of
        Inl e \<Rightarrow> (st, Inl e)
      | Inr ids \<Rightarrow> (override_loop flt now ids st, Inr ()))"

definition warning_task :: "SessionStats \<Rightarrow> fup_payload Task" where
  "warning_task sess =
     NewTask TaskTypeFUPWarning
       (WarningPayload (st_SubscriberID sess) (st_Username sess) (UsagePct (st_BytesUsed sess) (st_FUPThreshold sess)))
       [Queue QueueNotifications, TaskID (WarningTaskID (st_SubscriberID sess) (st_FUPThreshold sess)),
        MaxRetry 3, Retention (24 * Hour)]"

fun warning_loop :: "faults \<Rightarrow> time \<Rightarrow> SessionStats list \<Rightarrow> 'd fup \<Rightarrow> 'd fup \<times> (string + unit)" where
  "warning_loop flt now [] st = (st, Inr ())"
| "warning_loop flt now (sess # rest) st =
     (if st_FUPThreshold sess = 0 \<or> st_FUPActive sess then warning_loop flt now rest st
      else case fup_enqueue flt now (warning_task sess) st of
        (st', Inr _) \<Rightarrow> warning_loop flt now rest st'
      | (st', Inl ErrTaskIDConflict) \<Rightarrow> warning_loop flt now rest st'
      | (st', Inl _) \<Rightarrow> (st', Inl ''fup: enqueue warning''))"

definition scanWarnings :: "faults \<Rightarrow> (string list \<Rightarrow> string) \<Rightarrow> time \<Rightarrow> 'd fup \<Rightarrow> 'd fup \<times> (string + unit)" where
  "scanWarnings flt tmax now st =
     (case GetSessionsAtWarning flt tmax (fu_db st) (fu_net st) FUPWarningPct of
        Inl e \<Rightarrow> (st, Inl e)
      | Inr sessions \<Rightarrow> warning_loop flt now sessions st)"

definition fup_scan :: "faults \<Rightarrow> (string list \<Rightarrow> string) \<Rightarrow> time \<Rightarrow> 'd fup \<Rightarrow> 'd fup \<times> (string + unit)" where
  "fup_scan flt tmax now st =
     (case scanBreaches flt tmax now st of
        (st1, Inl e) \<Rightarrow> (st1, Inl e)
      | (st1, Inr _) \<Rightarrow>
          (case scanExpiredOverrides flt now st1 of
             (st2, Inl e) \<Rightarrow> (st2, Inl e)
           | (st2, Inr _) \<Rightarrow> scanWarnings flt tmax now st2))"

section \<open>Control tasks\<close>

datatype control_code = CodeCoARequest | CodeDisconnectRequest | CodeCoAACK | CodeDisconnectACK | ControlCode nat

record control_packet =
  cp_Code :: control_code
  cp_SessionID :: string
  cp_Attrs :: "Attr list"

type_synonym exchange = "string \<Rightarrow> int \<Rightarrow> bytes \<Rightarrow> control_packet \<Rightarrow> string + control_code"

definition DefaultCoAPort :: int where "DefaultCoAPort = 1700"

record ControlHandler =
  ch_secret :: bytes
  ch_port :: int
  ch_nasResolver :: "Resolver option"
  ch_liveSessions :: bool

definition sendReliableControl ::
  "exchange \<Rightarrow> string \<Rightarrow> int \<Rightarrow> bytes \<Rightarrow> control_packet \<Rightarrow> control_code \<Rightarrow> string option" where
  "sendReliableControl exchange nasIP port secret pkt ackCode =
     (case exchange nasIP port secret pkt of
        Inl e \<Rightarrow> Some e
      | Inr code \<Rightarrow> if code \<noteq> ackCode then Some ''radius control: NAK'' else None)"

definition SendReliableCoA :: "exchange \<Rightarrow> string \<Rightarrow> int \<Rightarrow> string \<Rightarrow> Attr list \<Rightarrow> bytes \<Rightarrow> string option" where
  "SendReliableCoA exchange nasIP port sessionID attrs secret =
     sendReliableControl exchange nasIP port secret
       \<lparr>cp_Code = CodeCoARequest, cp_SessionID = sessionID, cp_Attrs = attrs\<rparr> CodeCoAACK"

definition SendReliablePoD :: "exchange \<Rightarrow> string \<Rightarrow> int \<Rightarrow> string \<Rightarrow> bytes \<Rightarrow> string option" where
  "SendReliablePoD exchange nasIP port sessionID secret =
     sendReliableControl exchange nasIP port secret
       \<lparr>cp_Code = CodeDisconnectRequest, cp_SessionID = sessionID, cp_Attrs = []\<rparr> CodeDisconnectACK"

definition effectivePort :: "ControlHandler \<Rightarrow> int" where
  "effectivePort h = (if ch_port h = 0 then DefaultCoAPort else ch_port h)"

text \<open>The attributes, port and secret a rate change is sent with.\<close>

definition coa_target ::
  "new_vsa \<Rightarrow> ControlHandler \<Rightarrow> string \<Rightarrow> string \<Rightarrow> int \<Rightarrow> bytes \<times> int \<times> (string + Attr list)" where
  "coa_target nvs h nasIP rateLimit planID =
     (case ch_nasResolver h of
        None \<Rightarrow> (ch_secret h, effectivePort h,
                 BuildCoAAttrs nvs VendorMikrotik \<lparr>RateLimitString = rateLimit, ProfileName = []\<rparr>)
      | Some res \<Rightarrow>
          (let device = Resolve res nasIP; vendor = dev_Vendor device in
           (dev_Secret device, dev_CoAPort device,
            BuildCoAAttrs nvs vendor \<lparr>RateLimitString = rateLimit, ProfileName = ResolveProfile res planID vendor\<rparr>)))"

definition CoA_ProcessTask ::
  "exchange \<Rightarrow> new_vsa \<Rightarrow> faults \<Rightarrow> time \<Rightarrow> ControlHandler \<Rightarrow> fup_payload \<Rightarrow> 'd fup \<Rightarrow> 'd fup \<times> job_error option" where
  "CoA_ProcessTask exchange nvs flt now h p st =
     (case p of
        CoAPayload i _ \<Rightarrow>
          (case GetSubscriberNASSession flt now (fu_db st) (fu_net st) i of
             Inl _ \<Rightarrow> (st, Some (JobErr ''coa: get NAS session''))
           | Inr (nasIP, sessionID, rateLimit, planID) \<Rightarrow>
               (case coa_target nvs h nasIP rateLimit planID of
                  (secret, port, Inl e) \<Rightarrow> (st, Some (JobErr e))
                | (secret, port, Inr attrs) \<Rightarrow>
                    (case SendReliableCoA exchange nasIP port sessionID attrs secret of
                       Some e \<Rightarrow> (st, Some (JobErr e))
                     | None \<Rightarrow>
                         if ch_liveSessions h
                         then (st\<lparr>fu_net := fst (Live_UpdateSpeedProfile flt now (fu_net st) sessionID rateLimit)\<rparr>, None)
                         else (st, None))))
      | _ \<Rightarrow> (st, Some (JobErr ''coa: unmarshal payload'')))"

definition PoD_ProcessTask ::
  "exchange \<Rightarrow> faults \<Rightarrow> time \<Rightarrow> ControlHandler \<Rightarrow> fup_payload \<Rightarrow> 'd fup \<Rightarrow> job_error option" where
  "PoD_ProcessTask exchange flt now h p st =
     (case p of
        PoDPayload i nas sid \<Rightarrow>
          (let send = (\<lambda>nasIP sessionID.
                 let (secret, port) = (case ch_nasResolver h of
                       None \<Rightarrow> (ch_secret h, effectivePort h)
                     | Some res \<Rightarrow> (dev_Secret (Resolve res nasIP), dev_PoDPort (Resolve res nasIP)))
                 in map_option JobErr (SendReliablePoD exchange nasIP port sessionID secret))
           in if nas \<noteq> [] \<and> sid \<noteq> [] then send nas sid
              else case GetSubscriberNASSession flt now (fu_db st) (fu_net st) i of
                Inl _ \<Rightarrow> Some (SkipRetry ''pod: get NAS session'')
              | Inr (nasIP, sessionID, _, _) \<Rightarrow> send nasIP sessionID)
      | _ \<Rightarrow> Some (JobErr ''pod: unmarshal payload''))"

definition NewDirectPoDTask :: "string \<Rightarrow> string \<Rightarrow> fup_payload Task" where
  "NewDirectPoDTask nasIP sessionID =
     NewTask TaskTypePoD (PoDPayload 0 nasIP sessionID) [Queue QueueNetCommands, MaxRetry 3]"

text \<open>The notifier takes the subscriber, the template, the event and the variables.\<close>

type_synonym notifier = "int \<Rightarrow> string \<Rightarrow> string \<Rightarrow> string list \<Rightarrow> string option"

definition TemplateFUPWarning :: string where "TemplateFUPWarning = ''TMPL-001''"
definition TemplateFUPThrottled :: string where "TemplateFUPThrottled = ''TMPL-002''"

definition Warning_ProcessTask :: "notifier option \<Rightarrow> fup_payload \<Rightarrow> job_error option" where
  "Warning_ProcessTask notify p =
     (case p of
        WarningPayload i username pct \<Rightarrow>
          (case notify of
             None \<Rightarrow> Some (JobErr ''fup warning: notifier not configured'')
           | Some f \<Rightarrow> map_option JobErr (f i TemplateFUPWarning ''fup_warning_80pct'' [username, show_int pct @ ''%'']))
      | _ \<Rightarrow> Some (SkipRetry ''fup warning: unmarshal payload''))"

definition Throttled_ProcessTask :: "notifier option \<Rightarrow> fup_payload \<Rightarrow> job_error option" where
  "Throttled_ProcessTask notify p =
     (case p of
        ThrottledPayload i username speed \<Rightarrow>
          (case notify of
             None \<Rightarrow> Some (JobErr ''fup throttled: notifier not configured'')
           | Some f \<Rightarrow> map_option JobErr (f i TemplateFUPThrottled ''fup_throttle_applied''
                        [username, if speed = [] then ''a reduced speed'' else speed]))
      | _ \<Rightarrow> Some (SkipRetry ''fup throttled: unmarshal payload''))"

section \<open>The dead-letter monitor\<close>

definition DefaultDeadLetterReminder :: duration where "DefaultDeadLetterReminder = Hour"

record DeadLetterMonitor =
  dl_reminder :: duration
  dl_lastAlerted :: int
  dl_lastAlertAt :: time

text \<open>One poll at \<open>now\<close> of a count, or of a counter that failed: the new state and the alert raised.\<close>

definition checkOnce :: "time \<Rightarrow> string + int \<Rightarrow> DeadLetterMonitor \<Rightarrow> DeadLetterMonitor \<times> int option" where
  "checkOnce now counted m =
     (case counted of
        Inl _ \<Rightarrow> (m, None)
      | Inr dead \<Rightarrow>
          if dead = 0 then
            (if 0 < dl_lastAlerted m then (m\<lparr>dl_lastAlerted := 0, dl_lastAlertAt := 0\<rparr>, None) else (m, None))
          else
            (let reminder = (if dl_reminder m \<le> 0 then DefaultDeadLetterReminder else dl_reminder m);
                 newIncident = dl_lastAlerted m = 0;
                 gotWorse = dl_lastAlerted m < dead;
                 stale = \<not> IsZero (dl_lastAlertAt m) \<and> reminder \<le> time_sub now (dl_lastAlertAt m)
             in if \<not> newIncident \<and> \<not> gotWorse \<and> \<not> stale then (m, None)
                else (m\<lparr>dl_lastAlerted := dead, dl_lastAlertAt := now\<rparr>, Some dead)))"

section \<open>Operator controls\<close>

text \<open>
  The handlers answer with a status code. \<open>ctl\<close> says whether the session store and the queue are
  configured; a request body that does not decode is \<open>None\<close>.
\<close>

definition pod_task :: "int \<Rightarrow> fup_payload Task" where
  "pod_task i = NewTask TaskTypePoD (PoDPayload i [] []) [Queue QueueNetCommands, MaxRetry 5, Retention (24 * Hour)]"

definition DisconnectSession :: "bool \<Rightarrow> faults \<Rightarrow> time \<Rightarrow> string \<Rightarrow> 'd fup \<Rightarrow> 'd fup \<times> nat" where
  "DisconnectSession ctl flt now sessionID st =
     (if sessionID = [] then (st, 400)
      else if \<not> ctl then (st, 503)
      else case ResolveSessionSubscriber flt (fu_net st) sessionID of
        Inl _ \<Rightarrow> (st, 404)
      | Inr (i, nasIP) \<Rightarrow>
          (case fup_enqueue flt now (pod_task i) st of
             (st', Inl _) \<Rightarrow> (st', 500)
           | (st', Inr _) \<Rightarrow> (st', 202)))"

definition FUPOverride :: "bool \<Rightarrow> faults \<Rightarrow> time \<Rightarrow> string \<Rightarrow> string option \<Rightarrow> 'd fup \<Rightarrow> 'd fup \<times> nat" where
  "FUPOverride ctl flt now sessionID body st =
     (if sessionID = [] then (st, 400)
      else if \<not> ctl then (st, 503)
      else case body of
        None \<Rightarrow> (st, 400)
      | Some action \<Rightarrow>
          if action \<noteq> ''apply'' \<and> action \<noteq> ''remove'' then (st, 422)
          else case ResolveSessionSubscriber flt (fu_net st) sessionID of
            Inl _ \<Rightarrow> (st, 404)
          | Inr (i, nasIP) \<Rightarrow>
              (case SetFUPActive flt (fu_db st) i (action = ''apply'') of
                 (db, Inl _) \<Rightarrow> (st\<lparr>fu_db := db\<rparr>, 500)
               | (db, Inr _) \<Rightarrow>
                   (case fup_enqueue flt now (coa_task i nasIP) (st\<lparr>fu_db := db\<rparr>) of
                      (st', Inl _) \<Rightarrow> (st', 500)
                    | (st', Inr _) \<Rightarrow> (st', 202))))"

definition enqueueSpeedOverrideCoA :: "faults \<Rightarrow> time \<Rightarrow> int \<Rightarrow> 'd fup \<Rightarrow> 'd fup" where
  "enqueueSpeedOverrideCoA flt now i st = fst (fup_enqueue flt now (coa_task i []) st)"

definition SpeedOverride ::
  "bool \<Rightarrow> faults \<Rightarrow> time \<Rightarrow> int option \<Rightarrow> (string \<times> int) option \<Rightarrow> 'd fup \<Rightarrow> 'd fup \<times> nat" where
  "SpeedOverride ctl flt now path body st =
     (case path of
        None \<Rightarrow> (st, 400)
      | Some i \<Rightarrow>
          if \<not> ctl then (st, 503)
          else case body of
            None \<Rightarrow> (st, 400)
          | Some (rateLimit, minutes) \<Rightarrow>
              if rateLimit = [] then (st, 422)
              else if minutes < 0 then (st, 422)
              else case SetSpeedOverride flt (fu_db st) i rateLimit
                          (if 0 < minutes then Some (now + minutes * Minute) else None) of
                (db, Inl _) \<Rightarrow> (st\<lparr>fu_db := db\<rparr>, 500)
              | (db, Inr _) \<Rightarrow> (enqueueSpeedOverrideCoA flt now i (st\<lparr>fu_db := db\<rparr>), 202))"

definition api_ClearSpeedOverride :: "bool \<Rightarrow> faults \<Rightarrow> time \<Rightarrow> int option \<Rightarrow> 'd fup \<Rightarrow> 'd fup \<times> nat" where
  "api_ClearSpeedOverride ctl flt now path st =
     (case path of
        None \<Rightarrow> (st, 400)
      | Some i \<Rightarrow>
          if \<not> ctl then (st, 503)
          else case ClearSpeedOverride flt (fu_db st) i of
            (db, Inl _) \<Rightarrow> (st\<lparr>fu_db := db\<rparr>, 500)
          | (db, Inr _) \<Rightarrow> (enqueueSpeedOverrideCoA flt now i (st\<lparr>fu_db := db\<rparr>), 202))"


section \<open>Throttling\<close>

definition flagged :: "'d subscriber \<Rightarrow> 'd subscriber" where
  "flagged s = s\<lparr>sub_fup_active := True\<rparr>"

text \<open>The subscriber has a quota, has used it up in open sessions, is in service and not yet throttled.\<close>

definition over_quota :: "'d db \<Rightarrow> net \<Rightarrow> 'd subscriber \<Rightarrow> bool" where
  "over_quota db n s \<longleftrightarrow>
     (case find_plan db (sub_plan_id s) of None \<Rightarrow> False | Some p \<Rightarrow> breached s p (bytes_used n (sub_id s)))"

definition coa_subjects :: "fup_payload jobqueue \<Rightarrow> int list" where
  "coa_subjects jq = List.map_filter (\<lambda>t. case jt_payload t of CoAPayload i _ \<Rightarrow> Some i | _ \<Rightarrow> None) (tasks jq)"

lemma map_filter_append [simp]: "List.map_filter f (xs @ ys) = List.map_filter f xs @ List.map_filter f ys"
  by (simp add: List.map_filter_def)

lemma fup_enqueue_coa:
  "fup_enqueue no_faults now (coa_task i nas) st =
     (st\<lparr>fu_jq := fst (EnqueueContext now no_faults (fu_jq st) (Some (coa_task i nas)) [])\<rparr>,
      snd (EnqueueContext now no_faults (fu_jq st) (Some (coa_task i nas)) []))
   \<and> (\<exists>x. snd (EnqueueContext now no_faults (fu_jq st) (Some (coa_task i nas)) []) = Inr x)
   \<and> coa_subjects (fst (EnqueueContext now no_faults (fu_jq st) (Some (coa_task i nas)) [])) = coa_subjects (fu_jq st) @ [i]"
  by (simp add: fup_enqueue_def case_prod_beta EnqueueContext_def coa_task_def NewTask_def resolve_options_def
      zero_options_def Queue_def MaxRetry_def Retention_def smallint_def QueueNetCommands_def Let_def new_row_def
      coa_subjects_def List.map_filter_def)

lemma notice_keeps:
  "fu_db (fst (enqueueThrottledNotice flt now sess st)) = fu_db st"
  "fu_net (fst (enqueueThrottledNotice flt now sess st)) = fu_net st"
  "coa_subjects (fu_jq (fst (enqueueThrottledNotice flt now sess st))) = coa_subjects (fu_jq st)"
proof -
  obtain jq res where e: "EnqueueContext now flt (fu_jq st) (Some (throttled_task sess)) [] = (jq, res)"
    by (cases "EnqueueContext now flt (fu_jq st) (Some (throttled_task sess)) []")
  have shape: "fst (enqueueThrottledNotice flt now sess st) = st\<lparr>fu_jq := jq\<rparr>"
    by (simp add: enqueueThrottledNotice_def fup_enqueue_def e split: sum.split job_error.split)
  then show "fu_db (fst (enqueueThrottledNotice flt now sess st)) = fu_db st"
    and "fu_net (fst (enqueueThrottledNotice flt now sess st)) = fu_net st" by simp_all
  have "coa_subjects jq = coa_subjects (fu_jq st)"
    using e
  proof (cases rule: EnqueueContext_cases)
    case (failed x)
    then show ?thesis by (auto simp: coa_subjects_def)
  next
    case (queued task k)
    from queued(1) have "task = throttled_task sess" by simp
    then have "task_payload task = ThrottledPayload (st_SubscriberID sess) (st_Username sess) (st_FUPThrottle sess)"
      by (simp add: throttled_task_def NewTask_def)
    with queued(4) show ?thesis by (simp add: coa_subjects_def new_row_def List.map_filter_def)
  qed
  with shape show "coa_subjects (fu_jq (fst (enqueueThrottledNotice flt now sess st))) = coa_subjects (fu_jq st)"
    by simp
qed

definition flag_all :: "int set \<Rightarrow> 'd db \<Rightarrow> 'd db" where
  "flag_all I db = db\<lparr>subscribers := map (\<lambda>s. if sub_id s \<in> I then flagged s else s) (subscribers db)\<rparr>"

lemma flag_all_insert: "flag_all I (db\<lparr>subscribers := update_where (\<lambda>s. sub_id s = i) flagged (subscribers db)\<rparr>)
    = flag_all (insert i I) db"
  by (auto simp: flag_all_def update_where_def flagged_def)

lemma SetFUPActive_works:
  assumes "i \<in> sub_id ` set (subscribers db)"
  shows "SetFUPActive no_faults db i True =
    (db\<lparr>subscribers := update_where (\<lambda>s. sub_id s = i) flagged (subscribers db)\<rparr>, Inr ())"
proof -
  have "flagged = (\<lambda>s :: 'a subscriber. s\<lparr>sub_fup_active := True\<rparr>)" by (simp add: flagged_def fun_eq_iff)
  moreover have "rows_affected (\<lambda>s. sub_id s = i) (subscribers db) \<noteq> 0" using assms by (auto simp: table_simps)
  ultimately show ?thesis by (simp add: SetFUPActive_def update_subscriber_def)
qed

lemma breach_loop_works:
  assumes "\<forall>x \<in> set xs. st_FUPThreshold x \<noteq> 0 \<and> \<not> st_FUPActive x \<and> st_FUPThreshold x \<le> st_BytesUsed x
             \<and> st_SubscriberID x \<in> sub_id ` set (subscribers (fu_db st))"
  shows "\<exists>st'. breach_loop no_faults now xs st = (st', Inr ())
     \<and> fu_db st' = flag_all (st_SubscriberID ` set xs) (fu_db st) \<and> fu_net st' = fu_net st
     \<and> coa_subjects (fu_jq st') = coa_subjects (fu_jq st) @ map st_SubscriberID xs"
  using assms
proof (induction xs arbitrary: st)
  case Nil
  then show ?case by (simp add: flag_all_def)
next
  case (Cons x xs)
  let ?i = "st_SubscriberID x"
  let ?db = "(fu_db st)\<lparr>subscribers := update_where (\<lambda>s. sub_id s = ?i) flagged (subscribers (fu_db st))\<rparr>"
  let ?q = "EnqueueContext now no_faults (fu_jq st) (Some (coa_task ?i (st_NasIP x))) []"
  let ?st = "fst (enqueueThrottledNotice no_faults now x (st\<lparr>fu_db := ?db, fu_jq := fst ?q\<rparr>))"
  obtain k where k: "snd ?q = Inr k" and subj: "coa_subjects (fst ?q) = coa_subjects (fu_jq st) @ [?i]"
    and enq: "fup_enqueue no_faults now (coa_task ?i (st_NasIP x)) (st\<lparr>fu_db := ?db\<rparr>)
      = (st\<lparr>fu_db := ?db, fu_jq := fst ?q\<rparr>, snd ?q)"
    using fup_enqueue_coa [of now ?i "st_NasIP x" "st\<lparr>fu_db := ?db\<rparr>"] by auto
  have step: "breach_loop no_faults now (x # xs) st = breach_loop no_faults now xs ?st"
    using Cons.prems by (simp add: SetFUPActive_works enq k)
  have ids: "sub_id ` set (subscribers (fu_db ?st)) = sub_id ` set (subscribers (fu_db st))"
    unfolding notice_keeps set_map [symmetric] by (simp add: map_update_where flagged_def del: set_map)
  have "\<forall>x \<in> set xs. st_FUPThreshold x \<noteq> 0 \<and> \<not> st_FUPActive x \<and> st_FUPThreshold x \<le> st_BytesUsed x
      \<and> st_SubscriberID x \<in> sub_id ` set (subscribers (fu_db ?st))"
    unfolding ids using Cons.prems by simp
  from Cons.IH [OF this] obtain st' where "breach_loop no_faults now xs ?st = (st', Inr ())"
    and "fu_db st' = flag_all (st_SubscriberID ` set xs) (fu_db ?st)" and "fu_net st' = fu_net ?st"
    and "coa_subjects (fu_jq st') = coa_subjects (fu_jq ?st) @ map st_SubscriberID xs"
    by blast
  then show ?case
    unfolding step by (simp add: notice_keeps flag_all_insert subj)
qed


lemma find_subscriber_distinct:
  assumes "distinct (map sub_id (subscribers db))" and "s \<in> set (subscribers db)"
  shows "find_subscriber db (sub_id s) = Some s"
proof -
  obtain r where r: "find_subscriber db (sub_id s) = Some r"
    using assms(2) by (cases "find_subscriber db (sub_id s)") (auto simp: find_subscriber_def find_None_iff)
  then have "r \<in> set (subscribers db)" "sub_id r = sub_id s" using find_subscriber_id by blast+
  with assms have "r = s" by (metis (no_types, lifting) distinct_map inj_onD)
  with r show ?thesis by simp
qed

lemma find_plan_flag_all [simp]: "find_plan (flag_all I db) p = find_plan db p"
  by (simp add: find_plan_def flag_all_def)

lemma bytes_used_offline: "i \<notin> h_subscriber ` {h \<in> set (history n). is_open h} \<Longrightarrow> bytes_used n i = 0"
proof -
  assume "i \<notin> h_subscriber ` {h \<in> set (history n). is_open h}"
  then have "open_rows n i = []" by (auto simp: open_rows_def filter_empty_conv)
  then show ?thesis by (simp add: bytes_used_def)
qed

text \<open>The rows the breach query returns.\<close>

lemma GetActiveSessionsAboveFUP_rows:
  "\<exists>xs. GetActiveSessionsAboveFUP no_faults tmax db n = Inr xs \<and> distinct (map st_SubscriberID xs)
     \<and> (\<forall>x. x \<in> set xs \<longleftrightarrow> (\<exists>i s p. i \<in> h_subscriber ` {h \<in> set (history n). is_open h}
          \<and> find_subscriber db i = Some s \<and> find_plan db (sub_plan_id s) = Some p \<and> breached s p (bytes_used n i)
          \<and> session_stats db (i, tmax (map h_nas (open_rows n i)), bytes_used n i) = Some (s, p, x)))"
proof -
  let ?u = "\<lambda>i. (i, tmax (map h_nas (open_rows n i)), bytes_used n i)"
  let ?is = "remdups (map h_subscriber (filter is_open (history n)))"
  let ?rows = "filter (\<lambda>(s, p, x). breached s p (st_BytesUsed x)) (List.map_filter (session_stats db) (map ?u ?is))"
  let ?xs = "map (\<lambda>(s, p, x). x) ?rows"
  have out: "GetActiveSessionsAboveFUP no_faults tmax db n = Inr ?xs"
    by (simp add: GetActiveSessionsAboveFUP_def scanSessionStats_def liveSessionUsage_def)
  have sid: "st_SubscriberID x = i \<and> st_BytesUsed x = b \<and> find_subscriber db i = Some s \<and> find_plan db (sub_plan_id s) = Some p"
    if "session_stats db (i, nas, b) = Some (s, p, x)" for i nas b s p x
    using that find_subscriber_id [of db i] by (auto simp: session_stats_def split: option.splits)
  have "map (\<lambda>(s, p, x). st_SubscriberID x) (List.map_filter (session_stats db) (map ?u is))
      = filter (\<lambda>i. session_stats db (?u i) \<noteq> None) is" for "is"
  proof (induction "is")
    case (Cons i "is")
    then show ?case
      using sid [of i "tmax (map h_nas (open_rows n i))" "bytes_used n i"]
      by (cases "session_stats db (?u i)") (auto simp: map_filter_simps)
  qed (simp add: map_filter_simps)
  then have base: "distinct (map (\<lambda>(s, p, x). st_SubscriberID x) (List.map_filter (session_stats db) (map ?u ?is)))" by simp
  have third: "map st_SubscriberID (map (\<lambda>(s, p, x). x) zs) = map (\<lambda>(s, p, x). st_SubscriberID x) zs" for zs
    by (induction zs) auto
  have dist: "distinct (map st_SubscriberID ?xs)"
    unfolding third by (rule distinct_map_filter [OF base])
  have "x \<in> set ?xs \<longleftrightarrow> (\<exists>i s p. i \<in> set ?is \<and> session_stats db (?u i) = Some (s, p, x) \<and> breached s p (st_BytesUsed x))" for x
    by (force simp: List.map_filter_def image_iff)
  moreover have "set ?is = h_subscriber ` {h \<in> set (history n). is_open h}" by auto
  moreover have "session_stats db (?u i) = Some (s, p, x) \<and> breached s p (st_BytesUsed x) \<longleftrightarrow>
      find_subscriber db i = Some s \<and> find_plan db (sub_plan_id s) = Some p \<and> breached s p (bytes_used n i)
      \<and> session_stats db (?u i) = Some (s, p, x)" for i s p x
    using sid [of i "tmax (map h_nas (open_rows n i))" "bytes_used n i" s p x] by auto
  ultimately have "x \<in> set ?xs \<longleftrightarrow> (\<exists>i s p. i \<in> h_subscriber ` {h \<in> set (history n). is_open h}
          \<and> find_subscriber db i = Some s \<and> find_plan db (sub_plan_id s) = Some p \<and> breached s p (bytes_used n i)
          \<and> session_stats db (?u i) = Some (s, p, x))" for x
    by (simp only:)
  with out dist show ?thesis by blast
qed


lemma GetActiveSessionsAboveFUP_over_quota:
  assumes "distinct (map sub_id (subscribers db))"
  obtains xs where "GetActiveSessionsAboveFUP no_faults tmax db n = Inr xs" "distinct (map st_SubscriberID xs)"
    "\<forall>x \<in> set xs. st_FUPThreshold x \<noteq> 0 \<and> \<not> st_FUPActive x \<and> st_FUPThreshold x \<le> st_BytesUsed x
       \<and> st_SubscriberID x \<in> sub_id ` set (subscribers db)"
    "st_SubscriberID ` set xs = {sub_id s |s. s \<in> set (subscribers db) \<and> over_quota db n s}"
proof -
  let ?over = "{sub_id s |s. s \<in> set (subscribers db) \<and> over_quota db n s}"
  obtain xs where xs: "GetActiveSessionsAboveFUP no_faults tmax db n = Inr xs" "distinct (map st_SubscriberID xs)"
    and mem: "\<And>x. x \<in> set xs \<longleftrightarrow> (\<exists>i s p. i \<in> h_subscriber ` {h \<in> set (history n). is_open h}
          \<and> find_subscriber db i = Some s \<and> find_plan db (sub_plan_id s) = Some p \<and> breached s p (bytes_used n i)
          \<and> session_stats db (i, tmax (map h_nas (open_rows n i)), bytes_used n i) = Some (s, p, x))"
    using GetActiveSessionsAboveFUP_rows [of tmax db n] by blast
  have row: "st_FUPThreshold x \<noteq> 0 \<and> \<not> st_FUPActive x \<and> st_FUPThreshold x \<le> st_BytesUsed x
       \<and> (\<exists>s \<in> set (subscribers db). st_SubscriberID x = sub_id s \<and> over_quota db n s)" if x: "x \<in> set xs" for x
  proof -
    from x obtain i s p where "find_subscriber db i = Some s" "find_plan db (sub_plan_id s) = Some p"
      "breached s p (bytes_used n i)" "session_stats db (i, tmax (map h_nas (open_rows n i)), bytes_used n i) = Some (s, p, x)"
      unfolding mem by blast
    then show ?thesis
      using find_subscriber_id [of db i s] by (auto simp: session_stats_def over_quota_def breached_def)
  qed
  have "sub_id s \<in> st_SubscriberID ` set xs" if s: "s \<in> set (subscribers db)" "over_quota db n s" for s
  proof -
    from s(2) obtain p where p: "find_plan db (sub_plan_id s) = Some p" "breached s p (bytes_used n (sub_id s))"
      by (auto simp: over_quota_def split: option.splits)
    have f: "find_subscriber db (sub_id s) = Some s" using find_subscriber_distinct [OF assms s(1)] .
    have on: "sub_id s \<in> h_subscriber ` {h \<in> set (history n). is_open h}"
      using p(2) bytes_used_offline [of "sub_id s" n] by (fastforce simp: breached_def)
    obtain x where x: "session_stats db (sub_id s, tmax (map h_nas (open_rows n (sub_id s))), bytes_used n (sub_id s)) = Some (s, p, x)"
      and "st_SubscriberID x = sub_id s"
      using f p(1) by (auto simp: session_stats_def)
    moreover have "x \<in> set xs" unfolding mem using on f p x by blast
    ultimately show ?thesis by (metis image_eqI)
  qed
  then have "st_SubscriberID ` set xs = ?over" using row by fastforce
  with xs row that show ?thesis by blast
qed



section \<open>One rate, two places\<close>

text \<open>
  The rate a rate-change task carries to the access device, computed in SQL from override, throttle
  flag and plan, is the rate the RADIUS daemon would compute in Go for the same subscriber at the same
  instant, so a change pushed mid-session and a reconnect agree.
\<close>

theorem coa_rate_is_effective_rate:
  assumes "distinct (map sub_username (subscribers db))"
    and "GetSubscriberNASSession no_faults now db n i = Inr (nas, sid, rate, planID)"
  shows "\<exists>s sub. find_subscriber db i = Some s \<and> GetSubscriberByUsername no_faults db (sub_username s) = Inr (Some sub)
           \<and> s_ID sub = i \<and> s_PlanID sub = planID \<and> rate = effectiveRateLimit now sub
           \<and> (\<exists>h \<in> set (history n). is_open h \<and> h_subscriber h = i \<and> h_nas h = nas \<and> h_session h = sid
                \<and> (\<forall>h' \<in> set (history n). is_open h' \<and> h_subscriber h' = i \<longrightarrow> h_start h' \<le> h_start h))"
proof -
  obtain s p h where s: "find_subscriber db i = Some s" and p: "find_plan db (sub_plan_id s) = Some p"
    and h: "latest_by h_start (open_rows n i) = Some h"
    and out: "nas = h_nas h" "sid = h_session h" "rate = nas_rate now s p" "planID = sub_plan_id s"
    using assms(2) by (auto simp: GetSubscriberNASSession_def split: option.splits)
  have mem: "s \<in> set (subscribers db)" "sub_id s = i" using find_subscriber_id [OF s] by simp_all
  obtain r where r: "find (\<lambda>r. sub_username r = sub_username s) (subscribers db) = Some r"
    using mem(1) by (cases "find (\<lambda>r. sub_username r = sub_username s) (subscribers db)") (auto simp: find_None_iff)
  then have "r \<in> set (subscribers db)" "sub_username r = sub_username s" by (auto simp: find_Some_iff)
  with assms(1) mem(1) have "r = s" by (metis (no_types, lifting) distinct_map inj_onD)
  with r p have "\<exists>sub. GetSubscriberByUsername no_faults db (sub_username s) = Inr (Some sub)
      \<and> s_ID sub = i \<and> s_PlanID sub = planID \<and> rate = effectiveRateLimit now sub"
    unfolding out(3,4) using mem(2)
    by (simp add: GetSubscriberByUsername_def find_plan_def nas_rate_def effectiveRateLimit_def)
  moreover have "\<exists>h \<in> set (history n). is_open h \<and> h_subscriber h = i \<and> h_nas h = nas \<and> h_session h = sid
      \<and> (\<forall>h' \<in> set (history n). is_open h' \<and> h_subscriber h' = i \<longrightarrow> h_start h' \<le> h_start h)"
    unfolding out(1,2) using h
    by (cases rule: latest_by_cases [of h_start "open_rows n i"]) (auto simp: open_rows_def)
  ultimately show ?thesis using s by blast
qed

section \<open>What usage forgets\<close>

lemma filter_unique_open:
  assumes "distinct (map h_session (filter is_open hs))" and "h \<in> set hs" and "is_open h"
  shows "filter (\<lambda>x. h_session x = h_session h \<and> is_open x) hs = [h]"
  using assms
proof (induction hs)
  case (Cons a hs)
  show ?case
  proof (cases "a = h")
    case True
    with Cons.prems have "\<forall>x \<in> set hs. \<not> (h_session x = h_session h \<and> is_open x)" by (force simp: image_iff)
    then have "filter (\<lambda>x. h_session x = h_session h \<and> is_open x) hs = []" by (simp add: filter_empty_conv)
    with True Cons.prems show ?thesis by simp
  next
    case False
    with Cons.prems have "h \<in> set hs" by simp
    moreover from this Cons.prems have "\<not> (h_session a = h_session h \<and> is_open a)" by (force simp: image_iff)
    ultimately show ?thesis using Cons by (auto split: if_splits)
  qed
qed simp

lemma bytes_used_stop:
  "sum_list (map g (filter (\<lambda>h. is_open h \<and> h_subscriber h = i)
      (update_where (\<lambda>h. h_session h = sid \<and> is_open h) (stopped_row now a b c) hs)))
   = sum_list (map g (filter (\<lambda>h. is_open h \<and> h_subscriber h = i) hs))
     - sum_list (map g (filter (\<lambda>h. h_subscriber h = i) (filter (\<lambda>h. h_session h = sid \<and> is_open h) hs)))"
  for g :: "session_row \<Rightarrow> int"
  by (induction hs) (auto simp: update_where_def is_open_def stopped_row_def)

text \<open>
  The usage the quota is compared with counts open sessions only, though the comment on the query
  says the quota is per billing cycle. When a session stops, everything it carried leaves the sum, so
  a subscriber whose only session ends starts again from nothing, however much of the quota was used.
\<close>

theorem stopped_session_leaves_quota:
  assumes "net_inv n" and "h \<in> set (history n)" and "is_open h"
    and "StopSession no_faults now n (h_session h) inOct outOct cause = (n', res)"
  shows "bytes_used n' (h_subscriber h) = bytes_used n (h_subscriber h) - (h_in h + h_out h)
       \<and> (open_rows n (h_subscriber h) = [h] \<longrightarrow>
            bytes_used n' (h_subscriber h) = 0 \<and> \<not> breached s p (bytes_used n' (h_subscriber h)))"
proof -
  have n': "n' = n\<lparr>history := update_where (\<lambda>x. h_session x = h_session h \<and> is_open x)
      (stopped_row now inOct outOct cause) (history n)\<rparr>"
    using assms(4) by (simp add: StopSession_def Let_def)
  have "filter (\<lambda>x. h_session x = h_session h \<and> is_open x) (history n) = [h]"
    using assms(1-3) by (intro filter_unique_open) (auto simp: net_inv_def open_sessions_def)
  then have eq: "bytes_used n' (h_subscriber h) = bytes_used n (h_subscriber h) - (h_in h + h_out h)"
    unfolding bytes_used_def open_rows_def n' by (simp add: bytes_used_stop)
  then show ?thesis by (auto simp: bytes_used_def [of n] breached_def)
qed

section \<open>Alerts\<close>

fun dead_letter_alerts :: "DeadLetterMonitor \<Rightarrow> (time \<times> int) list \<Rightarrow> (time \<times> int) list" where
  "dead_letter_alerts m [] = []"
| "dead_letter_alerts m ((t, d) # polls) =
     (case checkOnce t (Inr d) m of
        (m', None) \<Rightarrow> dead_letter_alerts m' polls
      | (m', Some a) \<Rightarrow> (t, a) # dead_letter_alerts m' polls)"

text \<open>
  A queue that is broken and gets no worse pages once, then stays silent for the reminder interval.
\<close>

lemma steady_incident_silent:
  assumes "dl_lastAlerted m = d" and "0 < d" and "0 < dl_reminder m"
    and "\<forall>(u, k) \<in> set polls. 0 < k \<and> k \<le> d \<and> u - dl_lastAlertAt m < dl_reminder m \<and> dl_lastAlertAt m \<le> u"
  shows "dead_letter_alerts m polls = []"
  using assms
  by (induction polls) (auto simp: checkOnce_def Let_def time_sub_def)


section \<open>Witnesses\<close>

definition fdemo_plan :: "rat plan" where
  "fdemo_plan = \<lparr>plan_id = 1, plan_name = ''Home'', plan_price = 799, plan_validity_days = 30, plan_volume_gb = 100,
     plan_rate_limit = ''50M/50M'', plan_fup_throttle = ''2M/2M'', plan_fup_threshold = 1000\<rparr>"

definition fdemo_db :: "rat db" where
  "fdemo_db = dun_db\<lparr>subscribers := [dun_sub 1 Active (10 * Day)], plans := [fdemo_plan]\<rparr>"

definition fdemo_row :: session_row where
  "fdemo_row = (acdemo_row 1 ''s1'' 5 None)\<lparr>h_in := 700, h_out := 400\<rparr>"

definition fdemo :: "rat fup" where
  "fdemo = \<lparr>fu_db = fdemo_db, fu_net = acdemo_net [fdemo_row], fu_jq = empty_queue\<rparr>"

lemma fdemo_sel [simp]:
  "subscribers (fu_db fdemo) = [dun_sub 1 Active (10 * Day)]" "fu_net fdemo = acdemo_net [fdemo_row]"
  "history (acdemo_net hs) = hs" "is_open fdemo_row" "h_subscriber fdemo_row = 1" "h_session fdemo_row = ''s1''"
  "h_in fdemo_row = 700" "h_out fdemo_row = 400" "h_nas fdemo_row = ''10.0.0.1''"
  "sub_id (dun_sub i s e) = i" "sub_plan_id (dun_sub i s e) = 1" "sub_status (dun_sub i s e) = s"
  "\<not> sub_fup_active (dun_sub i s e)" "find_plan (fu_db fdemo) 1 = Some fdemo_plan"
  by (simp_all add: fdemo_def fdemo_db_def fdemo_row_def acdemo_row_def acdemo_net_def is_open_def dun_sub_def
      find_plan_def fdemo_plan_def)

lemma fdemo_used [simp]: "open_rows (acdemo_net [fdemo_row]) 1 = [fdemo_row]"
  by (simp add: open_rows_def)


theorem coa_rate_is_effective_rate_witness:
  "\<exists>sub. GetSubscriberNASSession no_faults 9 (fu_db fdemo) (fu_net fdemo) 1 = Inr (''10.0.0.1'', ''s1'', ''50M/50M'', 1)
     \<and> GetSubscriberByUsername no_faults (fu_db fdemo) ''asha'' = Inr (Some sub) \<and> effectiveRateLimit 9 sub = ''50M/50M''"
proof -
  have find: "find_subscriber (fu_db fdemo) 1 = Some (dun_sub 1 Active (10 * Day))" by (simp add: find_subscriber_def)
  have "nas_rate 9 (dun_sub 1 Active (10 * Day)) fdemo_plan = ''50M/50M''"
    by (simp add: nas_rate_def) (simp add: dun_sub_def fdemo_plan_def)
  then have run: "GetSubscriberNASSession no_faults 9 (fu_db fdemo) (fu_net fdemo) 1 = Inr (''10.0.0.1'', ''s1'', ''50M/50M'', 1)"
    by (simp add: GetSubscriberNASSession_def find latest_by_def)
  moreover have "distinct (map sub_username (subscribers (fu_db fdemo)))" by simp
  moreover have "sub_username (dun_sub 1 Active (10 * Day)) = ''asha''" by (simp add: dun_sub_def)
  ultimately show ?thesis
    using coa_rate_is_effective_rate [of "fu_db fdemo" 9 "fu_net fdemo" 1 "''10.0.0.1''" "''s1''" "''50M/50M''" 1] find by auto
qed

theorem stopped_session_leaves_quota_witness:
  "breached (dun_sub 1 Active (10 * Day)) fdemo_plan (bytes_used (acdemo_net [fdemo_row]) 1)
   \<and> bytes_used (fst (StopSession no_faults 9 (acdemo_net [fdemo_row]) ''s1'' 700 400 [])) 1 = 0"
proof -
  have "net_inv (acdemo_net [fdemo_row])"
    by (simp add: net_inv_def open_sessions_def) (simp add: acdemo_net_def fdemo_row_def acdemo_row_def)
  then show ?thesis
    using stopped_session_leaves_quota [of "acdemo_net [fdemo_row]" fdemo_row 9 700 400 "[]"
        "fst (StopSession no_faults 9 (acdemo_net [fdemo_row]) ''s1'' 700 400 [])"
        "snd (StopSession no_faults 9 (acdemo_net [fdemo_row]) ''s1'' 700 400 [])" "dun_sub 1 Active (10 * Day)" fdemo_plan]
    by (simp add: breached_def in_service_def bytes_used_def [of "acdemo_net [fdemo_row]"]) (simp add: fdemo_plan_def)
qed

end
