(* ===== verification/Revenue.thy ===== *)
theory Revenue
  imports Renewal Hotspot
begin

text \<open>
  Revenue assurance and franchise partners: \<open>src/internal/revenue\<close> and the store behind it,
  \<open>src/internal/db/revenue.go\<close>.

  The state is the billing database of \<open>Schema\<close> with the tables only this component writes: the
  partners, their commission ledger, the nightly snapshots and the collections forecast. The columns
  \<open>created_at\<close> of invoices and wallet legs, which no other component reads, are functions of the row
  id; \<open>date_of\<close> is PostgreSQL's cast of a timestamp to a date and \<open>month_of\<close> its \<open>date_trunc('month')\<close>.
  Amounts the store passes as decimal text are the decimals themselves.
\<close>

section \<open>Tables\<close>

record 'd Franchise =
  fr_ID :: int
  fr_Name :: string
  fr_OwnerName :: string
  fr_MobileNumber :: string
  fr_CommissionRatePct :: 'd
  fr_Status :: string

record 'd lco_row =
  lco_id :: int
  lco_franchise :: int
  lco_subscriber :: int
  lco_recharge :: 'd
  lco_commission :: 'd
  lco_ref :: "string option"
  lco_created :: time

record 'd LCOCommissionEntry =
  ce_FranchiseID :: int
  ce_SubscriberID :: int
  ce_RechargeAmount :: 'd
  ce_CommissionRate :: 'd
  ce_CommissionAmount :: 'd
  ce_TransactionRef :: string

record 'd RevenueSnapshot =
  sn_date :: int
  sn_unbilled :: nat
  sn_variance :: 'd
  sn_total :: 'd

record 'd CollectionsForecast =
  cf_date :: int
  cf_for_date :: int
  cf_expected :: nat
  cf_at_risk :: nat
  cf_expected_revenue :: 'd
  cf_at_risk_revenue :: 'd

record 'd revenue =
  rv_db :: "'d db"
  rv_franchises :: "'d Franchise list"
  rv_franchise_seq :: int
  rv_lco :: "'d lco_row list"
  rv_lco_seq :: int
  rv_snapshots :: "'d RevenueSnapshot list"
  rv_forecast :: "'d CollectionsForecast list"

section \<open>Partners and their commission\<close>

definition GetFranchiseByID :: "'d pg \<Rightarrow> 'd revenue \<Rightarrow> int \<Rightarrow> err + 'd Franchise" where
  "GetFranchiseByID pg s franchiseID =
     bindE (stmt pg ''get franchise'') (\<lambda>_.
       case find (\<lambda>f. fr_ID f = franchiseID) (rv_franchises s) of
         None \<Rightarrow> Inl ErrNotFound
       | Some f \<Rightarrow> Inr f)"

definition GetSubscriberFranchiseID :: "'d pg \<Rightarrow> 'd revenue \<Rightarrow> int \<Rightarrow> err + int option" where
  "GetSubscriberFranchiseID pg s subscriberID =
     bindE (stmt pg ''get subscriber franchise'') (\<lambda>_.
       case find_subscriber (rv_db s) subscriberID of
         None \<Rightarrow> Inl ErrNotFound
       | Some r \<Rightarrow> Inr (sub_franchise_id r))"

definition CreateFranchise ::
  "'d pg \<Rightarrow> string \<Rightarrow> string \<Rightarrow> string \<Rightarrow> 'd \<Rightarrow> 'd revenue \<Rightarrow> 'd revenue \<times> (err + 'd Franchise)" where
  "CreateFranchise pg name owner mobile rate s =
     (case bindE (stmt pg ''create franchise'') (\<lambda>_. numericE pg 5 rate) of
        Inl e \<Rightarrow> (s, Inl e)
      | Inr r \<Rightarrow>
          (let f = \<lparr>fr_ID = rv_franchise_seq s, fr_Name = name, fr_OwnerName = owner, fr_MobileNumber = mobile,
                    fr_CommissionRatePct = r, fr_Status = ''active''\<rparr>
           in (s\<lparr>rv_franchises := rv_franchises s @ [f], rv_franchise_seq := rv_franchise_seq s + 1\<rparr>, Inr f)))"

text \<open>The ledger insert: \<open>None\<close> is the conflict on \<open>transaction_ref\<close>, which inserts nothing.\<close>

definition insert_lco ::
  "'d::linordered_idom pg \<Rightarrow> time \<Rightarrow> 'd LCOCommissionEntry \<Rightarrow> 'd revenue \<Rightarrow> err + 'd lco_row option" where
  "insert_lco pg now entry s =
     bindE (stmt pg ''store LCO commission'') (\<lambda>_.
     bindE (numericE pg 12 (ce_RechargeAmount entry)) (\<lambda>recharge.
     bindE (numericE pg 12 (ce_CommissionAmount entry)) (\<lambda>commission.
       (let ref = (if ce_TransactionRef entry = [] then None else Some (ce_TransactionRef entry))
        in if ref \<noteq> None \<and> ref \<in> set (map lco_ref (rv_lco s)) then Inr None
           else bindE (guardE (find (\<lambda>f. fr_ID f = ce_FranchiseID entry) (rv_franchises s) \<noteq> None)
                         (ErrCheck ''franchise_id'')) (\<lambda>_.
                bindE (guardE (find_subscriber (rv_db s) (ce_SubscriberID entry) \<noteq> None)
                         (ErrCheck ''subscriber_id'')) (\<lambda>_.
                  Inr (Some \<lparr>lco_id = rv_lco_seq s, lco_franchise = ce_FranchiseID entry,
                        lco_subscriber = ce_SubscriberID entry, lco_recharge = recharge,
                        lco_commission = commission, lco_ref = ref, lco_created = now\<rparr>)))))))"

definition insert_commission_line ::
  "'d::linordered_idom pg \<Rightarrow> string \<Rightarrow> int \<Rightarrow> int \<Rightarrow> 'd \<Rightarrow> 'd \<Rightarrow> 'd db \<Rightarrow> err + 'd db" where
  "insert_commission_line pg label journalID account debit credit db =
     bindE (stmt pg label) (\<lambda>_.
     bindE (numericE pg 14 debit) (\<lambda>d.
     bindE (numericE pg 14 credit) (\<lambda>c.
       (let line = \<lparr>gl_entry_id = journalID, gl_account = account, gl_debit = d, gl_credit = c\<rparr>
        in bindE (guardE (chk_gl_line line) (ErrCheck ''chk_gl_line'')) (\<lambda>_.
             Inr (db\<lparr>gl_lines := gl_lines db @ [line]\<rparr>))))))"

text \<open>The text of a journal entry is not read back; the source's dash is written in ASCII.\<close>

definition commission_description :: "'d LCOCommissionEntry \<Rightarrow> string" where
  "commission_description entry = ''Franchise commission - partner '' @ show_int (ce_FranchiseID entry)
     @ '', subscriber '' @ show_int (ce_SubscriberID entry)"

definition post_commission ::
  "'d::linordered_idom pg \<Rightarrow> 'd LCOCommissionEntry \<Rightarrow> int \<Rightarrow> 'd db \<Rightarrow> err + 'd db" where
  "post_commission pg entry ledgerID db =
     bindE (stmt pg ''insert commission GL entry'') (\<lambda>_.
       (let journalID = gl_seq db;
            db1 = db\<lparr>gl_entries := gl_entries db @
                      [\<lparr>ge_id = journalID, ge_description = commission_description entry,
                        ge_source_type = ''lco_commission'', ge_source_id = ledgerID, ge_created_by = ''system''\<rparr>],
                     gl_seq := gl_seq db + 1\<rparr>
        in bindE (glAccountID pg db1 ''5000'') (\<lambda>expenseID.
           bindE (glAccountID pg db1 ''2100'') (\<lambda>payableID.
           bindE (insert_commission_line pg ''insert commission expense line'' journalID expenseID
                    (ce_CommissionAmount entry) 0 db1) (\<lambda>db2.
             insert_commission_line pg ''insert commission payable line'' journalID payableID
                0 (ce_CommissionAmount entry) db2)))))"

text \<open>
  One transaction over the billing tables and the commission ledger: the body reports the row it
  inserted and the row is there exactly when the transaction committed.
\<close>

definition CalculateAndStoreLCOCommission ::
  "'d::linordered_idom pg \<Rightarrow> time \<Rightarrow> 'd revenue \<Rightarrow> 'd LCOCommissionEntry \<Rightarrow> 'd revenue \<times> (err + unit)" where
  "CalculateAndStoreLCOCommission pg now s entry =
     (case inTx pg (\<lambda>db. bindE (insert_lco pg now entry (s\<lparr>rv_db := db\<rparr>)) (\<lambda>res.
              case res of
                None \<Rightarrow> Inr (db, None)
              | Some row \<Rightarrow>
                  if ce_CommissionAmount entry = 0 then Inr (db, Some row)
                  else bindE (post_commission pg entry (lco_id row) db) (\<lambda>db'. Inr (db', Some row)))) (rv_db s) of
        (_, Inl e) \<Rightarrow> (s, Inl e)
      | (_, Inr None) \<Rightarrow> (s, Inr ())
      | (db', Inr (Some row)) \<Rightarrow>
          (s\<lparr>rv_db := db', rv_lco := rv_lco s @ [row], rv_lco_seq := rv_lco_seq s + 1\<rparr>, Inr ()))"

record ('s, 'd) FranchiseQuerier =
  fq_GetFranchiseByID :: "'s \<Rightarrow> int \<Rightarrow> err + 'd Franchise"
  fq_CalculateAndStoreLCOCommission :: "'s \<Rightarrow> 'd LCOCommissionEntry \<Rightarrow> 's \<times> (err + unit)"
  fq_GetSubscriberFranchiseID :: "'s \<Rightarrow> int \<Rightarrow> err + int option"

definition RevenueStore :: "'d::linordered_idom pg \<Rightarrow> time \<Rightarrow> ('d revenue, 'd) FranchiseQuerier" where
  "RevenueStore pg now =
     \<lparr>fq_GetFranchiseByID = GetFranchiseByID pg,
      fq_CalculateAndStoreLCOCommission = CalculateAndStoreLCOCommission pg now,
      fq_GetSubscriberFranchiseID = GetSubscriberFranchiseID pg\<rparr>"

definition CalculateLCOCommission ::
  "'d::linordered_idom decimal_pkg \<Rightarrow> ('s, 'd) FranchiseQuerier \<Rightarrow> 's \<Rightarrow> 'd LCOCommissionEntry \<Rightarrow> 's \<times> (err + 'd)" where
  "CalculateLCOCommission dp q s entry =
     (case fq_GetFranchiseByID q s (ce_FranchiseID entry) of
        Inl e \<Rightarrow> (s, Inl e)
      | Inr franchise \<Rightarrow>
          if fr_Status franchise \<noteq> ''active'' then (s, Inl (Err ''revenue: franchise is not active''))
          else
            (let commission = percent_of dp (ce_RechargeAmount entry) (fr_CommissionRatePct franchise);
                 ledgerRow = \<lparr>ce_FranchiseID = ce_FranchiseID entry, ce_SubscriberID = ce_SubscriberID entry,
                              ce_RechargeAmount = ce_RechargeAmount entry,
                              ce_CommissionRate = fr_CommissionRatePct franchise,
                              ce_CommissionAmount = commission, ce_TransactionRef = ce_TransactionRef entry\<rparr>
             in case fq_CalculateAndStoreLCOCommission q s ledgerRow of
                  (s', Inl e) \<Rightarrow> (s', Inl e)
                | (s', Inr _) \<Rightarrow> (s', Inr commission)))"

text \<open>Errors are logged; the fields the caller leaves out have Go's zero value.\<close>

definition SettleCommissionForRecharge ::
  "'d::linordered_idom decimal_pkg \<Rightarrow> ('s, 'd) FranchiseQuerier \<Rightarrow> 's \<Rightarrow> int \<Rightarrow> 'd \<Rightarrow> string \<Rightarrow> 's" where
  "SettleCommissionForRecharge dp q s subscriberID amount transactionRef =
     (case fq_GetSubscriberFranchiseID q s subscriberID of
        Inl _ \<Rightarrow> s
      | Inr None \<Rightarrow> s
      | Inr (Some franchiseID) \<Rightarrow>
          fst (CalculateLCOCommission dp q s
                 \<lparr>ce_FranchiseID = franchiseID, ce_SubscriberID = subscriberID, ce_RechargeAmount = amount,
                  ce_CommissionRate = 0, ce_CommissionAmount = 0, ce_TransactionRef = transactionRef\<rparr>))"

section \<open>Scope\<close>

definition franchiseScopedRoles :: "string set" where
  "franchiseScopedRoles = {''lco'', ''franchise_admin'', ''franchise_staff''}"

text \<open>The middleware: the scope it puts into the context, \<open>None\<close> for the 403.\<close>

definition FranchiseMiddleware :: "string \<Rightarrow> int \<Rightarrow> int option option" where
  "FranchiseMiddleware role franchiseID =
     (if role \<in> franchiseScopedRoles
      then if franchiseID = 0 then None else Some (Some franchiseID)
      else Some None)"

definition in_scope :: "int option \<Rightarrow> int option \<Rightarrow> bool" where
  "in_scope scope v = (case scope of None \<Rightarrow> True | Some i \<Rightarrow> v = Some i)"

definition ListSubscribers :: "'d pg \<Rightarrow> 'd revenue \<Rightarrow> int option \<Rightarrow> err + (int \<times> string \<times> int option) list" where
  "ListSubscribers pg s franchiseID =
     bindE (stmt pg ''list subscribers'') (\<lambda>_.
       Inr (map (\<lambda>r. (sub_id r, sub_username r, sub_franchise_id r))
              (sort_key sub_id (filter (\<lambda>r. in_scope franchiseID (sub_franchise_id r)) (subscribers (rv_db s))))))"

datatype 'a response = Status nat | Body 'a

definition ListSubscribersHandler ::
  "'d pg \<Rightarrow> 'd revenue \<Rightarrow> int option \<Rightarrow> (int \<times> string \<times> int option) list response" where
  "ListSubscribersHandler pg s scope =
     (case ListSubscribers pg s scope of Inl _ \<Rightarrow> Status 500 | Inr rows \<Rightarrow> Body rows)"

definition subscribers_route ::
  "'d pg \<Rightarrow> 'd revenue \<Rightarrow> string \<Rightarrow> int \<Rightarrow> (int \<times> string \<times> int option) list response" where
  "subscribers_route pg s role franchiseID =
     (case FranchiseMiddleware role franchiseID of
        None \<Rightarrow> Status 403
      | Some scope \<Rightarrow> ListSubscribersHandler pg s scope)"

definition ListFranchises :: "'d pg \<Rightarrow> 'd revenue \<Rightarrow> int option \<Rightarrow> err + 'd Franchise list" where
  "ListFranchises pg s franchiseID =
     bindE (stmt pg ''list franchises'') (\<lambda>_.
       Inr (sort_key fr_ID (filter (\<lambda>f. in_scope franchiseID (Some (fr_ID f))) (rv_franchises s))))"

section \<open>Profit and loss\<close>

record 'd FranchisePnL =
  pl_FranchiseID :: int
  pl_FranchiseName :: string
  pl_Status :: string
  pl_CommissionRatePct :: 'd
  pl_SubscriberCount :: nat
  pl_RechargeCount :: nat
  pl_TotalRecharges :: 'd
  pl_CommissionEarned :: 'd
  pl_NetToISP :: 'd

definition in_period :: "time option \<Rightarrow> time option \<Rightarrow> 'd lco_row \<Rightarrow> bool" where
  "in_period from to r = ((case from of None \<Rightarrow> True | Some t \<Rightarrow> t \<le> lco_created r)
                          \<and> (case to of None \<Rightarrow> True | Some t \<Rightarrow> lco_created r < t))"

definition period_rows :: "'d revenue \<Rightarrow> time option \<Rightarrow> time option \<Rightarrow> int \<Rightarrow> 'd lco_row list" where
  "period_rows s from to i = filter (\<lambda>r. lco_franchise r = i) (filter (in_period from to) (rv_lco s))"

definition pnl_row ::
  "'d::linordered_idom pg \<Rightarrow> 'd revenue \<Rightarrow> time option \<Rightarrow> time option \<Rightarrow> 'd Franchise \<Rightarrow> err + 'd FranchisePnL" where
  "pnl_row pg s from to f =
     (let led = period_rows s from to (fr_ID f);
          recharges = sum_list (map lco_recharge led);
          commission = sum_list (map lco_commission led)
      in bindE (numericE pg 14 recharges) (\<lambda>r.
         bindE (numericE pg 14 commission) (\<lambda>c.
         bindE (numericE pg 14 (recharges - commission)) (\<lambda>n.
           Inr \<lparr>pl_FranchiseID = fr_ID f, pl_FranchiseName = fr_Name f, pl_Status = fr_Status f,
                pl_CommissionRatePct = fr_CommissionRatePct f,
                pl_SubscriberCount = length (filter (\<lambda>x. sub_franchise_id x = Some (fr_ID f)) (subscribers (rv_db s))),
                pl_RechargeCount = length led,
                pl_TotalRecharges = r, pl_CommissionEarned = c, pl_NetToISP = n\<rparr>))))"

fun mapE :: "('a \<Rightarrow> err + 'b) \<Rightarrow> 'a list \<Rightarrow> err + 'b list" where
  "mapE f [] = Inr []"
| "mapE f (x # xs) = bindE (f x) (\<lambda>y. bindE (mapE f xs) (\<lambda>ys. Inr (y # ys)))"

definition listPnL ::
  "'d::linordered_idom pg \<Rightarrow> 'd revenue \<Rightarrow> int option \<Rightarrow> time option \<Rightarrow> time option \<Rightarrow> err + 'd FranchisePnL list" where
  "listPnL pg s franchiseID from to =
     bindE (stmt pg ''franchise P&L'') (\<lambda>_.
       mapE (pnl_row pg s from to)
         (sort_key fr_ID (filter (\<lambda>f. in_scope franchiseID (Some (fr_ID f))) (rv_franchises s))))"

definition GetFranchisePnL ::
  "'d::linordered_idom pg \<Rightarrow> 'd revenue \<Rightarrow> int \<Rightarrow> time option \<Rightarrow> time option \<Rightarrow> err + 'd FranchisePnL option" where
  "GetFranchisePnL pg s franchiseID from to =
     bindE (listPnL pg s (Some franchiseID) from to) (\<lambda>rows.
       Inr (case rows of [] \<Rightarrow> None | r # _ \<Rightarrow> Some r))"

record 'd ConsolidatedPnL =
  cp_Partners :: "'d FranchisePnL list"
  cp_TotalRecharges :: 'd
  cp_CommissionEarned :: 'd
  cp_NetToISP :: 'd

text \<open>Every total is a sum of two-place values, so \<open>StringFixed(2)\<close> prints it exactly.\<close>

definition ListConsolidatedPnL ::
  "'d::linordered_idom pg \<Rightarrow> 'd revenue \<Rightarrow> time option \<Rightarrow> time option \<Rightarrow> err + 'd ConsolidatedPnL" where
  "ListConsolidatedPnL pg s from to =
     bindE (listPnL pg s None from to) (\<lambda>partners.
       Inr (foldl (\<lambda>acc p. acc\<lparr>cp_TotalRecharges := cp_TotalRecharges acc + pl_TotalRecharges p,
                               cp_CommissionEarned := cp_CommissionEarned acc + pl_CommissionEarned p,
                               cp_NetToISP := cp_NetToISP acc + pl_NetToISP p\<rparr>)
              \<lparr>cp_Partners = partners, cp_TotalRecharges = 0, cp_CommissionEarned = 0, cp_NetToISP = 0\<rparr>
              partners))"

section \<open>Collections\<close>

definition ServiceStoppedIn :: "DunningState \<Rightarrow> bool" where
  "ServiceStoppedIn d = (d = DunningSoftSuspended \<or> d = DunningHardSuspended)"

definition stage_order :: "DunningState list" where
  "stage_order = [DunningRemind7d, DunningRemind3d, DunningRemind1d, DunningGracePeriod,
             DunningSoftSuspended, DunningHardSuspended]"

record 'd CollectionsStageRow =
  cs_DunningState :: DunningState
  cs_Subscribers :: nat
  cs_Outstanding :: 'd
  cs_ServiceStopped :: bool

definition stage_members :: "'d db \<Rightarrow> DunningState \<Rightarrow> 'd subscriber list" where
  "stage_members db d = filter (\<lambda>r. sub_dunning r = d \<and> sub_status r \<noteq> Terminated) (subscribers db)"

definition price_of :: "'d::linordered_idom db \<Rightarrow> 'd subscriber \<Rightarrow> 'd" where
  "price_of db r = (case find_plan db (sub_plan_id r) of None \<Rightarrow> 0 | Some p \<Rightarrow> plan_price p)"

definition GetCollectionsByDunningStage ::
  "'d::linordered_idom pg \<Rightarrow> 'd revenue \<Rightarrow> err + 'd CollectionsStageRow list" where
  "GetCollectionsByDunningStage pg s =
     bindE (stmt pg ''collections by stage'') (\<lambda>_.
       Inr (map (\<lambda>d. \<lparr>cs_DunningState = d, cs_Subscribers = length (stage_members (rv_db s) d),
                      cs_Outstanding = sum_list (map (price_of (rv_db s)) (stage_members (rv_db s) d)),
                      cs_ServiceStopped = ServiceStoppedIn d\<rparr>)
              (filter (\<lambda>d. stage_members (rv_db s) d \<noteq> []) stage_order)))"

text \<open>
  \<open>month_of\<close> truncates to the month and \<open>months_back n t\<close> is \<open>t\<close> less \<open>n\<close> calendar months, both of PostgreSQL.
\<close>

definition GetMonthlyRecovery ::
  "'d::linordered_idom pg \<Rightarrow> (int \<Rightarrow> time) \<Rightarrow> (time \<Rightarrow> time) \<Rightarrow> (int \<Rightarrow> time \<Rightarrow> time) \<Rightarrow> time \<Rightarrow> int \<Rightarrow>
     'd revenue \<Rightarrow> err + (time \<times> 'd \<times> nat) list" where
  "GetMonthlyRecovery pg created_at month_of months_back now months s =
     (let n = (if months \<le> 0 then 2 else months);
          rows = filter (\<lambda>r. wl_entry_type r = ''credit'' \<and> wl_token r \<noteq> None
                           \<and> months_back (n - 1) (month_of now) \<le> created_at (wl_id r))
                   (wallet_ledgers (rv_db s));
          month = (\<lambda>r. month_of (created_at (wl_id r)))
      in bindE (stmt pg ''monthly recovery'') (\<lambda>_.
           Inr (map (\<lambda>m. (m, sum_list (map wl_amount (filter (\<lambda>r. month r = m) rows)),
                            length (remdups (map wl_subscriber (filter (\<lambda>r. month r = m) rows)))))
                  (rev (sort (remdups (map month rows)))))))"

definition RecoveryRate :: "'d::linordered_idom decimal_pkg \<Rightarrow> 'd \<Rightarrow> 'd \<Rightarrow> 'd \<times> bool" where
  "RecoveryRate dp current prior =
     (if prior = 0 then (0, False) else (Round dp (Div dp (current - prior) prior * 100) 1, True))"

section \<open>Reconciliation\<close>

definition GetUnbilledActiveSubscribers ::
  "'d pg \<Rightarrow> (int \<Rightarrow> time) \<Rightarrow> (time \<Rightarrow> time) \<Rightarrow> time \<Rightarrow> 'd revenue \<Rightarrow> err + nat" where
  "GetUnbilledActiveSubscribers pg created_at month_of now s =
     bindE (stmt pg ''count unbilled'') (\<lambda>_.
       Inr (length (filter (\<lambda>r. sub_status r = Active
              \<and> \<not> list_ex (\<lambda>(i, x). inv_SubscriberID x = sub_id r \<and> month_of now \<le> created_at i) (invoices (rv_db s)))
            (subscribers (rv_db s)))))"

text \<open>The drift of one subscriber: the balance on the row less what the ledger says.\<close>

definition drift :: "'d::linordered_idom db \<Rightarrow> 'd subscriber \<Rightarrow> 'd" where
  "drift db r = sub_balance r - wallet_sum db (sub_id r)"

definition GetLedgerVariance :: "'d::linordered_idom pg \<Rightarrow> 'd revenue \<Rightarrow> err + 'd" where
  "GetLedgerVariance pg s =
     bindE (stmt pg ''ledger variance'') (\<lambda>_. Inr (sum_list (map (drift (rv_db s)) (subscribers (rv_db s)))))"

definition GetTotalWalletBalance :: "'d::linordered_idom pg \<Rightarrow> 'd revenue \<Rightarrow> err + 'd" where
  "GetTotalWalletBalance pg s =
     bindE (stmt pg ''sum balances'') (\<lambda>_. Inr (sum_list (map sub_balance (subscribers (rv_db s)))))"

definition UpsertRevenueSnapshot ::
  "'d::linordered_idom pg \<Rightarrow> 'd RevenueSnapshot \<Rightarrow> 'd revenue \<Rightarrow> 'd revenue \<times> (err + unit)" where
  "UpsertRevenueSnapshot pg snap s =
     (case bindE (stmt pg ''begin snapshot'') (\<lambda>_.
           bindE (stmt pg ''clear snapshot'') (\<lambda>_.
           bindE (stmt pg ''insert snapshot'') (\<lambda>_.
           bindE (numericE pg 12 (sn_variance snap)) (\<lambda>v.
           bindE (numericE pg 14 (sn_total snap)) (\<lambda>t.
           bindE (stmt pg ''commit snapshot'') (\<lambda>_. Inr (snap\<lparr>sn_variance := v, sn_total := t\<rparr>))))))) of
        Inl e \<Rightarrow> (s, Inl e)
      | Inr row \<Rightarrow>
          (s\<lparr>rv_snapshots := delete_where (\<lambda>r. sn_date r = sn_date snap) (rv_snapshots s) @ [row]\<rparr>, Inr ()))"

definition at_risk :: "'d::linordered_idom subscriber \<Rightarrow> 'd plan \<Rightarrow> bool" where
  "at_risk r p = (sub_balance r < plan_price p
                  \<or> sub_dunning r \<in> {DunningSoftSuspended, DunningHardSuspended, DunningGracePeriod})"

text \<open>The rows of the inner query: the day the plan expires, whether it is at risk and its price.\<close>

definition renewal_due ::
  "(time \<Rightarrow> int) \<Rightarrow> int \<Rightarrow> int \<Rightarrow> 'd::linordered_idom db \<Rightarrow> 'd subscriber \<Rightarrow> (int \<times> bool \<times> 'd) option" where
  "renewal_due date_of today days db r =
     (case (find_plan db (sub_plan_id r), sub_expiry r) of
        (Some p, Some e) \<Rightarrow>
          if today \<le> date_of e \<and> date_of e \<le> today + days \<and> sub_status r \<noteq> Terminated
          then Some (date_of e, at_risk r p, plan_price p) else None
      | _ \<Rightarrow> None)"

definition BuildCollectionsForecast ::
  "'d::linordered_idom pg \<Rightarrow> (time \<Rightarrow> int) \<Rightarrow> time \<Rightarrow> int \<Rightarrow> 'd revenue \<Rightarrow> err + 'd CollectionsForecast list" where
  "BuildCollectionsForecast pg date_of now days s =
     (let n = (if days \<le> 0 then 30 else days);
          today = date_of now;
          due = List.map_filter (renewal_due date_of today n (rv_db s)) (subscribers (rv_db s));
          part = (\<lambda>d risk. filter (\<lambda>(e, r, _). e = d \<and> r = risk) due)
      in bindE (stmt pg ''build forecast'') (\<lambda>_.
           Inr (map (\<lambda>d. \<lparr>cf_date = today, cf_for_date = d,
                          cf_expected = length (part d False), cf_at_risk = length (part d True),
                          cf_expected_revenue = sum_list (map (snd \<circ> snd) (part d False)),
                          cf_at_risk_revenue = sum_list (map (snd \<circ> snd) (part d True))\<rparr>)
                  (sort (remdups (map fst due))))))"

fun insert_forecasts ::
  "'d::linordered_idom pg \<Rightarrow> 'd CollectionsForecast list \<Rightarrow> err + 'd CollectionsForecast list" where
  "insert_forecasts pg [] = Inr []"
| "insert_forecasts pg (f # fs) =
     bindE (stmt pg ''insert forecast'') (\<lambda>_.
     bindE (numericE pg 14 (cf_expected_revenue f)) (\<lambda>e.
     bindE (numericE pg 14 (cf_at_risk_revenue f)) (\<lambda>a.
     bindE (insert_forecasts pg fs) (\<lambda>rows. Inr (f\<lparr>cf_expected_revenue := e, cf_at_risk_revenue := a\<rparr> # rows)))))"

definition UpsertCollectionsForecast ::
  "'d::linordered_idom pg \<Rightarrow> (time \<Rightarrow> int) \<Rightarrow> time \<Rightarrow> 'd CollectionsForecast list \<Rightarrow> 'd revenue \<Rightarrow>
     'd revenue \<times> (err + unit)" where
  "UpsertCollectionsForecast pg date_of now forecasts s =
     (case bindE (stmt pg ''begin forecast'') (\<lambda>_.
           bindE (stmt pg ''clear forecast'') (\<lambda>_.
           bindE (insert_forecasts pg forecasts) (\<lambda>rows.
           bindE (stmt pg ''commit forecast'') (\<lambda>_. Inr rows)))) of
        Inl e \<Rightarrow> (s, Inl e)
      | Inr rows \<Rightarrow>
          (s\<lparr>rv_forecast := delete_where (\<lambda>r. cf_date r = date_of now) (rv_forecast s) @ rows\<rparr>, Inr ()))"

text \<open>
  The nightly job. Its second component is what it passed to the alerter. \<open>time.Now().UTC().Truncate\<close>
  is the day number of the instant; 0.01 is the hundredth the decimal package divides out.
\<close>

definition ReconcileJob_Run ::
  "'d::linordered_idom decimal_pkg \<Rightarrow> 'd pg \<Rightarrow> (int \<Rightarrow> time) \<Rightarrow> (time \<Rightarrow> time) \<Rightarrow> (time \<Rightarrow> int) \<Rightarrow> time \<Rightarrow>
     'd revenue \<Rightarrow> 'd revenue \<times> (string \<times> 'd) list \<times> (err + unit)" where
  "ReconcileJob_Run dp pg created_at month_of date_of now s =
     (case GetUnbilledActiveSubscribers pg created_at month_of now s of
        Inl e \<Rightarrow> (s, [], Inl e)
      | Inr unbilledCount \<Rightarrow>
          (case GetLedgerVariance pg s of
             Inl e \<Rightarrow> (s, [], Inl e)
           | Inr variance \<Rightarrow>
               (let alerts = (if Div dp 1 100 < \<bar>variance\<bar> then [(''ledger_variance_detected'', variance)] else [])
                in case GetTotalWalletBalance pg s of
                     Inl e \<Rightarrow> (s, alerts, Inl e)
                   | Inr totalBalance \<Rightarrow>
                       (case UpsertRevenueSnapshot pg
                               \<lparr>sn_date = now div Day, sn_unbilled = unbilledCount, sn_variance = variance,
                                sn_total = totalBalance\<rparr> s of
                          (s1, Inl e) \<Rightarrow> (s1, alerts, Inl e)
                        | (s1, Inr _) \<Rightarrow>
                            (case BuildCollectionsForecast pg date_of now 30 s1 of
                               Inl e \<Rightarrow> (s1, alerts, Inl e)
                             | Inr forecasts \<Rightarrow>
                                 (case UpsertCollectionsForecast pg date_of now forecasts s1 of
                                    (s2, r) \<Rightarrow> (s2, alerts, r)))))))"

text \<open>India has one time zone and no daylight saving: a fixed offset of five and a half hours.\<close>

definition ist_offset :: duration where "ist_offset = 5 * Hour + 30 * Minute"

definition untilNextRun :: "time \<Rightarrow> duration" where
  "untilNextRun from =
     (let local = from + ist_offset;
          next = (local div Day) * Day + 2 * Hour
      in (if next \<le> local then next + Day else next) - local)"

section \<open>The contract of \<open>FranchiseQuerier\<close>\<close>

locale commission_store =
  fixes q :: "('s, 'd::linordered_idom) FranchiseQuerier"
    and ok :: "'s \<Rightarrow> bool"
    and settled :: "'s \<Rightarrow> string \<Rightarrow> bool"
  assumes store_fail: "fq_CalculateAndStoreLCOCommission q s e = (s', Inl x) \<Longrightarrow> s' = s"
    and store_ok: "ok s \<Longrightarrow> fq_CalculateAndStoreLCOCommission q s e = (s', Inr u) \<Longrightarrow> ok s'"
    and store_settles: "ce_TransactionRef e \<noteq> [] \<Longrightarrow> fq_CalculateAndStoreLCOCommission q s e = (s', Inr u) \<Longrightarrow>
      settled s' (ce_TransactionRef e)"
    and store_once: "settled s (ce_TransactionRef e) \<Longrightarrow> ce_TransactionRef e \<noteq> [] \<Longrightarrow>
      fq_CalculateAndStoreLCOCommission q s e = (s', r) \<Longrightarrow> s' = s"
begin

lemma settle_cases:
  obtains "SettleCommissionForRecharge dp q s i amount t = s"
  | e u where "fq_CalculateAndStoreLCOCommission q s e = (SettleCommissionForRecharge dp q s i amount t, Inr u)"
      "ce_TransactionRef e = t"
proof (cases "SettleCommissionForRecharge dp q s i amount t = s")
  case False
  then obtain f where f: "fq_GetSubscriberFranchiseID q s i = Inr (Some f)"
    by (auto simp: SettleCommissionForRecharge_def split: sum.splits option.splits)
  let ?e = "\<lparr>ce_FranchiseID = f, ce_SubscriberID = i, ce_RechargeAmount = amount,
              ce_CommissionRate = 0, ce_CommissionAmount = 0, ce_TransactionRef = t\<rparr>"
  have step: "SettleCommissionForRecharge dp q s i amount t = fst (CalculateLCOCommission dp q s ?e)"
    by (simp add: SettleCommissionForRecharge_def f)
  with False obtain fr where fr: "fq_GetFranchiseByID q s f = Inr fr" and act: "fr_Status fr = ''active''"
    by (auto simp: CalculateLCOCommission_def split: sum.splits if_splits)
  define e where "e = ?e\<lparr>ce_CommissionRate := fr_CommissionRatePct fr,
      ce_CommissionAmount := percent_of dp amount (fr_CommissionRatePct fr)\<rparr>"
  have "fst (CalculateLCOCommission dp q s ?e) = fst (fq_CalculateAndStoreLCOCommission q s e)"
    by (simp add: CalculateLCOCommission_def fr act e_def Let_def split: prod.splits sum.splits)
  with step False store_fail [of s e] that(2) [of e] show thesis
    by (cases "fq_CalculateAndStoreLCOCommission q s e"; cases "snd (fq_CalculateAndStoreLCOCommission q s e)")
       (auto simp: e_def)
qed (use that in blast)

text \<open>Settling keeps the books, and a reference that was settled is never settled again.\<close>

lemma settle_ok: "ok s \<Longrightarrow> ok (SettleCommissionForRecharge dp q s i amount t)"
  by (rule settle_cases [of dp s i amount t]) (auto intro: store_ok)

lemma settle_once:
  "settled s t \<Longrightarrow> t \<noteq> [] \<Longrightarrow> SettleCommissionForRecharge dp q s i amount t = s"
  by (rule settle_cases [of dp s i amount t]) (use store_once in blast)+

lemma settle_twice:
  assumes "t \<noteq> []"
  shows "SettleCommissionForRecharge dp q (SettleCommissionForRecharge dp q s i amount t) i amount t
       = SettleCommissionForRecharge dp q s i amount t"
  using settle_cases [of dp s i amount t] settle_once store_settles assms by metis

end

section \<open>The store keeps the contract\<close>

definition ref_of :: "'d LCOCommissionEntry \<Rightarrow> string option" where
  "ref_of e = (if ce_TransactionRef e = [] then None else Some (ce_TransactionRef e))"

definition ref_settled :: "'d revenue \<Rightarrow> string \<Rightarrow> bool" where
  "ref_settled s t = (Some t \<in> set (map lco_ref (rv_lco s)))"

definition books_ok :: "'d::linordered_idom pg \<Rightarrow> 'd revenue \<Rightarrow> bool" where
  "books_ok pg s = (wallet_inv pg (rv_db s) \<and> ledger_agrees (rv_db s)
                    \<and> unique_nullable (map lco_ref (rv_lco s)))"

lemma insert_commission_line_Inr:
  "insert_commission_line pg l j a d c db = Inr db' \<longleftrightarrow>
     pg_faults pg l = None \<and> (\<exists>d' c'. numeric pg 14 d = Some d' \<and> numeric pg 14 c = Some c'
       \<and> chk_gl_line \<lparr>gl_entry_id = j, gl_account = a, gl_debit = d', gl_credit = c'\<rparr>
       \<and> db' = db\<lparr>gl_lines := gl_lines db @ [\<lparr>gl_entry_id = j, gl_account = a, gl_debit = d', gl_credit = c'\<rparr>]\<rparr>)"
  by (auto simp: insert_commission_line_def Let_def)

lemma post_commission_Inr:
  assumes "post_commission pg e i db = Inr db'"
  obtains g ls where "db' = db\<lparr>gl_entries := gl_entries db @ [g], gl_seq := gl_seq db + 1,
                              gl_lines := gl_lines db @ ls\<rparr>"
    and "\<forall>l \<in> set ls. gl_entry_id l = gl_seq db \<and> chk_gl_line l"
proof -
  from assms obtain g x y where
    "db' = db\<lparr>gl_entries := gl_entries db @ [g], gl_seq := gl_seq db + 1, gl_lines := gl_lines db @ [x, y]\<rparr>"
    and "gl_entry_id x = gl_seq db" "chk_gl_line x" "gl_entry_id y = gl_seq db" "chk_gl_line y"
    by (auto simp: post_commission_def Let_def insert_commission_line_Inr)
  then show thesis by (intro that [where g = g and ls = "[x, y]"]) auto
qed

lemma insert_lco_Some:
  assumes "insert_lco pg now e s = Inr (Some row)"
  shows "lco_ref row = ref_of e \<and> (ref_of e = None \<or> ref_of e \<notin> set (map lco_ref (rv_lco s)))
       \<and> numeric pg 12 (ce_RechargeAmount e) = Some (lco_recharge row)
       \<and> numeric pg 12 (ce_CommissionAmount e) = Some (lco_commission row)
       \<and> lco_franchise row = ce_FranchiseID e \<and> lco_subscriber row = ce_SubscriberID e"
  using assms by (auto simp: insert_lco_def ref_of_def Let_def split: if_splits)

lemma insert_lco_None:
  assumes "insert_lco pg now e s = Inr None"
  shows "ref_of e \<noteq> None \<and> ref_of e \<in> set (map lco_ref (rv_lco s))"
  using assms by (auto simp: insert_lco_def ref_of_def Let_def split: if_splits)

text \<open>What a committed settlement leaves behind: nothing new, or a ledger row and a journal entry.\<close>

lemma store_commission_cases:
  assumes "CalculateAndStoreLCOCommission pg now s e = (s', r)"
  obtains x where "s' = s" "r = Inl x"
  | "s' = s" "r = Inr ()" "ref_of e \<noteq> None" "ref_of e \<in> set (map lco_ref (rv_lco s))"
  | row db' where "r = Inr ()" "s' = s\<lparr>rv_db := db', rv_lco := rv_lco s @ [row], rv_lco_seq := rv_lco_seq s + 1\<rparr>"
      "insert_lco pg now e s = Inr (Some row)" "check_gl_journal_balanced (rv_db s) db'"
      "ce_CommissionAmount e = 0 \<and> db' = rv_db s \<or> post_commission pg e (lco_id row) (rv_db s) = Inr db'"
  using assms
proof (cases "r")
  case (Inl x)
  with assms that(1) show thesis
    by (auto simp: CalculateAndStoreLCOCommission_def split: prod.splits sum.splits option.splits)
next
  case (Inr u)
  with assms obtain db' res where
    tx: "inTx pg (\<lambda>db. bindE (insert_lco pg now e (s\<lparr>rv_db := db\<rparr>)) (\<lambda>res.
              case res of
                None \<Rightarrow> Inr (db, None)
              | Some row \<Rightarrow>
                  if ce_CommissionAmount e = 0 then Inr (db, Some row)
                  else bindE (post_commission pg e (lco_id row) db) (\<lambda>db'. Inr (db', Some row)))) (rv_db s)
         = (db', Inr res)"
    and s': "s' = (case res of None \<Rightarrow> s | Some row \<Rightarrow> s\<lparr>rv_db := db', rv_lco := rv_lco s @ [row],
                rv_lco_seq := rv_lco_seq s + 1\<rparr>)"
    by (auto simp: CalculateAndStoreLCOCommission_def split: prod.splits sum.splits option.splits)
  show thesis
  proof (cases res)
    case None
    with tx have "insert_lco pg now e s = Inr None"
      by (auto simp: inTx_Inr split: option.splits if_splits) (metis option.exhaust)
    from insert_lco_None [OF this] that(2) None s' Inr show thesis by auto
  next
    case (Some row)
    with tx have "insert_lco pg now e s = Inr (Some row)" "check_gl_journal_balanced (rv_db s) db'"
      "ce_CommissionAmount e = 0 \<and> db' = rv_db s \<or> post_commission pg e (lco_id row) (rv_db s) = Inr db'"
      by (auto simp: inTx_Inr split: option.splits if_splits)
    with that(3) Some s' Inr show thesis by auto
  qed
qed

lemma wallet_books_gl:
  assumes "wallet_inv pg db" and "ledger_agrees db"
    and "db' = db\<lparr>gl_entries := es, gl_seq := gl_seq db + 1, gl_lines := gl_lines db @ ls\<rparr>"
    and "\<forall>l \<in> set ls. gl_entry_id l = gl_seq db \<and> chk_gl_line l" and "check_gl_journal_balanced db db'"
  shows "wallet_inv pg db' \<and> ledger_agrees db'"
proof -
  have "gl_ok db'" by (rule gl_ok_append [OF _ assms(4,5)]) (use assms(1,3) in \<open>simp_all add: wallet_inv_def\<close>)
  with assms(1-3) show ?thesis
    by (simp add: wallet_inv_def subscribers_ok_def ledger_agrees_def wallet_sum_def)
qed

lemma store_commission_books:
  assumes ok: "books_ok pg s" and run: "CalculateAndStoreLCOCommission pg now s e = (s', r)"
  shows "books_ok pg s'"
  using run
proof (cases rule: store_commission_cases)
  case (3 row db')
  have "wallet_inv pg db' \<and> ledger_agrees db'"
    using 3(5)
  proof
    assume "post_commission pg e (lco_id row) (rv_db s) = Inr db'"
    then show ?thesis
      by (rule post_commission_Inr)
         (rule wallet_books_gl [OF _ _ _ _ 3(4)], use ok in \<open>auto simp: books_ok_def\<close>)
  qed (use ok in \<open>simp add: books_ok_def\<close>)
  with ok insert_lco_Some [OF 3(3)] show ?thesis
    by (auto simp: 3(2) books_ok_def unique_nullable_def)
qed (use ok in simp_all)

interpretation rs: commission_store "RevenueStore pg now" "books_ok pg" ref_settled
  for pg :: "'d::linordered_idom pg" and now :: time
proof
  fix s s' :: "'d revenue" and e x u r
  let ?q = "RevenueStore pg now"
  show "fq_CalculateAndStoreLCOCommission ?q s e = (s', Inl x) \<Longrightarrow> s' = s"
    by (auto simp: RevenueStore_def elim: store_commission_cases)
  show "books_ok pg s \<Longrightarrow> fq_CalculateAndStoreLCOCommission ?q s e = (s', Inr u) \<Longrightarrow> books_ok pg s'"
    by (auto simp: RevenueStore_def intro: store_commission_books)
  show "ce_TransactionRef e \<noteq> [] \<Longrightarrow> fq_CalculateAndStoreLCOCommission ?q s e = (s', Inr u) \<Longrightarrow>
      ref_settled s' (ce_TransactionRef e)"
    using insert_lco_Some [of pg now e s]
    by (auto simp: RevenueStore_def ref_settled_def ref_of_def elim!: store_commission_cases)
  show "ref_settled s (ce_TransactionRef e) \<Longrightarrow> ce_TransactionRef e \<noteq> [] \<Longrightarrow>
      fq_CalculateAndStoreLCOCommission ?q s e = (s', r) \<Longrightarrow> s' = s"
    using insert_lco_Some [of pg now e s]
    by (auto simp: RevenueStore_def ref_settled_def ref_of_def elim!: store_commission_cases)
qed

section \<open>A commission is booked once\<close>

definition commission_accounts :: "'d db \<Rightarrow> bool" where
  "commission_accounts db = (map_of (chart_of_accounts db) ''5000'' \<noteq> None
                             \<and> map_of (chart_of_accounts db) ''2100'' \<noteq> None)"

definition commission_lines :: "'d::linordered_idom db \<Rightarrow> 'd \<Rightarrow> 'd gl_line list" where
  "commission_lines db c =
     [\<lparr>gl_entry_id = gl_seq db, gl_account = the (map_of (chart_of_accounts db) ''5000''), gl_debit = c, gl_credit = 0\<rparr>,
      \<lparr>gl_entry_id = gl_seq db, gl_account = the (map_of (chart_of_accounts db) ''2100''), gl_debit = 0, gl_credit = c\<rparr>]"

lemma glAccountID_known:
  "pg_faults pg = no_faults \<Longrightarrow> map_of (chart_of_accounts db) c \<noteq> None \<Longrightarrow>
     glAccountID pg db c = Inr (the (map_of (chart_of_accounts db) c))"
  by (auto simp: glAccountID_def stmt_def)

lemma post_commission_commits:
  assumes "numeric_ok pg" and "pg_faults pg = no_faults" and "commission_accounts db"
    and "numeric pg 12 (ce_CommissionAmount e) = Some (ce_CommissionAmount e)" and "0 < ce_CommissionAmount e"
  shows "\<exists>g. post_commission pg e i db = Inr (db\<lparr>gl_entries := gl_entries db @ [g], gl_seq := gl_seq db + 1,
               gl_lines := gl_lines db @ commission_lines db (ce_CommissionAmount e)\<rparr>)"
proof -
  have "numeric pg 14 (ce_CommissionAmount e) = Some (ce_CommissionAmount e)" and "numeric pg 14 0 = Some 0"
    using assms(1,4) by (auto simp: numeric_ok_def)
  with assms(2,3,5) show ?thesis
    by (simp add: post_commission_def insert_commission_line_def glAccountID_known commission_accounts_def
        commission_lines_def chk_gl_line_def Let_def stmt_def numericE_def guardE_def)
       (rule exI, rule refl)
qed

lemma commission_balanced:
  assumes "gl_ok db"
    and "db' = db\<lparr>gl_entries := es, gl_seq := gl_seq db + 1, gl_lines := gl_lines db @ commission_lines db c\<rparr>"
  shows "check_gl_journal_balanced db db'"
  using entry_fresh [OF assms(1)]
  by (simp add: assms(2) check_gl_journal_balanced_def commission_lines_def entry_debits_def entry_credits_def)

lemma commission_stored:
  assumes "numeric_ok pg" and "pg_faults pg = no_faults" and "gl_ok (rv_db s)" and "commission_accounts (rv_db s)"
    and "numeric pg 12 (ce_CommissionAmount e) = Some (ce_CommissionAmount e)" and "0 < ce_CommissionAmount e"
    and "insert_lco pg now e s = Inr (Some row)"
  shows "\<exists>g. CalculateAndStoreLCOCommission pg now s e =
     (s\<lparr>rv_db := (rv_db s)\<lparr>gl_entries := gl_entries (rv_db s) @ [g], gl_seq := gl_seq (rv_db s) + 1,
          gl_lines := gl_lines (rv_db s) @ commission_lines (rv_db s) (ce_CommissionAmount e)\<rparr>,
        rv_lco := rv_lco s @ [row], rv_lco_seq := rv_lco_seq s + 1\<rparr>, Inr ())"
proof -
  from post_commission_commits [OF assms(1,2,4-6), of "lco_id row"] obtain g where
    post: "post_commission pg e (lco_id row) (rv_db s) = Inr ((rv_db s)\<lparr>gl_entries := gl_entries (rv_db s) @ [g],
       gl_seq := gl_seq (rv_db s) + 1, gl_lines := gl_lines (rv_db s) @ commission_lines (rv_db s) (ce_CommissionAmount e)\<rparr>)"
    by blast
  have "check_gl_journal_balanced (rv_db s) ((rv_db s)\<lparr>gl_entries := gl_entries (rv_db s) @ [g],
       gl_seq := gl_seq (rv_db s) + 1, gl_lines := gl_lines (rv_db s) @ commission_lines (rv_db s) (ce_CommissionAmount e)\<rparr>)"
    by (rule commission_balanced [OF assms(3)]) simp
  with assms(2,6,7) post show ?thesis
    by (intro exI [of _ g]) (simp add: CalculateAndStoreLCOCommission_def inTx_def stmt_def)
qed

text \<open>
  C19. A recharge through an active partner settles the partner's commission exactly once. When the
  database works, the recharge's reference is new and the commission is not zero, the commission
  ledger gets one row with the partner's percentage of the recharge and the journal one balanced
  entry, commission expense against the amount payable; settling the same reference again, at any
  later time and with any statement failing, changes nothing.
\<close>

theorem commission_settled_once:
  assumes "numeric_ok pg" and "pg_faults pg = no_faults" and "gl_ok (rv_db s)" and "commission_accounts (rv_db s)"
    and sub: "find_subscriber (rv_db s) i = Some r" and fid: "sub_franchise_id r = Some (fr_ID f)"
    and fr: "find (\<lambda>x. fr_ID x = fr_ID f) (rv_franchises s) = Some f" and act: "fr_Status f = ''active''"
    and amt: "numeric pg 12 amount = Some amount"
    and c: "c = percent_of dp amount (fr_CommissionRatePct f)" "numeric pg 12 c = Some c" "0 < c"
    and t: "t \<noteq> []" "\<not> ref_settled s t"
    and s': "s' = SettleCommissionForRecharge dp (RevenueStore pg now) s i amount t"
  shows "rv_lco s' = rv_lco s @ [\<lparr>lco_id = rv_lco_seq s, lco_franchise = fr_ID f, lco_subscriber = i,
           lco_recharge = amount, lco_commission = c, lco_ref = Some t, lco_created = now\<rparr>]
       \<and> gl_lines (rv_db s') = gl_lines (rv_db s) @ commission_lines (rv_db s) c
       \<and> SettleCommissionForRecharge dp (RevenueStore pg' now') s' i' amount' t = s'"
proof -
  let ?e = "\<lparr>ce_FranchiseID = fr_ID f, ce_SubscriberID = i, ce_RechargeAmount = amount,
     ce_CommissionRate = fr_CommissionRatePct f, ce_CommissionAmount = c, ce_TransactionRef = t\<rparr>"
  let ?row = "\<lparr>lco_id = rv_lco_seq s, lco_franchise = fr_ID f, lco_subscriber = i, lco_recharge = amount,
     lco_commission = c, lco_ref = Some t, lco_created = now\<rparr>"
  have "insert_lco pg now ?e s = Inr (Some ?row)"
    using assms(2) sub fr amt c(2) t
    by (simp add: insert_lco_def stmt_def numericE_def guardE_def ref_settled_def)
  from commission_stored [OF assms(1-4) _ _ this] c(2,3) obtain g where
    store: "CalculateAndStoreLCOCommission pg now s ?e =
     (s\<lparr>rv_db := (rv_db s)\<lparr>gl_entries := gl_entries (rv_db s) @ [g], gl_seq := gl_seq (rv_db s) + 1,
          gl_lines := gl_lines (rv_db s) @ commission_lines (rv_db s) c\<rparr>,
        rv_lco := rv_lco s @ [?row], rv_lco_seq := rv_lco_seq s + 1\<rparr>, Inr ())" by auto
  have "s' = fst (CalculateAndStoreLCOCommission pg now s ?e)"
    using assms(2) sub fid fr act
    by (simp add: s' SettleCommissionForRecharge_def CalculateLCOCommission_def RevenueStore_def stmt_def
        GetSubscriberFranchiseID_def GetFranchiseByID_def c(1) Let_def split: prod.split sum.split)
  then have eq: "s' = s\<lparr>rv_db := (rv_db s)\<lparr>gl_entries := gl_entries (rv_db s) @ [g], gl_seq := gl_seq (rv_db s) + 1,
          gl_lines := gl_lines (rv_db s) @ commission_lines (rv_db s) c\<rparr>,
        rv_lco := rv_lco s @ [?row], rv_lco_seq := rv_lco_seq s + 1\<rparr>" by (simp only: store fst_conv)
  then have "ref_settled s' t" by (simp add: ref_settled_def)
  with rs.settle_once [OF _ t(1)] eq show ?thesis by simp
qed

section \<open>What the nightly job notices\<close>

lemma sum_list_single:
  assumes "distinct (map f xs)" and "x \<in> set xs" and "\<And>y. y \<in> set xs \<Longrightarrow> f y \<noteq> f x \<Longrightarrow> g y = 0"
  shows "sum_list (map g xs) = g x"
  using assms
proof (induction xs)
  case (Cons y ys)
  show ?case
  proof (cases "x = y")
    case True
    have "g z = 0" if "z \<in> set ys" for z
      using that Cons.prems True by (metis image_eqI list.set_map list.simps(9) distinct.simps(2) list.set_intros(2))
    then have "sum_list (map g ys) = 0" by (induction ys) auto
    with True show ?thesis by simp
  next
    case False
    with Cons.prems have x: "x \<in> set ys" by simp
    then have "g y = 0" using Cons.prems by (metis image_eqI list.set_map list.simps(9) distinct.simps(2) list.set_intros(1))
    with Cons.IH [OF _ x] Cons.prems show ?thesis by simp
  qed
qed simp

text \<open>The alerts of a run are decided by the variance alone, whatever fails after it was read.\<close>

lemma reconcile_alerts:
  assumes "pg_faults pg ''count unbilled'' = None" and "pg_faults pg ''ledger variance'' = None"
  shows "fst (snd (ReconcileJob_Run dp pg created_at month_of date_of now s)) =
     (let v = sum_list (map (drift (rv_db s)) (subscribers (rv_db s)))
      in if Div dp 1 100 < \<bar>v\<bar> then [(''ledger_variance_detected'', v)] else [])"
  using assms
  by (simp add: ReconcileJob_Run_def GetUnbilledActiveSubscribers_def GetLedgerVariance_def stmt_def Let_def
      split: sum.split prod.split)


text \<open>
  The variance is a signed sum over all subscribers, so drifts that offset each other are not
  noticed: when one balance is too high and another too low by the same amount, however large, the
  run raises no alert and records a variance of zero.
\<close>

theorem offsetting_drifts_unnoticed:
  assumes "decimal_pkg_ok dp" and "pg_faults pg = no_faults"
    and "subscribers (rv_db s) = r1 # r2 # rs" and "drift (rv_db s) r1 = x" and "drift (rv_db s) r2 = - x"
    and "\<forall>r \<in> set rs. drift (rv_db s) r = 0"
  shows "fst (snd (ReconcileJob_Run dp pg created_at month_of date_of now s)) = []
       \<and> GetLedgerVariance pg s = Inr 0"
proof -
  have "sum_list (map (drift (rv_db s)) rs) = 0" using assms(6) by (induction rs) auto
  then have zero: "sum_list (map (drift (rv_db s)) (subscribers (rv_db s))) = 0" by (simp add: assms(3-5))
  have "100 * Div dp 1 100 = 1" using assms(1) by (simp add: decimal_pkg_ok_def)
  then have "\<not> Div dp 1 100 < 0" by (metis mult_less_0_iff not_one_less_zero zero_less_numeral)
  with zero assms(2) show ?thesis
    by (simp add: reconcile_alerts GetLedgerVariance_def stmt_def)
qed

section \<open>Reports that add up\<close>

lemma sum_list_indicator:
  "distinct ks \<Longrightarrow> k \<in> set ks \<Longrightarrow> sum_list (map (\<lambda>j. if j = k then a else (0::'a::comm_monoid_add)) ks) = a"
  by (rule trans [OF sum_list_single [of id ks k]]) auto

text \<open>Grouping loses and duplicates nothing: summing per key over the distinct keys is summing over the rows.\<close>

lemma sum_by_key:
  fixes g :: "'a \<Rightarrow> 'b::comm_monoid_add"
  assumes "distinct ks" and "\<forall>x \<in> set xs. key x \<in> set ks"
  shows "sum_list (map (\<lambda>k. sum_list (map g (filter (\<lambda>x. key x = k) xs))) ks) = sum_list (map g xs)"
  using assms(2)
proof (induction xs)
  case (Cons x xs)
  have "sum_list (map (\<lambda>k. sum_list (map g (filter (\<lambda>y. key y = k) (x # xs)))) ks)
      = sum_list (map (\<lambda>k. (if k = key x then g x else 0) + sum_list (map g (filter (\<lambda>y. key y = k) xs))) ks)"
    by (rule arg_cong [where f = sum_list], rule map_cong) auto
  also have "\<dots> = g x + sum_list (map g xs)"
    using Cons sum_list_indicator [OF assms(1), of "key x" "g x"] by (simp add: sum_list_addf)
  finally show ?case by simp
qed simp

lemma sum_list_stored:
  assumes ok: "numeric_ok pg" and "\<forall>x \<in> set xs. 0 \<le> x \<and> numeric pg p x = Some x"
    and "numeric pg p (sum_list xs) = Some r"
  shows "r = sum_list xs"
  using assms(2,3)
proof (induction xs arbitrary: r)
  case Nil
  with ok show ?case by (simp add: numeric_ok_def)
next
  case (Cons x xs)
  have "0 \<le> sum_list xs" using Cons.prems(1) by (induction xs) auto
  then have "numeric pg p (sum_list xs) \<noteq> None"
    using ok Cons.prems unfolding numeric_ok_def by (metis le_add_same_cancel2 list.set_intros(1) sum_list.Cons)
  then obtain c where c: "numeric pg p (sum_list xs) = Some c" by blast
  with Cons have "numeric pg p (sum_list xs) = Some (sum_list xs)" by auto
  with Cons.prems ok show ?case
    unfolding numeric_ok_def by (metis list.set_intros(1) sum_list.Cons)
qed

lemma mapE_Inr: "mapE f xs = Inr ys \<longleftrightarrow> map f xs = map Inr ys"
  by (induction xs arbitrary: ys) (auto simp: map_eq_Cons_conv Cons_eq_map_conv)

lemma consolidated_sums:
  "foldl (\<lambda>acc p. acc\<lparr>cp_TotalRecharges := cp_TotalRecharges acc + pl_TotalRecharges p,
                      cp_CommissionEarned := cp_CommissionEarned acc + pl_CommissionEarned p,
                      cp_NetToISP := cp_NetToISP acc + pl_NetToISP p\<rparr>) c ps
   = (c :: 'd::linordered_idom ConsolidatedPnL)\<lparr>
       cp_TotalRecharges := cp_TotalRecharges c + sum_list (map pl_TotalRecharges ps),
       cp_CommissionEarned := cp_CommissionEarned c + sum_list (map pl_CommissionEarned ps),
       cp_NetToISP := cp_NetToISP c + sum_list (map pl_NetToISP ps)\<rparr>"
  by (induction ps arbitrary: c) (simp_all add: add.assoc)

definition lco_amounts_ok :: "'d::linordered_idom pg \<Rightarrow> 'd revenue \<Rightarrow> bool" where
  "lco_amounts_ok pg s = (\<forall>r \<in> set (rv_lco s).
     0 \<le> lco_recharge r \<and> numeric pg 14 (lco_recharge r) = Some (lco_recharge r)
     \<and> 0 \<le> lco_commission r \<and> numeric pg 14 (lco_commission r) = Some (lco_commission r))"

lemma pnl_row_exact:
  assumes "numeric_ok pg" and "lco_amounts_ok pg s" and "pnl_row pg s from to f = Inr p"
  shows "pl_FranchiseID p = fr_ID f \<and> pl_TotalRecharges p = sum_list (map lco_recharge (period_rows s from to (fr_ID f)))
       \<and> pl_CommissionEarned p = sum_list (map lco_commission (period_rows s from to (fr_ID f)))
       \<and> pl_NetToISP p = pl_TotalRecharges p - pl_CommissionEarned p"
proof -
  let ?r = "sum_list (map lco_recharge (period_rows s from to (fr_ID f)))"
  let ?c = "sum_list (map lco_commission (period_rows s from to (fr_ID f)))"
  from assms(3) have r: "numeric pg 14 ?r = Some (pl_TotalRecharges p)"
    and c: "numeric pg 14 ?c = Some (pl_CommissionEarned p)" and n: "numeric pg 14 (?r - ?c) = Some (pl_NetToISP p)"
    and i: "pl_FranchiseID p = fr_ID f"
    by (auto simp: pnl_row_def Let_def)
  have "pl_TotalRecharges p = ?r" "pl_CommissionEarned p = ?c"
    using sum_list_stored [OF assms(1) _ r] sum_list_stored [OF assms(1) _ c] assms(2)
    by (auto simp: lco_amounts_ok_def period_rows_def)
  moreover from this have "pl_NetToISP p = ?r - ?c"
    using assms(1) r c n unfolding numeric_ok_def by metis
  ultimately show ?thesis using i by simp
qed

text \<open>
  The consolidated report adds up: when every commission row belongs to a listed partner, the
  report names each partner once, its totals are the sums over all rows of the commission ledger in
  the window, none counted twice and none left out, and the net is what remains of the recharges
  after the commission.
\<close>

theorem consolidated_pnl_adds_up:
  assumes "numeric_ok pg" and "lco_amounts_ok pg s" and "distinct (map fr_ID (rv_franchises s))"
    and "\<forall>r \<in> set (rv_lco s). lco_franchise r \<in> set (map fr_ID (rv_franchises s))"
    and "ListConsolidatedPnL pg s from to = Inr c"
  shows "cp_TotalRecharges c = sum_list (map lco_recharge (filter (in_period from to) (rv_lco s)))
       \<and> cp_CommissionEarned c = sum_list (map lco_commission (filter (in_period from to) (rv_lco s)))
       \<and> cp_NetToISP c = cp_TotalRecharges c - cp_CommissionEarned c
       \<and> map pl_FranchiseID (cp_Partners c) = sort (map fr_ID (rv_franchises s))"
proof -
  define fs where "fs = sort_key fr_ID (rv_franchises s)"
  from assms(5) obtain ps where ps: "map (pnl_row pg s from to) fs = map Inr ps"
    and c: "c = \<lparr>cp_Partners = ps, cp_TotalRecharges = sum_list (map pl_TotalRecharges ps),
                 cp_CommissionEarned = sum_list (map pl_CommissionEarned ps), cp_NetToISP = sum_list (map pl_NetToISP ps)\<rparr>"
    by (auto simp: ListConsolidatedPnL_def listPnL_def in_scope_def fs_def mapE_Inr consolidated_sums)
  have len: "length fs = length ps" using map_eq_imp_length_eq [OF ps] .
  have row: "pnl_row pg s from to (fs ! k) = Inr (ps ! k)" if "k < length ps" for k
    using ps that len by (metis nth_map)
  note exact = pnl_row_exact [OF assms(1,2) row]
  have ids: "map pl_FranchiseID ps = map fr_ID fs"
    and rech: "map pl_TotalRecharges ps = map (\<lambda>i. sum_list (map lco_recharge (period_rows s from to i))) (map fr_ID fs)"
    and comm: "map pl_CommissionEarned ps = map (\<lambda>i. sum_list (map lco_commission (period_rows s from to i))) (map fr_ID fs)"
    and net: "map pl_NetToISP ps = map (\<lambda>p. pl_TotalRecharges p - pl_CommissionEarned p) ps"
    using exact len by (auto intro!: nth_equalityI simp: in_set_conv_nth)
  have keys: "distinct (map fr_ID fs)" "\<forall>r \<in> set (filter (in_period from to) (rv_lco s)). lco_franchise r \<in> set (map fr_ID fs)"
    using assms(3,4) by (simp_all add: fs_def distinct_map)
  have "sort (map fr_ID (rv_franchises s)) = map fr_ID fs" by (rule properties_for_sort) (simp_all add: fs_def)
  moreover have "sum_list (map pl_TotalRecharges ps) = sum_list (map lco_recharge (filter (in_period from to) (rv_lco s)))"
    and "sum_list (map pl_CommissionEarned ps) = sum_list (map lco_commission (filter (in_period from to) (rv_lco s)))"
    by (simp_all only: rech comm period_rows_def sum_by_key [OF keys])
  moreover have "sum_list (map pl_NetToISP ps) = sum_list (map pl_TotalRecharges ps) - sum_list (map pl_CommissionEarned ps)"
    by (simp only: net sum_list_subtractf)
  ultimately show ?thesis using ids c by simp
qed

text \<open>Every renewal due in the window is counted in exactly one cell of the forecast, with its price.\<close>

lemma forecast_partitions:
  assumes "pg_faults pg ''build forecast'' = None"
    and "due = List.map_filter (renewal_due date_of (date_of now) (if days \<le> 0 then 30 else days) (rv_db s))
                 (subscribers (rv_db s))"
  shows "\<exists>fs. BuildCollectionsForecast pg date_of now days s = Inr fs
       \<and> distinct (map cf_for_date fs) \<and> sorted (map cf_for_date fs)
       \<and> (\<Sum>f\<leftarrow>fs. cf_expected f + cf_at_risk f) = length due
       \<and> (\<Sum>f\<leftarrow>fs. cf_expected_revenue f + cf_at_risk_revenue f) = sum_list (map (snd \<circ> snd) due)"
proof -
  define part where "part = (\<lambda>d risk. filter (\<lambda>(e, r, _). e = d \<and> r = risk) due)"
  define fs where "fs = map (\<lambda>d. \<lparr>cf_date = date_of now, cf_for_date = d,
       cf_expected = length (part d False), cf_at_risk = length (part d True),
       cf_expected_revenue = sum_list (map (snd \<circ> snd) (part d False)),
       cf_at_risk_revenue = sum_list (map (snd \<circ> snd) (part d True))\<rparr>) (sort (remdups (map fst due)))"
  have run: "BuildCollectionsForecast pg date_of now days s = Inr fs"
    using assms(1) by (simp add: BuildCollectionsForecast_def stmt_def Let_def fs_def part_def assms(2))
  have cell: "sum_list (map g (part d False)) + sum_list (map g (part d True)) = sum_list (map g (filter (\<lambda>x. fst x = d) due))"
    for g :: "int \<times> bool \<times> 'a \<Rightarrow> 'b::comm_monoid_add" and d
    unfolding part_def by (induction due) (auto simp: add_ac)
  have keys: "distinct (sort (remdups (map fst due)))" "\<forall>x \<in> set due. fst x \<in> set (sort (remdups (map fst due)))"
    by auto
  have "(\<Sum>f\<leftarrow>fs. cf_expected f + cf_at_risk f) = (\<Sum>d\<leftarrow>sort (remdups (map fst due)). \<Sum>x\<leftarrow>filter (\<lambda>x. fst x = d) due. 1)"
    using cell [of "\<lambda>_. 1 :: nat"] by (simp add: fs_def comp_def sum_list_triv)
  also have "\<dots> = length due" by (simp only: sum_by_key [OF keys]) (simp add: sum_list_triv)
  finally have count: "(\<Sum>f\<leftarrow>fs. cf_expected f + cf_at_risk f) = length due" .
  have "(\<Sum>f\<leftarrow>fs. cf_expected_revenue f + cf_at_risk_revenue f)
      = (\<Sum>d\<leftarrow>sort (remdups (map fst due)). \<Sum>x\<leftarrow>filter (\<lambda>x. fst x = d) due. (snd \<circ> snd) x)"
    using cell [of "snd \<circ> snd"] by (simp add: fs_def comp_def)
  also have "\<dots> = sum_list (map (snd \<circ> snd) due)" by (rule sum_by_key [OF keys])
  finally have revenue: "(\<Sum>f\<leftarrow>fs. cf_expected_revenue f + cf_at_risk_revenue f) = sum_list (map (snd \<circ> snd) due)" .
  have "map cf_for_date fs = sort (remdups (map fst due))" by (simp add: fs_def comp_def)
  with run count revenue show ?thesis by simp
qed

text \<open>
  A partner's staff see their own subscribers only, and a token of theirs without a partner sees nothing.
\<close>

lemma franchise_scope_isolated:
  assumes "role \<in> franchiseScopedRoles" and "subscribers_route pg s role franchiseID = Body rows"
    and "(i, n, f) \<in> set rows"
  shows "f = Some franchiseID \<and> franchiseID \<noteq> 0"
  using assms
  by (auto simp: subscribers_route_def FranchiseMiddleware_def ListSubscribersHandler_def ListSubscribers_def
      in_scope_def split: if_splits sum.splits)

text \<open>The next run is at two in the morning in India, within a day and never at once.\<close>

lemma untilNextRun_at_two:
  "0 < untilNextRun t \<and> untilNextRun t \<le> Day \<and> (t + untilNextRun t + ist_offset) mod Day = 2 * Hour"
proof -
  define d r where "d = (t + ist_offset) div Day" and "r = (t + ist_offset) mod Day"
  then have split: "t + ist_offset = d * Day + r" by simp
  have range: "0 \<le> r" "r < Day" by (simp_all add: r_def clock_defs)
  have wait: "untilNextRun t = (if 2 * Hour \<le> r then 2 * Hour + Day else 2 * Hour) - r"
    unfolding untilNextRun_def Let_def d_def [symmetric] using split by auto
  then have "t + untilNextRun t + ist_offset = 2 * Hour + (if 2 * Hour \<le> r then d + 1 else d) * Day"
    using split by (cases "2 * Hour \<le> r") (simp_all add: distrib_right)
  then have "(t + untilNextRun t + ist_offset) mod Day = (2 * Hour) mod Day" by simp
  with wait range show ?thesis by (auto simp: clock_defs)
qed

section \<open>Witnesses\<close>

text \<open>The wallet of \<open>WalletBooks\<close>, its subscriber signed up through a partner at ten per cent.\<close>

definition rv_partner :: "rat Franchise" where
  "rv_partner = \<lparr>fr_ID = 3, fr_Name = ''North'', fr_OwnerName = ''Devi'', fr_MobileNumber = ''+919800000000'',
     fr_CommissionRatePct = 10, fr_Status = ''active''\<rparr>"

definition rv_demo :: "rat revenue" where
  "rv_demo = \<lparr>rv_db = wb_db\<lparr>subscribers := [wb_sub\<lparr>sub_franchise_id := Some 3\<rparr>],
       chart_of_accounts := (''5000'', 11) # (''2100'', 12) # chart_of_accounts wb_db\<rparr>,
     rv_franchises = [rv_partner], rv_franchise_seq = 4, rv_lco = [], rv_lco_seq = 1, rv_snapshots = [], rv_forecast = []\<rparr>"

lemma rv_demo_sel [simp]:
  "find_subscriber (rv_db rv_demo) 7 = Some (wb_sub\<lparr>sub_franchise_id := Some 3\<rparr>)"
  "rv_franchises rv_demo = [rv_partner]" "fr_ID rv_partner = 3" "fr_Status rv_partner = ''active''"
  "fr_CommissionRatePct rv_partner = 10" "rv_lco rv_demo = []" "rv_lco_seq rv_demo = 1"
  "gl_lines (rv_db rv_demo) = []" "map_of (chart_of_accounts (rv_db rv_demo)) ''5000'' = Some 11"
  "map_of (chart_of_accounts (rv_db rv_demo)) ''2100'' = Some 12"
  by (simp_all add: rv_demo_def rv_partner_def find_subscriber_def wb_db_def wb_sub_def)

lemma rv_amounts: "percent_of rat_decimals 250 10 = 25" "rat_numeric 12 25 = Some 25"
  by code_simp+

theorem commission_settled_once_witness:
  "let s1 = SettleCommissionForRecharge rat_decimals (RevenueStore (rat_pg no_faults) 9) rv_demo 7 250 ''pay_1''
   in map lco_commission (rv_lco s1) = [25] \<and> map gl_debit (gl_lines (rv_db s1)) = [25, 0]
      \<and> SettleCommissionForRecharge rat_decimals (RevenueStore (rat_pg net_down) 12) s1 7 250 ''pay_1'' = s1"
proof -
  have ok: "gl_ok (rv_db rv_demo)" "commission_accounts (rv_db rv_demo)" "\<not> ref_settled rv_demo ''pay_1''"
    by (simp_all add: gl_ok_def entry_debits_def entry_credits_def commission_accounts_def ref_settled_def)
  have pg: "pg_faults (rat_pg no_faults) = no_faults" "numeric (rat_pg no_faults) = rat_numeric"
    by (simp_all add: rat_pg_def)
  have "rv_lco s1 = rv_lco rv_demo @ [\<lparr>lco_id = rv_lco_seq rv_demo, lco_franchise = fr_ID rv_partner, lco_subscriber = 7,
           lco_recharge = 250, lco_commission = 25, lco_ref = Some ''pay_1'', lco_created = 9\<rparr>]
       \<and> gl_lines (rv_db s1) = gl_lines (rv_db rv_demo) @ commission_lines (rv_db rv_demo) 25
       \<and> SettleCommissionForRecharge rat_decimals (RevenueStore (rat_pg net_down) 12) s1 7 250 ''pay_1'' = s1"
    if "s1 = SettleCommissionForRecharge rat_decimals (RevenueStore (rat_pg no_faults) 9) rv_demo 7 250 ''pay_1''" for s1
    by (rule commission_settled_once [OF rat_pg_ok pg(1) ok(1,2) rv_demo_sel(1), where f = rv_partner])
       (use that ok(3) rv_amounts wb_numeric(2) in \<open>simp_all add: pg(2)\<close>)
  from this [OF refl] show ?thesis by (simp add: Let_def commission_lines_def)
qed


definition rv_drifted :: "rat revenue" where
  "rv_drifted = rv_demo\<lparr>rv_db := wb_db\<lparr>subscribers := [wb_sub\<lparr>sub_balance := 1500\<rparr>, wb_sub\<lparr>sub_id := 8, sub_balance := 500\<rparr>],
     wallet_ledgers := [wb_leg, wb_leg\<lparr>wl_subscriber := 8, wl_token := None\<rparr>]\<rparr>\<rparr>"

theorem offsetting_drifts_unnoticed_witness:
  "fst (snd (ReconcileJob_Run rat_decimals (rat_pg no_faults) (\<lambda>_. 0) (\<lambda>t. t) (\<lambda>t. t) 9 rv_drifted)) = []
   \<and> map (drift (rv_db rv_drifted)) (subscribers (rv_db rv_drifted)) = [500, - 500]"
proof -
  have "map (drift (rv_db rv_drifted)) (subscribers (rv_db rv_drifted)) = [500, - 500]" by code_simp
  then obtain r1 r2 where "subscribers (rv_db rv_drifted) = [r1, r2]"
    "drift (rv_db rv_drifted) r1 = 500" "drift (rv_db rv_drifted) r2 = - 500"
    by (auto simp: map_eq_Cons_conv)
  then show ?thesis
    using offsetting_drifts_unnoticed [OF rat_decimals_ok, of "rat_pg no_faults" rv_drifted r1 r2 "[]" 500]
    by (simp add: rat_pg_def)
qed

definition rv_settled :: "rat revenue" where
  "rv_settled = rv_demo\<lparr>rv_lco := [
     \<lparr>lco_id = 1, lco_franchise = 3, lco_subscriber = 7, lco_recharge = 250, lco_commission = 25,
      lco_ref = Some ''pay_1'', lco_created = 5\<rparr>,
     \<lparr>lco_id = 2, lco_franchise = 3, lco_subscriber = 7, lco_recharge = 1000, lco_commission = 100,
      lco_ref = Some ''pay_2'', lco_created = 50\<rparr>]\<rparr>"

lemma rv_settled_report: "map_sum id cp_NetToISP (ListConsolidatedPnL (rat_pg no_faults) rv_settled (Some 6) None) = Inr 900"
  by code_simp

lemma rv_settled_numeric: "rat_numeric 14 250 = Some 250" "rat_numeric 14 25 = Some 25" "rat_numeric 14 1000 = Some 1000"
  "rat_numeric 14 100 = Some 100"
  by code_simp+

theorem consolidated_pnl_adds_up_witness:
  "\<exists>c. ListConsolidatedPnL (rat_pg no_faults) rv_settled (Some 6) None = Inr c
      \<and> cp_TotalRecharges c = 1000 \<and> cp_CommissionEarned c = 100 \<and> cp_NetToISP c = 900
      \<and> map pl_FranchiseID (cp_Partners c) = [3]"
proof -
  from rv_settled_report obtain c where c: "ListConsolidatedPnL (rat_pg no_faults) rv_settled (Some 6) None = Inr c"
    by (cases "ListConsolidatedPnL (rat_pg no_faults) rv_settled (Some 6) None") auto
  from consolidated_pnl_adds_up [OF rat_pg_ok _ _ _ c] c rv_settled_numeric show ?thesis
    by (simp add: lco_amounts_ok_def rat_pg_def rv_settled_def in_period_def)
qed

end
