(* ===== verification/Payments.thy ===== *)
theory Payments
  imports Revenue
begin

text \<open>
  The ways money enters: the payment gateway's webhook (\<open>src/internal/api/webhook_razorpay.go\<close> with
  \<open>src/internal/billing/webhook.go\<close>), the staff recharge (\<open>src/internal/api/routes.go\<close>) and the portal's
  renewal callback (\<open>src/internal/portal/portal.go\<close> with the processor of \<open>src/cmd/api/main.go\<close>), over the
  wallet of \<open>Wallet\<close> and the commission settlement of \<open>Revenue\<close>.

  HMAC-SHA256, the JSON decoder and the decimal package are parameters. A request body is what the
  decoder returns for it; a decimal printed into a receipt is the decimal itself.
\<close>

section \<open>State\<close>

record 'd PaymentReceiptPayload =
  prp_SubscriberID :: int
  prp_Username :: string
  prp_Amount :: 'd
  prp_NewBalance :: 'd
  prp_WasSuspended :: bool

text \<open>
  The tables, the notification queue (\<open>None\<close> when the handler has no queue or no subscriber store) and
  the events handed to the partner emitter (\<open>None\<close> without one).
\<close>

record 'd payments =
  pa_rev :: "'d revenue"
  pa_tasks :: "'d PaymentReceiptPayload jobqueue option"
  pa_events :: "(string \<times> int) list option"

definition TaskTypePaymentReceipt :: string where "TaskTypePaymentReceipt = ''notif:payment_receipt''"
definition EventPaymentReceived :: string where "EventPaymentReceived = ''payment.received''"

definition Handler_emit :: "string \<Rightarrow> int \<Rightarrow> 'd payments \<Rightarrow> 'd payments" where
  "Handler_emit eventType entityID st = st\<lparr>pa_events := map_option (\<lambda>es. es @ [(eventType, entityID)]) (pa_events st)\<rparr>"

definition enqueuePaymentReceipt ::
  "'d pg \<Rightarrow> time \<Rightarrow> int \<Rightarrow> 'd \<Rightarrow> 'd \<Rightarrow> 'd payments \<Rightarrow> 'd payments" where
  "enqueuePaymentReceipt pg now subscriberID amount newBalance st =
     (case pa_tasks st of
        None \<Rightarrow> st
      | Some q \<Rightarrow>
          (case bindE (stmt pg ''get subscriber'') (\<lambda>_. Inr (find_subscriber (rv_db (pa_rev st)) subscriberID)) of
             Inl _ \<Rightarrow> st
           | Inr None \<Rightarrow> st
           | Inr (Some sub) \<Rightarrow>
               (let payload = \<lparr>prp_SubscriberID = subscriberID, prp_Username = sub_username sub, prp_Amount = amount,
                               prp_NewBalance = newBalance,
                               prp_WasSuspended = (sub_status sub \<in> {GracePeriod, SoftSuspended, HardSuspended})\<rparr>;
                    task = NewTask TaskTypePaymentReceipt payload
                             [Queue QueueNotifications, MaxRetry 3, Retention (24 * Hour)]
                in st\<lparr>pa_tasks := Some (fst (Enqueue now (pg_faults pg) q (Some task) []))\<rparr>)))"

section \<open>The gateway's webhook\<close>

type_synonym hmac = "bytes \<Rightarrow> bytes \<Rightarrow> bytes"

definition ValidateRazorpaySignature :: "hmac \<Rightarrow> bytes \<Rightarrow> string \<Rightarrow> string \<Rightarrow> bool" where
  "ValidateRazorpaySignature hmac payload signature secret =
     (lower_hex (hmac (bytes_of secret) payload) = signature)"

definition maxRazorpayWebhookBody :: nat where "maxRazorpayWebhookBody = 2 ^ 20"

record razorpayWebhookPayload =
  rz_Event :: string
  rz_ID :: string
  rz_Amount :: int
  rz_SubscriberID :: string

text \<open>A delivery: the body (\<open>None\<close> when reading it fails) and the signature header.\<close>

record webhook_request =
  wr_body :: "bytes option"
  wr_signature :: string

record webhook_env =
  we_hmac :: hmac
  we_decode :: "bytes \<Rightarrow> razorpayWebhookPayload option"
  we_secret :: string
  we_franchises :: bool

definition webhook_recharge :: "'d::linordered_idom decimal_pkg \<Rightarrow> razorpayWebhookPayload \<Rightarrow> int \<Rightarrow> 'd RechargeRequest" where
  "webhook_recharge dp p subscriberID =
     \<lparr>rr_SubscriberID = subscriberID, rr_Amount = Div dp (of_int (rz_Amount p)) 100, rr_Token = rz_ID p,
      rr_FranchiseID = None, rr_Description = ''recharge via razorpay webhook''\<rparr>"

text \<open>The wallet service works on the billing tables inside the state.\<close>

definition pay_Recharge ::
  "'d::linordered_idom pg \<Rightarrow> 'd RechargeRequest \<Rightarrow> 'd payments \<Rightarrow> 'd payments \<times> (err + 'd Transaction)" where
  "pay_Recharge pg req st =
     (case Recharge (BillingStore pg) (rv_db (pa_rev st)) req of
        (db', res) \<Rightarrow> (st\<lparr>pa_rev := (pa_rev st)\<lparr>rv_db := db'\<rparr>\<rparr>, res))"

definition pay_settle ::
  "'d::linordered_idom decimal_pkg \<Rightarrow> 'd pg \<Rightarrow> time \<Rightarrow> bool \<Rightarrow> int \<Rightarrow> 'd \<Rightarrow> string \<Rightarrow> 'd payments \<Rightarrow> 'd payments" where
  "pay_settle dp pg now franchises subscriberID amount ref st =
     (if franchises
      then st\<lparr>pa_rev := SettleCommissionForRecharge dp (RevenueStore pg now) (pa_rev st) subscriberID amount ref\<rparr>
      else st)"

definition credit_captured ::
  "'d::linordered_idom decimal_pkg \<Rightarrow> 'd pg \<Rightarrow> time \<Rightarrow> bool \<Rightarrow> razorpayWebhookPayload \<Rightarrow> int \<Rightarrow> 'd payments \<Rightarrow> 'd payments \<times> nat" where
  "credit_captured dp pg now franchises p subscriberID st =
     (let req = webhook_recharge dp p subscriberID
      in case pay_Recharge pg req st of
           (st1, Inl _) \<Rightarrow> (st1, 500)
         | (st1, Inr tx) \<Rightarrow>
             (let st2 = pay_settle dp pg now franchises subscriberID (rr_Amount req) (rz_ID p) st1;
                  st3 = enqueuePaymentReceipt pg now subscriberID (rr_Amount req) (tx_BalanceAfter tx) st2
              in (Handler_emit EventPaymentReceived subscriberID st3, 200)))"

definition RazorpayWebhook ::
  "'d::linordered_idom decimal_pkg \<Rightarrow> 'd pg \<Rightarrow> time \<Rightarrow> webhook_env \<Rightarrow> webhook_request \<Rightarrow> 'd payments \<Rightarrow> 'd payments \<times> nat" where
  "RazorpayWebhook dp pg now env req st =
     (if we_secret env = [] then (st, 503)
      else case wr_body req of
        None \<Rightarrow> (st, 400)
      | Some raw \<Rightarrow>
          (let body = take maxRazorpayWebhookBody raw
           in if \<not> ValidateRazorpaySignature (we_hmac env) body (wr_signature req) (we_secret env) then (st, 400)
              else case we_decode env body of
                None \<Rightarrow> (st, 400)
              | Some p \<Rightarrow>
                  if rz_Event p \<noteq> ''payment.captured'' then (st, 200)
                  else case Atoi_positive (rz_SubscriberID p) of
                    None \<Rightarrow> (st, 200)
                  | Some subscriberID \<Rightarrow> credit_captured dp pg now (we_franchises env) p subscriberID st))"

section \<open>The staff recharge\<close>

text \<open>The decoded body; \<open>wq_amount\<close> is \<open>None\<close> when the text is not a decimal. The audit entry is a log line.\<close>

record 'd walletRechargeRequest =
  wq_subscriber :: int
  wq_amount :: "'d option"
  wq_method :: string
  wq_token :: string

definition WalletRecharge ::
  "'d::linordered_idom decimal_pkg \<Rightarrow> 'd pg \<Rightarrow> time \<Rightarrow> bool \<Rightarrow> 'd walletRechargeRequest option \<Rightarrow> 'd payments \<Rightarrow> 'd payments \<times> nat" where
  "WalletRecharge dp pg now franchises body st =
     (case body of
        None \<Rightarrow> (st, 400)
      | Some req \<Rightarrow>
          (case wq_amount req of
             None \<Rightarrow> (st, 422)
           | Some amount \<Rightarrow>
               (case pay_Recharge pg \<lparr>rr_SubscriberID = wq_subscriber req, rr_Amount = amount, rr_Token = wq_token req,
                                      rr_FranchiseID = None, rr_Description = ''recharge via '' @ wq_method req\<rparr> st of
                  (st1, Inl _) \<Rightarrow> (st1, 500)
                | (st1, Inr tx) \<Rightarrow>
                    (enqueuePaymentReceipt pg now (wq_subscriber req) amount (tx_BalanceAfter tx)
                       (pay_settle dp pg now franchises (wq_subscriber req) amount (wq_token req) st1), 200))))"

section \<open>The portal's renewal\<close>

definition GetPlanRenewalInfo :: "'d pg \<Rightarrow> 'd db \<Rightarrow> int \<Rightarrow> err + int \<times> time option" where
  "GetPlanRenewalInfo pg db subscriberID =
     bindE (stmt pg ''get plan renewal info'') (\<lambda>_.
       case find_subscriber db subscriberID of
         None \<Rightarrow> Inl ErrNotFound
       | Some r \<Rightarrow> (case find_plan db (sub_plan_id r) of
                      None \<Rightarrow> Inl ErrNotFound
                    | Some p \<Rightarrow> Inr (plan_validity_days p, sub_expiry r)))"

definition renewed_expiry :: "time \<Rightarrow> time option \<Rightarrow> int \<Rightarrow> time" where
  "renewed_expiry now currentExpiry validityDays =
     (let base = (case currentExpiry of Some e \<Rightarrow> if now < e then e else now | None \<Rightarrow> now)
      in base + validityDays * Day)"

definition extendPlanExpiry ::
  "'d::linordered_idom pg \<Rightarrow> time \<Rightarrow> int \<Rightarrow> 'd db \<Rightarrow> 'd db \<times> (err + unit)" where
  "extendPlanExpiry pg now subscriberID db =
     (case GetPlanRenewalInfo pg db subscriberID of
        Inl e \<Rightarrow> (db, Inl e)
      | Inr (validityDays, currentExpiry) \<Rightarrow>
          SetPlanExpiry pg db subscriberID (renewed_expiry now currentExpiry validityDays))"

definition GetInvoiceInputs :: "'d pg \<Rightarrow> 'd db \<Rightarrow> int \<Rightarrow> err + string \<times> int" where
  "GetInvoiceInputs pg db subscriberID =
     bindE (stmt pg ''get invoice inputs'') (\<lambda>_.
       case find_subscriber db subscriberID of
         None \<Rightarrow> Inl ErrNotFound
       | Some r \<Rightarrow> (case find_plan db (sub_plan_id r) of
                      None \<Rightarrow> Inl ErrNotFound
                    | Some p \<Rightarrow> Inr (sub_state r, plan_volume_gb p)))"

definition createRenewalInvoice ::
  "'d::linordered_idom decimal_pkg \<Rightarrow> 'd pg \<Rightarrow> time \<Rightarrow> int \<Rightarrow> 'd \<Rightarrow> 'd db \<Rightarrow> 'd db \<times> (err + unit)" where
  "createRenewalInvoice dp pg dbnow subscriberID amount db =
     (case bindE (GetInvoiceInputs pg db subscriberID) (\<lambda>(registeredState, planVolumeGB).
           bindE (GetActiveGstRate pg dbnow db) (\<lambda>rate.
             Inr ((CalculateGstInvoice dp amount registeredState rate)
                    \<lparr>inv_SubscriberID := subscriberID, GbIncluded := planVolumeGB, GbUsed := 0\<rparr>))) of
        Inl e \<Rightarrow> (db, Inl e)
      | Inr bill \<Rightarrow> (case CreateInvoice pg db bill of (db', r) \<Rightarrow> (db', map_sum id (\<lambda>_. ()) r)))"

definition on_db :: "('d db \<Rightarrow> 'd db \<times> 'r) \<Rightarrow> 'd payments \<Rightarrow> 'd payments" where
  "on_db f st = st\<lparr>pa_rev := (pa_rev st)\<lparr>rv_db := fst (f (rv_db (pa_rev st)))\<rparr>\<rparr>"

text \<open>
  The processor as the server wires it, every collaborator present: the errors of the later steps
  are logged and do not undo the credit.
\<close>

definition ApplyRenewal ::
  "'d::linordered_idom decimal_pkg \<Rightarrow> 'd pg \<Rightarrow> time \<Rightarrow> int \<Rightarrow> 'd \<Rightarrow> string \<Rightarrow> 'd payments \<Rightarrow> 'd payments \<times> (err + int \<times> 'd)" where
  "ApplyRenewal dp pg now subscriberID amount paymentID st =
     (case pay_Recharge pg \<lparr>rr_SubscriberID = subscriberID, rr_Amount = amount, rr_Token = paymentID,
                            rr_FranchiseID = None, rr_Description = ''portal one-tap renewal''\<rparr> st of
        (st1, Inl e) \<Rightarrow> (st1, Inl e)
      | (st1, Inr tx) \<Rightarrow>
          (let st2 = on_db (extendPlanExpiry pg now subscriberID) st1;
               st3 = on_db (createRenewalInvoice dp pg now subscriberID amount) st2;
               st4 = pay_settle dp pg now True subscriberID amount paymentID st3
           in (st4, Inr (tx_ID tx, tx_BalanceAfter tx))))"

record 'd renewalCallbackRequest =
  cb_paymentID :: string
  cb_amount :: "'d option"

definition RenewalCallback ::
  "'d::linordered_idom decimal_pkg \<Rightarrow> 'd pg \<Rightarrow> time \<Rightarrow> int \<Rightarrow> 'd renewalCallbackRequest option \<Rightarrow> 'd payments \<Rightarrow>
     'd payments \<times> (int \<times> 'd) response" where
  "RenewalCallback dp pg now subID body st =
     (if subID = 0 then (st, Status 401)
      else case body of
        None \<Rightarrow> (st, Status 400)
      | Some req \<Rightarrow>
          if cb_paymentID req = [] then (st, Status 422)
          else case cb_amount req of
            None \<Rightarrow> (st, Status 422)
          | Some amount \<Rightarrow>
              if amount \<le> 0 then (st, Status 422)
              else case ApplyRenewal dp pg now subID amount (cb_paymentID req) st of
                (st', Inl _) \<Rightarrow> (st', Status 500)
              | (st', Inr payment) \<Rightarrow> (st', Body payment))"

section \<open>What a recharge adds to the ledger\<close>

lemma balance_erased:
  "(if c then x\<lparr>sub_balance := v\<rparr> else x)\<lparr>sub_balance := 0\<rparr> = (x :: 'd::linordered_idom subscriber)\<lparr>sub_balance := 0\<rparr>"
  by (cases x) simp

text \<open>A recharge that changes the database appends its two legs, the wallet leg with the token.\<close>

lemma Recharge_rows:
  assumes "Recharge (BillingStore pg) db req = (db', res)"
  obtains "db' = db" "\<And>tx. res = Inr tx \<Longrightarrow> existing_tx (BillingStore pg) db (rr_Token req) = Some tx"
  | x y where "wallet_ledgers db' = wallet_ledgers db @ [x, y]" "0 < rr_Amount req"
      "wl_subscriber x = rr_SubscriberID req" "wl_subscriber y = rr_SubscriberID req"
      "numeric pg 12 (rr_Amount req) = Some (wl_amount x)" "wl_amount y = wl_amount x"
      "wl_token x = None" "wl_token y = token_ptr (rr_Token req)"
      "invoices db' = invoices db" "plans db' = plans db"
      "\<And>i. map_option (\<lambda>r. r\<lparr>sub_balance := 0\<rparr>) (find_subscriber db' i) = map_option (\<lambda>r. r\<lparr>sub_balance := 0\<rparr>) (find_subscriber db i)"
proof (cases "db' = db \<and> (\<forall>tx. res = Inr tx \<longrightarrow> existing_tx (BillingStore pg) db (rr_Token req) = Some tx)")
  case False
  then have pos: "0 < rr_Amount req" and none: "existing_tx (BillingStore pg) db (rr_Token req) = None"
    using assms by (auto simp: Recharge_def not_le split: if_splits option.splits)
  then obtain b where "q_GetSubscriberBalance (BillingStore pg) db (rr_SubscriberID req) = Inr b"
    using assms False by (auto simp: Recharge_def split: sum.splits)
  with assms pos none have "record_posting (BillingStore pg) db (recharge_posting req (b + rr_Amount req)) = (db', res)"
    by (simp add: Recharge_def)
  then obtain tx where "RecordRecharge pg db (recharge_posting req (b + rr_Amount req)) = (db', Inr tx)"
  proof (cases rule: bs.record_posting_cases)
    case 1
    with False show ?thesis by auto
  qed (simp add: BillingStore_def that)
  then show thesis
  proof (cases rule: RecordRecharge_Inr)
    case (1 a b1 a' b2 nb g ls)
    have "a' = a" using 1(1,2) by (simp add: recharge_posting_def)
    show thesis
      by (rule that(2) [of "leg_row (wallet_seq db) (rp_Debit (recharge_posting req (b + rr_Amount req))) None a b1"
            "leg_row (wallet_seq db + 1) (rp_Credit (recharge_posting req (b + rr_Amount req)))
               (we_Token (rp_Credit (recharge_posting req (b + rr_Amount req)))) a' b2"])
         (use pos 1(1) \<open>a' = a\<close> in \<open>simp_all add: 1(10) leg_row_def recharge_posting_def find_subscriber_def
              find_update_where option.map_comp comp_def balance_erased\<close>)
  qed
qed (use that in blast)

lemma pay_Recharge_rows:
  assumes "pay_Recharge pg req st = (st', res)"
  obtains "st' = st" | x y where
      "wallet_ledgers (rv_db (pa_rev st')) = wallet_ledgers (rv_db (pa_rev st)) @ [x, y]"
      "wl_subscriber x = rr_SubscriberID req" "wl_subscriber y = rr_SubscriberID req"
      "numeric pg 12 (rr_Amount req) = Some (wl_amount x)" "wl_amount y = wl_amount x"
      "wl_token x = None" "wl_token y = token_ptr (rr_Token req)"
proof -
  from assms have run: "Recharge (BillingStore pg) (rv_db (pa_rev st)) req = (rv_db (pa_rev st'), res)"
    and st': "st' = st\<lparr>pa_rev := (pa_rev st)\<lparr>rv_db := rv_db (pa_rev st')\<rparr>\<rparr>"
    by (auto simp: pay_Recharge_def split: prod.splits)
  from run show thesis
    by (rule Recharge_rows) (use that st' in \<open>auto\<close>)
qed

lemma settle_tables:
  assumes "s' = SettleCommissionForRecharge dp (RevenueStore pg now) s i amount t"
  shows "wallet_ledgers (rv_db s') = wallet_ledgers (rv_db s) \<and> subscribers (rv_db s') = subscribers (rv_db s)
       \<and> invoices (rv_db s') = invoices (rv_db s) \<and> plans (rv_db s') = plans (rv_db s)"
proof (rule rs.settle_cases [of dp pg now s i amount t])
  fix e u assume "fq_CalculateAndStoreLCOCommission (RevenueStore pg now) s e
    = (SettleCommissionForRecharge dp (RevenueStore pg now) s i amount t, Inr u)"
  then have "CalculateAndStoreLCOCommission pg now s e = (s', Inr u)" by (simp add: RevenueStore_def assms)
  then show ?thesis
    by (rule store_commission_cases) (auto elim: post_commission_Inr)
qed (simp add: assms)

lemmas settle_tables_sel [simp] = settle_tables [OF refl, THEN conjunct1]
  settle_tables [OF refl, THEN conjunct2, THEN conjunct1]
  settle_tables [OF refl, THEN conjunct2, THEN conjunct2, THEN conjunct1]
  settle_tables [OF refl, THEN conjunct2, THEN conjunct2, THEN conjunct2]

lemma receipt_emit_sel [simp]:
  "pa_rev (enqueuePaymentReceipt pg now i a b st) = pa_rev st" "pa_rev (Handler_emit t i st) = pa_rev st"
  by (simp_all add: enqueuePaymentReceipt_def Handler_emit_def Let_def split: option.split sum.split)

lemma pay_settle_sel [simp]:
  "wallet_ledgers (rv_db (pa_rev (pay_settle dp pg now b i a t st))) = wallet_ledgers (rv_db (pa_rev st))"
  "subscribers (rv_db (pa_rev (pay_settle dp pg now b i a t st))) = subscribers (rv_db (pa_rev st))"
  "invoices (rv_db (pa_rev (pay_settle dp pg now b i a t st))) = invoices (rv_db (pa_rev st))"
  "plans (rv_db (pa_rev (pay_settle dp pg now b i a t st))) = plans (rv_db (pa_rev st))"
  by (simp_all add: pay_settle_def)

lemma pay_Recharge_books:
  assumes "numeric_ok pg" and ok: "books_ok pg (pa_rev st)" and "numeric pg 12 (rr_Amount req) = Some (rr_Amount req)"
    and "pay_Recharge pg req st = (st', res)"
  shows "books_ok pg (pa_rev st')"
proof -
  have "call_ok pg (CallRecharge req)" using assms(3) by simp
  from do_call_sound [OF assms(1) _ _ this, of "rv_db (pa_rev st)"] ok assms(4) show ?thesis
    by (auto simp: books_ok_def pay_Recharge_def split: prod.splits)
qed

lemma pay_settle_books:
  "books_ok pg (pa_rev st) \<Longrightarrow> books_ok pg (pa_rev (pay_settle dp pg now b i a t st))"
  by (simp add: pay_settle_def rs.settle_ok)

lemma settle_lco:
  obtains "rv_lco (SettleCommissionForRecharge dp (RevenueStore pg now) s i amount t) = rv_lco s"
  | row where "rv_lco (SettleCommissionForRecharge dp (RevenueStore pg now) s i amount t) = rv_lco s @ [row]"
      "lco_ref row = (if t = [] then None else Some t)"
proof (rule rs.settle_cases [of dp pg now s i amount t])
  fix e u assume "fq_CalculateAndStoreLCOCommission (RevenueStore pg now) s e
    = (SettleCommissionForRecharge dp (RevenueStore pg now) s i amount t, Inr u)" and t: "ce_TransactionRef e = t"
  then have "CalculateAndStoreLCOCommission pg now s e
    = (SettleCommissionForRecharge dp (RevenueStore pg now) s i amount t, Inr u)" by (simp add: RevenueStore_def)
  then show thesis
  proof (cases rule: store_commission_cases)
    case (3 row db')
    with insert_lco_Some [OF 3(3)] t that(2) [of row] show thesis by (simp add: ref_of_def)
  qed (use that(1) in simp_all)
qed (use that(1) in simp)

section \<open>Only signed captures move money\<close>

text \<open>The deliveries that reach the wallet: signed with the configured secret, captured, for a subscriber.\<close>

definition captured :: "webhook_env \<Rightarrow> webhook_request \<Rightarrow> (razorpayWebhookPayload \<times> int) option" where
  "captured env req =
     (case wr_body req of
        None \<Rightarrow> None
      | Some raw \<Rightarrow>
          if we_secret env \<noteq> []
             \<and> lower_hex (we_hmac env (bytes_of (we_secret env)) (take maxRazorpayWebhookBody raw)) = wr_signature req
          then (case we_decode env (take maxRazorpayWebhookBody raw) of
                  None \<Rightarrow> None
                | Some p \<Rightarrow> if rz_Event p = ''payment.captured''
                            then map_option (Pair p) (Atoi_positive (rz_SubscriberID p)) else None)
          else None)"

lemma webhook_captured:
  "fst (RazorpayWebhook dp pg now env req st) =
     (case captured env req of None \<Rightarrow> st | Some (p, i) \<Rightarrow> fst (credit_captured dp pg now (we_franchises env) p i st))"
  by (simp add: RazorpayWebhook_def captured_def ValidateRazorpaySignature_def Let_def split: option.split)

fun webhook_run ::
  "'d::linordered_idom decimal_pkg \<Rightarrow> webhook_env \<Rightarrow> ('d pg \<times> time \<times> webhook_request) list \<Rightarrow> 'd payments \<Rightarrow> 'd payments" where
  "webhook_run dp env [] st = st"
| "webhook_run dp env ((pg, now, req) # ds) st = webhook_run dp env ds (fst (RazorpayWebhook dp pg now env req st))"

definition paid :: "'d::linordered_idom decimal_pkg \<Rightarrow> razorpayWebhookPayload \<Rightarrow> 'd" where
  "paid dp p = Div dp (of_int (rz_Amount p)) 100"

text \<open>A wallet leg and a commission row that a captured payment accounts for.\<close>

definition leg_explained :: "'d::linordered_idom decimal_pkg \<Rightarrow> razorpayWebhookPayload \<times> int \<Rightarrow> 'd wallet_row \<Rightarrow> bool" where
  "leg_explained dp c r = (case c of (p, i) \<Rightarrow> wl_subscriber r = i \<and> wl_amount r = paid dp p \<and> wl_token r \<in> {None, Some (rz_ID p)})"

definition lco_explained :: "razorpayWebhookPayload \<times> int \<Rightarrow> 'd lco_row \<Rightarrow> bool" where
  "lco_explained c r = (case c of (p, i) \<Rightarrow> lco_ref r = (if rz_ID p = [] then None else Some (rz_ID p)))"

lemma credit_captured_sound:
  assumes "numeric_ok pg" and "books_ok pg (pa_rev st)" and "numeric pg 12 (paid dp p) = Some (paid dp p)"
    and "st' = fst (credit_captured dp pg now b p i st)"
  shows "books_ok pg (pa_rev st')
       \<and> (\<forall>r \<in> set (wallet_ledgers (rv_db (pa_rev st'))). r \<in> set (wallet_ledgers (rv_db (pa_rev st))) \<or> leg_explained dp (p, i) r)
       \<and> (\<forall>r \<in> set (rv_lco (pa_rev st')). r \<in> set (rv_lco (pa_rev st)) \<or> lco_explained (p, i) r)"
proof -
  obtain st1 res where run: "pay_Recharge pg (webhook_recharge dp p i) st = (st1, res)" by fastforce
  have amt: "numeric pg 12 (rr_Amount (webhook_recharge dp p i)) = Some (rr_Amount (webhook_recharge dp p i))"
    using assms(3) by (simp add: webhook_recharge_def paid_def)
  have ok: "books_ok pg (pa_rev st1)" by (rule pay_Recharge_books [OF assms(1,2) amt run])
  have lco1: "rv_lco (pa_rev st1) = rv_lco (pa_rev st)" using run by (auto simp: pay_Recharge_def split: prod.splits)
  have legs: "\<forall>r \<in> set (wallet_ledgers (rv_db (pa_rev st1))). r \<in> set (wallet_ledgers (rv_db (pa_rev st))) \<or> leg_explained dp (p, i) r"
    using run by (rule pay_Recharge_rows)
      (use amt in \<open>auto simp: leg_explained_def webhook_recharge_def paid_def token_ptr_def split: if_splits\<close>)
  show ?thesis
  proof (cases res)
    case (Inl e)
    with assms(4) run have "st' = st1" by (simp add: credit_captured_def Let_def)
    with ok legs lco1 show ?thesis by auto
  next
    case (Inr tx)
    define s2 where "s2 = pay_settle dp pg now b i (rr_Amount (webhook_recharge dp p i)) (rz_ID p) st1"
    have rev: "pa_rev st' = pa_rev s2" using assms(4) run Inr by (simp add: credit_captured_def Let_def s2_def)
    have "\<forall>r \<in> set (rv_lco (pa_rev s2)). r \<in> set (rv_lco (pa_rev st)) \<or> lco_explained (p, i) r"
    proof (cases b)
      case True
      show ?thesis
        by (rule settle_lco [of dp pg now "pa_rev st1" i "rr_Amount (webhook_recharge dp p i)" "rz_ID p"])
           (use True lco1 in \<open>auto simp: s2_def pay_settle_def lco_explained_def\<close>)
    qed (use lco1 in \<open>simp add: s2_def pay_settle_def\<close>)
    with rev legs pay_settle_books [OF ok] show ?thesis by (simp add: s2_def)
  qed
qed

lemma books_ok_cong: "numeric pg = numeric pg' \<Longrightarrow> books_ok pg s = books_ok pg' s"
  using wallet_inv_cong [of pg pg' "rv_db s"] by (simp add: books_ok_def)


section \<open>A recharge goes through\<close>

definition recharge_accounts :: "'d db \<Rightarrow> bool" where
  "recharge_accounts db = (map_of (chart_of_accounts db) ''1000'' \<noteq> None \<and> map_of (chart_of_accounts db) ''1200'' \<noteq> None)"

definition recharge_lines :: "'d::linordered_idom db \<Rightarrow> 'd \<Rightarrow> 'd gl_line list" where
  "recharge_lines db a =
     [\<lparr>gl_entry_id = gl_seq db, gl_account = the (map_of (chart_of_accounts db) ''1000''), gl_debit = a, gl_credit = 0\<rparr>,
      \<lparr>gl_entry_id = gl_seq db, gl_account = the (map_of (chart_of_accounts db) ''1200''), gl_debit = 0, gl_credit = a\<rparr>]"

lemma recharge_gl_entry:
  assumes "numeric_ok pg" and "pg_faults pg = no_faults" and "recharge_accounts db"
    and "numeric pg 12 (rr_Amount req) = Some (rr_Amount req)" and "0 < rr_Amount req"
  shows "\<exists>g. postWalletGLEntry pg (recharge_posting req nb) i db
     = Inr (db\<lparr>gl_entries := gl_entries db @ [g], gl_seq := gl_seq db + 1,
               gl_lines := gl_lines db @ recharge_lines db (rr_Amount req)\<rparr>)"
proof -
  have num: "numericE pg 14 (rr_Amount req) = Inr (rr_Amount req)" "numericE pg 14 0 = Inr 0"
    using assms(1,4) by (auto simp: numeric_ok_def)
  have st: "stmt pg l = Inr ()" for l using assms(2) by simp
  have acct: "glAccountID pg d c = Inr (the (map_of (chart_of_accounts db) c))"
    if "chart_of_accounts d = chart_of_accounts db" "c = ''1000'' \<or> c = ''1200''" for d c
    using assms(3) that glAccountID_known [OF assms(2), of d c] by (auto simp: recharge_accounts_def)
  show ?thesis
    using assms(5)
    by (simp add: postWalletGLEntry_def recharge_posting_def GLAccountCode_def account_defs splitTaxLeg_def guardE_def
        insertGLLine_def st num acct chk_gl_line_def recharge_lines_def Let_def)
       (rule exI, rule refl)
qed

lemma recharge_commits:
  assumes ok: "numeric_ok pg" and inv: "wallet_inv pg db" and up: "pg_faults pg = no_faults"
    and acc: "recharge_accounts db" and r: "find_subscriber db (rr_SubscriberID req) = Some r"
    and amt: "numeric pg 12 (rr_Amount req) = Some (rr_Amount req)" "0 < rr_Amount req"
    and nb: "nb = sub_balance r + rr_Amount req" "numeric pg 12 nb = Some nb"
    and tok: "rr_Token req = [] \<or> token_id db (rr_Token req) = None"
  obtains legs g tx where
    "Recharge (BillingStore pg) db req
     = (db\<lparr>wallet_ledgers := wallet_ledgers db @ legs, wallet_seq := wallet_seq db + 2,
          subscribers := update_where (\<lambda>x. sub_id x = rr_SubscriberID req) (\<lambda>x. x\<lparr>sub_balance := nb\<rparr>) (subscribers db),
          gl_entries := gl_entries db @ [g], gl_seq := gl_seq db + 1,
          gl_lines := gl_lines db @ recharge_lines db (rr_Amount req)\<rparr>, Inr tx)"
    "tx_BalanceAfter tx = nb"
proof -
  let ?p = "recharge_posting req nb" and ?i = "rr_SubscriberID req"
  have st: "stmt pg l = Inr ()" for l using up by simp
  have "0 \<le> sub_balance r" using balance_nonneg [OF inv, of ?i "sub_balance r"] r by (simp add: balance_of_def)
  then have chk: "\<forall>x \<in> set (subscribers db). sub_id x = ?i \<longrightarrow> subscriber_checks (x\<lparr>sub_balance := nb\<rparr>)"
    using charge_balance_write [OF inv r] amt(2) nb(1) by simp
  let ?legs = "[leg_row (wallet_seq db) (rp_Debit ?p) None (rr_Amount req) nb,
                leg_row (wallet_seq db + 1) (rp_Credit ?p) (token_ptr (rr_Token req)) (rr_Amount req) nb]"
  let ?db3 = "db\<lparr>wallet_ledgers := wallet_ledgers db @ ?legs, wallet_seq := wallet_seq db + 2,
                 subscribers := update_where (\<lambda>x. sub_id x = ?i) (\<lambda>x. x\<lparr>sub_balance := nb\<rparr>) (subscribers db)\<rparr>"
  have "recharge_accounts ?db3" and lines: "recharge_lines ?db3 (rr_Amount req) = recharge_lines db (rr_Amount req)"
    using acc by (simp_all add: recharge_accounts_def recharge_lines_def)
  from recharge_gl_entry [OF ok up this(1) amt, of nb "wallet_seq db + 1"] obtain g where
    gl: "postWalletGLEntry pg ?p (wallet_seq db + 1) ?db3
      = Inr (?db3\<lparr>gl_entries := gl_entries db @ [g], gl_seq := gl_seq db + 1,
                  gl_lines := gl_lines db @ recharge_lines db (rr_Amount req)\<rparr>)" (is "_ = Inr ?db'")
    unfolding lines by auto
  have fresh: "token_ptr (rr_Token req) = None \<or> token_ptr (rr_Token req) \<notin> set (map wl_token (wallet_ledgers db))"
    using tok by (auto simp: token_ptr_def token_id_def find_None_iff)
  have leg: "insertLeg pg l e t d = Inr (d\<lparr>wallet_ledgers := wallet_ledgers d @ [leg_row (wallet_seq d) e t (rr_Amount req) nb],
                                       wallet_seq := wallet_seq d + 1\<rparr>, wallet_seq d)"
    if "e = rp_Debit ?p \<or> e = rp_Credit ?p" and "subscribers d = subscribers db"
      and "t = None \<or> t \<notin> set (map wl_token (wallet_ledgers d))" for l e d t
    unfolding insertLeg_Inr using that amt nb r up
    by (auto simp: recharge_posting_def find_subscriber_def)
  have sel: "we_Token (rp_Credit ?p) = token_ptr (rr_Token req)" "rp_NewBalance ?p = nb" "rp_SubscriberID ?p = ?i"
    by (simp_all add: recharge_posting_def)
  have one: "insertLeg pg ''insert debit leg'' (rp_Debit ?p) None db = Inr (db\<lparr>wallet_ledgers := wallet_ledgers db @
      [leg_row (wallet_seq db) (rp_Debit ?p) None (rr_Amount req) nb], wallet_seq := wallet_seq db + 1\<rparr>, wallet_seq db)"
    (is "_ = Inr (?db1, _)") by (rule leg) simp_all
  have "insertLeg pg ''insert credit leg'' (rp_Credit ?p) (token_ptr (rr_Token req)) ?db1
      = Inr (?db1\<lparr>wallet_ledgers := wallet_ledgers ?db1 @ [leg_row (wallet_seq ?db1) (rp_Credit ?p) (token_ptr (rr_Token req))
                (rr_Amount req) nb], wallet_seq := wallet_seq ?db1 + 1\<rparr>, wallet_seq ?db1)"
    by (rule leg) (use fresh in \<open>auto simp: leg_row_def\<close>)
  then have "insertLeg pg ''insert credit leg'' (rp_Credit ?p) (token_ptr (rr_Token req)) ?db1
      = Inr (db\<lparr>wallet_ledgers := wallet_ledgers db @ ?legs, wallet_seq := wallet_seq db + 2\<rparr>, wallet_seq db + 1)"
    by (simp add: add.assoc)
  with one gl chk nb(2) obtain tx where body: "recharge_body pg ?p db = Inr (?db', tx)"
    by (auto simp: recharge_body_def sel st numericE_def update_subscribers_def)
  have "check_gl_journal_balanced db ?db'"
    using entry_fresh [of db] inv
    by (simp add: wallet_inv_def check_gl_journal_balanced_def recharge_lines_def entry_debits_def entry_credits_def)
  with body up have rec: "RecordRecharge pg db ?p = (?db', Inr tx)" by (simp add: RecordRecharge_def inTx_Inr)
  have "existing_tx (BillingStore pg) db (rr_Token req) = None"
    using tok by (auto simp: existing_tx_def BillingStore_def GetTransactionByToken_def token_id_def st)
  with rec r up amt(2) nb(1) sel(2)
  have "Recharge (BillingStore pg) db req = (?db', Inr (tx\<lparr>tx_BalanceAfter := nb\<rparr>))"
    by (simp add: Recharge_def BillingStore_def GetSubscriberBalance_def st record_posting_def)
  then show thesis by (rule that) simp
qed

section \<open>The portal callback\<close>

lemma expiry_keeps_balance: "sub_balance (if c then x\<lparr>sub_expiry := e\<rparr> else x) = sub_balance x"
  by simp

lemma extend_balance [simp]: "balance_of (fst (extendPlanExpiry pg now i db)) j = balance_of db j"
  by (simp add: extendPlanExpiry_def SetPlanExpiry_def update_subscribers_def balance_of_def find_subscriber_def
      find_update_where option.map_comp comp_def expiry_keeps_balance split: sum.split prod.split)

lemma extend_tables [simp]:
  "wallet_ledgers (fst (extendPlanExpiry pg now i db)) = wallet_ledgers db"
  by (simp add: extendPlanExpiry_def SetPlanExpiry_def update_subscribers_def bindE_def split: sum.split prod.split)

lemma invoice_tables [simp]:
  "subscribers (fst (createRenewalInvoice dp pg now i amount db)) = subscribers db"
  "wallet_ledgers (fst (createRenewalInvoice dp pg now i amount db)) = wallet_ledgers db"
  by (simp_all add: createRenewalInvoice_def CreateInvoice_def split: sum.split prod.split)

lemma on_db_sel [simp]: "rv_db (pa_rev (on_db f st)) = fst (f (rv_db (pa_rev st)))"
  by (simp add: on_db_def)

lemma balance_of_cong: "subscribers db = subscribers db' \<Longrightarrow> balance_of db = balance_of db'"
  by (rule ext) (simp add: balance_of_def find_subscriber_def)

lemma renewal_tail_balance:
  "balance_of (rv_db (pa_rev (pay_settle dp pg now b i a t
     (on_db (createRenewalInvoice dp pg now i a) (on_db (extendPlanExpiry pg now i) st))))) j
   = balance_of (rv_db (pa_rev st)) j"
proof -
  let ?s = "on_db (createRenewalInvoice dp pg now i a) (on_db (extendPlanExpiry pg now i) st)"
  have "balance_of (rv_db (pa_rev (pay_settle dp pg now b i a t ?s))) = balance_of (fst (extendPlanExpiry pg now i (rv_db (pa_rev st))))"
    by (rule balance_of_cong) simp
  then show ?thesis by simp
qed

text \<open>
  C37. The portal's renewal callback believes its caller. It is reached with a subscriber's own login and
  carries no signature of the gateway: with a payment id that was never used and any amount the
  subscriber cares to write, on a working database, it answers with success and the amount is in the
  wallet.
\<close>

theorem portal_callback_unverified:
  assumes "numeric_ok pg" and ok: "books_ok pg (pa_rev st)" and up: "pg_faults pg = no_faults"
    and "recharge_accounts (rv_db (pa_rev st))" and b: "balance_of (rv_db (pa_rev st)) i = Some b" and "i \<noteq> 0"
    and pid: "pid \<noteq> []" "token_id (rv_db (pa_rev st)) pid = None"
    and amt: "0 < amount" "numeric pg 12 amount = Some amount" "numeric pg 12 (b + amount) = Some (b + amount)"
  shows "\<exists>st' tx. RenewalCallback dp pg now i (Some \<lparr>cb_paymentID = pid, cb_amount = Some amount\<rparr>) st
           = (st', Body (tx, b + amount))
         \<and> balance_of (rv_db (pa_rev st')) i = Some (b + amount)"
proof -
  let ?db = "rv_db (pa_rev st)"
  let ?req = "\<lparr>rr_SubscriberID = i, rr_Amount = amount, rr_Token = pid, rr_FranchiseID = None,
     rr_Description = ''portal one-tap renewal''\<rparr>"
  have inv: "wallet_inv pg ?db" using ok by (simp add: books_ok_def)
  from b obtain r where r: "find_subscriber ?db (rr_SubscriberID ?req) = Some r" "sub_balance r = b"
    by (auto simp: balance_of_def)
  obtain legs g tx where run: "Recharge (BillingStore pg) ?db ?req
     = (?db\<lparr>wallet_ledgers := wallet_ledgers ?db @ legs, wallet_seq := wallet_seq ?db + 2,
          subscribers := update_where (\<lambda>x. sub_id x = rr_SubscriberID ?req) (\<lambda>x. x\<lparr>sub_balance := b + amount\<rparr>) (subscribers ?db),
          gl_entries := gl_entries ?db @ [g], gl_seq := gl_seq ?db + 1,
          gl_lines := gl_lines ?db @ recharge_lines ?db (rr_Amount ?req)\<rparr>, Inr tx)" (is "_ = (?db', _)")
    and tx: "tx_BalanceAfter tx = b + amount"
    by (rule recharge_commits [OF assms(1) inv up assms(4) r(1), of "b + amount"]) (use r(2) amt pid in auto)
  have "find_subscriber ?db' i = Some (r\<lparr>sub_balance := b + amount\<rparr>)"
    using r by (auto simp: find_subscriber_def find_update_where dest: find_SomeD)
  then have "balance_of ?db' i = Some (b + amount)" by (simp add: balance_of_def)
  moreover have "pay_Recharge pg ?req st = (st\<lparr>pa_rev := (pa_rev st)\<lparr>rv_db := ?db'\<rparr>\<rparr>, Inr tx)"
    by (simp only: pay_Recharge_def run prod.case)
  ultimately show ?thesis
    using tx pid(1) amt(1) assms(6)
    by (simp add: RenewalCallback_def ApplyRenewal_def Let_def renewal_tail_balance)
qed

lemma extend_writes:
  assumes "wallet_inv pg db" and "pg_faults pg = no_faults" and r: "find_subscriber db i = Some r"
    and "find_plan db (sub_plan_id r) = Some p"
  shows "find_subscriber (fst (extendPlanExpiry pg now i db)) i
       = Some (r\<lparr>sub_expiry := Some (renewed_expiry now (sub_expiry r) (plan_validity_days p))\<rparr>)"
proof -
  have chk: "\<forall>x \<in> set (subscribers db). sub_id x = i \<longrightarrow> subscriber_checks (x\<lparr>sub_expiry := Some e\<rparr>)" for e
    using assms(1) by (auto simp: wallet_inv_def subscribers_ok_def subscriber_checks_def
        chk_wallet_balance_nonneg_def chk_authorised_subscriber_is_billable_def)
  have "sub_id r = i" using r by (auto simp: find_subscriber_def dest: find_SomeD)
  with assms(2-4) chk show ?thesis
    by (simp add: extendPlanExpiry_def GetPlanRenewalInfo_def SetPlanExpiry_def update_subscribers_def stmt_def)
       (simp add: find_subscriber_def find_update_where)
qed


section \<open>Witnesses\<close>

definition pay_demo :: "rat payments" where
  "pay_demo = \<lparr>pa_rev = rv_demo, pa_tasks = None, pa_events = Some []\<rparr>"

lemma pay_demo_rev [simp]: "pa_rev pay_demo = rv_demo" by (simp add: pay_demo_def)

lemma rv_demo_books: "books_ok (rat_pg flt) rv_demo"
proof -
  have "wallet_ledgers (rv_db rv_demo) = [wb_leg]" "subscribers (rv_db rv_demo) = [wb_sub\<lparr>sub_franchise_id := Some 3\<rparr>]"
    by (simp_all add: rv_demo_def wb_db_def)
  then show ?thesis
    using wb_numeric(1)
    by (simp add: books_ok_def wallet_inv_def subscribers_ok_def subscriber_checks_def chk_wallet_balance_nonneg_def
        chk_authorised_subscriber_is_billable_def gl_ok_def entry_debits_def entry_credits_def rat_pg_def
        ledger_agrees_def wallet_sum_def on_wallet_def signed_row_def wb_sub_def wb_leg_def)
qed

lemma rv_demo_balance: "balance_of (rv_db rv_demo) 7 = Some 1000"
  by (simp add: balance_of_def wb_sub_def)

text \<open>A gateway whose code is the key in front of the body, and one payment of 250.00 for subscriber 7.\<close>

definition pay_event :: razorpayWebhookPayload where
  "pay_event = \<lparr>rz_Event = ''payment.captured'', rz_ID = ''pay_1'', rz_Amount = 25000, rz_SubscriberID = ''7''\<rparr>"

definition pay_env :: webhook_env where
  "pay_env = \<lparr>we_hmac = (@), we_decode = (\<lambda>b. if b = [1] then Some pay_event else None), we_secret = ''k'', we_franchises = True\<rparr>"

definition signed_delivery :: webhook_request where
  "signed_delivery = \<lparr>wr_body = Some [1], wr_signature = ''6b01''\<rparr>"

definition forged_delivery :: webhook_request where
  "forged_delivery = \<lparr>wr_body = Some [1], wr_signature = ''00''\<rparr>"

definition pay_deliveries :: "(rat pg \<times> time \<times> webhook_request) list" where
  "pay_deliveries = [(rat_pg no_faults, 8, forged_delivery), (rat_pg net_down, 9, signed_delivery),
     (rat_pg no_faults, 10, signed_delivery), (rat_pg no_faults, 11, signed_delivery)]"

lemma pay_hex: "lower_hex (bytes_of ''k'' @ [1]) = ''6b01''"
  by (simp add: lower_hex_def upper_hex_def hex_digit_def bytes_of_def lower_char_def) code_simp

lemma pay_note: "Atoi_positive ''7'' = Some 7"
  by (simp add: Atoi_positive_def is_digit_def)

lemma pay_captured: "captured pay_env signed_delivery = Some (pay_event, 7)" "captured pay_env forged_delivery = None"
  using pay_hex pay_note by (simp_all add: captured_def pay_env_def signed_delivery_def forged_delivery_def maxRazorpayWebhookBody_def
      pay_event_def)

lemma pay_amount: "paid rat_decimals pay_event = 250"
  by (simp add: paid_def rat_decimals_def pay_event_def)

lemma pay_numeric: "rat_numeric 12 1250 = Some 1250"
  by code_simp

definition pay_request :: "rat RechargeRequest" where
  "pay_request = \<lparr>rr_SubscriberID = 7, rr_Amount = 250, rr_Token = ''pay_1'', rr_FranchiseID = None,
     rr_Description = ''recharge via razorpay webhook''\<rparr>"

definition pay_credit :: "rat pg \<Rightarrow> time \<Rightarrow> rat payments \<Rightarrow> rat payments" where
  "pay_credit pg now st =
     (case pay_Recharge pg pay_request st of
        (st1, Inl _) \<Rightarrow> st1
      | (st1, Inr tx) \<Rightarrow> pay_settle rat_decimals pg now True 7 250 ''pay_1'' st1)"

lemma pay_credit_rev: "pa_rev (fst (credit_captured rat_decimals pg now True pay_event 7 st)) = pa_rev (pay_credit pg now st)"
proof -
  have "webhook_recharge rat_decimals pay_event 7 = pay_request"
    by (simp add: webhook_recharge_def pay_request_def rat_decimals_def pay_event_def)
  then show ?thesis
    by (simp add: credit_captured_def pay_credit_def Let_def split: prod.split sum.split)
       (simp add: pay_request_def pay_event_def)
qed

definition pay_after :: "rat payments" where
  "pay_after = fst (credit_captured rat_decimals (rat_pg no_faults) 11 True pay_event 7
     (fst (credit_captured rat_decimals (rat_pg no_faults) 10 True pay_event 7
       (fst (credit_captured rat_decimals (rat_pg net_down) 9 True pay_event 7 pay_demo)))))"

lemma pay_run: "webhook_run rat_decimals pay_env pay_deliveries pay_demo = pay_after"
  by (simp add: pay_deliveries_def webhook_captured pay_captured pay_after_def) (simp add: pay_env_def)

lemma pay_credit_cong: "pa_rev st = pa_rev st' \<Longrightarrow> pa_rev (pay_credit pg now st) = pa_rev (pay_credit pg now st')"
  by (simp add: pay_credit_def pay_Recharge_def pay_settle_def split: prod.split sum.split)

lemma pay_outcome:
  "map wl_token (wallet_ledgers (rv_db (pa_rev pay_after))) = [Some ''pay_0'', None, Some ''pay_1'']"
proof -
  let ?s = "pay_credit (rat_pg no_faults) 11 (pay_credit (rat_pg no_faults) 10 (pay_credit (rat_pg net_down) 9 pay_demo))"
  have "map wl_token (wallet_ledgers (rv_db (pa_rev ?s))) = [Some ''pay_0'', None, Some ''pay_1'']" by code_simp
  moreover have "pa_rev pay_after = pa_rev ?s"
    unfolding pay_after_def by (simp only: pay_credit_rev pay_credit_cong [OF pay_credit_rev] pay_credit_cong [OF pay_credit_cong [OF pay_credit_rev]])
  ultimately show ?thesis by simp
qed


theorem portal_callback_unverified_witness:
  "\<exists>st' tx. RenewalCallback rat_decimals (rat_pg no_faults) 9 7 (Some \<lparr>cb_paymentID = ''made-up'', cb_amount = Some 250\<rparr>) pay_demo
      = (st', Body (tx, 1250)) \<and> balance_of (rv_db (pa_rev st')) 7 = Some 1250"
proof -
  have "token_id (rv_db rv_demo) ''made-up'' = None" by (simp add: token_id_def rv_demo_def wb_db_def wb_leg_def)
  moreover have "recharge_accounts (rv_db rv_demo)" by (simp add: recharge_accounts_def rv_demo_def wb_db_def)
  ultimately show ?thesis
    using portal_callback_unverified [OF rat_pg_ok, of no_faults pay_demo 7 1000 "''made-up''" 250 rat_decimals 9]
      rv_demo_books rv_demo_balance wb_numeric(2) pay_numeric
    by (simp add: rat_pg_def)
qed

definition pay_plan :: "rat plan" where
  "pay_plan = \<lparr>plan_id = 1, plan_name = ''Home 50'', plan_price = 500, plan_validity_days = 30, plan_volume_gb = 100,
     plan_rate_limit = ''50M/50M'', plan_fup_throttle = ''2M/2M'', plan_fup_threshold = 1000\<rparr>"

definition pay_replay :: "rat payments" where
  "pay_replay = pay_demo\<lparr>pa_rev := rv_demo\<lparr>rv_db := (rv_db rv_demo)\<lparr>plans := [pay_plan]\<rparr>\<rparr>\<rparr>"


end
