(* ===== verification/Workflow.thy ===== *)
theory Workflow
  imports Payments Fup
begin

text \<open>
  Sensitive staff actions: \<open>src/internal/workflow/workflow.go\<close>, the store \<open>src/internal/db/workflow.go\<close> and
  the handlers \<open>src/internal/api/workflow.go\<close>, \<open>src/internal/api/subscribers_lifecycle.go\<close> and
  \<open>src/internal/api/subscribers_bulk.go\<close>.

  A wallet credit, a refund and a termination are filed as a request that another member of staff
  decides. The handlers are given whole, as the code runs them; the step relation at the end cuts
  a decision at its database statements, so that decisions of any number of staff interleave.
  Collaborators are present, as the server wires them; audit lines and counters are not state.
\<close>

section \<open>Requests\<close>

datatype ActionType = ActionWalletCredit | ActionRefund | ActionTerminate

datatype Status = StatusPending | StatusApproved | StatusRejected | StatusExecuted | StatusExecutionFailed

record 'd ApprovalRequest =
  ar_ID :: int
  ar_ActionType :: ActionType
  ar_SubscriberID :: int
  ar_Amount :: "'d option"
  ar_Reason :: string
  ar_Status :: Status
  ar_RequestedBy :: string
  ar_DecidedBy :: "string option"
  ar_DecisionReason :: "string option"
  ar_ExecutionError :: "err option"
  ar_LedgerEntryID :: "int option"

datatype decision_error = ErrAlreadyDecided | ErrSelfApproval

definition ValidateDecision :: "'d ApprovalRequest \<Rightarrow> string \<Rightarrow> decision_error option" where
  "ValidateDecision req actor =
     (if ar_Status req \<noteq> StatusPending then Some ErrAlreadyDecided
      else if actor = ar_RequestedBy req then Some ErrSelfApproval
      else None)"

record FieldTask =
  ft_ID :: int
  ft_Title :: string
  ft_Description :: string
  ft_SubscriberID :: "int option"
  ft_FranchiseID :: "int option"
  ft_AssignedTo :: string
  ft_CreatedBy :: string
  ft_Status :: string
  ft_DueDate :: "time option"
  ft_CompletedAt :: "time option"

record 'd refund_row =
  rf_id :: int
  rf_subscriber :: int
  rf_ledger_entry :: int
  rf_amount :: 'd
  rf_reason :: string
  rf_refunded_by :: string

text \<open>The columns of \<open>cpe_devices\<close> that recovery reads.\<close>

record device =
  dv_serial :: string
  dv_type :: string
  dv_status :: string
  dv_subscriber :: "int option"

record 'd workflow =
  wf_fup :: "'d fup"
  wf_approvals :: "'d ApprovalRequest list"
  wf_approval_seq :: int
  wf_refunds :: "'d refund_row list"
  wf_refund_seq :: int
  wf_tasks :: "FieldTask list"
  wf_task_seq :: int
  wf_devices :: "device list"
  wf_verifiers :: "PersistedVerifier list"
  wf_events :: "(string \<times> int) list"

abbreviation wf_db :: "'d workflow \<Rightarrow> 'd db" where "wf_db st \<equiv> fu_db (wf_fup st)"

definition set_db :: "'d db \<Rightarrow> 'd workflow \<Rightarrow> 'd workflow" where
  "set_db db st = st\<lparr>wf_fup := (wf_fup st)\<lparr>fu_db := db\<rparr>\<rparr>"

section \<open>The store\<close>

text \<open>The row constraints of migration 026.\<close>

definition chk_approval_distinct_approver :: "'d ApprovalRequest \<Rightarrow> bool" where
  "chk_approval_distinct_approver r = (ar_DecidedBy r = None \<or> ar_DecidedBy r \<noteq> Some (ar_RequestedBy r))"

definition chk_approval_amount_by_type :: "'d::linordered_idom ApprovalRequest \<Rightarrow> bool" where
  "chk_approval_amount_by_type r =
     (case ar_Amount r of None \<Rightarrow> ar_ActionType r = ActionTerminate | Some a \<Rightarrow> ar_ActionType r \<noteq> ActionTerminate \<and> 0 < a)"

definition approval_checks :: "'d::linordered_idom ApprovalRequest \<Rightarrow> bool" where
  "approval_checks r = (chk_approval_distinct_approver r \<and> chk_approval_amount_by_type r)"

definition CreateApprovalRequest ::
  "'d::linordered_idom pg \<Rightarrow> 'd workflow \<Rightarrow> 'd ApprovalRequest \<Rightarrow> 'd workflow \<times> (err + 'd ApprovalRequest)" where
  "CreateApprovalRequest pg st req =
     (case bindE (stmt pg ''create approval'') (\<lambda>_.
           bindE (case ar_Amount req of None \<Rightarrow> Inr None
                  | Some a \<Rightarrow> bindE (numericE pg 12 a) (\<lambda>a'. Inr (Some a'))) (\<lambda>amount.
             (let row = \<lparr>ar_ID = wf_approval_seq st, ar_ActionType = ar_ActionType req,
                         ar_SubscriberID = ar_SubscriberID req, ar_Amount = amount, ar_Reason = ar_Reason req,
                         ar_Status = StatusPending, ar_RequestedBy = ar_RequestedBy req, ar_DecidedBy = None,
                         ar_DecisionReason = None, ar_ExecutionError = None, ar_LedgerEntryID = None\<rparr>
              in bindE (guardE (approval_checks row) (ErrCheck ''approval_requests'')) (\<lambda>_.
                 bindE (guardE (find_subscriber (wf_db st) (ar_SubscriberID req) \<noteq> None) (ErrCheck ''subscriber_id'')) (\<lambda>_.
                   Inr row))))) of
        Inl e \<Rightarrow> (st, Inl e)
      | Inr row \<Rightarrow> (st\<lparr>wf_approvals := wf_approvals st @ [row], wf_approval_seq := wf_approval_seq st + 1\<rparr>, Inr row))"

definition GetApprovalRequest :: "'d pg \<Rightarrow> 'd workflow \<Rightarrow> int \<Rightarrow> err + 'd ApprovalRequest option" where
  "GetApprovalRequest pg st i =
     bindE (stmt pg ''get approval'') (\<lambda>_. Inr (find (\<lambda>r. ar_ID r = i) (wf_approvals st)))"

text \<open>\<open>created_at DESC\<close>: the newest row has the highest id.\<close>

definition ListApprovalRequests ::
  "'d pg \<Rightarrow> 'd workflow \<Rightarrow> Status option \<Rightarrow> int option \<Rightarrow> err + 'd ApprovalRequest list" where
  "ListApprovalRequests pg st status subscriberID =
     bindE (stmt pg ''list approvals'') (\<lambda>_.
       Inr (rev (sort_key ar_ID (filter (\<lambda>r. (status = None \<or> status = Some (ar_Status r))
              \<and> (subscriberID = None \<or> subscriberID = Some (ar_SubscriberID r))) (wf_approvals st)))))"

text \<open>A decision: the conditional update that at most one decision of a request can win.\<close>

definition decide ::
  "'d::linordered_idom pg \<Rightarrow> string \<Rightarrow> ('d ApprovalRequest \<Rightarrow> 'd ApprovalRequest) \<Rightarrow> int \<Rightarrow> 'd workflow \<Rightarrow>
     'd workflow \<times> (err + 'd ApprovalRequest option)" where
  "decide pg label f i st =
     (let hit = (\<lambda>r. ar_ID r = i \<and> ar_Status r = StatusPending)
      in case bindE (stmt pg label) (\<lambda>_.
              guardE (\<forall>r \<in> set (wf_approvals st). hit r \<longrightarrow> approval_checks (f r)) (ErrCheck ''approval_requests'')) of
           Inl e \<Rightarrow> (st, Inl e)
         | Inr _ \<Rightarrow> (st\<lparr>wf_approvals := update_where hit f (wf_approvals st)\<rparr>,
                     Inr (map_option f (find hit (wf_approvals st)))))"

definition ClaimApprovalRequest ::
  "'d::linordered_idom pg \<Rightarrow> 'd workflow \<Rightarrow> int \<Rightarrow> string \<Rightarrow> 'd workflow \<times> (err + 'd ApprovalRequest option)" where
  "ClaimApprovalRequest pg st i decidedBy =
     decide pg ''claim approval'' (\<lambda>r. r\<lparr>ar_Status := StatusApproved, ar_DecidedBy := Some decidedBy\<rparr>) i st"

definition RejectApprovalRequest ::
  "'d::linordered_idom pg \<Rightarrow> 'd workflow \<Rightarrow> int \<Rightarrow> string \<Rightarrow> string \<Rightarrow> 'd workflow \<times> (err + 'd ApprovalRequest option)" where
  "RejectApprovalRequest pg st i decidedBy reason =
     decide pg ''reject approval'' (\<lambda>r. r\<lparr>ar_Status := StatusRejected, ar_DecidedBy := Some decidedBy,
       ar_DecisionReason := Some reason\<rparr>) i st"

definition FinalizeApprovalExecution ::
  "'d pg \<Rightarrow> 'd workflow \<Rightarrow> int \<Rightarrow> Status \<Rightarrow> err option \<Rightarrow> int option \<Rightarrow> 'd workflow \<times> (err + unit)" where
  "FinalizeApprovalExecution pg st i status executionError ledgerEntryID =
     (case stmt pg ''finalize approval'' of
        Inl e \<Rightarrow> (st, Inl e)
      | Inr _ \<Rightarrow>
          (st\<lparr>wf_approvals := update_where (\<lambda>r. ar_ID r = i)
               (\<lambda>r. r\<lparr>ar_Status := status, ar_ExecutionError := executionError, ar_LedgerEntryID := ledgerEntryID\<rparr>)
               (wf_approvals st)\<rparr>,
           if rows_affected (\<lambda>r. ar_ID r = i) (wf_approvals st) = 0 then Inl ErrNotFound else Inr ()))"

definition CreateRefund ::
  "'d::linordered_idom pg \<Rightarrow> 'd workflow \<Rightarrow> int \<Rightarrow> int \<Rightarrow> 'd \<Rightarrow> string \<Rightarrow> string \<Rightarrow> 'd workflow \<times> (err + int)" where
  "CreateRefund pg st subscriberID ledgerEntryID amount reason refundedBy =
     (case bindE (stmt pg ''create refund'') (\<lambda>_.
           bindE (numericE pg 12 amount) (\<lambda>a.
           bindE (guardE (0 < a) (ErrCheck ''amount'')) (\<lambda>_.
           bindE (guardE (find_subscriber (wf_db st) subscriberID \<noteq> None) (ErrCheck ''subscriber_id'')) (\<lambda>_.
           bindE (guardE (ledgerEntryID \<in> set (map wl_id (wallet_ledgers (wf_db st)))) (ErrCheck ''ledger_entry_id'')) (\<lambda>_.
             Inr a))))) of
        Inl e \<Rightarrow> (st, Inl e)
      | Inr a \<Rightarrow>
          (st\<lparr>wf_refunds := wf_refunds st @ [\<lparr>rf_id = wf_refund_seq st, rf_subscriber = subscriberID,
                rf_ledger_entry = ledgerEntryID, rf_amount = a, rf_reason = reason, rf_refunded_by = refundedBy\<rparr>],
              wf_refund_seq := wf_refund_seq st + 1\<rparr>, Inr (wf_refund_seq st)))"

text \<open>\<open>None\<close> in the result is a subscriber that does not exist.\<close>

definition update_one ::
  "'d::linordered_idom pg \<Rightarrow> string \<Rightarrow> int \<Rightarrow> ('d subscriber \<Rightarrow> 'd subscriber) \<Rightarrow> 'd workflow \<Rightarrow>
     'd workflow \<times> (err + 'd subscriber option)" where
  "update_one pg label i f st =
     (case bindE (stmt pg label) (\<lambda>_. update_subscribers (\<lambda>r. sub_id r = i) f (wf_db st)) of
        Inl e \<Rightarrow> (st, Inl e)
      | Inr db \<Rightarrow> (set_db db st, Inr (find_subscriber db i)))"

definition store_UpdateSubscriber ::
  "'d::linordered_idom pg \<Rightarrow> int \<Rightarrow> int option \<Rightarrow> sub_status option \<Rightarrow> time option \<Rightarrow> 'd workflow \<Rightarrow>
     'd workflow \<times> (err + 'd subscriber option)" where
  "store_UpdateSubscriber pg i planID status planExpiry st =
     (if find_subscriber (wf_db st) i \<noteq> None \<and> planID \<noteq> None \<and> find_plan (wf_db st) (the planID) = None
      then (st, Inl (ErrCheck ''plan_id''))
      else update_one pg ''update subscriber'' i
             (\<lambda>r. r\<lparr>sub_plan_id := (case planID of None \<Rightarrow> sub_plan_id r | Some p \<Rightarrow> p),
                    sub_status := (case status of None \<Rightarrow> sub_status r | Some s \<Rightarrow> s),
                    sub_expiry := (case planExpiry of None \<Rightarrow> sub_expiry r | Some e \<Rightarrow> Some e)\<rparr>) st)"

section \<open>Field tasks\<close>

definition TaskOpen :: string where "TaskOpen = ''open''"

definition validFieldTaskStatus :: "string \<Rightarrow> bool" where
  "validFieldTaskStatus s = (s \<in> {TaskOpen, ''in_progress'', ''completed'', ''cancelled''})"

definition CreateFieldTask ::
  "'d pg \<Rightarrow> (int \<Rightarrow> bool) \<Rightarrow> 'd workflow \<Rightarrow> FieldTask \<Rightarrow> 'd workflow \<times> (err + FieldTask)" where
  "CreateFieldTask pg franchise_exists st t =
     (case bindE (stmt pg ''create field task'') (\<lambda>_.
           bindE (guardE (\<forall>i \<in> set_option (ft_SubscriberID t). find_subscriber (wf_db st) i \<noteq> None)
                    (ErrCheck ''subscriber_id'')) (\<lambda>_.
           bindE (guardE (\<forall>i \<in> set_option (ft_FranchiseID t). franchise_exists i) (ErrCheck ''franchise_id'')) (\<lambda>_.
             Inr (t\<lparr>ft_ID := wf_task_seq st, ft_Status := TaskOpen, ft_CompletedAt := None\<rparr>)))) of
        Inl e \<Rightarrow> (st, Inl e)
      | Inr row \<Rightarrow> (st\<lparr>wf_tasks := wf_tasks st @ [row], wf_task_seq := wf_task_seq st + 1\<rparr>, Inr row))"

definition GetFieldTask :: "'d pg \<Rightarrow> 'd workflow \<Rightarrow> int \<Rightarrow> err + FieldTask option" where
  "GetFieldTask pg st i = bindE (stmt pg ''get field task'') (\<lambda>_. Inr (find (\<lambda>t. ft_ID t = i) (wf_tasks st)))"

text \<open>\<open>ORDER BY due_date NULLS LAST, created_at\<close>: dated tasks first, in order; the insertion order breaks ties.\<close>

definition ListFieldTasks :: "'d pg \<Rightarrow> 'd workflow \<Rightarrow> string option \<Rightarrow> string option \<Rightarrow> err + FieldTask list" where
  "ListFieldTasks pg st assignedTo status =
     (let rows = filter (\<lambda>t. (assignedTo = None \<or> assignedTo = Some (ft_AssignedTo t))
                           \<and> (status = None \<or> status = Some (ft_Status t))) (wf_tasks st)
      in bindE (stmt pg ''list field tasks'') (\<lambda>_.
           Inr (sort_key (\<lambda>t. the (ft_DueDate t)) (filter (\<lambda>t. ft_DueDate t \<noteq> None) rows)
                @ filter (\<lambda>t. ft_DueDate t = None) rows)))"

definition updated_task :: "time \<Rightarrow> string option \<Rightarrow> string option \<Rightarrow> time option \<Rightarrow> FieldTask \<Rightarrow> FieldTask" where
  "updated_task now status assignedTo dueDate t =
     t\<lparr>ft_Status := (case status of None \<Rightarrow> ft_Status t | Some s \<Rightarrow> s),
       ft_AssignedTo := (case assignedTo of None \<Rightarrow> ft_AssignedTo t | Some a \<Rightarrow> a),
       ft_DueDate := (case dueDate of None \<Rightarrow> ft_DueDate t | Some d \<Rightarrow> Some d),
       ft_CompletedAt := (if status = Some ''completed'' then Some now
                          else if status \<noteq> None then None else ft_CompletedAt t)\<rparr>"

definition store_UpdateFieldTask ::
  "'d pg \<Rightarrow> time \<Rightarrow> 'd workflow \<Rightarrow> int \<Rightarrow> string option \<Rightarrow> string option \<Rightarrow> time option \<Rightarrow>
     'd workflow \<times> (err + FieldTask option)" where
  "store_UpdateFieldTask pg now st i status assignedTo dueDate =
     (case bindE (stmt pg ''update field task'') (\<lambda>_.
             guardE (list_ex (\<lambda>t. ft_ID t = i) (wf_tasks st) \<longrightarrow> (\<forall>s \<in> set_option status. validFieldTaskStatus s)) (ErrCheck ''status'')) of
        Inl e \<Rightarrow> (st, Inl e)
      | Inr _ \<Rightarrow>
          (let tasks' = update_where (\<lambda>t. ft_ID t = i) (updated_task now status assignedTo dueDate) (wf_tasks st)
           in (st\<lparr>wf_tasks := tasks'\<rparr>, Inr (find (\<lambda>t. ft_ID t = i) tasks'))))"

text \<open>
  The handlers of the field-task routes. A body that does not decode is \<open>None\<close>; a due date is \<open>Inl\<close> of
  nothing when it is not a date.
\<close>

definition api_CreateFieldTask ::
  "'d pg \<Rightarrow> (int \<Rightarrow> bool) \<Rightarrow> string \<Rightarrow> (FieldTask \<times> (unit + time option)) option \<Rightarrow> 'd workflow \<Rightarrow>
     'd workflow \<times> FieldTask response" where
  "api_CreateFieldTask pg franchise_exists actor body st =
     (case body of
        None \<Rightarrow> (st, Status 400)
      | Some (t, due) \<Rightarrow>
          if ft_Title t = [] \<or> ft_AssignedTo t = [] then (st, Status 422)
          else case due of
            Inl _ \<Rightarrow> (st, Status 422)
          | Inr dueDate \<Rightarrow>
              (case CreateFieldTask pg franchise_exists st (t\<lparr>ft_CreatedBy := actor, ft_DueDate := dueDate\<rparr>) of
                 (st', Inl _) \<Rightarrow> (st', Status 500)
               | (st', Inr created) \<Rightarrow> (st', Body created)))"

definition api_UpdateFieldTask ::
  "'d pg \<Rightarrow> time \<Rightarrow> int option \<Rightarrow> (string option \<times> string option \<times> (unit + time option)) option \<Rightarrow> 'd workflow \<Rightarrow>
     'd workflow \<times> FieldTask response" where
  "api_UpdateFieldTask pg now path body st =
     (case (path, body) of
        (None, _) \<Rightarrow> (st, Status 400)
      | (Some i, None) \<Rightarrow> (st, Status 400)
      | (Some i, Some (status, assignedTo, due)) \<Rightarrow>
          if \<exists>s \<in> set_option status. \<not> validFieldTaskStatus s then (st, Status 422)
          else case due of
            Inl _ \<Rightarrow> (st, Status 422)
          | Inr dueDate \<Rightarrow>
              (case store_UpdateFieldTask pg now st i status assignedTo dueDate of
                 (st', Inl _) \<Rightarrow> (st', Status 500)
               | (st', Inr None) \<Rightarrow> (st', Status 404)
               | (st', Inr (Some t)) \<Rightarrow> (st', Body t)))"

section \<open>What an approval sets off\<close>

definition cpeRecoveryQueue :: string where "cpeRecoveryQueue = ''field_queue''"

text \<open>The one use of the device list files a task per device, so the order of the rows is left as stored.\<close>

definition ListDevices :: "'d pg \<Rightarrow> 'd workflow \<Rightarrow> int \<Rightarrow> err + device list" where
  "ListDevices pg st subscriberID =
     bindE (stmt pg ''list devices'') (\<lambda>_.
       Inr (filter (\<lambda>d. dv_status d = ''issued'' \<and> dv_subscriber d = Some subscriberID) (wf_devices st)))"

definition recovery_task :: "string \<Rightarrow> int \<Rightarrow> string \<Rightarrow> device \<Rightarrow> FieldTask" where
  "recovery_task actor subscriberID username d =
     \<lparr>ft_ID = 0, ft_Title = ''Recover CPE '' @ dv_serial d @ '' from '' @ username,
      ft_Description = ''Subscriber terminated. Collect '' @ dv_type d @ '' (serial '' @ dv_serial d
        @ '') and mark it returned or faulty in inventory.'',
      ft_SubscriberID = Some subscriberID, ft_FranchiseID = None, ft_AssignedTo = cpeRecoveryQueue,
      ft_CreatedBy = actor, ft_Status = [], ft_DueDate = None, ft_CompletedAt = None\<rparr>"

definition openCPERecoveryTasks :: "'d pg \<Rightarrow> string \<Rightarrow> int \<Rightarrow> string \<Rightarrow> 'd workflow \<Rightarrow> 'd workflow" where
  "openCPERecoveryTasks pg actor subscriberID username st =
     (case ListDevices pg st subscriberID of
        Inl _ \<Rightarrow> st
      | Inr cpes \<Rightarrow>
          fold (\<lambda>d s. fst (CreateFieldTask pg (\<lambda>_. True) s (recovery_task actor subscriberID username d))) cpes st)"

definition wf_enqueue :: "'d pg \<Rightarrow> time \<Rightarrow> fup_payload Task \<Rightarrow> 'd workflow \<Rightarrow> 'd workflow" where
  "wf_enqueue pg now t st = st\<lparr>wf_fup := fst (fup_enqueue (pg_faults pg) now t (wf_fup st))\<rparr>"

definition enqueuePoDIfSessionActive :: "'d pg \<Rightarrow> time \<Rightarrow> int \<Rightarrow> 'd workflow \<Rightarrow> 'd workflow" where
  "enqueuePoDIfSessionActive pg now subscriberID st =
     (case Live_get (pg_faults pg) now (fu_net (wf_fup st)) subscriberID of
        Inr (Some _) \<Rightarrow> wf_enqueue pg now (pod_task subscriberID) st
      | _ \<Rightarrow> st)"

definition enqueueCoAIfSessionActive :: "'d pg \<Rightarrow> time \<Rightarrow> int \<Rightarrow> 'd workflow \<Rightarrow> 'd workflow" where
  "enqueueCoAIfSessionActive pg now subscriberID st =
     (case Live_get (pg_faults pg) now (fu_net (wf_fup st)) subscriberID of
        Inr (Some sess) \<Rightarrow> wf_enqueue pg now (coa_task subscriberID (lv_nas sess)) st
      | _ \<Rightarrow> st)"

definition InvalidateSubscriber :: "'d pg \<Rightarrow> string \<Rightarrow> 'd workflow \<Rightarrow> 'd workflow" where
  "InvalidateSubscriber pg username st =
     (case Verifier_DeleteByUsername (pg_faults pg) (wf_verifiers st) username of
        Inl _ \<Rightarrow> st
      | Inr rows \<Rightarrow> st\<lparr>wf_verifiers := rows\<rparr>)"

definition gated_post :: "'d ApprovalRequest \<Rightarrow> 'd \<Rightarrow> 'd::linordered_idom PostRequest" where
  "gated_post req amount =
     (let credit = (ar_ActionType req = ActionWalletCredit)
      in \<lparr>pr_SubscriberID = ar_SubscriberID req, pr_FranchiseID = None, pr_Amount = amount,
          pr_Direction = (if credit then ''credit'' else ''debit''),
          pr_CounterAccount = AccountAdjustmentClearing, pr_Token = [], pr_AdjustedBy = ar_RequestedBy req,
          pr_Description = (if credit then ''staff adjustment: '' else ''refund: '') @ ar_Reason req
            @ '' (approved by '' @ (case ar_DecidedBy req of None \<Rightarrow> [] | Some d \<Rightarrow> d) @ '')'',
          pr_TaxAmount = 0\<rparr>)"

text \<open>The ledger entry the action leaves behind and its error: a refund can have both.\<close>

definition performGatedAction ::
  "'d::linordered_idom pg \<Rightarrow> time \<Rightarrow> string \<Rightarrow> 'd ApprovalRequest \<Rightarrow> 'd workflow \<Rightarrow>
     'd workflow \<times> int option \<times> err option" where
  "performGatedAction pg now actor req st =
     (case ar_ActionType req of
        ActionTerminate \<Rightarrow>
          (case Dunning.TerminateSubscriber pg (wf_db st) (ar_SubscriberID req) of
             (db, Inl e) \<Rightarrow> (set_db db st, None, Some e)
           | (db, Inr None) \<Rightarrow> (set_db db st, None, Some (Err ''subscriber not found''))
           | (db, Inr (Some updated)) \<Rightarrow>
               (let st2 = InvalidateSubscriber pg (sub_username updated) (set_db db st);
                    st3 = enqueuePoDIfSessionActive pg now (ar_SubscriberID req) st2;
                    st4 = openCPERecoveryTasks pg actor (ar_SubscriberID req) (sub_username updated) st3
                in (st4, None, None)))
      | _ \<Rightarrow>
          (case ar_Amount req of
             None \<Rightarrow> (st, None, Some (Err ''approval request has no amount''))
           | Some amount \<Rightarrow>
               (case Post (BillingStore pg) (wf_db st) (gated_post req amount) of
                  (db, Inl e) \<Rightarrow> (set_db db st, None, Some e)
                | (db, Inr tx) \<Rightarrow>
                    if ar_ActionType req = ActionRefund
                    then (case CreateRefund pg (set_db db st) (ar_SubscriberID req) (tx_ID tx) amount (ar_Reason req)
                                 (ar_RequestedBy req) of
                            (st', Inl e) \<Rightarrow> (st', Some (tx_ID tx), Some e)
                          | (st', Inr _) \<Rightarrow> (st', Some (tx_ID tx), None))
                    else (set_db db st, Some (tx_ID tx), None))))"

definition final_status :: "err option \<Rightarrow> Status" where
  "final_status e = (if e = None then StatusExecuted else StatusExecutionFailed)"

definition executeApprovedAction ::
  "'d::linordered_idom pg \<Rightarrow> time \<Rightarrow> string \<Rightarrow> 'd ApprovalRequest \<Rightarrow> 'd workflow \<Rightarrow> 'd workflow \<times> 'd ApprovalRequest" where
  "executeApprovedAction pg now actor req st =
     (case performGatedAction pg now actor req st of
        (st1, ledgerEntryID, execErr) \<Rightarrow>
          (fst (FinalizeApprovalExecution pg st1 (ar_ID req) (final_status execErr) execErr ledgerEntryID),
           req\<lparr>ar_Status := final_status execErr, ar_ExecutionError := execErr, ar_LedgerEntryID := ledgerEntryID\<rparr>))"

text \<open>\<open>Inl None\<close> is \<open>ErrAlreadyDecided\<close>, \<open>Inl (Some e)\<close> an error of the store.\<close>

definition ExecuteApprovedRequest ::
  "'d::linordered_idom pg \<Rightarrow> time \<Rightarrow> int \<Rightarrow> string \<Rightarrow> 'd workflow \<Rightarrow> 'd workflow \<times> (err option + 'd ApprovalRequest)" where
  "ExecuteApprovedRequest pg now i actor st =
     (case ClaimApprovalRequest pg st i actor of
        (st1, Inl e) \<Rightarrow> (st1, Inl (Some e))
      | (st1, Inr None) \<Rightarrow> (st1, Inl None)
      | (st1, Inr (Some claimed)) \<Rightarrow>
          (case executeApprovedAction pg now actor claimed st1 of (st2, executed) \<Rightarrow> (st2, Inr executed)))"

section \<open>The handlers\<close>

definition ApproveRequest ::
  "'d::linordered_idom pg \<Rightarrow> time \<Rightarrow> int option \<Rightarrow> string \<Rightarrow> 'd workflow \<Rightarrow> 'd workflow \<times> 'd ApprovalRequest response" where
  "ApproveRequest pg now path actor st =
     (case path of
        None \<Rightarrow> (st, Status 400)
      | Some i \<Rightarrow>
          (case GetApprovalRequest pg st i of
             Inl _ \<Rightarrow> (st, Status 500)
           | Inr None \<Rightarrow> (st, Status 404)
           | Inr (Some existing) \<Rightarrow>
               (case ValidateDecision existing actor of
                  Some ErrSelfApproval \<Rightarrow> (st, Status 403)
                | Some ErrAlreadyDecided \<Rightarrow> (st, Status 409)
                | None \<Rightarrow>
                    (case ExecuteApprovedRequest pg now i actor st of
                       (st', Inl None) \<Rightarrow> (st', Status 409)
                     | (st', Inl (Some _)) \<Rightarrow> (st', Status 500)
                     | (st', Inr executed) \<Rightarrow> (st', Body executed)))))"

definition RejectRequest ::
  "'d::linordered_idom pg \<Rightarrow> int option \<Rightarrow> string option \<Rightarrow> string \<Rightarrow> 'd workflow \<Rightarrow> 'd workflow \<times> 'd ApprovalRequest response" where
  "RejectRequest pg path body actor st =
     (case (path, body) of
        (None, _) \<Rightarrow> (st, Status 400)
      | (Some i, None) \<Rightarrow> (st, Status 400)
      | (Some i, Some reason) \<Rightarrow>
          if reason = [] then (st, Status 422)
          else case GetApprovalRequest pg st i of
             Inl _ \<Rightarrow> (st, Status 500)
           | Inr None \<Rightarrow> (st, Status 404)
           | Inr (Some existing) \<Rightarrow>
               (case ValidateDecision existing actor of
                  Some ErrSelfApproval \<Rightarrow> (st, Status 403)
                | Some ErrAlreadyDecided \<Rightarrow> (st, Status 409)
                | None \<Rightarrow>
                    (case RejectApprovalRequest pg st i actor reason of
                       (st', Inl _) \<Rightarrow> (st', Status 500)
                     | (st', Inr None) \<Rightarrow> (st', Status 409)
                     | (st', Inr (Some rejected)) \<Rightarrow> (st', Body rejected))))"

definition createApprovalRequest ::
  "'d::linordered_idom pg \<Rightarrow> string \<Rightarrow> ActionType \<Rightarrow> int \<Rightarrow> 'd option \<Rightarrow> string \<Rightarrow> 'd workflow \<Rightarrow>
     'd workflow \<times> (err + 'd ApprovalRequest)" where
  "createApprovalRequest pg requestedBy action subscriberID amount reason st =
     CreateApprovalRequest pg st
       \<lparr>ar_ID = 0, ar_ActionType = action, ar_SubscriberID = subscriberID, ar_Amount = amount, ar_Reason = reason,
        ar_Status = StatusPending, ar_RequestedBy = requestedBy, ar_DecidedBy = None, ar_DecisionReason = None,
        ar_ExecutionError = None, ar_LedgerEntryID = None\<rparr>"

definition requestApproval ::
  "'d::linordered_idom pg \<Rightarrow> string \<Rightarrow> ActionType \<Rightarrow> int \<Rightarrow> 'd option \<Rightarrow> string \<Rightarrow> 'd workflow \<Rightarrow>
     'd workflow \<times> 'd ApprovalRequest response" where
  "requestApproval pg requestedBy action subscriberID amount reason st =
     (case createApprovalRequest pg requestedBy action subscriberID amount reason st of
        (st', Inl _) \<Rightarrow> (st', Status 500)
      | (st', Inr created) \<Rightarrow> (st', Body created))"

text \<open>A missing body is an empty one for the termination handler.\<close>

definition TerminateSubscriber ::
  "'d::linordered_idom pg \<Rightarrow> int option \<Rightarrow> string option \<Rightarrow> string \<Rightarrow> 'd workflow \<Rightarrow> 'd workflow \<times> 'd ApprovalRequest response" where
  "TerminateSubscriber pg path body actor st =
     (case (path, body) of
        (None, _) \<Rightarrow> (st, Status 400)
      | (Some i, None) \<Rightarrow> (st, Status 400)
      | (Some i, Some reason) \<Rightarrow>
          if reason = [] then (st, Status 422) else requestApproval pg actor ActionTerminate i None reason st)"

record 'd adjustmentRequest =
  aj_Amount :: "'d option"
  aj_Direction :: string
  aj_Reason :: string

datatype 'd adjustment_result = Filed "'d ApprovalRequest" | Posted int 'd

definition CreateAdjustment ::
  "'d::linordered_idom pg \<Rightarrow> int option \<Rightarrow> 'd adjustmentRequest option \<Rightarrow> string \<Rightarrow> 'd workflow \<Rightarrow>
     'd workflow \<times> 'd adjustment_result response" where
  "CreateAdjustment pg path body actor st =
     (case (path, body) of
        (None, _) \<Rightarrow> (st, Status 400)
      | (Some i, None) \<Rightarrow> (st, Status 400)
      | (Some i, Some req) \<Rightarrow>
          if aj_Direction req \<noteq> ''credit'' \<and> aj_Direction req \<noteq> ''debit'' then (st, Status 422)
          else if aj_Reason req = [] then (st, Status 422)
          else case aj_Amount req of
            None \<Rightarrow> (st, Status 422)
          | Some amount \<Rightarrow>
              if amount \<le> 0 then (st, Status 422)
              else if aj_Direction req = ''credit''
              then (case requestApproval pg actor ActionWalletCredit i (Some amount) (aj_Reason req) st of
                      (st', Status n) \<Rightarrow> (st', Status n)
                    | (st', Body r) \<Rightarrow> (st', Body (Filed r)))
              else (case Post (BillingStore pg) (wf_db st)
                          \<lparr>pr_SubscriberID = i, pr_FranchiseID = None, pr_Amount = amount, pr_Direction = ''debit'',
                           pr_CounterAccount = AccountAdjustmentClearing, pr_Token = [], pr_AdjustedBy = actor,
                           pr_Description = ''staff adjustment: '' @ aj_Reason req, pr_TaxAmount = 0\<rparr> of
                      (db, Inl ErrInsufficientBalance) \<Rightarrow> (set_db db st, Status 422)
                    | (db, Inl _) \<Rightarrow> (set_db db st, Status 500)
                    | (db, Inr tx) \<Rightarrow> (set_db db st, Body (Posted (tx_ID tx) (tx_BalanceAfter tx)))))"

definition api_CreateRefund ::
  "'d::linordered_idom pg \<Rightarrow> int option \<Rightarrow> ('d option \<times> string) option \<Rightarrow> string \<Rightarrow> 'd workflow \<Rightarrow>
     'd workflow \<times> 'd ApprovalRequest response" where
  "api_CreateRefund pg path body actor st =
     (case (path, body) of
        (None, _) \<Rightarrow> (st, Status 400)
      | (Some i, None) \<Rightarrow> (st, Status 400)
      | (Some i, Some (amount, reason)) \<Rightarrow>
          if reason = [] then (st, Status 422)
          else case amount of
            None \<Rightarrow> (st, Status 422)
          | Some a \<Rightarrow> if a \<le> 0 then (st, Status 422) else requestApproval pg actor ActionRefund i (Some a) reason st)"

text \<open>
  \<open>PATCH\<close> of a subscriber. The status is the text of the body; one the column's check does not know is an
  error of the database.
\<close>

definition parse_status :: "string \<Rightarrow> sub_status option" where
  "parse_status s = map_of [(''active'', Active), (''grace_period'', GracePeriod), (''soft_suspended'', SoftSuspended),
     (''hard_suspended'', HardSuspended), (''terminated'', Terminated), (''pending_payment'', PendingPayment)] s"

definition EventSubscriberStatusChanged :: string where
  "EventSubscriberStatusChanged = ''subscriber.status_changed''"

definition wf_emit :: "string \<Rightarrow> int \<Rightarrow> 'd workflow \<Rightarrow> 'd workflow" where
  "wf_emit event i st = st\<lparr>wf_events := wf_events st @ [(event, i)]\<rparr>"

definition db_UpdateSubscriber ::
  "'d::linordered_idom pg \<Rightarrow> int \<Rightarrow> int option \<Rightarrow> string option \<Rightarrow> time option \<Rightarrow> 'd workflow \<Rightarrow>
     'd workflow \<times> (err + 'd subscriber option)" where
  "db_UpdateSubscriber pg i planID status planExpiry st =
     (case status of
        None \<Rightarrow> store_UpdateSubscriber pg i planID None planExpiry st
      | Some s \<Rightarrow>
          (case parse_status s of
             None \<Rightarrow> (st, if find_subscriber (wf_db st) i = None then Inr None else Inl (ErrCheck ''status''))
           | Some v \<Rightarrow> store_UpdateSubscriber pg i planID (Some v) planExpiry st))"

definition UpdateSubscriber ::
  "'d::linordered_idom pg \<Rightarrow> int option \<Rightarrow> (int option \<times> string option \<times> time option) option \<Rightarrow> 'd workflow \<Rightarrow>
     'd workflow \<times> 'd subscriber option response" where
  "UpdateSubscriber pg path body st =
     (case (path, body) of
        (None, _) \<Rightarrow> (st, Status 400)
      | (Some i, None) \<Rightarrow> (st, Status 400)
      | (Some i, Some (planID, status, planExpiry)) \<Rightarrow>
          (case db_UpdateSubscriber pg i planID status planExpiry st of
             (st', Inl (ErrCheck c)) \<Rightarrow> (st', Status (if c = ''subscribers'' then 400 else 500))
           | (st', Inl _) \<Rightarrow> (st', Status 500)
           | (st', Inr updated) \<Rightarrow>
               (if status = None then st' else wf_emit EventSubscriberStatusChanged i st', Body updated)))"

section \<open>Bulk actions\<close>

definition maxBulkSubscribers :: nat where "maxBulkSubscribers = 500"

definition validateBulkIDs :: "int list \<Rightarrow> bool" where
  "validateBulkIDs ids = (ids \<noteq> [] \<and> length ids \<le> maxBulkSubscribers)"

definition BulkAllowedStatuses :: "string set" where
  "BulkAllowedStatuses = {''active'', ''soft_suspended'', ''hard_suspended''}"

fun UpdateStatusForMany ::
  "'d::linordered_idom pg \<Rightarrow> int list \<Rightarrow> string \<Rightarrow> 'd workflow \<Rightarrow> 'd workflow \<times> (int \<times> bool) list" where
  "UpdateStatusForMany pg [] status st = (st, [])"
| "UpdateStatusForMany pg (i # ids) status st =
     (case db_UpdateSubscriber pg i None (Some status) None st of
        (st1, Inr (Some _)) \<Rightarrow>
          (case UpdateStatusForMany pg ids status (wf_emit EventSubscriberStatusChanged i st1) of
             (st2, rs) \<Rightarrow> (st2, (i, True) # rs))
      | (st1, _) \<Rightarrow> (case UpdateStatusForMany pg ids status st1 of (st2, rs) \<Rightarrow> (st2, (i, False) # rs)))"

definition BulkUpdateStatus ::
  "'d::linordered_idom pg \<Rightarrow> (int list \<times> string) option \<Rightarrow> 'd workflow \<Rightarrow> 'd workflow \<times> (int \<times> bool) list response" where
  "BulkUpdateStatus pg body st =
     (case body of
        None \<Rightarrow> (st, Status 400)
      | Some (ids, status) \<Rightarrow>
          if \<not> validateBulkIDs ids \<or> status \<notin> BulkAllowedStatuses then (st, Status 422)
          else case UpdateStatusForMany pg ids status st of (st', rs) \<Rightarrow> (st', Body rs))"

fun RequestCreditForMany ::
  "'d::linordered_idom pg \<Rightarrow> string \<Rightarrow> int list \<Rightarrow> 'd \<Rightarrow> string \<Rightarrow> 'd workflow \<Rightarrow> 'd workflow \<times> (int \<times> int option) list" where
  "RequestCreditForMany pg requestedBy [] amount reason st = (st, [])"
| "RequestCreditForMany pg requestedBy (i # ids) amount reason st =
     (case createApprovalRequest pg requestedBy ActionWalletCredit i (Some amount) (reason @ '' (bulk)'') st of
        (st1, res) \<Rightarrow>
          (case RequestCreditForMany pg requestedBy ids amount reason st1 of
             (st2, rs) \<Rightarrow> (st2, (i, case res of Inl _ \<Rightarrow> None | Inr r \<Rightarrow> Some (ar_ID r)) # rs)))"

definition BulkWalletCredit ::
  "'d::linordered_idom pg \<Rightarrow> string \<Rightarrow> (int list \<times> 'd option \<times> string) option \<Rightarrow> 'd workflow \<Rightarrow>
     'd workflow \<times> (int \<times> int option) list response" where
  "BulkWalletCredit pg actor body st =
     (case body of
        None \<Rightarrow> (st, Status 400)
      | Some (ids, amount, reason) \<Rightarrow>
          if \<not> validateBulkIDs ids \<or> reason = [] then (st, Status 422)
          else case amount of
            None \<Rightarrow> (st, Status 422)
          | Some a \<Rightarrow> if a \<le> 0 then (st, Status 422)
                      else (case RequestCreditForMany pg actor ids a reason st of (st', rs) \<Rightarrow> (st', Body rs)))"

section \<open>Plan changes\<close>

text \<open>\<open>flr\<close> is \<open>Floor().IntPart()\<close> of the decimal package.\<close>

record 'd PlanChangeInfo =
  pc_Username :: string
  pc_CurrentExpiry :: "time option"
  pc_OldPrice :: 'd
  pc_OldValidityDays :: int
  pc_NewPrice :: 'd
  pc_NewValidityDays :: int

datatype plan_change_error = ErrInvalidPlan | ErrSubscriberNotFound | PlanChangeErr err

definition GetPlanChangeInfo ::
  "'d pg \<Rightarrow> 'd workflow \<Rightarrow> int \<Rightarrow> int \<Rightarrow> plan_change_error + 'd PlanChangeInfo option" where
  "GetPlanChangeInfo pg st subscriberID newPlanID =
     (case stmt pg ''get plan change info'' of
        Inl e \<Rightarrow> Inl (PlanChangeErr e)
      | Inr _ \<Rightarrow>
          (case find_subscriber (wf_db st) subscriberID of
             None \<Rightarrow> Inr None
           | Some r \<Rightarrow>
               (case find_plan (wf_db st) (sub_plan_id r) of
                  None \<Rightarrow> Inr None
                | Some old \<Rightarrow>
                    (case stmt pg ''get new plan'' of
                       Inl e \<Rightarrow> Inl (PlanChangeErr e)
                     | Inr _ \<Rightarrow>
                         (case find_plan (wf_db st) newPlanID of
                            None \<Rightarrow> Inl ErrInvalidPlan
                          | Some new \<Rightarrow>
                              Inr (Some \<lparr>pc_Username = sub_username r, pc_CurrentExpiry = sub_expiry r,
                                pc_OldPrice = plan_price old, pc_OldValidityDays = plan_validity_days old,
                                pc_NewPrice = plan_price new, pc_NewValidityDays = plan_validity_days new\<rparr>))))))"

definition bonusDays :: "'d::linordered_idom decimal_pkg \<Rightarrow> ('d \<Rightarrow> int) \<Rightarrow> 'd PlanChangeInfo \<Rightarrow> 'd \<Rightarrow> int" where
  "bonusDays dp flr info remainingDays =
     (if 0 < pc_OldValidityDays info \<and> 0 < pc_NewValidityDays info \<and> 0 < pc_NewPrice info
      then (let oldDaily = Div dp (pc_OldPrice info) (of_int (pc_OldValidityDays info));
                credit = oldDaily * remainingDays;
                newDaily = Div dp (pc_NewPrice info) (of_int (pc_NewValidityDays info))
            in flr (Div dp credit newDaily))
      else 0)"

definition computePlanChangeExpiry ::
  "'d::linordered_idom decimal_pkg \<Rightarrow> ('d \<Rightarrow> int) \<Rightarrow> 'd PlanChangeInfo \<Rightarrow> time \<Rightarrow> time" where
  "computePlanChangeExpiry dp flr info now =
     (let remaining = (case pc_CurrentExpiry info of None \<Rightarrow> 0 | Some e \<Rightarrow> max 0 (time_sub e now));
          remainingDays = Div dp (of_int remaining) (of_int Day)
      in now + (pc_NewValidityDays info + bonusDays dp flr info remainingDays) * Day)"

definition SetSubscriberPlan ::
  "'d::linordered_idom pg \<Rightarrow> int \<Rightarrow> int \<Rightarrow> time \<Rightarrow> 'd workflow \<Rightarrow> 'd workflow \<times> (err + 'd subscriber option)" where
  "SetSubscriberPlan pg i newPlanID newExpiry st =
     update_one pg ''set subscriber plan'' i (\<lambda>r. r\<lparr>sub_plan_id := newPlanID, sub_expiry := Some newExpiry\<rparr>) st"

definition changeSubscriberPlan ::
  "'d::linordered_idom decimal_pkg \<Rightarrow> ('d \<Rightarrow> int) \<Rightarrow> 'd pg \<Rightarrow> time \<Rightarrow> int \<Rightarrow> int \<Rightarrow> 'd workflow \<Rightarrow>
     'd workflow \<times> (plan_change_error + 'd subscriber)" where
  "changeSubscriberPlan dp flr pg now i newPlanID st =
     (case GetPlanChangeInfo pg st i newPlanID of
        Inl e \<Rightarrow> (st, Inl e)
      | Inr None \<Rightarrow> (st, Inl ErrSubscriberNotFound)
      | Inr (Some info) \<Rightarrow>
          (case SetSubscriberPlan pg i newPlanID (computePlanChangeExpiry dp flr info now) st of
             (st1, Inl e) \<Rightarrow> (st1, Inl (PlanChangeErr e))
           | (st1, Inr None) \<Rightarrow> (st1, Inl ErrSubscriberNotFound)
           | (st1, Inr (Some updated)) \<Rightarrow>
               (enqueueCoAIfSessionActive pg now i (InvalidateSubscriber pg (pc_Username info) st1), Inr updated)))"

definition ChangeSubscriberPlan ::
  "'d::linordered_idom decimal_pkg \<Rightarrow> ('d \<Rightarrow> int) \<Rightarrow> 'd pg \<Rightarrow> time \<Rightarrow> int option \<Rightarrow> int option \<Rightarrow> 'd workflow \<Rightarrow>
     'd workflow \<times> 'd subscriber response" where
  "ChangeSubscriberPlan dp flr pg now path body st =
     (case (path, body) of
        (None, _) \<Rightarrow> (st, Status 400)
      | (Some i, None) \<Rightarrow> (st, Status 400)
      | (Some i, Some newPlanID) \<Rightarrow>
          if newPlanID \<le> 0 then (st, Status 422)
          else case changeSubscriberPlan dp flr pg now i newPlanID st of
            (st', Inl ErrInvalidPlan) \<Rightarrow> (st', Status 422)
          | (st', Inl ErrSubscriberNotFound) \<Rightarrow> (st', Status 404)
          | (st', Inl (PlanChangeErr _)) \<Rightarrow> (st', Status 500)
          | (st', Inr updated) \<Rightarrow> (st', Body updated))"

fun ChangePlanForMany ::
  "'d::linordered_idom decimal_pkg \<Rightarrow> ('d \<Rightarrow> int) \<Rightarrow> 'd pg \<Rightarrow> time \<Rightarrow> int list \<Rightarrow> int \<Rightarrow> 'd workflow \<Rightarrow>
     'd workflow \<times> (int \<times> bool) list" where
  "ChangePlanForMany dp flr pg now [] newPlanID st = (st, [])"
| "ChangePlanForMany dp flr pg now (i # ids) newPlanID st =
     (case changeSubscriberPlan dp flr pg now i newPlanID st of
        (st1, res) \<Rightarrow>
          (case ChangePlanForMany dp flr pg now ids newPlanID st1 of
             (st2, rs) \<Rightarrow> (st2, (i, \<not> isl res) # rs)))"

definition BulkChangeSubscriberPlan ::
  "'d::linordered_idom decimal_pkg \<Rightarrow> ('d \<Rightarrow> int) \<Rightarrow> 'd pg \<Rightarrow> time \<Rightarrow> (int list \<times> int) option \<Rightarrow> 'd workflow \<Rightarrow>
     'd workflow \<times> (int \<times> bool) list response" where
  "BulkChangeSubscriberPlan dp flr pg now body st =
     (case body of
        None \<Rightarrow> (st, Status 400)
      | Some (ids, newPlanID) \<Rightarrow>
          if \<not> validateBulkIDs ids \<or> newPlanID \<le> 0 then (st, Status 422)
          else case ChangePlanForMany dp flr pg now ids newPlanID st of (st', rs) \<Rightarrow> (st', Body rs))"

text \<open>
  A change of plan never costs days of the new plan: with non-negative prices and a package whose
  quotients and floors of non-negative values are not negative, the new expiry is at least the new
  plan's whole validity away.
\<close>

lemma plan_change_full_validity:
  assumes "\<And>x y. 0 \<le> x \<Longrightarrow> 0 < y \<Longrightarrow> 0 \<le> Div dp x y" and "\<And>x y. 0 < x \<Longrightarrow> 0 < y \<Longrightarrow> 0 < Div dp x y"
    and "\<And>x. 0 \<le> x \<Longrightarrow> 0 \<le> flr x" and "0 \<le> pc_OldPrice info"
  shows "now + pc_NewValidityDays info * Day \<le> computePlanChangeExpiry dp flr info now"
proof -
  define rem where "rem = (case pc_CurrentExpiry info of None \<Rightarrow> 0 | Some e \<Rightarrow> max 0 (time_sub e now))"
  have "0 \<le> rem" by (simp add: rem_def split: option.split)
  then have "0 \<le> Div dp (of_int rem) (of_int Day)" by (intro assms(1)) (simp_all add: clock_defs)
  then have "0 \<le> bonusDays dp flr info (Div dp (of_int rem) (of_int Day))"
    using assms by (auto simp: bonusDays_def Let_def intro!: assms(1-3) mult_nonneg_nonneg)
  then have "0 \<le> bonusDays dp flr info (Div dp (of_int rem) (of_int Day)) * Day" by (simp add: clock_defs)
  then show ?thesis by (simp add: computePlanChangeExpiry_def Let_def rem_def [symmetric] distrib_right)
qed

section \<open>Decisions that interleave\<close>

text \<open>
  What a decision in progress knows between two statements: it has read and validated a request, it
  has claimed it, it has run the action.
\<close>

datatype 'd phase =
    ApproveReady int string
  | RejectReady int string string
  | Claimed string "'d ApprovalRequest"
  | Acted "'d ApprovalRequest" "err option" "int option"

text \<open>\<open>cf_log\<close> records, in order, every request whose action was run.\<close>

record 'd conf =
  cf_st :: "'d workflow"
  cf_procs :: "'d phase list"
  cf_log :: "'d ApprovalRequest list"

text \<open>
  One statement of one request at a time, each with its own pattern of failures. A process may die at
  any point; every other request of the server leaves the approval table alone.
\<close>

inductive wf_step :: "'d::linordered_idom conf \<Rightarrow> 'd conf \<Rightarrow> bool" where
  filed: "wf_step c (c\<lparr>cf_st := fst (createApprovalRequest pg who action i amount reason (cf_st c))\<rparr>)"
| validated: "GetApprovalRequest pg (cf_st c) i = Inr (Some r) \<Longrightarrow> ValidateDecision r actor = None \<Longrightarrow>
    p = ApproveReady i actor \<or> p = RejectReady i actor reason \<Longrightarrow> wf_step c (c\<lparr>cf_procs := p # cf_procs c\<rparr>)"
| claimed: "cf_procs c = ps @ ApproveReady i actor # qs \<Longrightarrow> ClaimApprovalRequest pg (cf_st c) i actor = (st', res) \<Longrightarrow>
    wf_step c (c\<lparr>cf_st := st', cf_procs := ps @ (case res of Inr (Some r) \<Rightarrow> [Claimed actor r] | _ \<Rightarrow> []) @ qs\<rparr>)"
| rejected: "cf_procs c = ps @ RejectReady i actor reason # qs \<Longrightarrow>
    wf_step c (c\<lparr>cf_st := fst (RejectApprovalRequest pg (cf_st c) i actor reason), cf_procs := ps @ qs\<rparr>)"
| acted: "cf_procs c = ps @ Claimed actor r # qs \<Longrightarrow> performGatedAction pg now actor r (cf_st c) = (st', l, e) \<Longrightarrow>
    wf_step c (c\<lparr>cf_st := st', cf_procs := ps @ Acted r e l # qs, cf_log := cf_log c @ [r]\<rparr>)"
| finalized: "cf_procs c = ps @ Acted r e l # qs \<Longrightarrow>
    wf_step c (c\<lparr>cf_st := fst (FinalizeApprovalExecution pg (cf_st c) (ar_ID r) (final_status e) e l), cf_procs := ps @ qs\<rparr>)"
| crashed: "cf_procs c = ps @ p # qs \<Longrightarrow> wf_step c (c\<lparr>cf_procs := ps @ qs\<rparr>)"
| elsewhere: "wf_approvals st' = wf_approvals (cf_st c) \<Longrightarrow> wf_approval_seq st' = wf_approval_seq (cf_st c) \<Longrightarrow>
    wf_step c (c\<lparr>cf_st := st'\<rparr>)"

text \<open>The handler of an approval is such a sequence of steps.\<close>

lemma approve_is_run:
  assumes "ApproveRequest pg now (Some i) actor st = (st', resp)"
  shows "\<exists>executed. wf_step\<^sup>*\<^sup>* \<lparr>cf_st = st, cf_procs = ps, cf_log = lg\<rparr> \<lparr>cf_st = st', cf_procs = ps, cf_log = lg @ executed\<rparr>"
proof (cases "st' = st")
  case True
  then show ?thesis by (intro exI [of _ "[]"]) simp
next
  case False
  then obtain r where r: "GetApprovalRequest pg st i = Inr (Some r)" "ValidateDecision r actor = None"
    using assms by (auto simp: ApproveRequest_def split: sum.splits option.splits decision_error.splits)
  let ?c = "\<lambda>s p. \<lparr>cf_st = s, cf_procs = p @ ps, cf_log = lg\<rparr>"
  have "wf_step (?c st []) (?c st [ApproveReady i actor])"
    using wf_step.validated [of pg "?c st []" i r actor "ApproveReady i actor"] r by simp
  moreover obtain st1 res where claim: "ClaimApprovalRequest pg st i actor = (st1, res)" by fastforce
  then have "wf_step (?c st [ApproveReady i actor]) (?c st1 (case res of Inr (Some r) \<Rightarrow> [Claimed actor r] | _ \<Rightarrow> []))"
    using wf_step.claimed [of "?c st [ApproveReady i actor]" "[]" i actor ps pg st1 res] by simp
  ultimately have two: "wf_step\<^sup>*\<^sup>* (?c st []) (?c st1 (case res of Inr (Some r) \<Rightarrow> [Claimed actor r] | _ \<Rightarrow> []))" by simp
  show ?thesis
  proof (cases "\<exists>q. res = Inr (Some q)")
    case True
    then obtain q where q: "res = Inr (Some q)" by blast
    obtain st2 l e where act: "performGatedAction pg now actor q st1 = (st2, l, e)" by (metis prod_cases3)
    have st': "st' = fst (FinalizeApprovalExecution pg st2 (ar_ID q) (final_status e) e l)"
      using assms r claim q act by (simp add: ApproveRequest_def ExecuteApprovedRequest_def executeApprovedAction_def)
    have "wf_step (?c st1 [Claimed actor q]) \<lparr>cf_st = st2, cf_procs = Acted q e l # ps, cf_log = lg @ [q]\<rparr>"
      using wf_step.acted [of "?c st1 [Claimed actor q]" "[]" actor q ps pg now st2 l e] act by simp
    moreover have "wf_step \<lparr>cf_st = st2, cf_procs = Acted q e l # ps, cf_log = lg @ [q]\<rparr>
        \<lparr>cf_st = st', cf_procs = ps, cf_log = lg @ [q]\<rparr>"
      using wf_step.finalized [of "\<lparr>cf_st = st2, cf_procs = Acted q e l # ps, cf_log = lg @ [q]\<rparr>" "[]" q e l ps pg]
      by (simp add: st')
    ultimately show ?thesis using two q by (intro exI [of _ "[q]"]) simp
  next
    case no: False
    then have "st' = st1"
      using assms r claim by (auto simp: ApproveRequest_def ExecuteApprovedRequest_def split: sum.splits option.splits)
    then show ?thesis using two no by (intro exI [of _ "[]"]) (auto split: sum.splits option.splits)
  qed
qed

section \<open>An approval acts once\<close>

definition approvals_ok :: "'d::linordered_idom workflow \<Rightarrow> bool" where
  "approvals_ok st = (distinct (map ar_ID (wf_approvals st))
     \<and> (\<forall>r \<in> set (wf_approvals st). ar_ID r < wf_approval_seq st \<and> chk_approval_distinct_approver r))"

text \<open>The requests a process holds or has acted on.\<close>

fun held_by :: "'d phase \<Rightarrow> 'd ApprovalRequest list" where
  "held_by (Claimed actor r) = [r]"
| "held_by _ = []"

definition claims :: "'d conf \<Rightarrow> 'd ApprovalRequest list" where
  "claims c = concat (map held_by (cf_procs c)) @ cf_log c"

definition decided :: "'d workflow \<Rightarrow> int \<Rightarrow> bool" where
  "decided st i = (\<exists>row \<in> set (wf_approvals st). ar_ID row = i \<and> ar_Status row \<notin> {StatusPending, StatusRejected})"

definition second_approver :: "'d ApprovalRequest \<Rightarrow> bool" where
  "second_approver r = (\<exists>a. ar_DecidedBy r = Some a \<and> a \<noteq> ar_RequestedBy r)"

definition wf_inv :: "'d::linordered_idom conf \<Rightarrow> bool" where
  "wf_inv c = (approvals_ok (cf_st c) \<and> distinct (map ar_ID (claims c))
     \<and> (\<forall>r \<in> set (claims c). decided (cf_st c) (ar_ID r) \<and> second_approver r))"

lemma createApprovalRequest_cases:
  assumes "createApprovalRequest pg who action i amount reason st = (st', res)"
  obtains "st' = st" | row where "wf_approvals st' = wf_approvals st @ [row]" "wf_approval_seq st' = wf_approval_seq st + 1"
      "ar_ID row = wf_approval_seq st" "ar_DecidedBy row = None"
  using assms
  by (auto simp: createApprovalRequest_def CreateApprovalRequest_def Let_def split: sum.splits)

lemma decide_cases:
  assumes "decide pg label f i st = (st', res)"
  obtains e where "st' = st" "res = Inl e"
  | "st' = st\<lparr>wf_approvals := update_where (\<lambda>r. ar_ID r = i \<and> ar_Status r = StatusPending) f (wf_approvals st)\<rparr>"
    "res = Inr (map_option f (find (\<lambda>r. ar_ID r = i \<and> ar_Status r = StatusPending) (wf_approvals st)))"
    "\<forall>r \<in> set (wf_approvals st). ar_ID r = i \<and> ar_Status r = StatusPending \<longrightarrow> approval_checks (f r)"
  using assms by (auto simp: decide_def Let_def guardE_def split: sum.splits if_splits)

lemma approvals_ok_update:
  assumes "approvals_ok st" and "\<And>r. ar_ID (f r) = ar_ID r" and "wf_approval_seq st' = wf_approval_seq st"
    and "\<And>r. r \<in> set (wf_approvals st) \<Longrightarrow> P r \<Longrightarrow> chk_approval_distinct_approver (f r)"
    and "wf_approvals st' = update_where P f (wf_approvals st)"
  shows "approvals_ok st'"
  using assms by (auto simp: approvals_ok_def ball_update_where map_update_where)

lemma decided_update:
  assumes "decided st j" and "wf_approvals st' = update_where P f (wf_approvals st)"
    and "\<And>r. ar_ID (f r) = ar_ID r"
    and "\<And>r. r \<in> set (wf_approvals st) \<Longrightarrow> P r \<Longrightarrow> ar_ID r = j \<Longrightarrow> ar_Status r \<notin> {StatusPending, StatusRejected} \<Longrightarrow>
           ar_Status (f r) \<notin> {StatusPending, StatusRejected}"
  shows "decided st' j"
proof -
  from assms(1) obtain row where row: "row \<in> set (wf_approvals st)" "ar_ID row = j" "ar_Status row \<notin> {StatusPending, StatusRejected}"
    by (auto simp: decided_def)
  let ?row = "if P row then f row else row"
  have "?row \<in> set (wf_approvals st')" using row(1) by (auto simp: assms(2) update_where_def)
  moreover have "ar_ID ?row = j" "ar_Status ?row \<notin> {StatusPending, StatusRejected}" using row assms(3,4) by auto
  ultimately show ?thesis unfolding decided_def by blast
qed

lemma decide_decided:
  assumes "decided st j" and "decide pg label f i st = (st', res)" and "\<And>r. ar_ID (f r) = ar_ID r"
  shows "decided st' j"
  using assms(2)
proof (cases rule: decide_cases)
  case 2
  show ?thesis
    by (rule decided_update [OF assms(1), of _ "\<lambda>r. ar_ID r = i \<and> ar_Status r = StatusPending" f])
      (use assms(3) in \<open>auto simp: 2(1)\<close>)
qed (use assms(1) in simp)

lemma decide_ok:
  assumes "approvals_ok st" and "decide pg label f i st = (st', res)" and "\<And>r. ar_ID (f r) = ar_ID r"
  shows "approvals_ok st'"
  using assms(2)
proof (cases rule: decide_cases)
  case 2
  show ?thesis
    by (rule approvals_ok_update [OF assms(1), of f]) (use assms(3) 2(3) in \<open>auto simp: 2(1) approval_checks_def\<close>)
qed (use assms(1) in simp)

text \<open>A claim that lands: the row was pending, is decided now, and its approver is not its requester.\<close>

lemma claim_lands:
  assumes ok: "approvals_ok st" and claim: "ClaimApprovalRequest pg st i actor = (st', Inr (Some r))"
  shows "ar_ID r = i \<and> \<not> decided st i \<and> decided st' i \<and> second_approver r"
  using claim unfolding ClaimApprovalRequest_def
proof (cases rule: decide_cases)
  case 2
  let ?f = "\<lambda>r :: 'a ApprovalRequest. r\<lparr>ar_Status := StatusApproved, ar_DecidedBy := Some actor\<rparr>"
  from 2(2) obtain row where row: "find (\<lambda>r. ar_ID r = i \<and> ar_Status r = StatusPending) (wf_approvals st) = Some row"
    and r: "r = ?f row" by (auto dest: sym)
  from find_SomeD [OF row] have mem: "row \<in> set (wf_approvals st)" "ar_ID row = i" "ar_Status row = StatusPending" by auto
  have "\<not> decided st i"
    using ok mem by (auto simp: decided_def approvals_ok_def distinct_map inj_on_def)
  moreover have "?f row \<in> set (wf_approvals st')" using mem by (auto simp: 2(1) intro: update_whereI [where f = ?f])
  then have "decided st' i" unfolding decided_def by (rule bexI [rotated]) (simp add: mem(2))
  moreover have "approval_checks (?f row)" using 2(3) mem by blast
  then have "second_approver r" by (simp add: r second_approver_def approval_checks_def chk_approval_distinct_approver_def)
  ultimately show ?thesis using mem(2) r by simp
qed simp

lemma gated_approvals [simp]:
  "wf_approvals (set_db db st) = wf_approvals st" "wf_approval_seq (set_db db st) = wf_approval_seq st"
  "wf_approvals (wf_enqueue pg now t st) = wf_approvals st" "wf_approval_seq (wf_enqueue pg now t st) = wf_approval_seq st"
  by (simp_all add: set_db_def wf_enqueue_def)

lemma side_effects_approvals [simp]:
  "wf_approvals (InvalidateSubscriber pg u st) = wf_approvals st" "wf_approval_seq (InvalidateSubscriber pg u st) = wf_approval_seq st"
  "wf_approvals (enqueuePoDIfSessionActive pg now i st) = wf_approvals st"
  "wf_approval_seq (enqueuePoDIfSessionActive pg now i st) = wf_approval_seq st"
  by (simp_all add: InvalidateSubscriber_def enqueuePoDIfSessionActive_def split: sum.split option.split)

lemma recovery_approvals [simp]:
  "wf_approvals (openCPERecoveryTasks pg a i u st) = wf_approvals st"
  "wf_approval_seq (openCPERecoveryTasks pg a i u st) = wf_approval_seq st"
proof -
  have one: "wf_approvals (fst (CreateFieldTask pg g s t)) = wf_approvals s \<and> wf_approval_seq (fst (CreateFieldTask pg g s t)) = wf_approval_seq s"
    for g s t by (simp add: CreateFieldTask_def split: sum.split)
  have all: "wf_approvals (fold (\<lambda>d s. fst (CreateFieldTask pg g s (h d))) ds s) = wf_approvals s
      \<and> wf_approval_seq (fold (\<lambda>d s. fst (CreateFieldTask pg g s (h d))) ds s) = wf_approval_seq s"
    for g h s and ds :: "device list"
    by (induction ds arbitrary: s) (simp_all add: one)
  show "wf_approvals (openCPERecoveryTasks pg a i u st) = wf_approvals st"
    "wf_approval_seq (openCPERecoveryTasks pg a i u st) = wf_approval_seq st"
    by (simp_all add: openCPERecoveryTasks_def all split: sum.split)
qed

lemma perform_approvals:
  assumes "performGatedAction pg now actor r st = (st', l, e)"
  shows "wf_approvals st' = wf_approvals st \<and> wf_approval_seq st' = wf_approval_seq st"
  using assms
  by (auto simp: performGatedAction_def CreateRefund_def Let_def
      split: ActionType.splits option.splits prod.splits sum.splits if_splits)

lemma Finalize_cases:
  assumes "FinalizeApprovalExecution pg st i status x l = (st', res)"
  obtains "st' = st"
  | f where "wf_approvals st' = update_where (\<lambda>r. ar_ID r = i) f (wf_approvals st)" "wf_approval_seq st' = wf_approval_seq st"
      "\<And>r. ar_ID (f r) = ar_ID r \<and> ar_Status (f r) = status \<and> ar_DecidedBy (f r) = ar_DecidedBy r \<and> ar_RequestedBy (f r) = ar_RequestedBy r"
  using assms that(2) [of "\<lambda>r. r\<lparr>ar_Status := status, ar_ExecutionError := x, ar_LedgerEntryID := l\<rparr>"]
  by (auto simp: FinalizeApprovalExecution_def split: sum.splits)

lemma claims_at:
  "cf_procs c = ps @ p # qs \<Longrightarrow> claims c = concat (map held_by ps) @ held_by p @ concat (map held_by qs) @ cf_log c"
  by (simp add: claims_def)

lemma distinct_map_drop: "distinct (map f (xs @ ys @ zs)) \<Longrightarrow> distinct (map f (xs @ zs))"
  by auto

lemma distinct_map_add: "distinct (map f (xs @ zs)) \<Longrightarrow> f y \<notin> f ` set (xs @ zs) \<Longrightarrow> distinct (map f (xs @ y # zs))"
  by auto

lemma distinct_map_move: "distinct (map f (xs @ y # zs)) \<Longrightarrow> distinct (map f (xs @ zs @ [y]))"
  by auto

text \<open>A change of state that keeps the table well-formed and every decision made keeps the invariant.\<close>

lemma wf_inv_state:
  assumes "wf_inv c" and "approvals_ok st'" and "\<And>j. decided (cf_st c) j \<Longrightarrow> decided st' j"
    and "cf_procs c = ps @ p # qs" and "cf_procs c' = ps @ qs" and "cf_st c' = st'" and "cf_log c' = cf_log c"
  shows "wf_inv c'"
proof -
  have c': "claims c' = concat (map held_by ps) @ concat (map held_by qs) @ cf_log c" by (simp add: claims_def assms(5,7))
  have "distinct (map ar_ID (claims c'))"
    unfolding c' by (rule distinct_map_drop [of _ _ "held_by p"]) (use assms(1) in \<open>simp only: wf_inv_def claims_at [OF assms(4)]\<close>)
  moreover have "set (claims c') \<subseteq> set (claims c)" by (auto simp: c' claims_at [OF assms(4)])
  ultimately show ?thesis using assms(1,2,3,6) by (auto simp: wf_inv_def)
qed

lemma wf_inv_claim:
  assumes "wf_inv c" and "approvals_ok st'" and "\<And>j. decided (cf_st c) j \<Longrightarrow> decided st' j"
    and "cf_procs c = ps @ ApproveReady i actor # qs"
    and "\<not> decided (cf_st c) (ar_ID r)" and "decided st' (ar_ID r)" and "second_approver r"
  shows "wf_inv (c\<lparr>cf_st := st', cf_procs := ps @ Claimed actor r # qs\<rparr>)" (is "wf_inv ?c")
proof -
  have c: "claims c = concat (map held_by ps) @ concat (map held_by qs) @ cf_log c" by (simp add: claims_at [OF assms(4)])
  have c': "claims ?c = concat (map held_by ps) @ r # concat (map held_by qs) @ cf_log c" by (simp add: claims_def)
  have "ar_ID r \<notin> ar_ID ` set (claims c)" using assms(1,5) by (auto simp: wf_inv_def)
  then have "distinct (map ar_ID (claims ?c))"
    unfolding c c' by (rule distinct_map_add [rotated]) (use assms(1) in \<open>simp only: wf_inv_def c\<close>)
  moreover have "set (claims ?c) = insert r (set (claims c))" by (auto simp: c c')
  ultimately show ?thesis using assms by (auto simp: wf_inv_def)
qed

lemma wf_inv_act:
  assumes "wf_inv c" and "cf_procs c = ps @ Claimed actor r # qs"
    and "wf_approvals st' = wf_approvals (cf_st c)" and "wf_approval_seq st' = wf_approval_seq (cf_st c)"
  shows "wf_inv (c\<lparr>cf_st := st', cf_procs := ps @ Acted r e l # qs, cf_log := cf_log c @ [r]\<rparr>)" (is "wf_inv ?c")
proof -
  have c: "claims c = concat (map held_by ps) @ r # concat (map held_by qs) @ cf_log c" by (simp add: claims_at [OF assms(2)])
  have c': "claims ?c = concat (map held_by ps) @ (concat (map held_by qs) @ cf_log c) @ [r]" by (simp add: claims_def)
  have "distinct (map ar_ID (claims ?c))"
    unfolding c' by (rule distinct_map_move) (use assms(1) in \<open>simp only: wf_inv_def c\<close>)
  moreover have "set (claims ?c) = set (claims c)" by (auto simp: c c')
  ultimately show ?thesis using assms(1,3,4) by (auto simp: wf_inv_def approvals_ok_def decided_def)
qed

lemma wf_inv_same_procs:
  assumes "wf_inv c" and "approvals_ok st'" and "\<And>j. decided (cf_st c) j \<Longrightarrow> decided st' j"
  shows "wf_inv (c\<lparr>cf_st := st'\<rparr>)"
  using assms by (auto simp: wf_inv_def claims_def)

lemma wf_inv_step:
  assumes "wf_step c c'" and "wf_inv c"
  shows "wf_inv c'"
  using assms
proof (induction rule: wf_step.induct)
  case (filed c pg who action i amount reason)
  obtain st' res where run: "createApprovalRequest pg who action i amount reason (cf_st c) = (st', res)" by fastforce
  then have "approvals_ok st' \<and> (\<forall>j. decided (cf_st c) j \<longrightarrow> decided st' j)"
    by (rule createApprovalRequest_cases)
      (use filed in \<open>auto simp: wf_inv_def approvals_ok_def decided_def chk_approval_distinct_approver_def less_le\<close>)
  then show ?case using wf_inv_same_procs [OF filed, of st'] run by simp
next
  case (validated pg c i r actor p reason)
  then show ?case by (auto simp: wf_inv_def claims_def)
next
  case (claimed c ps i actor qs pg st' res)
  have ok: "approvals_ok (cf_st c)" using claimed by (simp add: wf_inv_def)
  note D = claimed(2) [unfolded ClaimApprovalRequest_def]
  have keeps: "approvals_ok st'" "\<And>j. decided (cf_st c) j \<Longrightarrow> decided st' j"
    using decide_ok [OF ok D] decide_decided [OF _ D] by simp_all
  show ?case
  proof (cases "\<exists>r. res = Inr (Some r)")
    case True
    then obtain r where r: "res = Inr (Some r)" by blast
    have "ar_ID r = i \<and> \<not> decided (cf_st c) i \<and> decided st' i \<and> second_approver r"
      using claim_lands [OF ok] claimed(2) r by simp
    then show ?thesis using wf_inv_claim [OF claimed(3) keeps claimed(1)] r by simp
  next
    case False
    then have "(case res of Inr (Some r) \<Rightarrow> [Claimed actor r] | _ \<Rightarrow> []) = []" by (auto split: sum.split option.split)
    then show ?thesis by (intro wf_inv_state [OF claimed(3) keeps claimed(1)]) simp_all
  qed
next
  case (rejected c ps i actor reason qs pg)
  have ok: "approvals_ok (cf_st c)" using rejected by (simp add: wf_inv_def)
  obtain st' res where run: "RejectApprovalRequest pg (cf_st c) i actor reason = (st', res)" by fastforce
  note D = run [unfolded RejectApprovalRequest_def]
  show ?case using run
    by (intro wf_inv_state [OF rejected(2) _ _ rejected(1)]) (use decide_ok [OF ok D] decide_decided [OF _ D] in simp_all)
next
  case (acted c ps actor r qs pg now st' l e)
  show ?case using wf_inv_act [OF acted(3,1)] perform_approvals [OF acted(2)] by blast
next
  case (finalized c ps r e l qs pg)
  obtain st' res where run: "FinalizeApprovalExecution pg (cf_st c) (ar_ID r) (final_status e) e l = (st', res)" by fastforce
  have fs: "final_status e \<notin> {StatusPending, StatusRejected}" by (simp add: final_status_def)
  from run have "approvals_ok st' \<and> (\<forall>j. decided (cf_st c) j \<longrightarrow> decided st' j)"
  proof (cases rule: Finalize_cases)
    case (2 f)
    have ok: "approvals_ok (cf_st c)" using finalized by (simp add: wf_inv_def)
    have "approvals_ok st'" using approvals_ok_update [OF ok _ 2(2) _ 2(1)] 2(3) ok
      by (auto simp: approvals_ok_def chk_approval_distinct_approver_def)
    moreover have "decided st' j" if "decided (cf_st c) j" for j using decided_update [OF that 2(1)] 2(3) fs by simp
    ultimately show ?thesis by blast
  qed (use finalized in \<open>simp add: wf_inv_def\<close>)
  then show ?case using run by (intro wf_inv_state [OF finalized(2) _ _ finalized(1)]) simp_all
next
  case (crashed c ps p qs)
  then show ?case by (intro wf_inv_state [OF crashed(2) _ _ crashed(1)]) (simp_all add: wf_inv_def)
next
  case (elsewhere st' c)
  then show ?case using wf_inv_same_procs [OF elsewhere(3), of st'] by (simp add: wf_inv_def approvals_ok_def decided_def)
qed

lemma wf_inv_reachable:
  assumes "wf_step\<^sup>*\<^sup>* c c'" and "wf_inv c"
  shows "wf_inv c'"
  using assms by (induction rule: rtranclp_induct) (auto intro: wf_inv_step)

text \<open>C5. However the handlers of any number of staff interleave with each other, with crashes and with the rest of the
platform, an approval request is acted on at most once, only by a claim whose approver is not its requester, and its row
then is neither pending nor rejected.\<close>

theorem approvals_execute_once:
  assumes "approvals_ok st" and "wf_step\<^sup>*\<^sup>* \<lparr>cf_st = st, cf_procs = [], cf_log = []\<rparr> c"
  shows "distinct (map ar_ID (cf_log c))
     \<and> (\<forall>r \<in> set (cf_log c). (\<exists>a. ar_DecidedBy r = Some a \<and> a \<noteq> ar_RequestedBy r)
          \<and> (\<exists>row \<in> set (wf_approvals (cf_st c)). ar_ID row = ar_ID r \<and> ar_Status row \<noteq> StatusPending \<and> ar_Status row \<noteq> StatusRejected))"
proof -
  have "wf_inv c" by (rule wf_inv_reachable [OF assms(2)]) (use assms(1) in \<open>simp add: wf_inv_def claims_def\<close>)
  then show ?thesis by (auto simp: wf_inv_def claims_def decided_def second_approver_def)
qed

section \<open>What an approved termination does\<close>

lemma find_only:
  assumes "r \<in> set xs" and "P r" and "\<And>q. q \<in> set xs \<Longrightarrow> P q \<Longrightarrow> q = r"
  shows "find P xs = Some r"
proof (cases "find P xs")
  case None
  then show ?thesis using find_NoneD [OF None assms(1)] assms(2) by blast
next
  case (Some q)
  then show ?thesis using find_SomeD [OF Some] assms(3) by blast
qed

lemma approval_unique:
  "approvals_ok st \<Longrightarrow> r \<in> set (wf_approvals st) \<Longrightarrow> q \<in> set (wf_approvals st) \<Longrightarrow> ar_ID q = ar_ID r \<Longrightarrow> q = r"
  by (auto simp: approvals_ok_def distinct_map inj_on_def)

lemma claim_wins:
  assumes "approvals_ok st" and "r \<in> set (wf_approvals st)" and "ar_Status r = StatusPending" and "approval_checks r"
    and "actor \<noteq> ar_RequestedBy r" and "stmt pg ''claim approval'' = Inr ()"
  shows "\<exists>rows. ClaimApprovalRequest pg st (ar_ID r) actor
     = (st\<lparr>wf_approvals := rows\<rparr>, Inr (Some (r\<lparr>ar_Status := StatusApproved, ar_DecidedBy := Some actor\<rparr>)))"
proof -
  have "find (\<lambda>q. ar_ID q = ar_ID r \<and> ar_Status q = StatusPending) (wf_approvals st) = Some r"
    using assms(2,3) approval_unique [OF assms(1,2)] by (intro find_only) auto
  moreover have "approval_checks (r\<lparr>ar_Status := StatusApproved, ar_DecidedBy := Some actor\<rparr>)"
    using assms(4,5) by (auto simp: approval_checks_def chk_approval_distinct_approver_def chk_approval_amount_by_type_def
        split: option.splits)
  then have "\<forall>q \<in> set (wf_approvals st). ar_ID q = ar_ID r \<and> ar_Status q = StatusPending \<longrightarrow>
      approval_checks (q\<lparr>ar_Status := StatusApproved, ar_DecidedBy := Some actor\<rparr>)"
    using approval_unique [OF assms(1,2)] by blast
  ultimately show ?thesis unfolding ClaimApprovalRequest_def decide_def Let_def assms(6) by (auto simp: guardE_def)
qed

lemma GetApprovalRequest_row:
  assumes "approvals_ok st" and "r \<in> set (wf_approvals st)" and "stmt pg ''get approval'' = Inr ()"
  shows "GetApprovalRequest pg st (ar_ID r) = Inr (Some r)"
  using assms(1,2) unfolding GetApprovalRequest_def assms(3)
  by (simp add: approvals_ok_def find_Some_iff_distinct)

definition issued_to :: "'d workflow \<Rightarrow> int \<Rightarrow> device list" where
  "issued_to st i = filter (\<lambda>d. dv_status d = ''issued'' \<and> dv_subscriber d = Some i) (wf_devices st)"

definition pod_queued :: "'d workflow \<Rightarrow> int \<Rightarrow> bool" where
  "pod_queued st i = (\<exists>t \<in> set (tasks (fu_jq (wf_fup st))). jt_payload t = PoDPayload i [] [])"

lemma recovery_opens:
  assumes "stmt pg ''list devices'' = Inr ()" and "stmt pg ''create field task'' = Inr ()" and "find_subscriber (wf_db st) i \<noteq> None"
  shows "wf_fup (openCPERecoveryTasks pg a i u st) = wf_fup st \<and> wf_verifiers (openCPERecoveryTasks pg a i u st) = wf_verifiers st
     \<and> map ft_Title (wf_tasks (openCPERecoveryTasks pg a i u st))
       = map ft_Title (wf_tasks st) @ map (\<lambda>d. ''Recover CPE '' @ dv_serial d @ '' from '' @ u) (issued_to st i)"
proof -
  let ?go = "fold (\<lambda>d s. fst (CreateFieldTask pg (\<lambda>_. True) s (recovery_task a i u d)))"
  have "wf_fup (?go ds s) = wf_fup s \<and> wf_verifiers (?go ds s) = wf_verifiers s
      \<and> map ft_Title (wf_tasks (?go ds s)) = map ft_Title (wf_tasks s) @ map (\<lambda>d. ''Recover CPE '' @ dv_serial d @ '' from '' @ u) ds"
    if "find_subscriber (wf_db s) i \<noteq> None" for ds s
    using that
  proof (induction ds arbitrary: s)
    case (Cons d ds)
    let ?s = "fst (CreateFieldTask pg (\<lambda>_. True) s (recovery_task a i u d))"
    have one: "wf_fup ?s = wf_fup s" "wf_verifiers ?s = wf_verifiers s"
      "map ft_Title (wf_tasks ?s) = map ft_Title (wf_tasks s) @ [''Recover CPE '' @ dv_serial d @ '' from '' @ u]"
      using Cons.prems unfolding CreateFieldTask_def assms(2) by (auto simp: guardE_def recovery_task_def)
    then show ?case using Cons.IH [of ?s] Cons.prems by simp
  qed simp
  then show ?thesis using assms(3) unfolding openCPERecoveryTasks_def ListDevices_def assms(1) by (simp add: issued_to_def)
qed

lemma pod_enqueued:
  assumes "pg_faults pg = no_faults"
  shows "fu_db (wf_fup (enqueuePoDIfSessionActive pg now i st)) = wf_db st
     \<and> wf_verifiers (enqueuePoDIfSessionActive pg now i st) = wf_verifiers st
     \<and> wf_devices (enqueuePoDIfSessionActive pg now i st) = wf_devices st
     \<and> wf_tasks (enqueuePoDIfSessionActive pg now i st) = wf_tasks st
     \<and> ((\<exists>l \<in> set (live (fu_net (wf_fup st))). lv_subscriber l = i \<and> now - SessionTTL < lv_updated l) \<longrightarrow>
          pod_queued (enqueuePoDIfSessionActive pg now i st) i)"
proof -
  have enq: "pod_queued (wf_enqueue pg now (pod_task i) st) i"
    by (simp add: pod_queued_def wf_enqueue_def assms fup_enqueue_def case_prod_beta EnqueueContext_def pod_task_def NewTask_def
        resolve_options_def zero_options_def Queue_def MaxRetry_def Retention_def smallint_def QueueNetCommands_def Let_def new_row_def)
  have keep: "fu_db (fst (fup_enqueue f now t s)) = fu_db s" for f t and s :: "'a fup"
    by (simp add: fup_enqueue_def case_prod_beta)
  show ?thesis using enq
    by (auto simp: enqueuePoDIfSessionActive_def assms Live_get_def wf_enqueue_def keep find_None_iff split: option.split)
qed

lemma stmt_no_faults: "pg_faults pg = no_faults \<Longrightarrow> stmt pg l = Inr ()"
  by (simp add: stmt_def)

lemma terminate_performs:
  assumes nf: "pg_faults pg = no_faults" and "ar_ActionType r = ActionTerminate" and "ar_SubscriberID r = i"
    and "find_subscriber (wf_db st) i = Some s" and "\<forall>q \<in> set (subscribers (wf_db st)). subscriber_checks q"
  shows "\<exists>st'. performGatedAction pg now actor r st = (st', None, None)
     \<and> map_option sub_status (find_subscriber (wf_db st') i) = Some Terminated
     \<and> (\<forall>v \<in> set (wf_verifiers st'). pv_Username v \<noteq> sub_username s)
     \<and> map ft_Title (wf_tasks st') = map ft_Title (wf_tasks st) @ map (\<lambda>d. ''Recover CPE '' @ dv_serial d @ '' from '' @ sub_username s) (issued_to st i)
     \<and> ((\<exists>l \<in> set (live (fu_net (wf_fup st))). lv_subscriber l = i \<and> now - SessionTTL < lv_updated l) \<longrightarrow> pod_queued st' i)"
proof -
  note ok = stmt_no_faults [OF nf]
  let ?f = "\<lambda>r. r\<lparr>sub_status := Terminated\<rparr>"
  let ?db = "(wf_db st)\<lparr>subscribers := update_where (\<lambda>r. sub_id r = i) ?f (subscribers (wf_db st))\<rparr>"
  have upd: "update_subscribers (\<lambda>r. sub_id r = i) ?f (wf_db st) = Inr ?db"
    using assms(5) by (simp add: update_subscribers_def subscriber_checks_def chk_wallet_balance_nonneg_def
        chk_authorised_subscriber_is_billable_def)
  have sid: "sub_id s = i" using assms(4) by (auto simp: find_subscriber_def dest: find_SomeD)
  have found: "find_subscriber ?db i = Some (?f s)"
    using find_subscriber_update [OF _ upd, of i] assms(4) sid by simp
  define st2 where "st2 = InvalidateSubscriber pg (sub_username s) (set_db ?db st)"
  have st2: "wf_db st2 = ?db" "wf_tasks st2 = wf_tasks st" "wf_devices st2 = wf_devices st" "fu_net (wf_fup st2) = fu_net (wf_fup st)"
    "\<forall>v \<in> set (wf_verifiers st2). pv_Username v \<noteq> sub_username s"
    by (simp_all add: st2_def InvalidateSubscriber_def set_db_def Verifier_DeleteByUsername_def nf delete_where_def)
  define st3 where "st3 = enqueuePoDIfSessionActive pg now i st2"
  note st3 = pod_enqueued [OF nf, of now i st2, folded st3_def]
  define st4 where "st4 = openCPERecoveryTasks pg actor i (sub_username s) st3"
  have "find_subscriber (wf_db st3) i \<noteq> None" using st3 st2 found by simp
  note st4 = recovery_opens [OF ok ok this, of actor "sub_username s", folded st4_def]
  have run: "performGatedAction pg now actor r st = (st4, None, None)"
    by (simp add: performGatedAction_def assms(2,3) Dunning.TerminateSubscriber_def ok upd found Let_def
        st2_def st3_def st4_def)
  have "issued_to st3 i = issued_to st i" using st2 st3 by (simp add: issued_to_def)
  then show ?thesis using st2 st3 st4 found by (intro exI [of _ st4]) (simp add: run pod_queued_def)
qed

lemma final_of_performed:
  assumes "stmt pg ''finalize approval'' = Inr ()"
  shows "wf_fup (fst (FinalizeApprovalExecution pg st i s x l)) = wf_fup st \<and> wf_tasks (fst (FinalizeApprovalExecution pg st i s x l)) = wf_tasks st
     \<and> wf_verifiers (fst (FinalizeApprovalExecution pg st i s x l)) = wf_verifiers st"
  by (simp add: FinalizeApprovalExecution_def split: sum.split)

text \<open>C13. Approving a pending termination filed by somebody else, with the database up: the request is executed,
the subscriber is terminated, no stored verifier of the user remains, a recovery task is opened for every device issued to
them, and a live session gets a disconnect queued.\<close>

theorem approved_termination_effects:
  assumes nf: "pg_faults pg = no_faults" and "approvals_ok st" and "r \<in> set (wf_approvals st)" and "approval_checks r"
    and "ar_Status r = StatusPending" and "ar_ActionType r = ActionTerminate" and "actor \<noteq> ar_RequestedBy r"
    and "find_subscriber (wf_db st) (ar_SubscriberID r) = Some s" and "\<forall>q \<in> set (subscribers (wf_db st)). subscriber_checks q"
  shows "\<exists>st' r'. ApproveRequest pg now (Some (ar_ID r)) actor st = (st', Body r')
     \<and> ar_Status r' = StatusExecuted \<and> ar_DecidedBy r' = Some actor
     \<and> map_option sub_status (find_subscriber (wf_db st') (ar_SubscriberID r)) = Some Terminated
     \<and> (\<forall>v \<in> set (wf_verifiers st'). pv_Username v \<noteq> sub_username s)
     \<and> map ft_Title (wf_tasks st') = map ft_Title (wf_tasks st)
         @ map (\<lambda>d. ''Recover CPE '' @ dv_serial d @ '' from '' @ sub_username s) (issued_to st (ar_SubscriberID r))
     \<and> ((\<exists>l \<in> set (live (fu_net (wf_fup st))). lv_subscriber l = ar_SubscriberID r \<and> now - SessionTTL < lv_updated l)
          \<longrightarrow> pod_queued st' (ar_SubscriberID r))"
proof -
  note ok = stmt_no_faults [OF nf]
  let ?r = "r\<lparr>ar_Status := StatusApproved, ar_DecidedBy := Some actor\<rparr>"
  obtain rows where claim: "ClaimApprovalRequest pg st (ar_ID r) actor = (st\<lparr>wf_approvals := rows\<rparr>, Inr (Some ?r))"
    using claim_wins [OF assms(2,3,5,4,7) ok] by blast
  let ?st1 = "st\<lparr>wf_approvals := rows\<rparr>"
  have "issued_to ?st1 i = issued_to st i" for i by (simp add: issued_to_def)
  then obtain st2 where st2: "performGatedAction pg now actor ?r ?st1 = (st2, None, None)"
    "map_option sub_status (find_subscriber (wf_db st2) (ar_SubscriberID r)) = Some Terminated"
    "\<forall>v \<in> set (wf_verifiers st2). pv_Username v \<noteq> sub_username s"
    "map ft_Title (wf_tasks st2) = map ft_Title (wf_tasks st)
       @ map (\<lambda>d. ''Recover CPE '' @ dv_serial d @ '' from '' @ sub_username s) (issued_to st (ar_SubscriberID r))"
    "(\<exists>l \<in> set (live (fu_net (wf_fup st))). lv_subscriber l = ar_SubscriberID r \<and> now - SessionTTL < lv_updated l) \<longrightarrow> pod_queued st2 (ar_SubscriberID r)"
    using terminate_performs [OF nf, of ?r "ar_SubscriberID r" ?st1 s now actor] assms(6,8,9) by auto
  let ?st3 = "fst (FinalizeApprovalExecution pg st2 (ar_ID r) StatusExecuted None None)"
  have "ApproveRequest pg now (Some (ar_ID r)) actor st
     = (?st3, Body (?r\<lparr>ar_Status := StatusExecuted, ar_ExecutionError := None, ar_LedgerEntryID := None\<rparr>))"
    using assms(5,7) GetApprovalRequest_row [OF assms(2,3) ok]
    by (simp add: ApproveRequest_def ValidateDecision_def ExecuteApprovedRequest_def claim executeApprovedAction_def st2(1) final_status_def)
  then show ?thesis using st2 final_of_performed [OF ok, of st2 "ar_ID r" StatusExecuted None None]
    by (auto simp: pod_queued_def)
qed

section \<open>Around the second approver\<close>

text \<open>C39. The staff route that edits a subscriber writes any status the column knows, \<open>terminated\<close> included, at
once: no request is filed, no second member of staff is asked, the stored verifier stays and nothing is queued to disconnect a
session. The same request takes a terminated subscriber back into service.\<close>

theorem direct_update_bypasses_approval:
  assumes nf: "pg_faults pg = no_faults" and "find_subscriber (wf_db st) i = Some r"
    and "\<forall>q \<in> set (subscribers (wf_db st)). subscriber_checks q"
    and "parse_status s = Some v" and "sub_expiry r \<noteq> None" and "\<forall>q \<in> set (subscribers (wf_db st)). sub_id q = i \<longrightarrow> q = r"
  shows "\<exists>st'. UpdateSubscriber pg (Some i) (Some (None, Some s, None)) st = (st', Body (Some (r\<lparr>sub_status := v\<rparr>)))
     \<and> find_subscriber (wf_db st') i = Some (r\<lparr>sub_status := v\<rparr>)
     \<and> wf_approvals st' = wf_approvals st \<and> wf_verifiers st' = wf_verifiers st \<and> fu_jq (wf_fup st') = fu_jq (wf_fup st)"
proof -
  let ?f = "\<lambda>r. r\<lparr>sub_status := v\<rparr>"
  let ?db = "(wf_db st)\<lparr>subscribers := update_where (\<lambda>r. sub_id r = i) ?f (subscribers (wf_db st))\<rparr>"
  have mem: "r \<in> set (subscribers (wf_db st))" "sub_id r = i" using assms(2) by (auto simp: find_subscriber_def dest: find_SomeD)
  have "subscriber_checks (?f r)" using assms(3,5) mem
    by (auto simp: subscriber_checks_def chk_wallet_balance_nonneg_def chk_authorised_subscriber_is_billable_def)
  then have upd: "update_subscribers (\<lambda>r. sub_id r = i) ?f (wf_db st) = Inr ?db"
    using assms(6) by (auto simp: update_subscribers_def)
  have found: "find_subscriber ?db i = Some (?f r)" using find_subscriber_update [OF _ upd, of i] assms(2) mem by simp
  have "store_UpdateSubscriber pg i None (Some v) None st = (set_db ?db st, Inr (Some (?f r)))"
    by (simp add: store_UpdateSubscriber_def update_one_def stmt_no_faults [OF nf] upd found)
  then show ?thesis using found
    by (auto simp: UpdateSubscriber_def db_UpdateSubscriber_def assms(4) wf_emit_def set_db_def)
qed

section \<open>Witnesses\<close>

definition wfdemo_req :: "rat ApprovalRequest" where
  "wfdemo_req = \<lparr>ar_ID = 4, ar_ActionType = ActionTerminate, ar_SubscriberID = 1, ar_Amount = None, ar_Reason = ''moved'',
     ar_Status = StatusPending, ar_RequestedBy = ''bob'', ar_DecidedBy = None, ar_DecisionReason = None,
     ar_ExecutionError = None, ar_LedgerEntryID = None\<rparr>"

definition demo_live :: live_row where
  "demo_live = \<lparr>lv_subscriber = 1, lv_session = ''s1'', lv_nas = ''10.0.0.1'', lv_assigned = ''10.1.0.9'', lv_in = 0, lv_out = 0,
     lv_total = 0, lv_speed = ''50M/50M'', lv_throttled = False, lv_started = 5, lv_updated = 8\<rparr>"

definition wfdemo :: "rat workflow" where
  "wfdemo = \<lparr>wf_fup = fdemo\<lparr>fu_net := (acdemo_net [])\<lparr>live := [demo_live]\<rparr>\<rparr>, wf_approvals = [wfdemo_req], wf_approval_seq = 5, wf_refunds = [],
     wf_refund_seq = 1, wf_tasks = [], wf_task_seq = 1,
     wf_devices = [\<lparr>dv_serial = ''ONT7'', dv_type = ''ont'', dv_status = ''issued'', dv_subscriber = Some 1\<rparr>],
     wf_verifiers = [\<lparr>pv_SubscriberID = 1, pv_Username = ''asha'', pv_Verifier = [], pv_ExpiresAt = 99\<rparr>], wf_events = []\<rparr>"

lemma wfdemo_sel [simp]:
  "wf_approvals wfdemo = [wfdemo_req]" "ar_ID wfdemo_req = 4" "ar_Status wfdemo_req = StatusPending"
  "ar_RequestedBy wfdemo_req = ''bob''" "ar_ActionType wfdemo_req = ActionTerminate" "ar_SubscriberID wfdemo_req = 1"
  "approval_checks wfdemo_req" "approvals_ok wfdemo" "wf_tasks wfdemo = []"
  "subscribers (wf_db wfdemo) = [dun_sub 1 Active (10 * Day)]" "sub_username (dun_sub i t e) = ''asha''"
  by (simp_all add: wfdemo_def wfdemo_req_def approval_checks_def chk_approval_distinct_approver_def
      chk_approval_amount_by_type_def approvals_ok_def dun_sub_def)

lemma wfdemo_checks: "subscriber_checks (dun_sub 1 Active (10 * Day))"
  by (simp add: dun_sub_def subscriber_checks_def chk_wallet_balance_nonneg_def chk_authorised_subscriber_is_billable_def)

lemma wfdemo_find: "find_subscriber (wf_db wfdemo) 1 = Some (dun_sub 1 Active (10 * Day))"
  by (simp add: find_subscriber_def)

theorem approvals_execute_once_witness:
  "\<exists>c. wf_step\<^sup>*\<^sup>* \<lparr>cf_st = wfdemo, cf_procs = [], cf_log = []\<rparr> c \<and> map ar_ID (cf_log c) = [4]
     \<and> map ar_DecidedBy (cf_log c) = [Some ''eve''] \<and> filter (\<lambda>r. ar_Status r = StatusPending) (wf_approvals (cf_st c)) = []"
proof -
  let ?pg = "rat_pg no_faults"
  let ?r = "wfdemo_req\<lparr>ar_Status := StatusApproved, ar_DecidedBy := Some ''eve''\<rparr>"
  let ?c0 = "\<lparr>cf_st = wfdemo, cf_procs = [], cf_log = []\<rparr>"
  let ?c1 = "?c0\<lparr>cf_procs := [ApproveReady 4 ''eve'']\<rparr>"
  have claim: "ClaimApprovalRequest ?pg wfdemo 4 ''eve'' = (wfdemo\<lparr>wf_approvals := [?r]\<rparr>, Inr (Some ?r))"
    by (simp add: ClaimApprovalRequest_def decide_def Let_def guardE_def wfdemo_req_def approval_checks_def
        chk_approval_distinct_approver_def chk_approval_amount_by_type_def rat_pg_def stmt_def)
  let ?c2 = "\<lparr>cf_st = wfdemo\<lparr>wf_approvals := [?r]\<rparr>, cf_procs = [Claimed ''eve'' ?r], cf_log = []\<rparr>"
  obtain st l e where act: "performGatedAction ?pg 9 ''eve'' ?r (wfdemo\<lparr>wf_approvals := [?r]\<rparr>) = (st, l, e)" by (metis prod_cases3)
  let ?c3 = "\<lparr>cf_st = st, cf_procs = [Acted ?r e l], cf_log = [?r]\<rparr>"
  have "GetApprovalRequest ?pg wfdemo 4 = Inr (Some wfdemo_req)"
    by (simp add: GetApprovalRequest_def rat_pg_def stmt_def)
  then have "wf_step ?c0 ?c1"
    using wf_step.validated [of ?pg ?c0 4 wfdemo_req "''eve''" "ApproveReady 4 ''eve''"] by (simp add: ValidateDecision_def)
  moreover have "wf_step ?c1 ?c2"
    using wf_step.claimed [of ?c1 "[]" 4 "''eve''" "[]" ?pg] claim by simp
  moreover have "wf_step ?c2 ?c3" using wf_step.acted [of ?c2 "[]" "''eve''" ?r "[]" ?pg 9] act by simp
  ultimately have run: "wf_step\<^sup>*\<^sup>* ?c0 ?c3" by simp
  have "wf_approvals st = [?r]" using perform_approvals [OF act] by simp
  then show ?thesis using approvals_execute_once [OF _ run] run by (intro exI [of _ ?c3]) simp
qed

theorem approved_termination_effects_witness:
  "\<exists>st' r'. ApproveRequest (rat_pg no_faults) 9 (Some 4) ''eve'' wfdemo = (st', Body r') \<and> ar_Status r' = StatusExecuted
     \<and> map_option sub_status (find_subscriber (wf_db st') 1) = Some Terminated \<and> map ft_Title (wf_tasks st') = [''Recover CPE ONT7 from asha'']
     \<and> pod_queued st' 1"
proof -
  have "pg_faults (rat_pg no_faults) = no_faults" by (simp add: rat_pg_def)
  moreover have "issued_to wfdemo 1 = [\<lparr>dv_serial = ''ONT7'', dv_type = ''ont'', dv_status = ''issued'', dv_subscriber = Some 1\<rparr>]"
    by (simp add: issued_to_def wfdemo_def)
  moreover have "live (fu_net (wf_fup wfdemo)) = [demo_live]" by (simp add: wfdemo_def)
  moreover have "lv_subscriber demo_live = 1 \<and> 9 - SessionTTL < lv_updated demo_live"
    by (simp add: demo_live_def SessionTTL_def clock_defs)
  ultimately show ?thesis
    using approved_termination_effects [of "rat_pg no_faults" wfdemo wfdemo_req "''eve''" "dun_sub 1 Active (10 * Day)" 9]
      wfdemo_find wfdemo_checks by auto
qed

theorem direct_update_bypasses_approval_witness:
  "\<exists>st'. UpdateSubscriber (rat_pg no_faults) (Some 1) (Some (None, Some ''terminated'', None)) wfdemo
       = (st', Body (Some (dun_sub 1 Terminated (10 * Day))))
     \<and> wf_approvals st' = [wfdemo_req] \<and> wf_verifiers st' = wf_verifiers wfdemo"
proof -
  let ?s = "dun_sub 1 Active (10 * Day)"
  have nf: "pg_faults (rat_pg no_faults) = no_faults" by (simp add: rat_pg_def)
  have parse: "parse_status ''terminated'' = Some Terminated" by (simp add: parse_status_def)
  have row: "?s\<lparr>sub_status := Terminated\<rparr> = dun_sub 1 Terminated (10 * Day)" "sub_expiry ?s \<noteq> None" by (simp_all add: dun_sub_def)
  have rows: "\<forall>q \<in> set (subscribers (wf_db wfdemo)). subscriber_checks q" "\<forall>q \<in> set (subscribers (wf_db wfdemo)). sub_id q = 1 \<longrightarrow> q = ?s"
    using wfdemo_checks by simp_all
  from direct_update_bypasses_approval [OF nf wfdemo_find rows(1) parse row(2) rows(2)] row(1) wfdemo_sel(1)
  show ?thesis by metis
qed

end
