(* ===== verification/AuthCache.thy ===== *)
theory AuthCache
  imports Radius
begin

text \<open>
  The read-through cache between the RADIUS daemon and the subscriber lookup:
  \<open>src/internal/cache/subscriber.go\<close>, over the TTL map of \<open>LocalCache\<close>. The daemon is given this cache
  as its lookup (\<open>src/cmd/radiusd/main.go\<close>), so what it decides on may be as old as the cache allows;
  the theorems bound that age.

  A lookup reads the clock twice, when it asks the map and when it stores an answer; the database is
  read in between. The hit and miss counters are not state, and the map has no sweeper (interval 0).
\<close>

section \<open>The cache\<close>

definition DefaultSubscriberTTL :: duration where "DefaultSubscriberTTL = 60 * Second"

definition SubscriberCacheKey :: "string \<Rightarrow> string" where
  "SubscriberCacheKey username = ''subscriber:auth:'' @ username"

record cachedSubscriber = Subscriber +
  ca_NotFound :: bool

record SubscriberCache =
  sc_store :: "cachedSubscriber Store"
  sc_ttl :: duration

definition NewSubscriberCache :: "duration \<Rightarrow> SubscriberCache" where
  "NewSubscriberCache ttl = \<lparr>sc_store = New_Store, sc_ttl = (if ttl \<le> 0 then DefaultSubscriberTTL else ttl)\<rparr>"

text \<open>An entry of the answer, and the answer of an entry.\<close>

definition cached_entry :: "string \<Rightarrow> Subscriber option \<Rightarrow> cachedSubscriber" where
  "cached_entry username sub =
     (case sub of
        None \<Rightarrow> \<lparr>s_ID = 0, s_Username = username, s_PasswordHash = [], s_Status = [], s_RateLimitStr = [], s_FUPActive = False,
                 s_FUPThrottle = [], s_SpeedOverrideRateLimit = [], s_SpeedOverrideExpiresAt = None, s_PlanID = 0, s_NTHash = [],
                 s_VolumeGB = 0, ca_NotFound = True\<rparr>
      | Some x \<Rightarrow> Subscriber.extend x \<lparr>ca_NotFound = False\<rparr>)"

definition entry_answer :: "cachedSubscriber \<Rightarrow> Subscriber option" where
  "entry_answer e = (if ca_NotFound e then None else Some (Subscriber.truncate e))"

definition cacheResult :: "time \<Rightarrow> string \<Rightarrow> Subscriber option \<Rightarrow> string \<Rightarrow> SubscriberCache \<Rightarrow> SubscriberCache" where
  "cacheResult now key sub username c =
     (let entry = cached_entry username sub;
          ttl = (if ca_NotFound entry then max (go_div (sc_ttl c) 4) Second else sc_ttl c)
      in c\<lparr>sc_store := Store_Set now (sc_store c) key entry ttl\<rparr>)"

definition Cache_GetSubscriberByUsername ::
  "time \<Rightarrow> time \<Rightarrow> (string \<Rightarrow> string + Subscriber option) \<Rightarrow> SubscriberCache \<Rightarrow> string \<Rightarrow> SubscriberCache \<times> (string + Subscriber option)" where
  "Cache_GetSubscriberByUsername now now' db c username =
     (let key = SubscriberCacheKey username in
      case Store_Get now (sc_store c) key of
        Some entry \<Rightarrow> (c, Inr (entry_answer entry))
      | None \<Rightarrow>
          (case db username of
             Inl e \<Rightarrow> (c, Inl e)
           | Inr sub \<Rightarrow> (cacheResult now' key sub username c, Inr sub)))"

definition Cache_InvalidateSubscriber :: "SubscriberCache \<Rightarrow> string \<Rightarrow> SubscriberCache" where
  "Cache_InvalidateSubscriber c username = c\<lparr>sc_store := Store_Delete (sc_store c) (SubscriberCacheKey username)\<rparr>"

section \<open>Runs\<close>

text \<open>
  What reaches the cache, in order: a lookup between two instants, with the answer the database would
  give it, or an invalidation.
\<close>

datatype cache_event = Lookup time time string "string + Subscriber option" | Invalidate string

fun cache_event_run :: "cache_event \<Rightarrow> SubscriberCache \<Rightarrow> SubscriberCache" where
  "cache_event_run (Lookup t t' u a) c = fst (Cache_GetSubscriberByUsername t t' (\<lambda>_. a) c u)"
| "cache_event_run (Invalidate u) c = Cache_InvalidateSubscriber c u"

definition cache_run :: "cache_event list \<Rightarrow> SubscriberCache \<Rightarrow> SubscriberCache" where
  "cache_run evs c = fold cache_event_run evs c"

lemma entry_answer_cached [simp]: "entry_answer (cached_entry u sub) = sub"
  by (cases sub) (simp_all add: entry_answer_def cached_entry_def Subscriber.extend_def Subscriber.truncate_def)

lemma key_inj [simp]: "SubscriberCacheKey u = SubscriberCacheKey v \<longleftrightarrow> u = v"
  by (simp add: SubscriberCacheKey_def)

lemma cache_ttl_kept: "sc_ttl (cache_event_run ev c) = sc_ttl c"
  by (cases ev) (auto simp: Cache_GetSubscriberByUsername_def cacheResult_def Cache_InvalidateSubscriber_def Let_def split: option.split sum.split)

text \<open>An entry was stored by a lookup of its own name that the database answered, no later invalidation dropped it, and it lives for at most the TTL.\<close>

definition sourced :: "cache_event list \<Rightarrow> duration \<Rightarrow> string \<Rightarrow> cachedSubscriber entry \<Rightarrow> bool" where
  "sourced evs ttl u e =
     (\<exists>pre t t' rest. evs = pre @ Lookup t t' u (Inr (entry_answer (val e))) # rest \<and> Invalidate u \<notin> set rest \<and> expires e \<le> t' + ttl)"

lemma sourced_snoc: "sourced evs ttl u e \<Longrightarrow> ev \<noteq> Invalidate u \<Longrightarrow> sourced (evs @ [ev]) ttl u e"
  unfolding sourced_def by (metis Un_iff append_Cons append_assoc empty_iff insert_iff list.set(1,2) set_append)

lemma go_div_quarter: "0 < ttl \<Longrightarrow> go_div ttl 4 \<le> ttl"
  by (simp add: go_div_def)

lemma cache_sourced:
  assumes "Second \<le> sc_ttl c" and "sc_store c = []"
  shows "map_of (sc_store (cache_run evs c)) (SubscriberCacheKey u) = Some e \<Longrightarrow> sourced evs (sc_ttl c) u e"
    and "sc_ttl (cache_run evs c) = sc_ttl c"
proof (induction evs arbitrary: e rule: rev_induct)
  case Nil
  {
    case 1
    then show ?case using assms(2) by (simp add: cache_run_def)
  next
    case 2
    then show ?case by (simp add: cache_run_def)
  }
next
  case (snoc ev evs)
  let ?c = "cache_run evs c"
  have run: "cache_run (evs @ [ev]) c = cache_event_run ev ?c" by (simp add: cache_run_def)
  {
    case 2
    then show ?case using snoc(2) by (simp add: run cache_ttl_kept)
  next
    case 1
    then have m: "map_of (sc_store (cache_event_run ev ?c)) (SubscriberCacheKey u) = Some e" by (simp add: run)
    show ?case
    proof (cases ev)
      case (Invalidate v)
      with m have "v \<noteq> u" "map_of (sc_store ?c) (SubscriberCacheKey u) = Some e"
        by (auto simp: Cache_InvalidateSubscriber_def Store_Delete_def delete_conv' split: if_splits)
      then show ?thesis using snoc(1) Invalidate by (intro sourced_snoc) auto
    next
      case (Lookup t t' v a)
      show ?thesis
      proof (cases "map_of (sc_store ?c) (SubscriberCacheKey u) = Some e")
        case True
        then show ?thesis using snoc(1) Lookup by (intro sourced_snoc) auto
      next
        case False
        with m Lookup obtain sub where a: "a = Inr sub" "v = u" "val e = cached_entry u sub"
          "expires e = t' + (if ca_NotFound (cached_entry u sub) then max (go_div (sc_ttl ?c) 4) Second else sc_ttl ?c)"
          by (auto simp: Cache_GetSubscriberByUsername_def cacheResult_def Let_def Store_Set_def update_conv'
              split: option.splits sum.splits if_splits)
        have "0 < sc_ttl c" using assms(1) by (simp add: Second_def)
        then have "expires e \<le> t' + sc_ttl c" using a(4) go_div_quarter assms(1) by (simp add: snoc(2))
        then show ?thesis unfolding sourced_def Lookup using a by (intro exI [of _ evs] exI [of _ t] exI [of _ t'] exI [of _ "[]"]) simp
      qed
    qed
  }
qed

text \<open>
  An answer the cache gives is the database's own, or one the database gave to an earlier lookup of the
  same name, stored at most a TTL ago and not invalidated since.
\<close>

lemma cached_answer_recent:
  assumes "Second \<le> ttl" and "Cache_GetSubscriberByUsername now now' db (cache_run evs (NewSubscriberCache ttl)) u = (c', Inr r)"
  obtains "db u = Inr r"
  | pre t t' rest where "evs = pre @ Lookup t t' u (Inr r) # rest" "Invalidate u \<notin> set rest" "now \<le> t' + ttl"
proof -
  have new: "sc_ttl (NewSubscriberCache ttl) = ttl" "sc_store (NewSubscriberCache ttl) = []"
    using assms(1) by (simp_all add: NewSubscriberCache_def New_Store_def Second_def)
  show thesis
  proof (cases "Store_Get now (sc_store (cache_run evs (NewSubscriberCache ttl))) (SubscriberCacheKey u)")
    case None
    with assms(2) that(1) show thesis by (auto simp: Cache_GetSubscriberByUsername_def Let_def split: sum.splits)
  next
    case (Some x)
    then obtain e where e: "map_of (sc_store (cache_run evs (NewSubscriberCache ttl))) (SubscriberCacheKey u) = Some e"
      "val e = x" "now \<le> expires e" by (auto simp: Store_Get_def split: option.splits if_splits)
    from Some assms(2) have "r = entry_answer x" by (auto simp: Cache_GetSubscriberByUsername_def Let_def)
    with cache_sourced(1) [OF _ new(2) e(1)] assms(1) e(2,3) new(1) show thesis
      by (auto simp: sourced_def intro: that(2) order_trans)
  qed
qed

end
