(* ===== verification/GeneralLedger.thy ===== *)
theory GeneralLedger
  imports Workflow "HOL-Library.Char_ord" "HOL-Library.List_Lexorder" "HOL-Library.Product_Lexorder"
begin

text \<open>
  The general ledger and the purchase orders that post to it: \<open>src/internal/ledger/ledger.go\<close>,
  \<open>src/internal/db/ledger.go\<close>, \<open>src/internal/api/ledger.go\<close>, the views of \<open>src/migrations/043_create_general_ledger.sql\<close>,
  \<open>src/internal/procurement/procurement.go\<close>, \<open>src/internal/db/procurement.go\<close> and \<open>src/internal/api/procurement.go\<close>.

  The journal and the codes of the chart are tables of \<open>Schema\<close>, which the wallet and the commission
  postings also write; the columns only this component reads (an account's name, type and side, the
  date of an entry) are functions of the row id. Amounts arrive as text: reading them as a decimal and
  casting them to a numeric are parameters, and so is the comparison of the floating-point sum.
\<close>

section \<open>The chart of accounts\<close>

definition TypeAsset :: string where "TypeAsset = ''asset''"
definition TypeLiability :: string where "TypeLiability = ''liability''"
definition TypeEquity :: string where "TypeEquity = ''equity''"
definition TypeIncome :: string where "TypeIncome = ''income''"
definition TypeExpense :: string where "TypeExpense = ''expense''"
definition BalanceDebit :: string where "BalanceDebit = ''debit''"
definition BalanceCredit :: string where "BalanceCredit = ''credit''"

lemmas account_types = TypeAsset_def TypeLiability_def TypeEquity_def TypeIncome_def TypeExpense_def

definition ValidAccountType :: "string \<Rightarrow> bool" where
  "ValidAccountType t = (t \<in> {TypeAsset, TypeLiability, TypeEquity, TypeIncome, TypeExpense})"

definition NormalBalanceFor :: "string \<Rightarrow> string" where
  "NormalBalanceFor accountType = (if accountType \<in> {TypeAsset, TypeExpense} then BalanceDebit else BalanceCredit)"

record Account =
  ac_ID :: int
  ac_Code :: string
  ac_Name :: string
  ac_AccountType :: string
  ac_NormalBalance :: string
  ac_IsActive :: bool

record NewJournalLine =
  nl_AccountID :: int
  nl_Debit :: string
  nl_Credit :: string

record NewJournalEntry =
  ne_Description :: string
  ne_Lines :: "NewJournalLine list"
  ne_CreatedBy :: string

record 'd JournalLine =
  jl_AccountID :: int
  jl_AccountCode :: string
  jl_AccountName :: string
  jl_Debit :: 'd
  jl_Credit :: 'd

record 'd JournalEntry =
  je_ID :: int
  je_EntryDate :: time
  je_Description :: string
  je_SourceType :: string
  je_CreatedBy :: string
  je_Lines :: "'d JournalLine list"

record 'd TrialBalanceRow =
  tb_AccountID :: int
  tb_Code :: string
  tb_AccountType :: string
  tb_NormalBalance :: string
  tb_DebitTotal :: 'd
  tb_CreditTotal :: 'd
  tb_Balance :: 'd

record 'd StatementRow =
  sr_AccountID :: int
  sr_Code :: string
  sr_AccountType :: string
  sr_Amount :: 'd

section \<open>Purchase orders\<close>

record 'd PurchaseOrder =
  po_ID :: int
  po_Description :: string
  po_Vendor :: string
  po_Category :: string
  po_Amount :: 'd
  po_Status :: string
  po_RequestedBy :: string
  po_DecidedBy :: "string option"
  po_DecisionReason :: "string option"
  po_CreatedAt :: time
  po_DecidedAt :: "time option"
  po_ReceivedAt :: "time option"

record 'd books =
  bk_db :: "'d db"
  bk_account :: "int \<Rightarrow> Account"
  bk_account_seq :: int
  bk_entry_date :: "int \<Rightarrow> time"
  bk_orders :: "'d PurchaseOrder list"
  bk_order_seq :: int

text \<open>What is not of this repository: reading a decimal, casting text to a numeric, and the floating-point comparison.\<close>

record 'd amount_text =
  NewFromString :: "string \<Rightarrow> 'd option"
  cast_numeric :: "string \<Rightarrow> 'd option"
  float_imbalance :: "'d list \<Rightarrow> bool"

section \<open>The ledger store\<close>

text \<open>A row of the chart: its code and id are in \<open>chart_of_accounts\<close>, the rest by id.\<close>

definition account_row :: "'d books \<Rightarrow> string \<times> int \<Rightarrow> Account" where
  "account_row s x = (bk_account s (snd x))\<lparr>ac_ID := snd x, ac_Code := fst x\<rparr>"

definition CreateAccount :: "'d pg \<Rightarrow> Account \<Rightarrow> 'd books \<Rightarrow> 'd books \<times> (err + Account)" where
  "CreateAccount pg a s =
     (let i = bk_account_seq s; row = a\<lparr>ac_ID := i, ac_IsActive := True\<rparr> in
      case bindE (stmt pg ''create ledger account'') (\<lambda>_.
           bindE (guardE (ValidAccountType (ac_AccountType a)) (ErrCheck ''account_type'')) (\<lambda>_.
           bindE (guardE (ac_NormalBalance a \<in> {BalanceDebit, BalanceCredit}) (ErrCheck ''normal_balance'')) (\<lambda>_.
           bindE (guardE (i \<notin> snd ` set (chart_of_accounts (bk_db s))) (ErrUnique ''chart_of_accounts_pkey'')) (\<lambda>_.
             guardE (ac_Code a \<notin> fst ` set (chart_of_accounts (bk_db s))) (ErrUnique ''chart_of_accounts_code_key''))))) of
        Inl e \<Rightarrow> (s\<lparr>bk_account_seq := i + 1\<rparr>, Inl e)
      | Inr _ \<Rightarrow>
          (s\<lparr>bk_account_seq := i + 1, bk_account := (bk_account s)(i := row),
             bk_db := (bk_db s)\<lparr>chart_of_accounts := chart_of_accounts (bk_db s) @ [(ac_Code a, i)]\<rparr>\<rparr>, Inr row))"

text \<open>Active accounts first, then by code.\<close>

definition ListAccounts :: "'d pg \<Rightarrow> 'd books \<Rightarrow> err + Account list" where
  "ListAccounts pg s =
     bindE (stmt pg ''list ledger accounts'') (\<lambda>_.
       (let rows = map (account_row s) (chart_of_accounts (bk_db s))
        in Inr (sort_key ac_Code (filter ac_IsActive rows) @ sort_key ac_Code (filter (\<lambda>a. \<not> ac_IsActive a) rows))))"

definition parseDecimal :: "'d::linordered_idom amount_text \<Rightarrow> string \<Rightarrow> err + 'd" where
  "parseDecimal tx x =
     (if x = [] then Inr 0 else case NewFromString tx x of None \<Rightarrow> Inl (Err ''db: parse numeric'') | Some d \<Rightarrow> Inr d)"

fun line_differences :: "'d::linordered_idom amount_text \<Rightarrow> NewJournalLine list \<Rightarrow> err + 'd list" where
  "line_differences tx [] = Inr []"
| "line_differences tx (l # ls) =
     bindE (parseDecimal tx (nl_Debit l)) (\<lambda>d.
     bindE (parseDecimal tx (nl_Credit l)) (\<lambda>c.
     bindE (line_differences tx ls) (\<lambda>ds. Inr ((d - c) # ds))))"

text \<open>A line: the account must exist, the amounts fit the column and the checks of the table hold.\<close>

definition insert_line ::
  "'d::linordered_idom pg \<Rightarrow> string \<Rightarrow> int \<Rightarrow> int \<Rightarrow> 'd \<Rightarrow> 'd \<Rightarrow> 'd db \<Rightarrow> err + 'd db" where
  "insert_line pg label entryID accountID debit credit db =
     bindE (stmt pg label) (\<lambda>_.
     bindE (numericE pg 14 debit) (\<lambda>d.
     bindE (numericE pg 14 credit) (\<lambda>c.
       (let line = \<lparr>gl_entry_id = entryID, gl_account = accountID, gl_debit = d, gl_credit = c\<rparr>
        in bindE (guardE (chk_gl_line line) (ErrCheck ''chk_gl_line'')) (\<lambda>_.
           bindE (guardE (accountID \<in> snd ` set (chart_of_accounts db)) (ErrCheck ''account_id'')) (\<lambda>_.
             Inr (db\<lparr>gl_lines := gl_lines db @ [line]\<rparr>)))))))"

definition castE :: "'d amount_text \<Rightarrow> string \<Rightarrow> err + 'd" where
  "castE tx x = (case cast_numeric tx x of None \<Rightarrow> Inl (Err ''invalid input syntax for type numeric'') | Some d \<Rightarrow> Inr d)"

fun insert_journal_lines ::
  "'d::linordered_idom amount_text \<Rightarrow> 'd pg \<Rightarrow> int \<Rightarrow> NewJournalLine list \<Rightarrow> 'd db \<Rightarrow> err + 'd db" where
  "insert_journal_lines tx pg entryID [] db = Inr db"
| "insert_journal_lines tx pg entryID (l # ls) db =
     bindE (castE tx (nl_Debit l)) (\<lambda>d.
     bindE (castE tx (nl_Credit l)) (\<lambda>c.
     bindE (insert_line pg ''insert journal line'' entryID (nl_AccountID l) d c db) (\<lambda>db'.
       insert_journal_lines tx pg entryID ls db')))"

text \<open>The header row. A manual entry has no source id; the column is null, here 0.\<close>

definition add_entry :: "string \<Rightarrow> string \<Rightarrow> int \<Rightarrow> string \<Rightarrow> 'd db \<Rightarrow> 'd db" where
  "add_entry description source_type source_id created_by db =
     db\<lparr>gl_entries := gl_entries db @ [\<lparr>ge_id = gl_seq db, ge_description = description, ge_source_type = source_type,
                                        ge_source_id = source_id, ge_created_by = created_by\<rparr>],
        gl_seq := gl_seq db + 1\<rparr>"

definition journal_body ::
  "'d::linordered_idom amount_text \<Rightarrow> 'd pg \<Rightarrow> NewJournalEntry \<Rightarrow> 'd db \<Rightarrow> err + ('d db \<times> int)" where
  "journal_body tx pg e db =
     bindE (stmt pg ''insert journal entry'') (\<lambda>_.
     bindE (insert_journal_lines tx pg (gl_seq db) (ne_Lines e)
              (add_entry (ne_Description e) ''manual'' 0 (ne_CreatedBy e) db)) (\<lambda>db'.
       Inr (db', gl_seq db)))"

definition journal_line :: "'d books \<Rightarrow> 'd gl_line \<Rightarrow> 'd JournalLine option" where
  "journal_line s l =
     map_option (\<lambda>x. \<lparr>jl_AccountID = gl_account l, jl_AccountCode = ac_Code (account_row s x),
                       jl_AccountName = ac_Name (account_row s x), jl_Debit = gl_debit l, jl_Credit = gl_credit l\<rparr>)
       (find (\<lambda>x. snd x = gl_account l) (chart_of_accounts (bk_db s)))"

definition GetJournalEntry :: "'d pg \<Rightarrow> 'd books \<Rightarrow> int \<Rightarrow> err + 'd JournalEntry option" where
  "GetJournalEntry pg s i =
     bindE (stmt pg ''get journal entry'') (\<lambda>_.
       case find (\<lambda>g. ge_id g = i) (gl_entries (bk_db s)) of
         None \<Rightarrow> Inr None
       | Some g \<Rightarrow>
           bindE (stmt pg ''list lines for journal entry'') (\<lambda>_.
             Inr (Some \<lparr>je_ID = i, je_EntryDate = bk_entry_date s i, je_Description = ge_description g,
                        je_SourceType = ge_source_type g, je_CreatedBy = ge_created_by g,
                        je_Lines = List.map_filter (journal_line s) (filter (\<lambda>l. gl_entry_id l = i) (gl_lines (bk_db s)))\<rparr>)))"

text \<open>The entry is read back once it is committed; a failure there is reported with the entry in place.\<close>

definition PostJournalEntry ::
  "'d::linordered_idom amount_text \<Rightarrow> 'd pg \<Rightarrow> time \<Rightarrow> NewJournalEntry \<Rightarrow> 'd books \<Rightarrow>
     'd books \<times> (err + 'd JournalEntry option)" where
  "PostJournalEntry tx pg now e s =
     (case line_differences tx (ne_Lines e) of
        Inl x \<Rightarrow> (s, Inl x)
      | Inr ds \<Rightarrow>
          if float_imbalance tx ds then (s, Inl (Err ''db: journal entry does not balance''))
          else case inTx pg (journal_body tx pg e) (bk_db s) of
            (db', Inl x) \<Rightarrow> (s\<lparr>bk_db := db'\<rparr>, Inl x)
          | (db', Inr entryID) \<Rightarrow>
              (let s' = s\<lparr>bk_db := db', bk_entry_date := (bk_entry_date s)(entryID := now)\<rparr>
               in (s', GetJournalEntry pg s' entryID)))"

definition ListJournalEntries :: "'d pg \<Rightarrow> 'd books \<Rightarrow> int \<Rightarrow> err + gl_entry list" where
  "ListJournalEntries pg s most =
     bindE (stmt pg ''list journal entries'') (\<lambda>_.
       Inr (take (nat (if most \<le> 0 then 100 else most))
              (sort_key (\<lambda>g. (- bk_entry_date s (ge_id g), - ge_id g)) (gl_entries (bk_db s)))))"

section \<open>The views\<close>

definition account_debits :: "'d::linordered_idom gl_line list \<Rightarrow> int \<Rightarrow> 'd" where
  "account_debits ls i = sum_list (map gl_debit (filter (\<lambda>l. gl_account l = i) ls))"

definition account_credits :: "'d::linordered_idom gl_line list \<Rightarrow> int \<Rightarrow> 'd" where
  "account_credits ls i = sum_list (map gl_credit (filter (\<lambda>l. gl_account l = i) ls))"

text \<open>The side an account reads positive on.\<close>

definition oriented :: "string \<Rightarrow> 'd::linordered_idom \<Rightarrow> 'd \<Rightarrow> 'd" where
  "oriented normal debits credits = (if normal = BalanceDebit then debits - credits else credits - debits)"

definition v_gl_trial_balance :: "'d::linordered_idom books \<Rightarrow> 'd TrialBalanceRow list" where
  "v_gl_trial_balance s =
     map (\<lambda>x. let a = account_row s x; ls = gl_lines (bk_db s);
                  d = account_debits ls (ac_ID a); c = account_credits ls (ac_ID a)
              in \<lparr>tb_AccountID = ac_ID a, tb_Code = ac_Code a, tb_AccountType = ac_AccountType a,
                  tb_NormalBalance = ac_NormalBalance a, tb_DebitTotal = d, tb_CreditTotal = c,
                  tb_Balance = oriented (ac_NormalBalance a) d c\<rparr>)
       (chart_of_accounts (bk_db s))"

text \<open>The lines of the entries whose date satisfies \<open>P\<close>, and the movement of an account in them.\<close>

definition dated_lines :: "'d books \<Rightarrow> (time \<Rightarrow> bool) \<Rightarrow> 'd gl_line list" where
  "dated_lines s P = filter (\<lambda>l. P (bk_entry_date s (gl_entry_id l))) (gl_lines (bk_db s))"

definition statement_row :: "'d::linordered_idom books \<Rightarrow> (time \<Rightarrow> bool) \<Rightarrow> string \<times> int \<Rightarrow> 'd StatementRow" where
  "statement_row s P x =
     (let a = account_row s x; d = account_debits (dated_lines s P) (ac_ID a); c = account_credits (dated_lines s P) (ac_ID a)
      in \<lparr>sr_AccountID = ac_ID a, sr_Code = ac_Code a, sr_AccountType = ac_AccountType a,
          sr_Amount = (if ac_NormalBalance a = BalanceCredit then c - d else d - c)\<rparr>)"

definition gl_income_statement :: "'d::linordered_idom books \<Rightarrow> time \<Rightarrow> time \<Rightarrow> 'd StatementRow list" where
  "gl_income_statement s from_date to_date =
     map (statement_row s (\<lambda>t. from_date \<le> t \<and> t < to_date))
       (filter (\<lambda>x. ac_AccountType (account_row s x) \<in> {TypeIncome, TypeExpense}) (chart_of_accounts (bk_db s)))"

definition gl_balance_sheet :: "'d::linordered_idom books \<Rightarrow> time \<Rightarrow> 'd StatementRow list" where
  "gl_balance_sheet s as_of =
     map (statement_row s (\<lambda>t. t < as_of))
       (filter (\<lambda>x. ac_AccountType (account_row s x) \<in> {TypeAsset, TypeLiability, TypeEquity}) (chart_of_accounts (bk_db s)))"

definition TrialBalance :: "'d::linordered_idom pg \<Rightarrow> 'd books \<Rightarrow> err + 'd TrialBalanceRow list" where
  "TrialBalance pg s = bindE (stmt pg ''trial balance'') (\<lambda>_. Inr (sort_key tb_Code (v_gl_trial_balance s)))"

definition IncomeStatement :: "'d::linordered_idom pg \<Rightarrow> 'd books \<Rightarrow> time \<Rightarrow> time \<Rightarrow> err + 'd StatementRow list" where
  "IncomeStatement pg s from_date to_date =
     bindE (stmt pg ''ledger statement query'') (\<lambda>_. Inr (gl_income_statement s from_date to_date))"

definition BalanceSheet :: "'d::linordered_idom pg \<Rightarrow> 'd books \<Rightarrow> time \<Rightarrow> err + 'd StatementRow list" where
  "BalanceSheet pg s as_of = bindE (stmt pg ''ledger statement query'') (\<lambda>_. Inr (gl_balance_sheet s as_of))"

section \<open>The ledger handlers\<close>

text \<open>A body that does not decode is \<open>None\<close>; the stores are configured.\<close>

record createAccountRequest =
  car_Code :: string
  car_Name :: string
  car_AccountType :: string
  car_NormalBalance :: string

definition CreateLedgerAccount ::
  "'d pg \<Rightarrow> createAccountRequest option \<Rightarrow> 'd books \<Rightarrow> 'd books \<times> Account response" where
  "CreateLedgerAccount pg body s =
     (case body of
        None \<Rightarrow> (s, Status 400)
      | Some req \<Rightarrow>
          if car_Code req = [] \<or> car_Name req = [] then (s, Status 422)
          else if \<not> ValidAccountType (car_AccountType req) then (s, Status 422)
          else if car_NormalBalance req \<noteq> [] \<and> car_NormalBalance req \<noteq> BalanceDebit \<and> car_NormalBalance req \<noteq> BalanceCredit
          then (s, Status 422)
          else let normalBalance = (if car_NormalBalance req = [] then NormalBalanceFor (car_AccountType req) else car_NormalBalance req)
               in case CreateAccount pg \<lparr>ac_ID = 0, ac_Code = car_Code req, ac_Name = car_Name req,
                          ac_AccountType = car_AccountType req, ac_NormalBalance = normalBalance, ac_IsActive = False\<rparr> s of
                    (s', Inl (ErrUnique _)) \<Rightarrow> (s', Status 409)
                  | (s', Inl _) \<Rightarrow> (s', Status 500)
                  | (s', Inr a) \<Rightarrow> (s', Body a))"

definition emptyIsZero :: "string \<Rightarrow> string" where
  "emptyIsZero x = (if x = [] then ''0'' else x)"

definition api_PostJournalEntry ::
  "'d::linordered_idom amount_text \<Rightarrow> 'd pg \<Rightarrow> time \<Rightarrow> string \<Rightarrow> (string \<times> NewJournalLine list) option \<Rightarrow> 'd books \<Rightarrow>
     'd books \<times> 'd JournalEntry option response" where
  "api_PostJournalEntry tx pg now actor body s =
     (case body of
        None \<Rightarrow> (s, Status 400)
      | Some (description, ls) \<Rightarrow>
          if description = [] then (s, Status 422)
          else if length ls < 2 then (s, Status 422)
          else if \<exists>l \<in> set ls. nl_AccountID l \<le> 0 then (s, Status 422)
          else case PostJournalEntry tx pg now
                      \<lparr>ne_Description = description,
                       ne_Lines = map (\<lambda>l. l\<lparr>nl_Debit := emptyIsZero (nl_Debit l), nl_Credit := emptyIsZero (nl_Credit l)\<rparr>) ls,
                       ne_CreatedBy = actor\<rparr> s of
                 (s', Inl _) \<Rightarrow> (s', Status 422)
               | (s', Inr e) \<Rightarrow> (s', Body e))"

definition api_GetJournalEntry :: "'d pg \<Rightarrow> 'd books \<Rightarrow> int option \<Rightarrow> 'd JournalEntry response" where
  "api_GetJournalEntry pg s path =
     (case path of
        None \<Rightarrow> Status 400
      | Some i \<Rightarrow>
          (case GetJournalEntry pg s i of
             Inl _ \<Rightarrow> Status 500
           | Inr None \<Rightarrow> Status 404
           | Inr (Some e) \<Rightarrow> Body e))"

section \<open>The purchase-order store\<close>

definition StatusRequested :: string where "StatusRequested = ''requested''"
definition StatusApproved :: string where "StatusApproved = ''approved''"
definition StatusRejected :: string where "StatusRejected = ''rejected''"
definition StatusOrdered :: string where "StatusOrdered = ''ordered''"
definition StatusReceived :: string where "StatusReceived = ''received''"
definition StatusCancelled :: string where "StatusCancelled = ''cancelled''"

lemmas po_statuses = StatusRequested_def StatusApproved_def StatusRejected_def StatusOrdered_def StatusReceived_def StatusCancelled_def

definition ValidCategory :: "string \<Rightarrow> bool" where
  "ValidCategory c = (c \<in> {''hardware'', ''services'', ''other''})"

definition ValidFulfilmentStatus :: "string \<Rightarrow> bool" where
  "ValidFulfilmentStatus x = (x \<in> {StatusOrdered, StatusReceived, StatusCancelled})"

definition po_status_check :: "string \<Rightarrow> bool" where
  "po_status_check x = (x \<in> {StatusRequested, StatusApproved, StatusRejected, StatusOrdered, StatusReceived, StatusCancelled})"

definition chk_po_distinct_approver :: "'d PurchaseOrder \<Rightarrow> bool" where
  "chk_po_distinct_approver po = (po_DecidedBy po \<noteq> Some (po_RequestedBy po))"

record NewPurchaseOrder =
  np_Description :: string
  np_Vendor :: string
  np_Category :: string
  np_Amount :: string
  np_RequestedBy :: string

definition store_CreatePurchaseOrder ::
  "'d::linordered_idom amount_text \<Rightarrow> 'd pg \<Rightarrow> time \<Rightarrow> NewPurchaseOrder \<Rightarrow> 'd books \<Rightarrow> 'd books \<times> (err + 'd PurchaseOrder)" where
  "store_CreatePurchaseOrder tx pg now n s =
     (case bindE (stmt pg ''create purchase order'') (\<lambda>_.
           bindE (castE tx (np_Amount n)) (\<lambda>x.
           bindE (numericE pg 12 x) (\<lambda>amt.
           bindE (guardE (0 \<le> amt) (ErrCheck ''amount'')) (\<lambda>_.
           bindE (guardE (ValidCategory (np_Category n)) (ErrCheck ''category'')) (\<lambda>_. Inr amt))))) of
        Inl e \<Rightarrow> (s\<lparr>bk_order_seq := bk_order_seq s + 1\<rparr>, Inl e)
      | Inr amt \<Rightarrow>
          (let po = \<lparr>po_ID = bk_order_seq s, po_Description = np_Description n, po_Vendor = np_Vendor n,
                     po_Category = np_Category n, po_Amount = amt, po_Status = StatusRequested,
                     po_RequestedBy = np_RequestedBy n, po_DecidedBy = None, po_DecisionReason = None,
                     po_CreatedAt = now, po_DecidedAt = None, po_ReceivedAt = None\<rparr>
           in (s\<lparr>bk_orders := bk_orders s @ [po], bk_order_seq := bk_order_seq s + 1\<rparr>, Inr po)))"

definition store_ListPurchaseOrders :: "'d pg \<Rightarrow> 'd books \<Rightarrow> string option \<Rightarrow> err + 'd PurchaseOrder list" where
  "store_ListPurchaseOrders pg s status =
     bindE (stmt pg ''list purchase orders'') (\<lambda>_.
       Inr (sort_key (\<lambda>po. - po_CreatedAt po) (filter (\<lambda>po. status = None \<or> status = Some (po_Status po)) (bk_orders s))))"

definition GetPurchaseOrder :: "'d pg \<Rightarrow> 'd books \<Rightarrow> int \<Rightarrow> err + 'd PurchaseOrder option" where
  "GetPurchaseOrder pg s i =
     bindE (stmt pg ''get purchase order'') (\<lambda>_. Inr (find (\<lambda>po. po_ID po = i) (bk_orders s)))"

definition store_DecidePurchaseOrder ::
  "'d pg \<Rightarrow> time \<Rightarrow> int \<Rightarrow> bool \<Rightarrow> string \<Rightarrow> string \<Rightarrow> 'd books \<Rightarrow> 'd books \<times> (err + 'd PurchaseOrder option)" where
  "store_DecidePurchaseOrder pg now i approve decidedBy reason s =
     (let newStatus = (if approve then StatusApproved else StatusRejected);
          P = (\<lambda>po. po_ID po = i \<and> po_Status po = StatusRequested);
          f = (\<lambda>po. po\<lparr>po_Status := newStatus, po_DecidedBy := Some decidedBy, po_DecisionReason := Some reason,
                       po_DecidedAt := Some now\<rparr>)
      in case bindE (stmt pg ''decide purchase order'') (\<lambda>_.
                guardE (\<forall>po \<in> set (bk_orders s). P po \<longrightarrow> chk_po_distinct_approver (f po)) (ErrCheck ''chk_po_distinct_approver'')) of
           Inl e \<Rightarrow> (s, Inl e)
         | Inr _ \<Rightarrow> (s\<lparr>bk_orders := update_where P f (bk_orders s)\<rparr>, Inr (map_option f (find P (bk_orders s)))))"

text \<open>The entry of a received order. Its text is not read back; the source's dash is written in ASCII.\<close>

definition post_received ::
  "'d::linordered_idom pg \<Rightarrow> string \<Rightarrow> 'd PurchaseOrder \<Rightarrow> 'd db \<Rightarrow> err + 'd db" where
  "post_received pg actor po db =
     bindE (stmt pg ''insert purchase order GL journal entry'') (\<lambda>_.
       (let journalID = gl_seq db;
            db1 = add_entry (''Purchase order #'' @ show_int (po_ID po) @ '' received - '' @ po_Description po @ '' ('' @ po_Vendor po @ '')'')
                    ''purchase_order'' (po_ID po) actor db
        in bindE (glAccountID pg db1 ''5100'') (\<lambda>expenseID.
           bindE (glAccountID pg db1 ''2000'') (\<lambda>payableID.
           bindE (insert_line pg ''insert purchase order expense line'' journalID expenseID (po_Amount po) 0 db1) (\<lambda>db2.
             insert_line pg ''insert purchase order payable line'' journalID payableID 0 (po_Amount po) db2)))))"

definition UpdateFulfilment ::
  "'d::linordered_idom pg \<Rightarrow> time \<Rightarrow> int \<Rightarrow> string \<Rightarrow> string \<Rightarrow> 'd books \<Rightarrow> 'd books \<times> (err + 'd PurchaseOrder option)" where
  "UpdateFulfilment pg now i status actor s =
     (let P = (\<lambda>po. po_ID po = i \<and> po_Status po \<in> {StatusApproved, StatusRequested});
          f = (\<lambda>po. if status = StatusReceived then po\<lparr>po_Status := status, po_ReceivedAt := Some now\<rparr>
                    else po\<lparr>po_Status := status\<rparr>)
      in case inTx pg (\<lambda>db.
              bindE (stmt pg ''update purchase order fulfilment'') (\<lambda>_.
              case find P (bk_orders s) of
                None \<Rightarrow> Inr (db, None)
              | Some po \<Rightarrow>
                  bindE (guardE (po_status_check status) (ErrCheck ''status'')) (\<lambda>_.
                    if status \<noteq> StatusReceived then Inr (db, Some (f po))
                    else bindE (post_received pg actor (f po) db) (\<lambda>db'. Inr (db', Some (f po)))))) (bk_db s) of
           (db', Inl e) \<Rightarrow> (s\<lparr>bk_db := db'\<rparr>, Inl e)
         | (db', Inr None) \<Rightarrow> (s\<lparr>bk_db := db'\<rparr>, Inr None)
         | (db', Inr (Some po)) \<Rightarrow>
             (s\<lparr>bk_db := db', bk_orders := update_where P f (bk_orders s),
                bk_entry_date := (if status = StatusReceived then (bk_entry_date s)(gl_seq (bk_db s) := now) else bk_entry_date s)\<rparr>,
              Inr (Some po)))"

section \<open>The purchase-order handlers\<close>

definition CreatePurchaseOrder ::
  "'d::linordered_idom amount_text \<Rightarrow> ('d \<Rightarrow> string) \<Rightarrow> 'd pg \<Rightarrow> time \<Rightarrow> string \<Rightarrow> NewPurchaseOrder option \<Rightarrow> 'd books \<Rightarrow>
     'd books \<times> 'd PurchaseOrder response" where
  "CreatePurchaseOrder tx StringFixed2 pg now actor body s =
     (case body of
        None \<Rightarrow> (s, Status 400)
      | Some req \<Rightarrow>
          if np_Description req = [] \<or> np_Vendor req = [] then (s, Status 422)
          else if \<not> ValidCategory (np_Category req) then (s, Status 422)
          else case NewFromString tx (np_Amount req) of
            None \<Rightarrow> (s, Status 422)
          | Some amt \<Rightarrow>
              if amt < 0 then (s, Status 422)
              else case store_CreatePurchaseOrder tx pg now (req\<lparr>np_Amount := StringFixed2 amt, np_RequestedBy := actor\<rparr>) s of
                     (s', Inl _) \<Rightarrow> (s', Status 500)
                   | (s', Inr po) \<Rightarrow> (s', Body po))"

definition ListPurchaseOrders :: "'d pg \<Rightarrow> 'd books \<Rightarrow> string \<Rightarrow> 'd PurchaseOrder list response" where
  "ListPurchaseOrders pg s v =
     (case store_ListPurchaseOrders pg s (if v = [] then None else Some v) of Inl _ \<Rightarrow> Status 500 | Inr pos \<Rightarrow> Body pos)"

definition DecidePurchaseOrder ::
  "'d pg \<Rightarrow> time \<Rightarrow> string \<Rightarrow> int option \<Rightarrow> (bool \<times> string) option \<Rightarrow> 'd books \<Rightarrow> 'd books \<times> 'd PurchaseOrder response" where
  "DecidePurchaseOrder pg now actor path body s =
     (case (path, body) of
        (Some i, Some (approve, reason)) \<Rightarrow>
          if \<not> approve \<and> reason = [] then (s, Status 422)
          else (case GetPurchaseOrder pg s i of
                  Inl _ \<Rightarrow> (s, Status 500)
                | Inr None \<Rightarrow> (s, Status 404)
                | Inr (Some existing) \<Rightarrow>
                    if po_RequestedBy existing = actor then (s, Status 403)
                    else case store_DecidePurchaseOrder pg now i approve actor reason s of
                           (s', Inl _) \<Rightarrow> (s', Status 500)
                         | (s', Inr None) \<Rightarrow> (s', Status 409)
                         | (s', Inr (Some po)) \<Rightarrow> (s', Body po))
      | _ \<Rightarrow> (s, Status 400))"

definition UpdateFulfilmentStatus ::
  "'d::linordered_idom pg \<Rightarrow> time \<Rightarrow> string \<Rightarrow> int option \<Rightarrow> string option \<Rightarrow> 'd books \<Rightarrow> 'd books \<times> 'd PurchaseOrder response" where
  "UpdateFulfilmentStatus pg now actor path body s =
     (case (path, body) of
        (Some i, Some status) \<Rightarrow>
          if \<not> ValidFulfilmentStatus status then (s, Status 422)
          else (case UpdateFulfilment pg now i status actor s of
                  (s', Inl _) \<Rightarrow> (s', Status 500)
                | (s', Inr None) \<Rightarrow> (s', Status 409)
                | (s', Inr (Some po)) \<Rightarrow> (s', Body po))
      | _ \<Rightarrow> (s, Status 400))"

section \<open>What a posting writes\<close>

text \<open>Lines a transaction may add under one entry: they pass the checks and name accounts of the chart.\<close>

definition lines_for :: "'d::linordered_idom db \<Rightarrow> int \<Rightarrow> 'd gl_line list \<Rightarrow> bool" where
  "lines_for db e ls =
     (\<forall>l \<in> set ls. gl_entry_id l = e \<and> chk_gl_line l \<and> gl_account l \<in> snd ` set (chart_of_accounts db))"

lemma lines_for_simps [simp]:
  "lines_for db e []" "lines_for db e (l # m # ls) \<longleftrightarrow> lines_for db e [l] \<and> lines_for db e (m # ls)"
  "lines_for (db\<lparr>gl_lines := x\<rparr>) e ls = lines_for db e ls" "lines_for (add_entry d st i c db) e ls = lines_for db e ls"
  by (auto simp: lines_for_def add_entry_def)

lemma insert_line_Inr:
  "insert_line pg label e a debit credit db = Inr db' \<longleftrightarrow>
     pg_faults pg label = None \<and> (\<exists>l. db' = db\<lparr>gl_lines := gl_lines db @ [l]\<rparr> \<and> lines_for db e [l] \<and> gl_account l = a
       \<and> numeric pg 14 debit = Some (gl_debit l) \<and> numeric pg 14 credit = Some (gl_credit l))"
  (is "?L = ?R")
proof
  assume ?L
  then obtain d c where l: "pg_faults pg label = None" "numeric pg 14 debit = Some d" "numeric pg 14 credit = Some c"
    "chk_gl_line \<lparr>gl_entry_id = e, gl_account = a, gl_debit = d, gl_credit = c\<rparr>" "a \<in> snd ` set (chart_of_accounts db)"
    "db' = db\<lparr>gl_lines := gl_lines db @ [\<lparr>gl_entry_id = e, gl_account = a, gl_debit = d, gl_credit = c\<rparr>]\<rparr>"
    by (auto simp: insert_line_def Let_def)
  then show ?R
    by (intro conjI exI [of _ "\<lparr>gl_entry_id = e, gl_account = a, gl_debit = d, gl_credit = c\<rparr>"]) (simp_all add: lines_for_def)
next
  assume ?R
  then obtain l where l: "pg_faults pg label = None" "db' = db\<lparr>gl_lines := gl_lines db @ [l]\<rparr>" "lines_for db e [l]" "gl_account l = a"
    "numeric pg 14 debit = Some (gl_debit l)" "numeric pg 14 credit = Some (gl_credit l)" by blast
  have "l = \<lparr>gl_entry_id = e, gl_account = a, gl_debit = gl_debit l, gl_credit = gl_credit l\<rparr>"
    using l(3,4) by (simp add: lines_for_def)
  with l show ?L by (auto simp: insert_line_def Let_def lines_for_def chk_gl_line_def)
qed

text \<open>A stored line is the requested one, cast and rounded to the column.\<close>

definition stores_line :: "'d::linordered_idom amount_text \<Rightarrow> 'd pg \<Rightarrow> NewJournalLine \<Rightarrow> 'd gl_line \<Rightarrow> bool" where
  "stores_line tx pg n l =
     (gl_account l = nl_AccountID n
      \<and> Option.bind (cast_numeric tx (nl_Debit n)) (numeric pg 14) = Some (gl_debit l)
      \<and> Option.bind (cast_numeric tx (nl_Credit n)) (numeric pg 14) = Some (gl_credit l))"

lemma castE_Inr [simp]: "castE tx x = Inr d \<longleftrightarrow> cast_numeric tx x = Some d"
  by (simp add: castE_def split: option.split)

lemma insert_journal_lines_Inr:
  "insert_journal_lines tx pg e ns db = Inr db' \<Longrightarrow>
   \<exists>ls. db' = db\<lparr>gl_lines := gl_lines db @ ls\<rparr> \<and> lines_for db e ls \<and> list_all2 (stores_line tx pg) ns ls"
proof (induction ns arbitrary: db)
  case Nil
  then show ?case by (intro exI [of _ "[]"]) simp
next
  case (Cons n ns)
  then obtain d c db1 where cast: "cast_numeric tx (nl_Debit n) = Some d" "cast_numeric tx (nl_Credit n) = Some c"
    and one: "insert_line pg ''insert journal line'' e (nl_AccountID n) d c db = Inr db1"
    and rest: "insert_journal_lines tx pg e ns db1 = Inr db'" by auto
  from one obtain l where l: "db1 = db\<lparr>gl_lines := gl_lines db @ [l]\<rparr>" "lines_for db e [l]" "gl_account l = nl_AccountID n"
    "numeric pg 14 d = Some (gl_debit l)" "numeric pg 14 c = Some (gl_credit l)"
    unfolding insert_line_Inr by blast
  from Cons.IH [OF rest] obtain ls where "db' = db1\<lparr>gl_lines := gl_lines db1 @ ls\<rparr>" "lines_for db1 e ls" "list_all2 (stores_line tx pg) ns ls"
    by blast
  moreover have "stores_line tx pg n l" using l(3-5) cast by (simp add: stores_line_def)
  ultimately show ?case using l(1,2) by (intro exI [of _ "l # ls"]) (simp add: lines_for_def)
qed

text \<open>A committed posting adds one entry and its lines, and they balance.\<close>

definition posted :: "'d::linordered_idom db \<Rightarrow> 'd gl_line list \<Rightarrow> gl_entry \<Rightarrow> 'd db \<Rightarrow> bool" where
  "posted db ls g db' =
     (db' = db\<lparr>gl_entries := gl_entries db @ [g], gl_seq := gl_seq db + 1, gl_lines := gl_lines db @ ls\<rparr>
      \<and> ge_id g = gl_seq db \<and> lines_for db (gl_seq db) ls \<and> check_gl_journal_balanced db db')"

lemma journal_body_commit:
  assumes "inTx pg (journal_body tx pg e) db = (db', Inr i)"
  obtains ls g where "i = gl_seq db" "posted db ls g db'" "list_all2 (stores_line tx pg) (ne_Lines e) ls"
    "ge_source_type g = ''manual''" "ge_description g = ne_Description e" "ge_created_by g = ne_CreatedBy e"
proof -
  from assms have ins: "insert_journal_lines tx pg (gl_seq db) (ne_Lines e) (add_entry (ne_Description e) ''manual'' 0 (ne_CreatedBy e) db) = Inr db'"
    and i: "i = gl_seq db" and bal: "check_gl_journal_balanced db db'"
    by (auto simp: inTx_Inr journal_body_def)
  from insert_journal_lines_Inr [OF ins] obtain ls where
    ls: "db' = (add_entry (ne_Description e) ''manual'' 0 (ne_CreatedBy e) db)\<lparr>gl_lines := gl_lines db @ ls\<rparr>"
    "lines_for db (gl_seq db) ls" "list_all2 (stores_line tx pg) (ne_Lines e) ls" by (auto simp: add_entry_def lines_for_def)
  show thesis
    by (rule that [OF i, of ls "\<lparr>ge_id = gl_seq db, ge_description = ne_Description e, ge_source_type = ''manual'',
          ge_source_id = 0, ge_created_by = ne_CreatedBy e\<rparr>"])
       (use ls bal in \<open>simp_all add: posted_def add_entry_def\<close>)
qed

lemma PostJournalEntry_cases:
  assumes "PostJournalEntry tx pg now e s = (s', r)"
  obtains x where "s' = s" "r = Inl x"
  | ls g where "posted (bk_db s) ls g (bk_db s')" "list_all2 (stores_line tx pg) (ne_Lines e) ls"
      "ge_source_type g = ''manual''" "ge_description g = ne_Description e" "ge_created_by g = ne_CreatedBy e"
      "s' = s\<lparr>bk_db := bk_db s', bk_entry_date := (bk_entry_date s)(gl_seq (bk_db s) := now)\<rparr>"
      "r = GetJournalEntry pg s' (gl_seq (bk_db s))"
proof (cases "line_differences tx (ne_Lines e)")
  case (Inl x)
  with assms show thesis by (intro that(1)) (auto simp: PostJournalEntry_def)
next
  case (Inr ds)
  show thesis
  proof (cases "float_imbalance tx ds")
    case True
    with assms Inr show thesis by (intro that(1)) (auto simp: PostJournalEntry_def)
  next
    case False
    obtain db' q where tx: "inTx pg (journal_body tx pg e) (bk_db s) = (db', q)" by fastforce
    show thesis
    proof (cases q)
      case Inl': (Inl x)
      with tx have "db' = bk_db s" by (auto dest: inTx_Inl)
      with assms Inr False tx Inl' show thesis by (intro that(1)) (auto simp: PostJournalEntry_def)
    next
      case Inr': (Inr i)
      from tx [unfolded Inr'] show thesis
      proof (rule journal_body_commit)
        fix ls g
        assume 1: "i = gl_seq (bk_db s)" "posted (bk_db s) ls g db'" "list_all2 (stores_line tx pg) (ne_Lines e) ls"
          "ge_source_type g = ''manual''" "ge_description g = ne_Description e" "ge_created_by g = ne_CreatedBy e"
        from assms Inr False tx Inr' 1(1)
        have "s' = s\<lparr>bk_db := db', bk_entry_date := (bk_entry_date s)(gl_seq (bk_db s) := now)\<rparr>"
          and "r = GetJournalEntry pg s' (gl_seq (bk_db s))" by (auto simp: PostJournalEntry_def Let_def)
        then show thesis using 1 by (intro that(2) [of ls g]) simp_all
      qed
    qed
  qed
qed

section \<open>The books balance\<close>

text \<open>Every line names an account of the chart, and no two accounts share an id.\<close>

definition charted :: "'d db \<Rightarrow> bool" where
  "charted db = (distinct (map snd (chart_of_accounts db)) \<and> gl_account ` set (gl_lines db) \<subseteq> snd ` set (chart_of_accounts db))"

lemma charted_keep:
  "charted db \<Longrightarrow> gl_lines db' = gl_lines db \<Longrightarrow> chart_of_accounts db' = chart_of_accounts db \<Longrightarrow> charted db'"
  by (simp add: charted_def)

lemma charted_simps [simp]:
  "charted (db\<lparr>subscribers := a\<rparr>) = charted db" "charted (db\<lparr>invoices := b\<rparr>) = charted db" "charted (db\<lparr>invoice_seq := n\<rparr>) = charted db"
  "charted (db\<lparr>gl_entries := c\<rparr>) = charted db" "charted (db\<lparr>gl_seq := n\<rparr>) = charted db"
  "charted (db\<lparr>wallet_ledgers := w\<rparr>) = charted db" "charted (db\<lparr>wallet_seq := n\<rparr>) = charted db"
  by (simp_all add: charted_def)

lemma charted_line:
  "charted db \<Longrightarrow> gl_account l \<in> snd ` set (chart_of_accounts db) \<Longrightarrow> charted (db\<lparr>gl_lines := gl_lines db @ [l]\<rparr>)"
  by (auto simp: charted_def)

lemma charted_append:
  assumes "charted db" and "lines_for db e ls" and "gl_lines db' = gl_lines db @ ls" and "chart_of_accounts db' = chart_of_accounts db"
  shows "charted db'"
  using assms by (auto simp: charted_def lines_for_def)

lemma posted_keeps:
  assumes "posted db ls g db'"
  shows "gl_ok db \<Longrightarrow> gl_ok db'" and "charted db \<Longrightarrow> charted db'"
proof -
  note p = assms [unfolded posted_def]
  show "gl_ok db'" if "gl_ok db" by (rule gl_ok_append [OF that]) (use p in \<open>auto simp: lines_for_def\<close>)
  show "charted db'" if "charted db" by (rule charted_append [OF that]) (use p in auto)
qed

lemma CreateAccount_chart:
  assumes "CreateAccount pg a s = (s', r)"
  shows "bk_db s' = bk_db s
       \<or> (\<exists>i. bk_db s' = (bk_db s)\<lparr>chart_of_accounts := chart_of_accounts (bk_db s) @ [(ac_Code a, i)]\<rparr>
            \<and> i \<notin> snd ` set (chart_of_accounts (bk_db s)))"
  using assms by (auto simp: CreateAccount_def Let_def simp del: bindE_Inr split: sum.splits) (simp_all add: guardE_def split: if_splits)

lemma charted_listed:
  assumes "charted db" and "db' = db\<lparr>chart_of_accounts := chart_of_accounts db @ [(code, i)]\<rparr>" and "i \<notin> snd ` set (chart_of_accounts db)"
  shows "charted db'"
  using assms by (auto simp: charted_def)

text \<open>Summed over the chart or over the entries, the lines are all there once (\<open>sum_by_key\<close>).\<close>

lemma account_sums:
  assumes "charted db" and "set ls \<subseteq> set (gl_lines db)"
  shows "sum_list (map (\<lambda>x. account_debits ls (snd x)) (chart_of_accounts db)) = sum_list (map gl_debit ls)"
    and "sum_list (map (\<lambda>x. account_credits ls (snd x)) (chart_of_accounts db)) = sum_list (map gl_credit ls)"
proof -
  have "distinct (map snd (chart_of_accounts db))" and "\<forall>l \<in> set ls. gl_account l \<in> set (map snd (chart_of_accounts db))"
    using assms unfolding charted_def set_map by blast+
  from sum_by_key [OF this, of gl_debit] sum_by_key [OF this, of gl_credit]
  show "sum_list (map (\<lambda>x. account_debits ls (snd x)) (chart_of_accounts db)) = sum_list (map gl_debit ls)"
    and "sum_list (map (\<lambda>x. account_credits ls (snd x)) (chart_of_accounts db)) = sum_list (map gl_credit ls)"
    by (simp_all add: account_debits_def account_credits_def comp_def)
qed

text \<open>Whatever entries are selected, their lines balance.\<close>

lemma selected_balance:
  assumes "gl_ok db"
  shows "sum_list (map gl_debit (filter (\<lambda>l. P (gl_entry_id l)) (gl_lines db)))
       = sum_list (map gl_credit (filter (\<lambda>l. P (gl_entry_id l)) (gl_lines db)))"
proof -
  let ?xs = "filter (\<lambda>l. P (gl_entry_id l)) (gl_lines db)"
  let ?ks = "remdups (map gl_entry_id ?xs)"
  have "filter (\<lambda>l. gl_entry_id l = i) ?xs = (if P i then filter (\<lambda>l. gl_entry_id l = i) (gl_lines db) else [])" for i
    by (auto simp: filter_empty_conv intro: filter_cong)
  then have each: "sum_list (map gl_debit (filter (\<lambda>l. gl_entry_id l = i) ?xs)) = sum_list (map gl_credit (filter (\<lambda>l. gl_entry_id l = i) ?xs))" for i
    using assms by (simp add: gl_ok_def entry_debits_def entry_credits_def)
  have "distinct ?ks" and "\<forall>l \<in> set ?xs. gl_entry_id l \<in> set ?ks" by auto
  from sum_by_key [OF this, of gl_debit] sum_by_key [OF this, of gl_credit] show ?thesis by (simp only: each)
qed

lemma dated_balance:
  "gl_ok (bk_db s) \<Longrightarrow> sum_list (map gl_debit (dated_lines s P)) = sum_list (map gl_credit (dated_lines s P))"
  unfolding dated_lines_def by (rule selected_balance)

text \<open>The sides follow the types, as the chart's own rows and the default of a new account have it.\<close>

definition conventional :: "'d books \<Rightarrow> bool" where
  "conventional s =
     (\<forall>x \<in> set (chart_of_accounts (bk_db s)).
        ValidAccountType (ac_AccountType (account_row s x))
        \<and> ac_NormalBalance (account_row s x) = NormalBalanceFor (ac_AccountType (account_row s x)))"

definition type_total :: "string \<Rightarrow> 'd::linordered_idom StatementRow list \<Rightarrow> 'd" where
  "type_total t rows = sum_list (map sr_Amount (filter (\<lambda>r. sr_AccountType r = t) rows))"

definition movement :: "'d::linordered_idom books \<Rightarrow> (time \<Rightarrow> bool) \<Rightarrow> string \<times> int \<Rightarrow> 'd" where
  "movement s P x = account_debits (dated_lines s P) (snd x) - account_credits (dated_lines s P) (snd x)"

definition typed :: "'d books \<Rightarrow> string \<Rightarrow> (string \<times> int) list" where
  "typed s t = filter (\<lambda>x. ac_AccountType (account_row s x) = t) (chart_of_accounts (bk_db s))"

lemma statement_row_simps [simp]:
  "sr_AccountType (statement_row s P x) = ac_AccountType (account_row s x)"
  "sr_Amount (statement_row s P x) = (if ac_NormalBalance (account_row s x) = BalanceCredit then - movement s P x else movement s P x)"
  by (simp_all add: statement_row_def movement_def account_row_def Let_def)

lemma movements_cancel:
  assumes "gl_ok (bk_db s)" and "charted (bk_db s)"
  shows "sum_list (map (movement s P) (chart_of_accounts (bk_db s))) = 0"
proof -
  have "set (dated_lines s P) \<subseteq> set (gl_lines (bk_db s))" by (auto simp: dated_lines_def)
  from account_sums [OF assms(2) this] show ?thesis
    by (simp add: movement_def [abs_def] sum_list_subtractf dated_balance [OF assms(1)])
qed

lemma movements_by_type:
  assumes "conventional s"
  shows "sum_list (map (movement s P) (chart_of_accounts (bk_db s))) =
     sum_list (map (movement s P) (typed s TypeAsset)) + sum_list (map (movement s P) (typed s TypeExpense))
     + sum_list (map (movement s P) (typed s TypeLiability)) + sum_list (map (movement s P) (typed s TypeEquity))
     + sum_list (map (movement s P) (typed s TypeIncome))"
proof -
  let ?ks = "[TypeAsset, TypeExpense, TypeLiability, TypeEquity, TypeIncome]"
  have "distinct ?ks" by (simp add: account_types)
  moreover have "\<forall>x \<in> set (chart_of_accounts (bk_db s)). ac_AccountType (account_row s x) \<in> set ?ks"
    using assms by (auto simp: conventional_def ValidAccountType_def)
  ultimately show ?thesis
    using sum_by_key [of ?ks "chart_of_accounts (bk_db s)" "\<lambda>x. ac_AccountType (account_row s x)" "movement s P"]
    by (simp add: typed_def add.assoc)
qed

text \<open>A section of a statement is the movement of its accounts, on the side of their type.\<close>

lemma section_total:
  assumes "conventional s" and "t \<in> T"
  shows "type_total t (map (statement_row s P) (filter (\<lambda>x. ac_AccountType (account_row s x) \<in> T) (chart_of_accounts (bk_db s))))
       = (if t \<in> {TypeAsset, TypeExpense} then 1 else - 1) * sum_list (map (movement s P) (typed s t))"
proof -
  have rows: "filter (\<lambda>r. sr_AccountType r = t)
      (map (statement_row s P) (filter (\<lambda>x. ac_AccountType (account_row s x) \<in> T) (chart_of_accounts (bk_db s))))
      = map (statement_row s P) (typed s t)"
    using assms(2) by (auto simp: typed_def filter_map comp_def intro!: arg_cong [where f = "map (statement_row s P)"] filter_cong)
  have "map sr_Amount (map (statement_row s P) (typed s t))
      = map (\<lambda>x. (if t \<in> {TypeAsset, TypeExpense} then 1 else - 1) * movement s P x) (typed s t)"
    using assms(1) by (auto simp: typed_def conventional_def NormalBalanceFor_def BalanceDebit_def BalanceCredit_def)
  then show ?thesis unfolding type_total_def rows by (simp only: sum_list_const_mult)
qed

lemma accounting_equation:
  assumes "gl_ok (bk_db s)" and "charted (bk_db s)" and "conventional s" and "\<forall>e. start \<le> bk_entry_date s e"
  shows "type_total TypeAsset (gl_balance_sheet s t)
       = type_total TypeLiability (gl_balance_sheet s t) + type_total TypeEquity (gl_balance_sheet s t)
         + (type_total TypeIncome (gl_income_statement s start t) - type_total TypeExpense (gl_income_statement s start t))"
proof -
  have window: "gl_income_statement s start t =
      map (statement_row s (\<lambda>x. x < t)) (filter (\<lambda>x. ac_AccountType (account_row s x) \<in> {TypeIncome, TypeExpense}) (chart_of_accounts (bk_db s)))"
    using assms(4) by (simp add: gl_income_statement_def statement_row_def dated_lines_def)
  have types: "TypeAsset \<in> {TypeAsset, TypeLiability, TypeEquity}" "TypeLiability \<in> {TypeAsset, TypeLiability, TypeEquity}"
    "TypeEquity \<in> {TypeAsset, TypeLiability, TypeEquity}" "TypeIncome \<in> {TypeIncome, TypeExpense}" "TypeExpense \<in> {TypeIncome, TypeExpense}"
    by simp_all
  have sides: "TypeLiability \<notin> {TypeAsset, TypeExpense}" "TypeEquity \<notin> {TypeAsset, TypeExpense}" "TypeIncome \<notin> {TypeAsset, TypeExpense}"
    by (simp_all add: account_types)
  show ?thesis
    unfolding window gl_balance_sheet_def types [THEN section_total [OF assms(3)]]
    using movements_cancel [OF assms(1,2), of "\<lambda>x. x < t"] movements_by_type [OF assms(3), of "\<lambda>x. x < t"] sides
    by (simp add: algebra_simps)
qed

lemma trial_balance_totals:
  assumes "gl_ok (bk_db s)" and "charted (bk_db s)"
  shows "sum_list (map tb_DebitTotal (v_gl_trial_balance s)) = sum_list (map tb_CreditTotal (v_gl_trial_balance s))"
proof -
  have "sum_list (map gl_debit (gl_lines (bk_db s))) = sum_list (map gl_credit (gl_lines (bk_db s)))"
    using selected_balance [OF assms(1), of "\<lambda>_. True"] by simp
  then show ?thesis using account_sums [OF assms(2) subset_refl]
    by (simp add: v_gl_trial_balance_def Let_def comp_def account_row_def)
qed

section \<open>The life of a purchase order\<close>

lemma glAccountID_Inr: "glAccountID pg db code = Inr i \<Longrightarrow> i \<in> snd ` set (chart_of_accounts db)"
  by (force simp: glAccountID_def split: option.splits dest: map_of_SomeD)

lemma post_received_Inr:
  assumes "post_received pg actor po db = Inr db'" and "check_gl_journal_balanced db db'"
  obtains x y g where "posted db [x, y] g db'" "ge_source_type g = ''purchase_order''" "ge_source_id g = po_ID po" "ge_created_by g = actor"
    "numeric pg 14 (po_Amount po) = Some (gl_debit x)" "numeric pg 14 (po_Amount po) = Some (gl_credit y)"
    "map_of (chart_of_accounts db) ''5100'' = Some (gl_account x)" "map_of (chart_of_accounts db) ''2000'' = Some (gl_account y)"
proof -
  define d where "d = ''Purchase order #'' @ show_int (po_ID po) @ '' received - '' @ po_Description po @ '' ('' @ po_Vendor po @ '')''"
  define db1 where "db1 = add_entry d ''purchase_order'' (po_ID po) actor db"
  from assms(1) obtain a b db2 where acc: "glAccountID pg db1 ''5100'' = Inr a" "glAccountID pg db1 ''2000'' = Inr b"
    and l1: "insert_line pg ''insert purchase order expense line'' (gl_seq db) a (po_Amount po) 0 db1 = Inr db2"
    and l2: "insert_line pg ''insert purchase order payable line'' (gl_seq db) b 0 (po_Amount po) db2 = Inr db'"
    by (auto simp: post_received_def Let_def d_def db1_def)
  from l1 obtain x where x: "db2 = db1\<lparr>gl_lines := gl_lines db1 @ [x]\<rparr>" "lines_for db1 (gl_seq db) [x]" "gl_account x = a"
    "numeric pg 14 (po_Amount po) = Some (gl_debit x)" unfolding insert_line_Inr by blast
  from l2 obtain y where y: "db' = db2\<lparr>gl_lines := gl_lines db2 @ [y]\<rparr>" "lines_for db2 (gl_seq db) [y]" "gl_account y = b"
    "numeric pg 14 (po_Amount po) = Some (gl_credit y)" unfolding insert_line_Inr by blast
  have codes: "map_of (chart_of_accounts db) ''5100'' = Some a" "map_of (chart_of_accounts db) ''2000'' = Some b"
    using acc by (auto simp: glAccountID_def db1_def add_entry_def split: option.splits)
  show thesis
    by (rule that [of x y "\<lparr>ge_id = gl_seq db, ge_description = d, ge_source_type = ''purchase_order'', ge_source_id = po_ID po, ge_created_by = actor\<rparr>"])
       (use assms(2) x y codes in \<open>simp_all add: posted_def db1_def add_entry_def lines_for_def\<close>)
qed

text \<open>A fulfilment changes nothing, or moves the order it found and posts its entry when the order is received.\<close>

definition fulfilled :: "time \<Rightarrow> string \<Rightarrow> 'd PurchaseOrder \<Rightarrow> 'd PurchaseOrder" where
  "fulfilled now status po =
     (if status = StatusReceived then po\<lparr>po_Status := status, po_ReceivedAt := Some now\<rparr> else po\<lparr>po_Status := status\<rparr>)"

definition open_order :: "int \<Rightarrow> 'd PurchaseOrder \<Rightarrow> bool" where
  "open_order i po = (po_ID po = i \<and> po_Status po \<in> {StatusApproved, StatusRequested})"

lemma UpdateFulfilment_fold:
  "UpdateFulfilment pg now i status actor s =
     (case inTx pg (\<lambda>db.
              bindE (stmt pg ''update purchase order fulfilment'') (\<lambda>_.
              case find (open_order i) (bk_orders s) of
                None \<Rightarrow> Inr (db, None)
              | Some po \<Rightarrow>
                  bindE (guardE (po_status_check status) (ErrCheck ''status'')) (\<lambda>_.
                    if status \<noteq> StatusReceived then Inr (db, Some (fulfilled now status po))
                    else bindE (post_received pg actor (fulfilled now status po) db) (\<lambda>db'. Inr (db', Some (fulfilled now status po)))))) (bk_db s) of
           (db', Inl e) \<Rightarrow> (s\<lparr>bk_db := db'\<rparr>, Inl e)
         | (db', Inr None) \<Rightarrow> (s\<lparr>bk_db := db'\<rparr>, Inr None)
         | (db', Inr (Some po)) \<Rightarrow>
             (s\<lparr>bk_db := db', bk_orders := update_where (open_order i) (fulfilled now status) (bk_orders s),
                bk_entry_date := (if status = StatusReceived then (bk_entry_date s)(gl_seq (bk_db s) := now) else bk_entry_date s)\<rparr>,
              Inr (Some po)))"
  unfolding UpdateFulfilment_def Let_def open_order_def [abs_def] fulfilled_def [abs_def] by (rule refl)

lemma UpdateFulfilment_cases:
  assumes "UpdateFulfilment pg now i status actor s = (s', r)"
  obtains "s' = s" "\<And>po. r \<noteq> Inr (Some po)"
  | po where "find (open_order i) (bk_orders s) = Some po" "r = Inr (Some (fulfilled now status po))" "status \<noteq> StatusReceived"
      "s' = s\<lparr>bk_orders := update_where (open_order i) (fulfilled now status) (bk_orders s)\<rparr>"
  | po where "find (open_order i) (bk_orders s) = Some po" "r = Inr (Some (fulfilled now status po))" "status = StatusReceived"
      "post_received pg actor (fulfilled now status po) (bk_db s) = Inr (bk_db s')" "check_gl_journal_balanced (bk_db s) (bk_db s')"
      "s' = s\<lparr>bk_db := bk_db s', bk_orders := update_where (open_order i) (fulfilled now status) (bk_orders s),
              bk_entry_date := (bk_entry_date s)(gl_seq (bk_db s) := now)\<rparr>"
proof -
  let ?body = "\<lambda>db. bindE (stmt pg ''update purchase order fulfilment'') (\<lambda>_.
              case find (open_order i) (bk_orders s) of
                None \<Rightarrow> Inr (db, None)
              | Some po \<Rightarrow>
                  bindE (guardE (po_status_check status) (ErrCheck ''status'')) (\<lambda>_.
                    if status \<noteq> StatusReceived then Inr (db, Some (fulfilled now status po))
                    else bindE (post_received pg actor (fulfilled now status po) db) (\<lambda>db'. Inr (db', Some (fulfilled now status po)))))"
  note run = assms [unfolded UpdateFulfilment_fold]
  obtain db' q where tx: "inTx pg ?body (bk_db s) = (db', q)" by fastforce
  show thesis
  proof (cases q)
    case (Inl e)
    with tx have "db' = bk_db s" by (auto dest: inTx_Inl)
    with run tx Inl show thesis by (intro that(1)) auto
  next
    case (Inr w)
    from tx [unfolded Inr inTx_Inr] have body: "?body (bk_db s) = Inr (db', w)" and bal: "check_gl_journal_balanced (bk_db s) db'" by blast+
    show thesis
    proof (cases "find (open_order i) (bk_orders s)")
      case None
      with body have "w = None" "db' = bk_db s" by auto
      with run tx Inr show thesis by (intro that(1)) auto
    next
      case (Some po)
      show thesis
      proof (cases "status = StatusReceived")
        case False
        with body Some have "w = Some (fulfilled now status po)" "db' = bk_db s" by auto
        with run tx Inr Some False show thesis by (intro that(2) [of po]) auto
      next
        case True
        with body Some have "w = Some (fulfilled now status po)" "post_received pg actor (fulfilled now status po) (bk_db s) = Inr db'" by auto
        with run tx Inr Some True bal show thesis by (intro that(3) [of po]) auto
      qed
    qed
  qed
qed

text \<open>The entries posted for an order.\<close>

definition order_entries :: "'d db \<Rightarrow> int \<Rightarrow> gl_entry list" where
  "order_entries db i = filter (\<lambda>g. ge_source_type g = ''purchase_order'' \<and> ge_source_id g = i) (gl_entries db)"

text \<open>The handlers on purchase orders, and everything else, which leaves the orders and their entries alone.\<close>

inductive po_step :: "'d::linordered_idom books \<Rightarrow> 'd books \<Rightarrow> bool" where
  filing: "CreatePurchaseOrder tx fixed pg now actor body s = (s', r) \<Longrightarrow> po_step s s'"
| deciding: "DecidePurchaseOrder pg now actor path body s = (s', r) \<Longrightarrow> po_step s s'"
| fulfilling: "UpdateFulfilmentStatus pg now actor path body s = (s', r) \<Longrightarrow> po_step s s'"
| elsewhere: "bk_orders s' = bk_orders s \<Longrightarrow> bk_order_seq s' = bk_order_seq s \<Longrightarrow>
    order_entries (bk_db s') = order_entries (bk_db s) \<Longrightarrow> po_step s s'"

definition order_ok :: "'d books \<Rightarrow> 'd PurchaseOrder \<Rightarrow> bool" where
  "order_ok s po =
     (chk_po_distinct_approver po
      \<and> (po_Status po \<in> {StatusApproved, StatusRejected} \<longrightarrow> po_DecidedBy po \<noteq> None)
      \<and> length (order_entries (bk_db s) (po_ID po)) = (if po_Status po = StatusReceived then 1 else 0))"

definition po_inv :: "'d books \<Rightarrow> bool" where
  "po_inv s =
     (distinct (map po_ID (bk_orders s)) \<and> (\<forall>po \<in> set (bk_orders s). po_ID po < bk_order_seq s \<and> order_ok s po)
      \<and> (\<forall>i. bk_order_seq s \<le> i \<longrightarrow> order_entries (bk_db s) i = []))"

definition settled_order :: "'d PurchaseOrder \<Rightarrow> bool" where
  "settled_order po = (po_Status po \<in> {StatusRejected, StatusOrdered, StatusReceived, StatusCancelled})"

text \<open>What each handler may do to the orders.\<close>

lemma file_orders:
  assumes "CreatePurchaseOrder tx fixed pg now actor body s = (s', r)"
  shows "(bk_orders s' = bk_orders s \<or>
          (\<exists>po. bk_orders s' = bk_orders s @ [po] \<and> bk_order_seq s' = bk_order_seq s + 1 \<and> po_ID po = bk_order_seq s
             \<and> po_Status po = StatusRequested \<and> po_DecidedBy po = None))
         \<and> bk_db s' = bk_db s \<and> bk_order_seq s \<le> bk_order_seq s'"
  using assms
  by (auto simp: CreatePurchaseOrder_def store_CreatePurchaseOrder_def Let_def
      split: option.splits if_splits sum.splits prod.splits)

lemma decide_orders:
  assumes "DecidePurchaseOrder pg now actor path body s = (s', r)"
  shows "s' = s \<or> (\<exists>i st reason. st \<in> {StatusApproved, StatusRejected}
     \<and> s' = s\<lparr>bk_orders := update_where (\<lambda>po. po_ID po = i \<and> po_Status po = StatusRequested)
              (\<lambda>po. po\<lparr>po_Status := st, po_DecidedBy := Some actor, po_DecisionReason := Some reason, po_DecidedAt := Some now\<rparr>) (bk_orders s)\<rparr>
     \<and> (\<forall>po \<in> set (bk_orders s). po_ID po = i \<and> po_Status po = StatusRequested \<longrightarrow> po_RequestedBy po \<noteq> actor))"
  using assms
  by (auto simp: DecidePurchaseOrder_def store_DecidePurchaseOrder_def Let_def chk_po_distinct_approver_def guardE_def bindE_def
      split: option.splits if_splits sum.splits prod.splits)

lemma fulfil_store:
  assumes "UpdateFulfilmentStatus pg now actor path body s = (s', r)"
  shows "s' = s \<or> (\<exists>i status q. ValidFulfilmentStatus status \<and> UpdateFulfilment pg now i status actor s = (s', q))"
  using assms by (auto simp: UpdateFulfilmentStatus_def split: option.splits if_splits sum.splits prod.splits) 

lemma po_inv_moved:
  assumes "po_inv s" and "bk_orders s' = update_where P f (bk_orders s)" and "bk_order_seq s' = bk_order_seq s"
    and "\<And>po. po_ID (f po) = po_ID po"
    and "\<And>po. po \<in> set (bk_orders s) \<Longrightarrow> order_ok s po \<Longrightarrow> order_ok s' (if P po then f po else po)"
    and "\<And>i. bk_order_seq s \<le> i \<Longrightarrow> order_entries (bk_db s') i = order_entries (bk_db s) i"
  shows "po_inv s'"
proof -
  have "map po_ID (bk_orders s') = map po_ID (bk_orders s)" using assms(2,4) by (auto simp: update_where_def)
  moreover have "po_ID po < bk_order_seq s' \<and> order_ok s' po" if "po \<in> set (bk_orders s')" for po
  proof -
    from that obtain q where q: "q \<in> set (bk_orders s)" "po = (if P q then f q else q)" unfolding assms(2) update_where_def by auto
    then have "po_ID q < bk_order_seq s" "order_ok s q" using assms(1) by (auto simp: po_inv_def)
    then show ?thesis using assms(3-5) q by (simp split: if_splits)
  qed
  ultimately show ?thesis using assms(1,3,6) by (simp add: po_inv_def)
qed

lemma po_status_distinct [simp]:
  "StatusRequested \<noteq> StatusApproved" "StatusRequested \<noteq> StatusRejected" "StatusRequested \<noteq> StatusOrdered" "StatusRequested \<noteq> StatusReceived" "StatusRequested \<noteq> StatusCancelled"
  "StatusApproved \<noteq> StatusRequested" "StatusApproved \<noteq> StatusRejected" "StatusApproved \<noteq> StatusOrdered" "StatusApproved \<noteq> StatusReceived" "StatusApproved \<noteq> StatusCancelled"
  "StatusRejected \<noteq> StatusRequested" "StatusRejected \<noteq> StatusApproved" "StatusRejected \<noteq> StatusOrdered" "StatusRejected \<noteq> StatusReceived" "StatusRejected \<noteq> StatusCancelled"
  "StatusOrdered \<noteq> StatusRequested" "StatusOrdered \<noteq> StatusApproved" "StatusOrdered \<noteq> StatusRejected" "StatusOrdered \<noteq> StatusReceived" "StatusOrdered \<noteq> StatusCancelled"
  "StatusReceived \<noteq> StatusRequested" "StatusReceived \<noteq> StatusApproved" "StatusReceived \<noteq> StatusRejected" "StatusReceived \<noteq> StatusOrdered" "StatusReceived \<noteq> StatusCancelled"
  "StatusCancelled \<noteq> StatusRequested" "StatusCancelled \<noteq> StatusApproved" "StatusCancelled \<noteq> StatusRejected" "StatusCancelled \<noteq> StatusOrdered" "StatusCancelled \<noteq> StatusReceived"
  by (simp_all add: po_statuses)

lemma po_inv_received:
  assumes inv: "po_inv s" and po: "find (open_order i) (bk_orders s) = Some po" and "s' = s\<lparr>bk_db := bk_db s',
      bk_orders := update_where (open_order i) (fulfilled now StatusReceived) (bk_orders s), bk_entry_date := d\<rparr>"
    and "post_received pg actor (fulfilled now StatusReceived po) (bk_db s) = Inr (bk_db s')" and "check_gl_journal_balanced (bk_db s) (bk_db s')"
  shows "po_inv s'"
proof -
  have i: "po \<in> set (bk_orders s)" "open_order i po" using po by (auto simp: find_Some_iff)
  obtain x y g where g: "posted (bk_db s) [x, y] g (bk_db s')"
    "ge_source_type g = ''purchase_order''" "ge_source_id g = po_ID (fulfilled now StatusReceived po)"
    using assms(4,5) by (rule post_received_Inr)
  have entries: "order_entries (bk_db s') k = order_entries (bk_db s) k @ (if k = i then [g] else [])" for k
    using g i(2) by (auto simp: posted_def order_entries_def fulfilled_def open_order_def)
  have below: "i < bk_order_seq s" using inv i by (auto simp: po_inv_def open_order_def)
  have orders: "bk_orders s' = update_where (open_order i) (fulfilled now StatusReceived) (bk_orders s)" "bk_order_seq s' = bk_order_seq s"
    using arg_cong [OF assms(3), of bk_orders] arg_cong [OF assms(3), of bk_order_seq] by simp_all
  show ?thesis
  proof (rule po_inv_moved [OF inv orders])
    fix q assume q: "q \<in> set (bk_orders s)" "order_ok s q"
    have "po_ID q \<noteq> i" if "\<not> open_order i q"
    proof
      assume "po_ID q = i"
      moreover have "inj_on po_ID (set (bk_orders s))" using inv by (simp add: po_inv_def distinct_map)
      ultimately have "q = po" using i q(1) by (auto simp: open_order_def dest: inj_onD)
      with i(2) that show False by simp
    qed
    then show "order_ok s' (if open_order i q then fulfilled now StatusReceived q else q)"
      using q(2) by (cases "open_order i q")
        (auto simp: order_ok_def entries fulfilled_def chk_po_distinct_approver_def open_order_def)
  qed (use below entries in \<open>simp_all add: fulfilled_def\<close>)
qed

lemma po_inv_decided:
  assumes inv: "po_inv s" and st: "st \<in> {StatusApproved, StatusRejected}"
    and s': "s' = s\<lparr>bk_orders := update_where (\<lambda>po. po_ID po = i \<and> po_Status po = StatusRequested)
              (\<lambda>po. po\<lparr>po_Status := st, po_DecidedBy := Some actor, po_DecisionReason := Some reason, po_DecidedAt := Some now\<rparr>) (bk_orders s)\<rparr>"
    and who: "\<forall>po \<in> set (bk_orders s). po_ID po = i \<and> po_Status po = StatusRequested \<longrightarrow> po_RequestedBy po \<noteq> actor"
  shows "po_inv s'"
proof -
  let ?P = "\<lambda>po. po_ID po = i \<and> po_Status po = StatusRequested"
  let ?f = "\<lambda>po. po\<lparr>po_Status := st, po_DecidedBy := Some actor, po_DecisionReason := Some reason, po_DecidedAt := Some now\<rparr>"
  have ok: "order_ok s' (if ?P po then ?f po else po)" if "po \<in> set (bk_orders s)" "order_ok s po" for po
  proof (cases "?P po")
    case True
    then have "st \<noteq> StatusReceived" "po_RequestedBy po \<noteq> actor" using st who that(1) by auto
    then show ?thesis using True that(2) by (simp add: s' order_ok_def chk_po_distinct_approver_def)
  next
    case False
    then have "(if ?P po then ?f po else po) = po" by (rule if_not_P)
    then show ?thesis using that(2) by (simp only: s' order_ok_def) simp
  qed
  have moved: "bk_orders s' = update_where ?P ?f (bk_orders s)" "bk_order_seq s' = bk_order_seq s" by (simp_all add: s')
  show ?thesis by (rule po_inv_moved [OF inv moved _ ok]) (simp_all add: s')
qed

lemma po_inv_unreceived:
  assumes inv: "po_inv s" and st: "ValidFulfilmentStatus status" "status \<noteq> StatusReceived"
    and s': "s' = s\<lparr>bk_orders := update_where (open_order i) (fulfilled now status) (bk_orders s)\<rparr>"
  shows "po_inv s'"
proof -
  have ok: "order_ok s' (if open_order i po then fulfilled now status po else po)" if "order_ok s po" for po
  proof (cases "open_order i po")
    case True
    then have "po_Status po \<noteq> StatusReceived" by (auto simp: open_order_def)
    moreover have "status \<noteq> StatusApproved" "status \<noteq> StatusRejected" using st by (auto simp: ValidFulfilmentStatus_def)
    ultimately show ?thesis using True that st(2) by (simp add: s' order_ok_def chk_po_distinct_approver_def fulfilled_def)
  qed (use that in \<open>simp add: s' order_ok_def\<close>)
  have moved: "bk_orders s' = update_where (open_order i) (fulfilled now status) (bk_orders s)" "bk_order_seq s' = bk_order_seq s"
    by (simp_all add: s')
  show ?thesis by (rule po_inv_moved [OF inv moved _ ok]) (simp_all add: s' fulfilled_def)
qed

lemma po_inv_step:
  assumes "po_step s s'" and inv: "po_inv s"
  shows "po_inv s'"
  using assms(1)
proof cases
  case (filing tx fixed pg now actor body r)
  from file_orders [OF filing] have f: "bk_db s' = bk_db s" "bk_order_seq s \<le> bk_order_seq s'"
    and "bk_orders s' = bk_orders s \<or> (\<exists>po. bk_orders s' = bk_orders s @ [po] \<and> bk_order_seq s' = bk_order_seq s + 1
      \<and> po_ID po = bk_order_seq s \<and> po_Status po = StatusRequested \<and> po_DecidedBy po = None)" by blast+
  from this(3) show ?thesis
  proof (elim disjE exE conjE)
    assume "bk_orders s' = bk_orders s"
    moreover have "po_ID po < bk_order_seq s'" if "po \<in> set (bk_orders s)" for po
      using inv f(2) that by (auto simp: po_inv_def intro: order.strict_trans2)
    moreover have "order_entries (bk_db s) i = []" if "bk_order_seq s' \<le> i" for i
      using inv order_trans [OF f(2) that] by (simp add: po_inv_def)
    ultimately show ?thesis using f(1) inv by (simp add: po_inv_def order_ok_def)
  next
    fix po
    assume po: "bk_orders s' = bk_orders s @ [po]" "bk_order_seq s' = bk_order_seq s + 1" "po_ID po = bk_order_seq s"
      "po_Status po = StatusRequested" "po_DecidedBy po = None"
    have "order_entries (bk_db s) (bk_order_seq s) = []" using inv by (simp add: po_inv_def)
    then have "order_ok s' po" using po f(1) by (simp add: order_ok_def chk_po_distinct_approver_def po_statuses)
    moreover have "order_ok s' q \<and> po_ID q < bk_order_seq s" if "q \<in> set (bk_orders s)" for q
      using inv f(1) that by (auto simp: po_inv_def order_ok_def)
    ultimately show ?thesis using po f(1) inv by (force simp: po_inv_def)
  qed
next
  case (deciding pg now actor path body r)
  from decide_orders [OF deciding] show ?thesis using inv po_inv_decided [OF inv] by blast
next
  case (fulfilling pg now actor path body r)
  from fulfil_store [OF fulfilling] show ?thesis
  proof (elim disjE exE conjE)
    fix i status q
    assume st: "ValidFulfilmentStatus status" and run: "UpdateFulfilment pg now i status actor s = (s', q)"
    from run show ?thesis
    proof (cases rule: UpdateFulfilment_cases)
      case 1
      with inv show ?thesis by simp
    next
      case (2 po)
      show ?thesis by (rule po_inv_unreceived [OF inv st 2(3,4)])
    next
      case (3 po)
      show ?thesis by (rule po_inv_received [OF inv 3(1) 3(6) [unfolded 3(3)] 3(4) [unfolded 3(3)] 3(5)])
    qed
  qed (use inv in simp)
next
  case elsewhere
  with inv show ?thesis by (simp add: po_inv_def order_ok_def)
qed

lemma po_inv_run: "po_step\<^sup>*\<^sup>* s s' \<Longrightarrow> po_inv s \<Longrightarrow> po_inv s'"
  by (induction rule: rtranclp_induct) (auto intro: po_inv_step)

text \<open>An order that is rejected, ordered, received or cancelled is not touched again.\<close>

lemma settled_not_open: "settled_order po \<Longrightarrow> \<not> open_order i po"
  by (auto simp: settled_order_def open_order_def)

lemma settled_update:
  assumes "po \<in> set os" and "\<not> P po"
  shows "po \<in> set (update_where P f os)"
  using assms by (force simp: update_where_def)

lemma settled_step:
  assumes "po_step s s'" and "po \<in> set (bk_orders s)" and st: "settled_order po"
  shows "po \<in> set (bk_orders s')"
  using assms(1)
proof cases
  case (filing tx fixed pg now actor body r)
  from file_orders [OF filing] assms(2) show ?thesis by auto
next
  case (deciding pg now actor path body r)
  from decide_orders [OF deciding] show ?thesis
  proof (elim disjE exE conjE)
    fix i x reason
    assume s': "s' = s\<lparr>bk_orders := update_where (\<lambda>po. po_ID po = i \<and> po_Status po = StatusRequested)
        (\<lambda>po. po\<lparr>po_Status := x, po_DecidedBy := Some actor, po_DecisionReason := Some reason, po_DecidedAt := Some now\<rparr>) (bk_orders s)\<rparr>"
    have "\<not> (po_ID po = i \<and> po_Status po = StatusRequested)" using st by (auto simp: settled_order_def)
    then show ?thesis using settled_update [OF assms(2)] by (simp add: s')
  qed (use assms(2) in simp)
next
  case (fulfilling pg now actor path body r)
  from fulfil_store [OF fulfilling] show ?thesis
  proof (elim disjE exE conjE)
    fix i status q
    assume "UpdateFulfilment pg now i status actor s = (s', q)"
    then have "s' = s \<or> bk_orders s' = update_where (open_order i) (fulfilled now status) (bk_orders s)"
      by (cases rule: UpdateFulfilment_cases) (auto dest: arg_cong [of _ _ bk_orders])
    then show ?thesis using assms(2) settled_update [OF assms(2), of "open_order i"] settled_not_open [OF st] by auto
  qed (use assms(2) in simp)
next
  case elsewhere
  with assms(2) show ?thesis by simp
qed

lemma settled_run:
  assumes "po_step\<^sup>*\<^sup>* s s'" and "po \<in> set (bk_orders s)" and "settled_order po"
  shows "po \<in> set (bk_orders s')"
  using assms by (induction rule: rtranclp_induct) (auto intro: settled_step)

text \<open>
  C14. However requests, decisions and fulfilments of purchase orders interleave with each other and with
  the other postings, no order is decided by the person who asked for it, an approved or rejected one
  names who decided, an order has exactly one journal entry if it was received and none otherwise, and
  an order that is rejected, ordered, received or cancelled never changes again (so one marked ordered can
  no longer be received).
\<close>

theorem purchase_order_lifecycle:
  assumes "po_step\<^sup>*\<^sup>* s0 s" and "bk_orders s0 = []" and "\<forall>i. order_entries (bk_db s0) i = []" and "po \<in> set (bk_orders s)"
  shows "po_DecidedBy po \<noteq> Some (po_RequestedBy po)
       \<and> (po_Status po \<in> {StatusApproved, StatusRejected} \<longrightarrow> po_DecidedBy po \<noteq> None)
       \<and> length (order_entries (bk_db s) (po_ID po)) = (if po_Status po = StatusReceived then 1 else 0)
       \<and> (po_Status po \<in> {StatusRejected, StatusOrdered, StatusReceived, StatusCancelled}
          \<longrightarrow> (\<forall>s'. po_step\<^sup>*\<^sup>* s s' \<longrightarrow> po \<in> set (bk_orders s')))"
proof -
  have "po_inv s0" using assms(2,3) by (simp add: po_inv_def)
  with assms(1) have "po_inv s" by (rule po_inv_run)
  with assms(4) have "order_ok s po" by (simp add: po_inv_def)
  moreover have "\<forall>s'. po_step\<^sup>*\<^sup>* s s' \<longrightarrow> po \<in> set (bk_orders s')" if "settled_order po"
    using settled_run [OF _ assms(4) that] by blast
  ultimately show ?thesis by (simp add: order_ok_def chk_po_distinct_approver_def settled_order_def)
qed

text \<open>The two lines of a received order.\<close>

definition order_lines :: "'d::linordered_idom db \<Rightarrow> int \<Rightarrow> int \<Rightarrow> 'd \<Rightarrow> 'd gl_line list" where
  "order_lines db expenseID payableID amt =
     [\<lparr>gl_entry_id = gl_seq db, gl_account = expenseID, gl_debit = amt, gl_credit = 0\<rparr>,
      \<lparr>gl_entry_id = gl_seq db, gl_account = payableID, gl_debit = 0, gl_credit = amt\<rparr>]"

lemma post_received_run:
  assumes "numeric_ok pg" and "pg_faults pg = no_faults" and "0 < po_Amount po" and "numeric pg 14 (po_Amount po) = Some (po_Amount po)"
    and "map_of (chart_of_accounts db) ''5100'' = Some a" and "map_of (chart_of_accounts db) ''2000'' = Some b"
  shows "\<exists>db'. post_received pg actor po db = Inr db' \<and> gl_lines db' = gl_lines db @ order_lines db a b (po_Amount po)"
proof -
  have zero: "numeric pg 14 0 = Some 0" using assms(1) by (simp add: numeric_ok_def)
  have charted: "a \<in> snd ` set (chart_of_accounts db)" "b \<in> snd ` set (chart_of_accounts db)"
    using assms(5,6) by (force dest: map_of_SomeD)+
  show ?thesis
    using assms(2-6) zero charted
    by (simp add: post_received_def Let_def glAccountID_def stmt_def insert_line_def numericE_def guardE_def chk_gl_line_def
        add_entry_def order_lines_def)
qed


section \<open>Manual entries\<close>

lemma posted_lines:
  assumes "posted db ls g db'" and "gl_ok db"
  shows "filter (\<lambda>l. gl_entry_id l = gl_seq db) (gl_lines db') = ls" and "sum_list (map gl_debit ls) = sum_list (map gl_credit ls)"
proof -
  have "filter (\<lambda>l. gl_entry_id l = gl_seq db) (gl_lines db) = []" using assms(2) by (auto simp: gl_ok_def filter_empty_conv)
  moreover have "filter (\<lambda>l. gl_entry_id l = gl_seq db) ls = ls" using assms(1) by (simp add: posted_def lines_for_def filter_id_conv)
  ultimately show f: "filter (\<lambda>l. gl_entry_id l = gl_seq db) (gl_lines db') = ls" using assms(1) by (simp add: posted_def)
  have "gl_ok db'" using posted_keeps(1) [OF assms] .
  then have "entry_debits (gl_lines db') (gl_seq db) = entry_credits (gl_lines db') (gl_seq db)" by (simp add: gl_ok_def)
  then show "sum_list (map gl_debit ls) = sum_list (map gl_credit ls)" by (simp add: entry_debits_def entry_credits_def f)
qed

lemma journal_lines_read:
  assumes "\<forall>l \<in> set ls. gl_account l \<in> snd ` set (chart_of_accounts (bk_db s))"
  shows "map (\<lambda>j. (jl_AccountID j, jl_Debit j, jl_Credit j)) (List.map_filter (journal_line s) ls)
       = map (\<lambda>l. (gl_account l, gl_debit l, gl_credit l)) ls"
  using assms
proof (induction ls)
  case (Cons l ls)
  then obtain x where "find (\<lambda>x. snd x = gl_account l) (chart_of_accounts (bk_db s)) = Some x"
    by (cases "find (\<lambda>x. snd x = gl_account l) (chart_of_accounts (bk_db s))") (auto simp: find_None_iff)
  then show ?case using Cons by (simp add: List.map_filter_simps journal_line_def)
qed (simp add: List.map_filter_simps)

text \<open>
  C22. A manual journal entry is refused with the books as they were, or all of its lines are stored in order,
  each as the requested amounts cast and rounded to the column, and the stored debits equal the stored credits
  whatever the floating-point check made of them. The caller is shown the entry when it can be read back;
  when reading it back fails the caller gets an error although the entry is posted.
\<close>

theorem manual_entry_stored:
  assumes "PostJournalEntry tx pg now e s = (s', r)" and "gl_ok (bk_db s)"
  shows "(s' = s \<and> (\<exists>x. r = Inl x))
       \<or> (\<exists>ls. gl_lines (bk_db s') = gl_lines (bk_db s) @ ls \<and> list_all2 (stores_line tx pg) (ne_Lines e) ls
            \<and> sum_list (map gl_debit ls) = sum_list (map gl_credit ls) \<and> gl_ok (bk_db s')
            \<and> (case pg_faults pg ''get journal entry'' of
                 Some m \<Rightarrow> r = Inl (Err m)
               | None \<Rightarrow>
                   (case pg_faults pg ''list lines for journal entry'' of
                      Some m \<Rightarrow> r = Inl (Err m)
                    | None \<Rightarrow> (\<exists>je. r = Inr (Some je) \<and> je_ID je = gl_seq (bk_db s)
                        \<and> map (\<lambda>j. (jl_AccountID j, jl_Debit j, jl_Credit j)) (je_Lines je)
                          = map (\<lambda>l. (gl_account l, gl_debit l, gl_credit l)) ls))))"
  using assms(1)
proof (cases rule: PostJournalEntry_cases)
  case (1 x)
  then show ?thesis by blast
next
  case (2 ls g)
  note db' = 2(1) [unfolded posted_def]
  have read: "filter (\<lambda>l. gl_entry_id l = gl_seq (bk_db s)) (gl_lines (bk_db s')) = ls" by (rule posted_lines(1) [OF 2(1) assms(2)])
  have "chart_of_accounts (bk_db s') = chart_of_accounts (bk_db s)" using db' by simp
  then have "\<forall>l \<in> set ls. gl_account l \<in> snd ` set (chart_of_accounts (bk_db s'))" using db' by (auto simp: lines_for_def)
  note lines = journal_lines_read [OF this]
  obtain g' where "find (\<lambda>g. ge_id g = gl_seq (bk_db s)) (gl_entries (bk_db s')) = Some g'"
    using db' by (cases "find (\<lambda>g. ge_id g = gl_seq (bk_db s)) (gl_entries (bk_db s'))") (auto simp: find_None_iff)
  then have "case pg_faults pg ''get journal entry'' of
                 Some m \<Rightarrow> r = Inl (Err m)
               | None \<Rightarrow>
                   (case pg_faults pg ''list lines for journal entry'' of
                      Some m \<Rightarrow> r = Inl (Err m)
                    | None \<Rightarrow> (\<exists>je. r = Inr (Some je) \<and> je_ID je = gl_seq (bk_db s)
                        \<and> map (\<lambda>j. (jl_AccountID j, jl_Debit j, jl_Credit j)) (je_Lines je)
                          = map (\<lambda>l. (gl_account l, gl_debit l, gl_credit l)) ls))"
    unfolding 2(7) GetJournalEntry_def read by (simp add: stmt_def lines split: option.splits)
  moreover have "gl_lines (bk_db s') = gl_lines (bk_db s) @ ls" using db' by simp
  ultimately show ?thesis using 2(2) posted_lines(2) [OF 2(1) assms(2)] posted_keeps(1) [OF 2(1) assms(2)]
    by (intro disjI2 exI [of _ ls] conjI)
qed

section \<open>Concrete instances\<close>

definition gl_text :: "rat amount_text" where
  "gl_text = \<lparr>NewFromString = (\<lambda>x. map_option of_nat (parse_digits 0 x)), cast_numeric = (\<lambda>x. map_option of_nat (parse_digits 0 x)),
              float_imbalance = (\<lambda>ds. sum_list ds > 5 / 1000 \<or> sum_list ds < - 5 / 1000)\<rparr>"

definition gl_account_row :: Account where
  "gl_account_row = \<lparr>ac_ID = 0, ac_Code = [], ac_Name = ''Operating Expenses'', ac_AccountType = TypeExpense, ac_NormalBalance = BalanceDebit, ac_IsActive = True\<rparr>"

definition gl_demo :: "rat books" where
  "gl_demo = \<lparr>bk_db = wb_db\<lparr>chart_of_accounts := [(''5100'', 1), (''2000'', 2)]\<rparr>, bk_account = (\<lambda>_. gl_account_row), bk_account_seq = 3,
              bk_entry_date = (\<lambda>_. 0), bk_orders = [], bk_order_seq = 1\<rparr>"

definition gl_manual :: NewJournalEntry where
  "gl_manual = \<lparr>ne_Description = ''rent'',
     ne_Lines = [\<lparr>nl_AccountID = 1, nl_Debit = ''5'', nl_Credit = ''0''\<rparr>, \<lparr>nl_AccountID = 2, nl_Debit = ''0'', nl_Credit = ''5''\<rparr>],
     ne_CreatedBy = ''asha''\<rparr>"

definition gl_order :: "rat PurchaseOrder" where
  "gl_order = \<lparr>po_ID = 1, po_Description = ''rack'', po_Vendor = ''acme'', po_Category = ''hardware'', po_Amount = 5,
               po_Status = StatusRequested, po_RequestedBy = ''asha'', po_DecidedBy = None, po_DecisionReason = None,
               po_CreatedAt = 9, po_DecidedAt = None, po_ReceivedAt = None\<rparr>"

definition gl_filed :: "rat books" where
  "gl_filed = gl_demo\<lparr>bk_orders := [gl_order], bk_order_seq := 2\<rparr>"

lemma gl_numeric: "rat_numeric 14 5 = Some 5" "rat_numeric 14 0 = Some 0" "rat_numeric 12 5 = Some 5"
  by (simp_all add: rat_numeric_def Let_def round_away_def half_up_def floor_eq_iff)

lemma gl_digits [simp]: "is_digit CHR ''5''" "is_digit CHR ''0''"
  by (simp_all add: is_digit_def)

lemma gl_demo_ok: "gl_ok (bk_db gl_demo)"
  by (simp add: gl_demo_def wb_db_def gl_ok_def entry_debits_def entry_credits_def)

lemma gl_filing:
  "CreatePurchaseOrder gl_text (\<lambda>_. ''5'') (rat_pg no_faults) 9 ''asha''
     (Some \<lparr>np_Description = ''rack'', np_Vendor = ''acme'', np_Category = ''hardware'', np_Amount = ''5'', np_RequestedBy = []\<rparr>) gl_demo
   = (gl_filed, Body gl_order)"
  by (simp add: CreatePurchaseOrder_def store_CreatePurchaseOrder_def gl_text_def Let_def stmt_def rat_pg_def castE_def numericE_def
      gl_numeric guardE_def ValidCategory_def gl_filed_def gl_demo_def gl_order_def)

theorem purchase_order_lifecycle_witness:
  "gl_order\<lparr>po_Status := StatusOrdered\<rparr>
     \<in> set (bk_orders (fst (UpdateFulfilmentStatus (rat_pg no_faults) 10 ''ravi'' (Some 1) (Some StatusReceived)
         (gl_filed\<lparr>bk_orders := [gl_order\<lparr>po_Status := StatusOrdered\<rparr>]\<rparr>))))"
proof -
  let ?s = "gl_filed\<lparr>bk_orders := [gl_order\<lparr>po_Status := StatusOrdered\<rparr>]\<rparr>"
  have "UpdateFulfilmentStatus (rat_pg no_faults) 9 ''ravi'' (Some 1) (Some StatusOrdered) gl_filed = (?s, Body (gl_order\<lparr>po_Status := StatusOrdered\<rparr>))"
    by (simp add: UpdateFulfilmentStatus_def UpdateFulfilment_fold ValidFulfilmentStatus_def inTx_def stmt_def rat_pg_def guardE_def
        po_status_check_def open_order_def fulfilled_def gl_filed_def gl_order_def check_gl_journal_balanced_def)
  then have "po_step gl_filed ?s" by (rule po_step.fulfilling)
  moreover have "po_step gl_demo gl_filed" by (rule po_step.filing [OF gl_filing])
  ultimately have run: "po_step\<^sup>*\<^sup>* gl_demo ?s" by simp
  have none: "bk_orders gl_demo = []" "\<forall>i. order_entries (bk_db gl_demo) i = []"
    by (simp_all add: gl_demo_def order_entries_def wb_db_def)
  have "po_step ?s (fst (UpdateFulfilmentStatus (rat_pg no_faults) 10 ''ravi'' (Some 1) (Some StatusReceived) ?s))"
    by (rule po_step.fulfilling) (rule prod.collapse [symmetric])
  then have later: "po_step\<^sup>*\<^sup>* ?s (fst (UpdateFulfilmentStatus (rat_pg no_faults) 10 ''ravi'' (Some 1) (Some StatusReceived) ?s))"
    by (rule r_into_rtranclp)
  have "\<forall>s'. po_step\<^sup>*\<^sup>* ?s s' \<longrightarrow> gl_order\<lparr>po_Status := StatusOrdered\<rparr> \<in> set (bk_orders s')"
    using purchase_order_lifecycle [OF run none, of "gl_order\<lparr>po_Status := StatusOrdered\<rparr>"] by simp
  with later show ?thesis by blast
qed


theorem manual_entry_stored_witness:
  "\<exists>s' je. PostJournalEntry gl_text (rat_pg no_faults) 9 gl_manual gl_demo = (s', Inr (Some je))
     \<and> map (\<lambda>j. (jl_AccountID j, jl_Debit j, jl_Credit j)) (je_Lines je) = [(1, 5, 0), (2, 0, 5)]"
proof -
  obtain s' r where run: "PostJournalEntry gl_text (rat_pg no_faults) 9 gl_manual gl_demo = (s', r)" by fastforce
  moreover have "gl_lines (bk_db (fst (PostJournalEntry gl_text (rat_pg no_faults) 9 gl_manual gl_demo)))
     = [\<lparr>gl_entry_id = 1, gl_account = 1, gl_debit = 5, gl_credit = 0\<rparr>, \<lparr>gl_entry_id = 1, gl_account = 2, gl_debit = 0, gl_credit = 5\<rparr>]"
    by (simp add: PostJournalEntry_def gl_manual_def gl_text_def parseDecimal_def inTx_def stmt_def rat_pg_def journal_body_def
        castE_def insert_line_def numericE_def gl_numeric guardE_def chk_gl_line_def add_entry_def gl_demo_def wb_db_def
        check_gl_journal_balanced_def entry_debits_def entry_credits_def Let_def)
  ultimately have lines: "gl_lines (bk_db s') = [\<lparr>gl_entry_id = 1, gl_account = 1, gl_debit = 5, gl_credit = 0\<rparr>,
      \<lparr>gl_entry_id = 1, gl_account = 2, gl_debit = 0, gl_credit = 5\<rparr>]" and "gl_lines (bk_db gl_demo) = []"
    by (simp_all add: gl_demo_def wb_db_def)
  then show ?thesis using manual_entry_stored [OF run gl_demo_ok] run by (auto simp: rat_pg_def)
qed

end
