(* ===== verification/Platform.thy ===== *)
theory Platform
  imports GeneralLedger AuthCache
begin

text \<open>
  The components on one database. \<open>db_step\<close> is the set of writes the API server, the billing daemon
  and the scanners make to the tables of \<open>Schema\<close>, each with its own pattern of failures; the jobs and
  handlers of the other theories are shown to be sequences of these writes. Three facts span the
  components: the tables conform to the schema whatever runs and however it interleaves, the books of
  the business balance, and a subscriber the billing side cuts off is refused by the RADIUS side once
  no cached record is left.
\<close>

section \<open>Writes\<close>

inductive db_step :: "'d::linordered_idom pg \<Rightarrow> 'd db \<Rightarrow> 'd db \<Rightarrow> bool" for pg where
  posting: "numeric pg' = numeric pg \<Longrightarrow> RecordRecharge pg' db p = (db', r) \<Longrightarrow> db_step pg db db'"
| dunned: "SetSubscriberDunningState pg' db i d st = (db', r) \<Longrightarrow> db_step pg db db'"
| dated: "SetPlanExpiry pg' db i e = (db', r) \<Longrightarrow> db_step pg db db'"
| activated: "ActivateSubscriber pg' db i e = (db', r) \<Longrightarrow> db_step pg db db'"
| invoiced: "numeric pg' = numeric pg \<Longrightarrow> CreateInvoice pg' db bill = (db', k) \<Longrightarrow> db_step pg db db'"
| closed: "Dunning.TerminateSubscriber pg' db i = (db', row) \<Longrightarrow> db_step pg db db'"
| throttled: "SetFUPActive flt db i b = (db', r) \<Longrightarrow> db_step pg db db'"
| overridden: "SetSpeedOverride flt db i rate e = (db', r) \<Longrightarrow> db_step pg db db'"
| cleared: "ClearSpeedOverride flt db i = (db', r) \<Longrightarrow> db_step pg db db'"
| edited: "db_UpdateSubscriber pg' i pl s e st = (st', row) \<Longrightarrow> db_step pg (wf_db st) (wf_db st')"
| replanned: "SetSubscriberPlan pg' i pl e st = (st', row) \<Longrightarrow> db_step pg (wf_db st) (wf_db st')"
| journalled: "PostJournalEntry tx pg' now entry b = (b', r) \<Longrightarrow> db_step pg (bk_db b) (bk_db b')"
| received: "UpdateFulfilment pg' now i status actor b = (b', r) \<Longrightarrow> db_step pg (bk_db b) (bk_db b')"
| listed: "CreateAccount pg' a b = (b', r) \<Longrightarrow> db_step pg (bk_db b) (bk_db b')"

text \<open>With the commission ledger beside the database, one more write.\<close>

inductive store_step :: "'d::linordered_idom pg \<Rightarrow> 'd revenue \<Rightarrow> 'd revenue \<Rightarrow> bool" for pg where
  on_tables: "db_step pg (rv_db s) db' \<Longrightarrow> store_step pg s (s\<lparr>rv_db := db'\<rparr>)"
| settled: "numeric pg' = numeric pg \<Longrightarrow> CalculateAndStoreLCOCommission pg' now s e = (s', r) \<Longrightarrow> store_step pg s s'"

section \<open>The schema\<close>

definition invoice_conforms :: "'d::linordered_idom pg \<Rightarrow> 'd db \<Rightarrow> int \<times> 'd Invoice \<Rightarrow> bool" where
  "invoice_conforms pg db x = (fst x < invoice_seq db \<and> chk_gst_logic (snd x) \<and> (numeric_ok pg \<longrightarrow> invoice_stored pg (snd x)))"

definition db_conforms :: "'d::linordered_idom pg \<Rightarrow> 'd db \<Rightarrow> bool" where
  "db_conforms pg db =
     (wallet_inv pg db
      \<and> distinct (map wl_id (wallet_ledgers db)) \<and> (\<forall>r \<in> set (wallet_ledgers db). wl_id r < wallet_seq db)
      \<and> distinct (map fst (invoices db)) \<and> (\<forall>x \<in> set (invoices db). invoice_conforms pg db x))"

definition conforms :: "'d::linordered_idom pg \<Rightarrow> 'd revenue \<Rightarrow> bool" where
  "conforms pg s = (db_conforms pg (rv_db s) \<and> unique_nullable (map lco_ref (rv_lco s)))"

text \<open>An update of subscriber rows that keeps keys and balances and writes only rows that pass the checks.\<close>

lemma conforms_rows:
  assumes "db_conforms pg db" and "\<And>r. sub_id (f r) = sub_id r \<and> sub_balance (f r) = sub_balance r"
    and "\<And>r. r \<in> set (subscribers db) \<Longrightarrow> P r \<Longrightarrow> subscriber_checks (f r)"
    and "db' = db\<lparr>subscribers := update_where P f (subscribers db)\<rparr>"
  shows "db_conforms pg db'"
proof -
  have "subscribers_ok pg db'"
    by (rule subscribers_ok_update [of pg db f P])
       (use assms in \<open>auto simp: db_conforms_def wallet_inv_def subscribers_ok_def\<close>)
  then show ?thesis using assms(1,4)
    by (simp add: db_conforms_def wallet_inv_def gl_ok_def invoice_conforms_def)
qed

lemma conforms_update:
  assumes "db_conforms pg db" and "update_subscribers P f db = Inr db'"
    and "\<And>r. sub_id (f r) = sub_id r \<and> sub_balance (f r) = sub_balance r"
  shows "db_conforms pg db'"
  by (rule conforms_rows [OF assms(1,3), of P]) (use assms(2) in \<open>auto simp: update_subscribers_def split: if_splits\<close>)

lemma conforms_update_one:
  assumes "db_conforms pg db" and "update_subscriber flt l db i f = (db', r)"
    and "\<And>r. sub_id (f r) = sub_id r \<and> sub_balance (f r) = sub_balance r \<and> sub_status (f r) = sub_status r \<and> sub_expiry (f r) = sub_expiry r"
  shows "db_conforms pg db'"
proof (cases "db' = db")
  case False
  then have db': "db' = db\<lparr>subscribers := update_where (\<lambda>s. sub_id s = i) f (subscribers db)\<rparr>"
    using assms(2) by (auto simp: update_subscriber_def split: option.splits if_splits)
  show ?thesis
    by (rule conforms_rows [OF assms(1) _ _ db'])
       (use assms(1,3) in \<open>auto simp: db_conforms_def wallet_inv_def subscribers_ok_def subscriber_checks_def
          chk_wallet_balance_nonneg_def chk_authorised_subscriber_is_billable_def\<close>)
qed (use assms(1) in simp)

lemma conforms_posting:
  assumes "db_conforms pg db" and "numeric pg' = numeric pg" and "RecordRecharge pg' db p = (db', r)"
  shows "db_conforms pg db'"
proof (cases r)
  case (Inr tx)
  have "wallet_inv pg db'"
    using wallet_inv_record [of pg' db p db' tx] assms Inr wallet_inv_cong [OF assms(2)] by (simp add: db_conforms_def)
  then show ?thesis using assms(3) [unfolded Inr]
    by (elim RecordRecharge_Inr) (use assms(1) in \<open>auto simp: db_conforms_def invoice_conforms_def leg_row_def\<close>)
qed (use assms RecordRecharge_Inl [of pg' db p db'] in auto)

lemma conforms_invoice:
  assumes "db_conforms pg db" and "numeric pg' = numeric pg" and "CreateInvoice pg' db bill = (db', r)"
  shows "db_conforms pg db'"
proof (cases "db' = db")
  case False
  then obtain b c g i t u where
    db': "db' = db\<lparr>invoices := invoices db @ [(invoice_seq db, bill\<lparr>BaseAmount := b, CgstAmount := c, SgstAmount := g,
             IgstAmount := i, TotalAmount := t, GbUsed := u\<rparr>)], invoice_seq := invoice_seq db + 1\<rparr>"
    and row: "chk_gst_logic (bill\<lparr>BaseAmount := b, CgstAmount := c, SgstAmount := g, IgstAmount := i, TotalAmount := t, GbUsed := u\<rparr>)"
    and nums: "numeric pg 12 (BaseAmount bill) = Some b" "numeric pg 12 (CgstAmount bill) = Some c" "numeric pg 12 (SgstAmount bill) = Some g"
      "numeric pg 12 (IgstAmount bill) = Some i" "numeric pg 12 (TotalAmount bill) = Some t"
    using assms(3) unfolding assms(2) [symmetric] by (auto simp: CreateInvoice_def Let_def split: sum.splits)
  have "invoice_stored pg (bill\<lparr>BaseAmount := b, CgstAmount := c, SgstAmount := g, IgstAmount := i, TotalAmount := t, GbUsed := u\<rparr>)"
    if "numeric_ok pg" using nums numeric_idem [OF that] by (simp add: invoice_stored_def)
  then show ?thesis using assms(1) row
    by (auto simp: db' db_conforms_def wallet_inv_def subscribers_ok_def gl_ok_def invoice_conforms_def dest: order.strict_trans)
qed (use assms(1) in simp)

lemma conforms_posted:
  assumes "db_conforms pg db" and "posted db ls g db'"
  shows "db_conforms pg db'"
proof -
  have "gl_ok db'" using posted_keeps(1) [OF assms(2)] assms(1) by (simp add: db_conforms_def wallet_inv_def)
  then show ?thesis using assms by (simp add: db_conforms_def wallet_inv_def subscribers_ok_def invoice_conforms_def posted_def)
qed

text \<open>A purchase order leaves the tables as they were or posts one entry.\<close>

lemma fulfilment_posts:
  assumes "UpdateFulfilment pg now i status actor b = (b', r)"
  shows "bk_db b' = bk_db b \<or> (\<exists>ls g. posted (bk_db b) ls g (bk_db b'))"
  using assms
proof (cases rule: UpdateFulfilment_cases)
  case (2 po)
  then show ?thesis using arg_cong [OF 2(4), of bk_db] by simp
next
  case (3 po)
  obtain x y g where "posted (bk_db b) [x, y] g (bk_db b')" using 3(4,5) by (rule post_received_Inr)
  then show ?thesis by blast
qed simp

lemma journal_posts:
  assumes "PostJournalEntry tx pg now e b = (b', r)"
  shows "bk_db b' = bk_db b \<or> (\<exists>ls g. posted (bk_db b) ls g (bk_db b'))"
  using assms by (cases rule: PostJournalEntry_cases) auto

lemma conforms_step:
  assumes "db_step pg db db'" and "db_conforms pg db"
  shows "db_conforms pg db'"
  using assms
proof (induction rule: db_step.induct)
  case (posting pg' db p db' r)
  then show ?case using conforms_posting by blast
next
  case (dunned pg' db i d st db' r)
  then show ?case using conforms_update [OF dunned(2)]
    by (auto simp: SetSubscriberDunningState_def split: sum.splits if_splits)
next
  case (dated pg' db i e db' r)
  then show ?case using conforms_update [OF dated(2)] by (auto simp: SetPlanExpiry_def split: sum.splits)
next
  case (activated pg' db i e db' r)
  then show ?case using conforms_update [OF activated(2)] by (auto simp: ActivateSubscriber_def split: sum.splits if_splits)
next
  case (invoiced pg' db bill db' k)
  then show ?case using conforms_invoice by blast
next
  case (closed pg' db i db' row)
  then show ?case using conforms_update [OF closed(2)] by (auto simp: Dunning.TerminateSubscriber_def split: sum.splits)
next
  case (throttled flt db i b db' r)
  show ?case by (rule conforms_update_one [OF throttled(2,1) [unfolded SetFUPActive_def]]) simp
next
  case (overridden flt db i rate e db' r)
  show ?case by (rule conforms_update_one [OF overridden(2,1) [unfolded SetSpeedOverride_def]]) simp
next
  case (cleared flt db i db' r)
  show ?case by (rule conforms_update_one [OF cleared(2,1) [unfolded ClearSpeedOverride_def]]) simp
next
  case (edited pg' i pl s e st st' row)
  then show ?case using conforms_update [OF edited(2)]
    by (auto simp: db_UpdateSubscriber_def store_UpdateSubscriber_def update_one_def set_db_def
        split: option.splits sum.splits if_splits)
next
  case (replanned pg' i pl e st st' row)
  then show ?case using conforms_update [OF replanned(2)]
    by (auto simp: SetSubscriberPlan_def update_one_def set_db_def split: sum.splits)
next
  case (journalled tx pg' now entry b b' r)
  then show ?case using journal_posts [OF journalled(1)] conforms_posted by metis
next
  case (received pg' now i status actor b b' r)
  then show ?case using fulfilment_posts [OF received(1)] conforms_posted by metis
next
  case (listed pg' a b b' r)
  from CreateAccount_chart [OF listed(1)] show ?case
  proof (elim disjE exE conjE)
    fix i assume "bk_db b' = (bk_db b)\<lparr>chart_of_accounts := chart_of_accounts (bk_db b) @ [(ac_Code a, i)]\<rparr>"
    then show ?thesis using listed(2) by (simp add: db_conforms_def wallet_inv_def subscribers_ok_def gl_ok_def invoice_conforms_def)
  qed (use listed(2) in simp)
qed

lemma conforms_commission:
  assumes "conforms pg s" and "numeric pg' = numeric pg" and "CalculateAndStoreLCOCommission pg' now s e = (s', r)"
  shows "conforms pg s'"
  using assms(3)
proof (cases rule: store_commission_cases)
  case (3 row db')
  have "db_conforms pg db'" using 3(5)
  proof
    assume "post_commission pg' e (lco_id row) (rv_db s) = Inr db'"
    then obtain g ls where db': "db' = (rv_db s)\<lparr>gl_entries := gl_entries (rv_db s) @ [g], gl_seq := gl_seq (rv_db s) + 1,
        gl_lines := gl_lines (rv_db s) @ ls\<rparr>" and ls: "\<forall>l \<in> set ls. gl_entry_id l = gl_seq (rv_db s) \<and> chk_gl_line l"
      by (rule post_commission_Inr)
    have "gl_ok db'"
      by (rule gl_ok_append [OF _ ls 3(4)]) (use assms(1) in \<open>simp_all add: db' conforms_def db_conforms_def wallet_inv_def\<close>)
    then show ?thesis using assms(1)
      by (simp add: db' conforms_def db_conforms_def wallet_inv_def subscribers_ok_def invoice_conforms_def)
  qed (use assms(1) in \<open>simp add: conforms_def\<close>)
  then show ?thesis using assms(1) insert_lco_Some [OF 3(3)]
    by (auto simp: 3(2) conforms_def unique_nullable_def)
qed (use assms(1) in simp_all)

lemma conforms_store_step:
  assumes "store_step pg s s'" and "conforms pg s"
  shows "conforms pg s'"
  using assms
proof (cases rule: store_step.cases)
  case (on_tables db')
  then show ?thesis using conforms_step [OF on_tables(2)] assms(2) by (simp add: conforms_def)
next
  case (settled pg' now e r)
  then show ?thesis using conforms_commission [OF assms(2) settled(1,2)] by simp
qed

lemma conforms_run:
  assumes "(store_step pg)\<^sup>*\<^sup>* s s'" and "conforms pg s"
  shows "conforms pg s'"
  using assms by (induction rule: rtranclp_induct) (blast intro: conforms_store_step)+

section \<open>Jobs and handlers are runs of writes\<close>

abbreviation db_run :: "'d::linordered_idom pg \<Rightarrow> 'd db \<Rightarrow> 'd db \<Rightarrow> bool" where
  "db_run pg \<equiv> (db_step pg)\<^sup>*\<^sup>*"

lemma db_run_store: "db_run pg (rv_db s) db' \<Longrightarrow> (store_step pg)\<^sup>*\<^sup>* s (s\<lparr>rv_db := db'\<rparr>)"
proof (induction rule: rtranclp_induct)
  case (step db1 db2)
  have "store_step pg (s\<lparr>rv_db := db1\<rparr>) (s\<lparr>rv_db := db1\<rparr>\<lparr>rv_db := db2\<rparr>)" by (rule on_tables) (use step in simp)
  with step(3) show ?case by simp
qed simp

lemma Recharge_run: "Recharge (BillingStore pg) db req = (db', r) \<Longrightarrow> db_run pg db db'"
  by (auto simp: Recharge_def record_posting_def BillingStore_def split: if_splits option.splits sum.splits prod.splits
      intro!: r_into_rtranclp db_step.posting)

lemma Post_run: "Post (BillingStore pg) db req = (db', r) \<Longrightarrow> db_run pg db db'"
  by (auto simp: Post_def record_posting_def BillingStore_def Let_def split: if_splits option.splits sum.splits prod.splits
      intro!: r_into_rtranclp db_step.posting)

lemma Transition_run: "TransitionDunning (DunningStore pg now) db i t = (db', r) \<Longrightarrow> db_run pg db db'"
  by (auto simp: TransitionDunning_def DunningStore_def split: sum.splits prod.splits if_splits
      intro!: r_into_rtranclp db_step.dunned)

lemma advance_loop_run: "advance_loop n (DunningStore pg now) i t d db = (db', r) \<Longrightarrow> db_run pg db db'"
proof (induction n arbitrary: d db)
  case (Suc n)
  show ?case
  proof (cases "d = t \<or> stepToward d t = None")
    case False
    then obtain x where x: "d \<noteq> t" "stepToward d t = Some x" by auto
    obtain db1 r1 where tr: "TransitionDunning (DunningStore pg now) db i x = (db1, r1)" by fastforce
    with Suc x show ?thesis using Transition_run [OF tr] rtranclp_trans [OF Transition_run [OF tr]]
      by (cases r1) auto
  qed (use Suc.prems in \<open>auto split: if_splits\<close>)
qed simp

lemma scan_candidates_run: "db_run pg (fst st) (fst (scan_candidates now flt (DunningStore pg dbnow) cs st))"
proof (induction cs arbitrary: st)
  case (Cons c cs)
  let ?t = "NextDunningState (dc_State c) (dc_PlanExpiry c) now"
  obtain db1 r1 where loop: "advance_loop maxSteps (DunningStore pg dbnow) (dc_SubscriberID c) ?t (dc_State c) (fst st) = (db1, r1)"
    by fastforce
  have "fst (fst (advance now flt (DunningStore pg dbnow) c ?t st)) = db1"
    by (auto simp: advance_def loop split: sum.split option.split prod.split job_error.split)
  then show ?case using Cons [of st] Cons [of "fst (advance now flt (DunningStore pg dbnow) c ?t st)"]
      rtranclp_trans [OF advance_loop_run [OF loop]]
    by (simp add: Let_def)
qed simp

lemma DunningScan_run: "db_run pg (fst st) (fst (fst (DunningScan dbnow now flt pg st)))"
  using scan_candidates_run [of pg st] by (auto simp: DunningScan_def split: sum.split)

lemma renew_run: "db_run pg (bl_db w) (bl_db (fst (renew dp dbnow now flt pg w c)))"
proof (cases "buildInvoice dp pg dbnow (bl_db w) c")
  case (Inr bill)
  obtain db1 r1 where post: "Post (BillingStore pg) (bl_db w) (renewal_request c bill) = (db1, r1)" by fastforce
  obtain db2 r2 where st: "stamp pg db1 c (new_expiry now c) = (db2, r2)" by fastforce
  obtain db3 r3 where inv: "CreateInvoice pg db2 bill = (db3, r3)" by fastforce
  let ?w3 = "fst (persistInvoice pg (w\<lparr>bl_db := db2\<rparr>) bill)"
  have w3: "bl_db ?w3 = db3" by (simp add: persistInvoice_def inv split: sum.split)
  obtain db4 r4 where tr: "TransitionDunning (DunningStore pg dbnow) db3 (rc_SubscriberID c) DunningActive = (db4, r4)" by fastforce
  have w4: "bl_db (restore_dunning dbnow now flt pg c (new_expiry now c) ?w3) \<in> {db3, db4}"
    by (auto simp: restore_dunning_def w3 tr enqueueRestorationNotice_def split: sum.split option.split)
  have s12: "db_run pg db1 db2" using st
    by (auto simp: stamp_def split: if_splits intro: r_into_rtranclp db_step.activated db_step.dated)
  have s23: "db_run pg db2 db3" using inv by (intro r_into_rtranclp db_step.invoiced) auto
  have "bl_db (fst (renew dp dbnow now flt pg w c)) \<in> {db1, db2, db3, db4}"
    using w4 by (auto simp: renew_def Inr post st Let_def split: sum.split err.split)
  then show ?thesis using Post_run [OF post] s12 s23 Transition_run [OF tr] by (auto dest: rtranclp_trans)
qed (simp add: renew_def)

lemma RenewalScan_run: "db_run pg (bl_db w) (bl_db (fst (RenewalScan dp dbnow now flt pg w)))"
proof -
  have "db_run pg (bl_db w) (bl_db (renew_all dp dbnow now flt pg cs w))" for cs w
  proof (induction cs arbitrary: w)
    case (Cons c cs)
    show ?case using rtranclp_trans [OF renew_run [of pg w dp dbnow now flt c] Cons] by simp
  qed simp
  then show ?thesis by (simp add: RenewalScan_def split: sum.split)
qed

lemma settle_run: "(store_step pg)\<^sup>*\<^sup>* s (SettleCommissionForRecharge dp (RevenueStore pg now) s i a t)"
  by (auto simp: SettleCommissionForRecharge_def CalculateLCOCommission_def RevenueStore_def Let_def
      split: sum.split option.split prod.split intro!: r_into_rtranclp store_step.settled)

lemma pay_settle_run: "(store_step pg)\<^sup>*\<^sup>* (pa_rev st) (pa_rev (pay_settle dp pg now b i a t st))"
  by (simp add: pay_settle_def settle_run)

lemma pay_Recharge_run: "(store_step pg)\<^sup>*\<^sup>* (pa_rev st) (pa_rev (fst (pay_Recharge pg req st)))"
proof -
  obtain db' r where run: "Recharge (BillingStore pg) (rv_db (pa_rev st)) req = (db', r)" by fastforce
  then show ?thesis using db_run_store [OF Recharge_run [OF run]] by (simp add: pay_Recharge_def)
qed

lemma pay_side_effects [simp]:
  "pa_rev (enqueuePaymentReceipt pg now i a b st) = pa_rev st" "pa_rev (Handler_emit ev i st) = pa_rev st"
  by (simp_all add: enqueuePaymentReceipt_def Handler_emit_def Let_def split: option.split sum.split)

lemma RazorpayWebhook_run: "(store_step pg)\<^sup>*\<^sup>* (pa_rev st) (pa_rev (fst (RazorpayWebhook dp pg now env req st)))"
proof -
  have "(store_step pg)\<^sup>*\<^sup>* (pa_rev st) (pa_rev (fst (credit_captured dp pg now b p i st)))" for b p i
    using pay_Recharge_run [of pg st "webhook_recharge dp p i"] rtranclp_trans [OF _ pay_settle_run]
    by (auto simp: credit_captured_def Let_def split: prod.split sum.split)
  then show ?thesis by (auto simp: RazorpayWebhook_def Let_def split: option.split)
qed

lemma on_db_run: "db_run pg (rv_db (pa_rev st)) (fst (f (rv_db (pa_rev st)))) \<Longrightarrow> (store_step pg)\<^sup>*\<^sup>* (pa_rev st) (pa_rev (on_db f st))"
  using db_run_store [of pg "pa_rev st"] by (simp add: on_db_def)

lemma extend_run: "db_run pg db (fst (extendPlanExpiry pg now i db))"
proof (cases "GetPlanRenewalInfo pg db i")
  case (Inr x)
  then show ?thesis
    by (cases x) (auto simp: extendPlanExpiry_def intro!: r_into_rtranclp db_step.dated prod.collapse [symmetric])
qed (simp add: extendPlanExpiry_def)

lemma renewal_invoice_run: "db_run pg db (fst (createRenewalInvoice dp pg now i a db))"
proof -
  have "db_run pg db (fst (CreateInvoice pg db bill))" for bill
    by (rule r_into_rtranclp, rule db_step.invoiced [OF refl prod.collapse [symmetric]])
  then show ?thesis by (auto simp: createRenewalInvoice_def split: sum.split prod.split) (metis fst_conv)
qed

lemma ApplyRenewal_run: "(store_step pg)\<^sup>*\<^sup>* (pa_rev st) (pa_rev (fst (ApplyRenewal dp pg now i a t st)))"
proof -
  let ?req = "\<lparr>rr_SubscriberID = i, rr_Amount = a, rr_Token = t, rr_FranchiseID = None, rr_Description = ''portal one-tap renewal''\<rparr>"
  obtain st1 r where run: "pay_Recharge pg ?req st = (st1, r)" by fastforce
  have "(store_step pg)\<^sup>*\<^sup>* (pa_rev st) (pa_rev st1)" using pay_Recharge_run [of pg st ?req] run by simp
  moreover have "(store_step pg)\<^sup>*\<^sup>* (pa_rev st1) (pa_rev (pay_settle dp pg now True i a t
      (on_db (createRenewalInvoice dp pg now i a) (on_db (extendPlanExpiry pg now i) st1))))"
    by (meson rtranclp_trans on_db_run extend_run renewal_invoice_run pay_settle_run)
  ultimately show ?thesis by (auto simp: ApplyRenewal_def run Let_def split: sum.split intro: rtranclp_trans)
qed

lemma fup_enqueue_db [simp]: "fu_db (fst (fup_enqueue flt now t st)) = fu_db st"
  by (simp add: fup_enqueue_def case_prod_beta)

lemma perform_run:
  assumes "performGatedAction pg now actor r st = (st', l, e)"
  shows "db_run pg (wf_db st) (wf_db st')"
proof (cases "ar_ActionType r = ActionTerminate")
  case True
  obtain db1 row where t: "Dunning.TerminateSubscriber pg (wf_db st) (ar_SubscriberID r) = (db1, row)" by fastforce
  have keep: "wf_db (InvalidateSubscriber pg u s) = wf_db s" "wf_db (enqueuePoDIfSessionActive pg now i s) = wf_db s" for u i s
    by (simp_all add: InvalidateSubscriber_def enqueuePoDIfSessionActive_def wf_enqueue_def split: sum.split option.split)
  have one: "wf_db (fst (CreateFieldTask pg g s x)) = wf_db s" for g s x by (simp add: CreateFieldTask_def split: sum.split)
  have many: "wf_db (fold (\<lambda>d s. fst (CreateFieldTask pg g s (h d))) ds s) = wf_db s" for g h s and ds :: "device list"
    by (induction ds arbitrary: s) (simp_all add: one)
  have "wf_db (openCPERecoveryTasks pg a i u s) = wf_db s" for a i u s
    by (simp add: openCPERecoveryTasks_def many split: sum.split)
  with assms keep have "wf_db st' = db1"
    by (auto simp: performGatedAction_def True t Let_def set_db_def split: sum.splits option.splits)
  then show ?thesis using db_step.closed [OF t] by blast
next
  case False
  show ?thesis
  proof (cases "ar_Amount r")
    case None
    then show ?thesis using assms False by (cases "ar_ActionType r") (auto simp: performGatedAction_def)
  next
    case (Some a)
    obtain db1 p where p: "Post (BillingStore pg) (wf_db st) (gated_post r a) = (db1, p)" by fastforce
    have "wf_db (fst (CreateRefund pg s i k b x y)) = wf_db s" for s i k b x y by (simp add: CreateRefund_def split: sum.split)
    then have refund: "CreateRefund pg s i k b x y = (s', z) \<Longrightarrow> wf_db s' = wf_db s" for s i k b x y s' z
      by (metis fst_conv)
    have "wf_db (set_db db1 st) = db1" by (simp add: set_db_def)
    then have "wf_db st' = db1" using assms False
      by (cases "ar_ActionType r") (auto simp: performGatedAction_def Some p split: sum.splits prod.splits dest!: refund)
    then show ?thesis using Post_run [OF p] by simp
  qed
qed

lemma ApproveRequest_run: "db_run pg (wf_db st) (wf_db (fst (ApproveRequest pg now path actor st)))"
proof (cases path)
  case (Some i)
  obtain st1 res where claim: "ClaimApprovalRequest pg st i actor = (st1, res)" by fastforce
  have st1: "wf_db st1 = wf_db st" using claim unfolding ClaimApprovalRequest_def by (elim decide_cases) simp_all
  have fin: "wf_db (fst (FinalizeApprovalExecution pg s k x y z)) = wf_db s" for s k x y z
    by (simp add: FinalizeApprovalExecution_def split: sum.split)
  have "db_run pg (wf_db st) (wf_db (fst (executeApprovedAction pg now actor r st1)))" for r
  proof -
    obtain st2 l e where p: "performGatedAction pg now actor r st1 = (st2, l, e)" by (metis prod_cases3)
    then show ?thesis using perform_run [OF p] st1 by (simp add: executeApprovedAction_def fin)
  qed
  then have "db_run pg (wf_db st) (wf_db (fst (ExecuteApprovedRequest pg now i actor st)))"
    using st1 by (auto simp: ExecuteApprovedRequest_def claim case_prod_beta split: sum.split option.split)
  then show ?thesis
    by (auto simp: Some ApproveRequest_def case_prod_beta split: sum.split option.split decision_error.split)
qed (simp add: ApproveRequest_def)

lemma breach_loop_run: "db_run pg (fu_db st) (fu_db (fst (breach_loop flt now xs st)))"
proof (induction xs arbitrary: st)
  case (Cons x xs)
  obtain db1 r1 where set1: "SetFUPActive flt (fu_db st) (st_SubscriberID x) True = (db1, r1)" by fastforce
  obtain st2 r2 where enq: "fup_enqueue flt now (coa_task (st_SubscriberID x) (st_NasIP x)) (st\<lparr>fu_db := db1\<rparr>) = (st2, r2)" by fastforce
  have "fu_db st2 = db1" using fup_enqueue_db [of flt now "coa_task (st_SubscriberID x) (st_NasIP x)" "st\<lparr>fu_db := db1\<rparr>"] enq by simp
  then show ?case
    using Cons [of st] Cons [of "st\<lparr>fu_db := db1\<rparr>"] Cons [of "fst (enqueueThrottledNotice flt now x st2)"]
      converse_rtranclp_into_rtranclp [of "db_step pg", OF db_step.throttled [OF set1]] db_step.throttled [OF set1, of pg]
    by (auto simp: set1 enq notice_keeps split: sum.split)
qed simp

lemma override_loop_run: "db_run pg (fu_db st) (fu_db (override_loop flt now ids st))"
proof (induction ids arbitrary: st)
  case (Cons i ids)
  obtain db1 r1 where c: "ClearSpeedOverride flt (fu_db st) i = (db1, r1)" by fastforce
  show ?case
    using Cons [of "st\<lparr>fu_db := db1\<rparr>"] Cons [of "fst (fup_enqueue flt now (coa_task i []) (st\<lparr>fu_db := db1\<rparr>))"]
      converse_rtranclp_into_rtranclp [of "db_step pg", OF db_step.cleared [OF c]]
    by (simp add: c split: sum.split)
qed simp

lemma warning_loop_db: "fu_db (fst (warning_loop flt now xs st)) = fu_db st"
proof (induction xs arbitrary: st)
  case (Cons x xs)
  obtain st2 r2 where e: "fup_enqueue flt now (warning_task x) st = (st2, r2)" by fastforce
  have "fu_db st2 = fu_db st" using fup_enqueue_db [of flt now "warning_task x" st] e by simp
  then show ?case using Cons by (auto simp: e split: sum.split job_error.split)
qed simp

lemma fup_scan_run: "db_run pg (fu_db st) (fu_db (fst (fup_scan flt tmax now st)))"
proof -
  obtain st1 r1 where b: "scanBreaches flt tmax now st = (st1, r1)" by fastforce
  have 1: "db_run pg (fu_db st) (fu_db st1)"
    using b breach_loop_run [of pg st flt now] by (auto simp: scanBreaches_def split: sum.splits) (metis fst_conv)
  obtain st2 r2 where o: "scanExpiredOverrides flt now st1 = (st2, r2)" by fastforce
  have 2: "db_run pg (fu_db st1) (fu_db st2)"
    using o override_loop_run [of pg st1 flt now] by (auto simp: scanExpiredOverrides_def split: sum.splits)
  have 3: "fu_db (fst (scanWarnings flt tmax now st2)) = fu_db st2"
    by (simp add: scanWarnings_def warning_loop_db split: sum.split)
  show ?thesis using 1 rtranclp_trans [OF 1 2] 3 by (auto simp: fup_scan_def b o split: sum.split)
qed

section \<open>Conformance\<close>


section \<open>The books of the business\<close>

text \<open>Every posting names accounts it looked up in the chart.\<close>

lemma insertGLLines_charted: "insertGLLines pg e legs db = Inr db' \<Longrightarrow> charted db \<Longrightarrow> charted db'"
proof (induction legs arbitrary: db)
  case (Cons leg legs)
  then obtain db1 where one: "insertGLLine pg e leg db = Inr db1" and rest: "insertGLLines pg e legs db1 = Inr db'" by auto
  from one obtain i l where "db1 = db\<lparr>gl_lines := gl_lines db @ [l]\<rparr>" "gl_account l = i" "glAccountID pg db (leg_code leg) = Inr i"
    by (auto simp: insertGLLine_def Let_def)
  then have "charted db1" using charted_line [OF Cons.prems(2)] glAccountID_Inr by metis
  with Cons.IH [OF rest] show ?case .
qed simp

lemma update_charted: "update_subscribers P f db = Inr db' \<Longrightarrow> charted db \<Longrightarrow> charted db'"
  by (auto simp: update_subscribers_def split: if_splits)

lemma leg_charted:
  assumes "insertLeg pg l e token db = Inr (db', i)" and "charted db"
  shows "charted db'"
proof -
  from assms(1) obtain row where "db' = db\<lparr>wallet_ledgers := wallet_ledgers db @ [row], wallet_seq := wallet_seq db + 1\<rparr>"
    unfolding insertLeg_Inr by blast
  with assms(2) show ?thesis by simp
qed

lemma walletGL_charted: "postWalletGLEntry pg p i db = Inr db' \<Longrightarrow> charted db \<Longrightarrow> charted db'"
  unfolding postWalletGLEntry_def Let_def bindE_Inr by (elim exE conjE, drule insertGLLines_charted) simp_all

lemma recharge_charted:
  assumes "RecordRecharge pg db p = (db', r)" and "charted db"
  shows "charted db'"
proof (cases r)
  case (Inr tx)
  with assms(1) have "recharge_body pg p db = Inr (db', tx)" by (simp add: RecordRecharge_def inTx_Inr)
  then obtain db1 i1 db2 i2 nb db3 where
      legs: "insertLeg pg ''insert debit leg'' (rp_Debit p) None db = Inr (db1, i1)"
      "insertLeg pg ''insert credit leg'' (rp_Credit p) (we_Token (rp_Credit p)) db1 = Inr (db2, i2)"
    and upd: "update_subscribers (\<lambda>r. sub_id r = rp_SubscriberID p) (\<lambda>r. r\<lparr>sub_balance := nb\<rparr>) db2 = Inr db3"
    and post: "postWalletGLEntry pg p i2 db3 = Inr db'"
    unfolding recharge_body_def by (auto split: prod.splits)
  have "charted db3"
    using update_charted [OF upd] leg_charted [OF legs(2)] leg_charted [OF legs(1) assms(2)] by blast
  with post show ?thesis by (rule walletGL_charted)
qed (use assms RecordRecharge_Inl [of pg db p db'] in auto)

lemma commission_line_charted:
  assumes "insert_commission_line pg l j a d c db = Inr db'" and "charted db" and "a \<in> snd ` set (chart_of_accounts db)"
  shows "charted db'" and "chart_of_accounts db' = chart_of_accounts db"
proof -
  from assms(1) obtain x where db': "db' = db\<lparr>gl_lines := gl_lines db @ [x]\<rparr>" "gl_account x = a"
    unfolding insert_commission_line_Inr by (metis gl_line.select_convs(2))
  show "charted db'" unfolding db'(1) by (rule charted_line [OF assms(2)]) (use assms(3) db'(2) in simp)
  show "chart_of_accounts db' = chart_of_accounts db" by (simp add: db'(1))
qed

lemma commission_charted:
  assumes "CalculateAndStoreLCOCommission pg now s e = (s', r)" and "charted (rv_db s)"
  shows "charted (rv_db s')"
  using assms(1)
proof (cases rule: store_commission_cases)
  case (3 row db')
  from 3(5) show ?thesis
  proof
    assume "post_commission pg e (lco_id row) (rv_db s) = Inr db'"
    define g where "g = (rv_db s)\<lparr>gl_entries := gl_entries (rv_db s) @
        [\<lparr>ge_id = gl_seq (rv_db s), ge_description = commission_description e, ge_source_type = ''lco_commission'',
          ge_source_id = lco_id row, ge_created_by = ''system''\<rparr>], gl_seq := gl_seq (rv_db s) + 1\<rparr>"
    have g: "charted g" using assms(2) by (simp add: g_def)
    from \<open>post_commission pg e (lco_id row) (rv_db s) = Inr db'\<close> obtain i k db2 where
      acc: "glAccountID pg g ''5000'' = Inr i" "glAccountID pg g ''2100'' = Inr k"
      and one: "insert_commission_line pg ''insert commission expense line'' (gl_seq (rv_db s)) i (ce_CommissionAmount e) 0 g = Inr db2"
      and two: "insert_commission_line pg ''insert commission payable line'' (gl_seq (rv_db s)) k 0 (ce_CommissionAmount e) db2 = Inr db'"
      by (auto simp: post_commission_def Let_def g_def)
    have "charted db2" "chart_of_accounts db2 = chart_of_accounts g" by (rule commission_line_charted [OF one g glAccountID_Inr [OF acc(1)]])+
    then have "charted db'" using commission_line_charted(1) [OF two] glAccountID_Inr [OF acc(2)] by simp
    then show ?thesis by (simp add: 3(2))
  qed (use assms(2) in \<open>simp add: 3(2)\<close>)
qed (use assms(2) in simp_all)

lemma update_one_charted: "update_subscriber flt l db i f = (db', r) \<Longrightarrow> charted db \<Longrightarrow> charted db'"
  by (auto simp: update_subscriber_def split: option.splits if_splits)

lemma invoice_charted: "CreateInvoice pg db bill = (db', r) \<Longrightarrow> charted db \<Longrightarrow> charted db'"
  by (auto simp: CreateInvoice_def Let_def split: sum.splits)

lemma charted_step:
  assumes "db_step pg db db'" and "charted db"
  shows "charted db'"
  using assms
proof (induction rule: db_step.induct)
  case (journalled tx pg' now entry b b' r)
  then show ?case using journal_posts [OF journalled(1)] posted_keeps(2) by metis
next
  case (received pg' now i status actor b b' r)
  then show ?case using fulfilment_posts [OF received(1)] posted_keeps(2) by metis
next
  case (listed pg' a b b' r)
  then show ?case using CreateAccount_chart [OF listed(1)] charted_listed by metis
next
  case (edited pg' i pl s e st st' row)
  then show ?case
    by (auto simp: db_UpdateSubscriber_def store_UpdateSubscriber_def update_one_def set_db_def
        split: option.splits sum.splits if_splits dest: update_charted)
qed (auto simp: SetSubscriberDunningState_def SetPlanExpiry_def ActivateSubscriber_def Dunning.TerminateSubscriber_def
    SetFUPActive_def SetSpeedOverride_def ClearSpeedOverride_def SetSubscriberPlan_def update_one_def set_db_def
    split: sum.splits if_splits dest: recharge_charted update_charted update_one_charted invoice_charted)

lemma charted_run: "(store_step pg)\<^sup>*\<^sup>* s s' \<Longrightarrow> charted (rv_db s) \<Longrightarrow> charted (rv_db s')"
proof (induction rule: rtranclp_induct)
  case (step s1 s2)
  from step(2) show ?case
    by cases (use step charted_step commission_charted in \<open>fastforce+\<close>)
qed

text \<open>
  C4. The books balance. From conforming tables whose journal names only accounts of the chart, whatever the
  wallet, the renewals, the commissions, the purchase orders and the manual entries post, in any order and
  with any statement failing, the trial balance has equal debits and credits; and on a chart whose sides
  follow its types, the assets at any date are the liabilities plus the equity plus the income less the
  expenses up to that date.
\<close>

theorem books_always_balance:
  assumes "conforms pg s" and "charted (rv_db s)" and "(store_step pg)\<^sup>*\<^sup>* s s'" and "bk_db b = rv_db s'"
  shows "sum_list (map tb_DebitTotal (v_gl_trial_balance b)) = sum_list (map tb_CreditTotal (v_gl_trial_balance b))
       \<and> (conventional b \<and> (\<forall>e. start \<le> bk_entry_date b e) \<longrightarrow>
            type_total TypeAsset (gl_balance_sheet b t)
            = type_total TypeLiability (gl_balance_sheet b t) + type_total TypeEquity (gl_balance_sheet b t)
              + (type_total TypeIncome (gl_income_statement b start t) - type_total TypeExpense (gl_income_statement b start t)))"
proof -
  have "gl_ok (bk_db b)" using conforms_run [OF assms(3,1)] assms(4) by (simp add: conforms_def db_conforms_def wallet_inv_def)
  moreover have "charted (bk_db b)" using charted_run [OF assms(3,2)] assms(4) by simp
  ultimately show ?thesis using trial_balance_totals accounting_equation by blast
qed

section \<open>Cut off in billing, refused on the network\<close>

text \<open>No write changes a username.\<close>

lemma update_names:
  "update_subscribers P f db = Inr db' \<Longrightarrow> (\<And>r. sub_username (f r) = sub_username r) \<Longrightarrow>
     map sub_username (subscribers db') = map sub_username (subscribers db)"
  by (auto simp: update_subscribers_def map_update_where split: if_splits)

lemma scan_names:
  "map sub_username (subscribers (fst (fst (DunningScan dbnow now flt pg st)))) = map sub_username (subscribers (fst st))"
proof -
  have tr: "map sub_username (subscribers db') = map sub_username (subscribers db)"
    if "TransitionDunning (DunningStore pg dbnow) db i t = (db', r)" for db i t db' r
    using that by (auto simp: TransitionDunning_def DunningStore_def SetSubscriberDunningState_def
        split: sum.splits prod.splits if_splits dest!: update_names)
  have loop: "map sub_username (subscribers (fst (advance_loop n (DunningStore pg dbnow) i t d db))) = map sub_username (subscribers db)"
    for n i t d db
  proof (induction n arbitrary: d db)
    case (Suc n)
    show ?case by (auto simp: Suc split: option.split prod.split sum.split dest!: tr)
  qed simp
  have adv: "map sub_username (subscribers (fst (fst (advance now flt (DunningStore pg dbnow) c t st)))) = map sub_username (subscribers (fst st))"
    for c t st
    using loop [of maxSteps "dc_SubscriberID c" t "dc_State c" "fst st"]
    by (auto simp: advance_def split: prod.split sum.split option.split job_error.split)
  have "map sub_username (subscribers (fst (scan_candidates now flt (DunningStore pg dbnow) cs st))) = map sub_username (subscribers (fst st))" for cs st
    by (induction cs arbitrary: st) (simp_all add: Let_def adv)
  then show ?thesis by (simp add: DunningScan_def split: sum.split)
qed

lemma unauthorised_refused:
  assumes "en_db env (rq_UserName q) = Inr (Some sub)" and "\<not> AuthorisesService (s_Status sub)"
    and "rq_EAPMessage q = []" and "\<not> looksLikeMAB (rq_UserName q) (rq_UserPassword q)"
  shows "\<not> accepts (handleAuth env q d)"
proof -
  have "handleEAP env q d = None" using assms(3) by (simp add: handleEAP_def)
  moreover have "handleMAB env q d = None" using assms(4) by (simp add: handleMAB_def)
  ultimately show ?thesis using assms(1,2) by (simp add: handleAuth_def handlePAP_def Let_def case_prod_beta)
qed

lemma username_lookup:
  assumes "distinct (map sub_username (subscribers db))" and "r \<in> set (subscribers db)"
    and "GetSubscriberByUsername flt db (sub_username r) = Inr (Some sub)"
  shows "s_Status sub = status_text (sub_status r)"
proof -
  have "find (\<lambda>s. sub_username s = sub_username r) (subscribers db) = Some r" by (rule find_Some_iff_distinct [OF assms(1,2)])
  then show ?thesis using assms(3) by (auto simp: GetSubscriberByUsername_def split: option.splits)
qed

text \<open>The daemon's lookup in one request: the subscriber cache in front of the database, as it stands after the events before it.\<close>

definition cached_lookup ::
  "time \<Rightarrow> time \<Rightarrow> (string \<Rightarrow> string + Subscriber option) \<Rightarrow> SubscriberCache \<Rightarrow> string \<Rightarrow> string + Subscriber option" where
  "cached_lookup now now' look c username = snd (Cache_GetSubscriberByUsername now now' look c username)"

lemma barred_refused:
  assumes "\<And>sub. en_db env (rq_UserName q) = Inr (Some sub) \<Longrightarrow> \<not> AuthorisesService (s_Status sub)"
    and "rq_EAPMessage q = []" and "\<not> looksLikeMAB (rq_UserName q) (rq_UserPassword q)"
  shows "\<not> accepts (handleAuth env q d)"
proof (cases "\<exists>sub. en_db env (rq_UserName q) = Inr (Some sub)")
  case True
  then show ?thesis using unauthorised_refused [OF _ assms(1) assms(2,3)] by blast
next
  case False
  then have "\<not> accepts (handlePAP env q d)" by (auto simp: handlePAP_def Let_def case_prod_beta split: sum.split option.split)
  then show ?thesis using assms(2,3) by (simp add: handleAuth_def handleEAP_def handleMAB_def)
qed

lemma scan_bars:
  assumes "pg_faults pg = no_faults" and "distinct (map sub_id (subscribers db))" and "distinct (map sub_username (subscribers db))"
    and "\<forall>r \<in> set (subscribers db). 0 \<le> sub_balance r" and "r \<in> set (subscribers db)" and "is_dunning_candidate dbnow r"
    and "NextDunningState (sub_dunning r) (the (sub_expiry r)) now = DunningHardSuspended"
    and "sub_dunning r = DunningHardSuspended \<longrightarrow> sub_status r = HardSuspended"
    and "DunningScan dbnow now flt pg (db, jq) = ((db', jq'), res)"
    and "GetSubscriberByUsername flt' db' (sub_username r) = Inr (Some sub)"
  shows "\<not> AuthorisesService (s_Status sub)"
proof -
  let ?r = "moved DunningHardSuspended r"
  have "find_subscriber db' (sub_id r) = Some ?r" using dunning_scan_row [OF assms(1,2,4,5,9)] assms(6,7) by simp
  then have mem: "?r \<in> set (subscribers db')" by (auto simp: find_subscriber_def dest: find_SomeD)
  have names: "distinct (map sub_username (subscribers db'))" using scan_names [of dbnow now flt pg "(db, jq)"] assms(3,9) by simp
  have u: "sub_username ?r = sub_username r" by (simp add: moved_def)
  have "ladder_index (sub_dunning r) \<le> 6" using ladder_index_range by blast
  then have "sub_status ?r = HardSuspended"
    using assms(8) ladder_index_inj [of "sub_dunning r" DunningHardSuspended] by (auto simp: moved_def movable_def)
  then show ?thesis using username_lookup [OF names mem, of flt' sub] assms(10) by (simp add: u AuthorisesService_def)
qed

text \<open>
  C9. Dunning reaches the network within the lifetime of a cached record. Let a scan run over a subscriber
  whose expiry is so long past that the ladder ends in hard suspension, and let every lookup of that name
  that starts at \<open>T\<close> or later read the tables the scan left. If no database read took longer than \<open>slow\<close>,
  then from \<open>T + slow + ttl\<close> on no password gets the subscriber online: whatever the cache has been asked,
  and whatever the daemon remembers of earlier logins, a PAP request is refused.
\<close>

theorem dunning_cuts_off:
  assumes "pg_faults pg = no_faults" and "distinct (map sub_id (subscribers db))" and "distinct (map sub_username (subscribers db))"
    and "\<forall>r \<in> set (subscribers db). 0 \<le> sub_balance r" and "r \<in> set (subscribers db)" and "is_dunning_candidate dbnow r"
    and "NextDunningState (sub_dunning r) (the (sub_expiry r)) now = DunningHardSuspended"
    and "sub_dunning r = DunningHardSuspended \<longrightarrow> sub_status r = HardSuspended"
    and "DunningScan dbnow now flt pg (db, jq) = ((db', jq'), res)"
    and "Second \<le> ttl" and "T + slow + ttl < tm"
    and "\<forall>t t' a. Lookup t t' (sub_username r) a \<in> set evs \<longrightarrow>
           t' \<le> t + slow \<and> (T \<le> t \<longrightarrow> (\<exists>flt'. a = GetSubscriberByUsername flt' db' (sub_username r)))"
    and "en_db env = cached_lookup tm tm' (GetSubscriberByUsername flt'' db') (cache_run evs (NewSubscriberCache ttl))"
    and "rq_UserName q = sub_username r" and "rq_EAPMessage q = []" and "\<not> looksLikeMAB (rq_UserName q) (rq_UserPassword q)"
  shows "\<not> accepts (handleAuth env q d)"
proof (rule barred_refused [OF _ assms(15,16)])
  fix sub
  assume "en_db env (rq_UserName q) = Inr (Some sub)"
  then obtain c' where got: "Cache_GetSubscriberByUsername tm tm' (GetSubscriberByUsername flt'' db')
      (cache_run evs (NewSubscriberCache ttl)) (sub_username r) = (c', Inr (Some sub))"
    using assms(13,14) by (metis cached_lookup_def prod.collapse)
  from assms(10) got show "\<not> AuthorisesService (s_Status sub)"
  proof (rule cached_answer_recent)
    assume "GetSubscriberByUsername flt'' db' (sub_username r) = Inr (Some sub)"
    then show ?thesis by (rule scan_bars [OF assms(1-9)])
  next
    fix pre t t' rest
    assume evs: "evs = pre @ Lookup t t' (sub_username r) (Inr (Some sub)) # rest" and live: "tm \<le> t' + ttl"
    then have "Lookup t t' (sub_username r) (Inr (Some sub)) \<in> set evs" by simp
    with assms(12) have "t' \<le> t + slow" and "T \<le> t \<longrightarrow> (\<exists>flt'. Inr (Some sub) = GetSubscriberByUsername flt' db' (sub_username r))" by blast+
    moreover from this(1) live assms(11) have "T \<le> t" by linarith
    ultimately obtain flt' where "GetSubscriberByUsername flt' db' (sub_username r) = Inr (Some sub)" by auto
    then show ?thesis by (rule scan_bars [OF assms(1-9)])
  qed
qed

section \<open>Witnesses\<close>

lemma rv_demo_conforms: "conforms (rat_pg flt) rv_demo"
proof -
  have "wallet_ledgers (rv_db rv_demo) = [wb_leg]" "wallet_seq (rv_db rv_demo) = 2" "invoices (rv_db rv_demo) = []" "rv_lco rv_demo = []"
    by (simp_all add: rv_demo_def wb_db_def)
  then show ?thesis using rv_demo_books [of flt]
    by (simp add: conforms_def db_conforms_def books_ok_def unique_nullable_def wb_leg_def)
qed


definition pf_books :: "rat books" where
  "pf_books = gl_demo\<lparr>bk_db := rv_db rv_demo,
     bk_account := (\<lambda>i. if i = 1 then gl_account_row\<lparr>ac_AccountType := TypeAsset\<rparr>
                        else gl_account_row\<lparr>ac_AccountType := TypeLiability, ac_NormalBalance := BalanceCredit\<rparr>)\<rparr>"

lemma pf_posting:
  "bk_db (fst (PostJournalEntry gl_text (rat_pg no_faults) 9 gl_manual pf_books)) = (rv_db rv_demo)\<lparr>
     gl_entries := [\<lparr>ge_id = 1, ge_description = ''rent'', ge_source_type = ''manual'', ge_source_id = 0, ge_created_by = ''asha''\<rparr>],
     gl_seq := 2, gl_lines := [\<lparr>gl_entry_id = 1, gl_account = 1, gl_debit = 5, gl_credit = 0\<rparr>,
       \<lparr>gl_entry_id = 1, gl_account = 2, gl_debit = 0, gl_credit = 5\<rparr>]\<rparr>"
  by (simp add: PostJournalEntry_def gl_manual_def gl_text_def parseDecimal_def inTx_def stmt_def rat_pg_def journal_body_def
      castE_def insert_line_def numericE_def gl_numeric guardE_def chk_gl_line_def add_entry_def pf_books_def rv_demo_def wb_db_def
      check_gl_journal_balanced_def entry_debits_def entry_credits_def Let_def)

theorem books_always_balance_witness:
  "\<exists>b. (store_step (rat_pg no_faults))\<^sup>*\<^sup>* rv_demo (rv_demo\<lparr>rv_db := bk_db b\<rparr>)
     \<and> sum_list (map tb_DebitTotal (v_gl_trial_balance b)) = 5 \<and> sum_list (map tb_CreditTotal (v_gl_trial_balance b)) = 5
     \<and> type_total TypeAsset (gl_balance_sheet b 10) = type_total TypeLiability (gl_balance_sheet b 10)
         + type_total TypeEquity (gl_balance_sheet b 10)
         + (type_total TypeIncome (gl_income_statement b 0 10) - type_total TypeExpense (gl_income_statement b 0 10))"
proof -
  obtain b r where run: "PostJournalEntry gl_text (rat_pg no_faults) 9 gl_manual pf_books = (b, r)" by fastforce
  have db: "bk_db pf_books = rv_db rv_demo" "chart_of_accounts (rv_db rv_demo) = [(''5000'', 11), (''2100'', 12), (''1000'', 1), (''1200'', 2), (''4000'', 5), (''2200'', 9), (''5200'', 8)]"
    by (simp_all add: pf_books_def rv_demo_def wb_db_def)
  have dates: "bk_account b = bk_account pf_books" "0 \<le> bk_entry_date b e" for e
    using run by (cases rule: PostJournalEntry_cases; auto simp: pf_books_def gl_demo_def dest: arg_cong [of _ _ bk_account] arg_cong [of _ _ bk_entry_date])+
  have steps: "(store_step (rat_pg no_faults))\<^sup>*\<^sup>* rv_demo (rv_demo\<lparr>rv_db := bk_db b\<rparr>)"
    by (rule db_run_store, rule r_into_rtranclp) (use db_step.journalled [OF run] db(1) in metis)
  have conv: "conventional b"
    unfolding conventional_def using pf_posting run
    by (simp add: db(2) account_row_def dates(1) pf_books_def gl_account_row_def ValidAccountType_def NormalBalanceFor_def account_types BalanceDebit_def BalanceCredit_def)
  have "charted (rv_db rv_demo)" by (simp add: charted_def db(2))
  note books = books_always_balance [OF rv_demo_conforms this steps, of b 0 10]
  have "sum_list (map tb_DebitTotal (v_gl_trial_balance b)) = 5"
    using pf_posting run by (simp add: v_gl_trial_balance_def db(2) Let_def account_row_def account_debits_def)
  then show ?thesis using books steps conv dates(2) by (intro exI [of _ b]) simp
qed

definition cut_log :: "cache_event list" where
  "cut_log = [Lookup 1 1 ''asha'' (GetSubscriberByUsername no_faults fdemo_db ''asha'')]"

definition cut_env :: "time \<Rightarrow> rat db \<Rightarrow> RadiusEnv" where
  "cut_env t db = (rdemo_env 2)\<lparr>en_db := cached_lookup t t (GetSubscriberByUsername no_faults db)
                     (cache_run cut_log (NewSubscriberCache (60 * Second))), en_bcrypt := (\<lambda>_ _. True)\<rparr>"

text \<open>A record read before the scan still lets the subscriber in just after it, and no longer once it has expired.\<close>

theorem dunning_cuts_off_witness:
  "accepts (handleAuth (cut_env 5 (fst (fst (DunningScan (31 * Day) (31 * Day) no_faults (rat_pg no_faults) (fdemo_db, None)))))
          (rdemo_request ''asha'' ''secret'' [] []) rdemo_daemon)
   \<and> \<not> accepts (handleAuth (cut_env (61 * Second) (fst (fst (DunningScan (31 * Day) (31 * Day) no_faults (rat_pg no_faults) (fdemo_db, None)))))
          (rdemo_request ''asha'' ''secret'' [] []) rdemo_daemon)"
proof
  let ?q = "rdemo_request ''asha'' ''secret'' [] []" and ?r = "dun_sub 1 Active (10 * Day)"
  let ?db = "fst (fst (DunningScan (31 * Day) (31 * Day) no_faults (rat_pg no_faults) (fdemo_db, None)))"
  have q: "rq_UserName ?q = ''asha''" "rq_EAPMessage ?q = []" "rq_UserPassword ?q = ''secret''" by (simp_all add: rdemo_request_def)
  have mab: "\<not> looksLikeMAB ''asha'' ''secret''" by (simp add: looksLikeMAB_def NormaliseMAC_def)
  have rows: "subscribers fdemo_db = [?r]" by (simp add: fdemo_db_def)
  obtain sub where sub: "GetSubscriberByUsername no_faults fdemo_db ''asha'' = Inr (Some sub)" "s_Status sub = ''active''"
    by (simp add: GetSubscriberByUsername_def fdemo_db_def dun_sub_def fdemo_plan_def)
  have hit: "en_db (cut_env 5 ?db) ''asha'' = Inr (Some sub)"
  proof -
    have "cache_run cut_log (NewSubscriberCache (60 * Second))
        = \<lparr>sc_store = [(SubscriberCacheKey ''asha'', \<lparr>val = cached_entry ''asha'' (Some sub), expires = 1 + 60 * Second\<rparr>)], sc_ttl = 60 * Second\<rparr>"
      by (simp add: cache_run_def cut_log_def sub(1) NewSubscriberCache_def New_Store_def Cache_GetSubscriberByUsername_def cacheResult_def
          Store_Get_def Store_Set_def Let_def Second_def cached_entry_def Subscriber.extend_def)
    then show ?thesis by (simp add: cut_env_def cached_lookup_def Cache_GetSubscriberByUsername_def Store_Get_def Let_def Second_def)
  qed
  have "\<not> fst (Guard_Check 2 (guard rdemo_daemon) ''asha'')" using rdemo_not_blocked [of 2 "''asha''"] by (simp add: IsBlocked_def)
  then show "accepts (handleAuth (cut_env 5 ?db) ?q rdemo_daemon)"
    using mab sub(2) q hit
    by (auto simp: handleAuth_def handleEAP_def handleMAB_def handlePAP_def Let_def case_prod_beta cut_env_def rdemo_env_def
        AuthorisesService_def accepts_def applyRateLimit_def)
  obtain db' jq' res where scan: "DunningScan (31 * Day) (31 * Day) no_faults (rat_pg no_faults) (fdemo_db, None) = ((db', jq'), res)"
    by (metis prod.collapse)
  have "is_dunning_candidate (31 * Day) ?r" "sub_dunning ?r = DunningActive" "the (sub_expiry ?r) = 10 * Day" "0 \<le> sub_balance ?r" "sub_username ?r = ''asha''"
    by (simp_all add: is_dunning_candidate_def dun_sub_def clock_simps)
  then show "\<not> accepts (handleAuth (cut_env (61 * Second) ?db) ?q rdemo_daemon)"
    using dunning_cuts_off [of "rat_pg no_faults" fdemo_db ?r "31 * Day" "31 * Day" no_faults None db' jq' res "60 * Second" 2 0 "61 * Second" cut_log
        "cut_env (61 * Second) db'" "61 * Second" no_faults ?q rdemo_daemon]
      scan rows dun_next mab q by (simp add: cut_env_def cut_log_def rat_pg_def Second_def)
qed

end
