(* ===== verification/Gstr1.thy ===== *)
theory Gstr1
  imports Renewal Nas "HOL-Library.Char_ord" "HOL-Library.List_Lexorder" "HOL-Library.Product_Lexorder"
begin

text \<open>
  The monthly outward-supplies return: \<open>src/internal/billing/gstr1.go\<close>, its worksheet
  \<open>src/internal/billing/gstr1_csv.go\<close>, the two queries behind it (\<open>src/internal/db/billing.go\<close>) and the
  export of \<open>src/internal/staffui/gstr1.go\<close>.

  The five money columns every row and line carries are the base record \<open>amounts\<close>, which the row and
  line types extend. A decimal literal \<open>n\<close>/100 of the source is \<open>hundredths dp n\<close>. \<open>Decimal.String\<close>
  prints equal values alike and different ones differently, so the key of a B2C bucket holds the rate
  itself. Columns no other component reads (a subscriber's GSTIN, the dates of invoices) are functions
  of the row id; \<open>month_start\<close> is the instant a calendar month begins in UTC.
\<close>

section \<open>Rows and lines\<close>

definition HSNInternetServices :: string where "HSNInternetServices = ''998432''"
definition HSNDescription :: string where "HSNDescription = ''Internet telecommunication services''"
definition UQCOther :: string where "UQCOther = ''OTH''"

text \<open>\<open>%0wd\<close>: zeros fill up to the width, after the sign.\<close>

definition pad0 :: "nat \<Rightarrow> int \<Rightarrow> string" where
  "pad0 w n =
     (let ds = show_nat (nat \<bar>n\<bar>); sign = (if n < 0 then ''-'' else [])
      in sign @ replicate (w - length sign - length ds) (CHR ''0'') @ ds)"

record Period =
  pd_Year :: int
  pd_Month :: int

definition Period_String :: "Period \<Rightarrow> string" where
  "Period_String p = pad0 2 (pd_Month p) @ pad0 4 (pd_Year p)"

record Supplier =
  su_GSTIN :: string
  su_State :: string
  su_Name :: string

record 'd amounts =
  TaxableValue :: 'd
  CGST :: 'd
  SGST :: 'd
  IGST :: 'd
  Total :: 'd

record 'd InvoiceRow = "'d amounts" +
  ir_InvoiceID :: int
  ir_InvoiceDate :: time
  ir_SubscriberID :: int
  ir_SubscriberName :: string
  ir_RecipientGSTIN :: string
  ir_RecipientState :: string

record 'd CreditNoteRow = "'d amounts" +
  cr_CreditNoteID :: int
  cr_OriginalInvoiceID :: int
  cr_OriginalInvoiceDate :: time
  cr_NoteDate :: time
  cr_SubscriberID :: int
  cr_SubscriberName :: string
  cr_RecipientGSTIN :: string
  cr_RecipientState :: string

record 'd CDNLine = "'d amounts" +
  cd_NoteNumber :: string
  cd_NoteDate :: time
  cd_OriginalInvoice :: string
  cd_OriginalDate :: time
  cd_RecipientGSTIN :: string
  cd_RecipientName :: string
  cd_PlaceOfSupply :: string
  cd_PlaceOfSupplyName :: string
  cd_Rate :: 'd
  cd_Registered :: bool

record 'd B2BLine = "'d amounts" +
  bb_InvoiceNumber :: string
  bb_InvoiceDate :: time
  bb_RecipientGSTIN :: string
  bb_RecipientName :: string
  bb_PlaceOfSupply :: string
  bb_PlaceOfSupplyName :: string
  bb_Rate :: 'd

record 'd B2CLine = "'d amounts" +
  bc_PlaceOfSupply :: string
  bc_PlaceOfSupplyName :: string
  bc_Rate :: 'd
  bc_InvoiceCount :: int

record 'd HSNLine = "'d amounts" +
  hs_HSN :: string
  hs_Description :: string
  hs_UQC :: string
  hs_Quantity :: 'd

record 'd Totals = "'d amounts" +
  to_Invoices :: int
  to_CreditNotes :: int

record 'd Return =
  re_Period :: Period
  re_Supplier :: Supplier
  re_B2B :: "'d B2BLine list"
  re_B2C :: "'d B2CLine list"
  re_CreditNotes :: "'d CDNLine list"
  re_HSN :: "'d HSNLine list"
  re_Totals :: "'d Totals"

definition IsB2B :: "'d InvoiceRow \<Rightarrow> bool" where "IsB2B r = (ir_RecipientGSTIN r \<noteq> [])"
definition CreditNote_IsB2B :: "'d CreditNoteRow \<Rightarrow> bool" where "CreditNote_IsB2B c = (cr_RecipientGSTIN c \<noteq> [])"

section \<open>The rate of a document\<close>

definition hundredths :: "'d::linordered_idom decimal_pkg \<Rightarrow> int \<Rightarrow> 'd" where
  "hundredths dp n = Div dp (of_int n) 100"

definition standardGSTRates :: "'d::linordered_idom decimal_pkg \<Rightarrow> 'd list" where
  "standardGSTRates dp = [0, hundredths dp 25, 3, 5, 12, 18, 28]"

definition rateSnapTolerance :: "'d::linordered_idom decimal_pkg \<Rightarrow> 'd" where
  "rateSnapTolerance dp = hundredths dp 50"

definition derivedGSTRate :: "'d::linordered_idom decimal_pkg \<Rightarrow> 'd \<Rightarrow> 'd \<Rightarrow> 'd" where
  "derivedGSTRate dp taxableValue tax =
     (if taxableValue = 0 then 0
      else let derived = Round dp (Div dp tax taxableValue * 100) 2
           in case find (\<lambda>std. \<bar>derived - std\<bar> \<le> rateSnapTolerance dp) (standardGSTRates dp) of
                Some std \<Rightarrow> std
              | None \<Rightarrow> derived)"

definition row_rate :: "'d::linordered_idom decimal_pkg \<Rightarrow> ('d, 'a) amounts_scheme \<Rightarrow> 'd" where
  "row_rate dp r = derivedGSTRate dp (TaxableValue r) (CGST r + SGST r + IGST r)"

definition InvoiceNumber :: "int \<Rightarrow> string" where "InvoiceNumber i = ''INV-'' @ pad0 6 i"
definition CreditNoteNumber :: "int \<Rightarrow> string" where "CreditNoteNumber i = ''CRN-'' @ pad0 6 i"

section \<open>Building the return\<close>

definition add_row :: "('d::linordered_idom, 'a) amounts_scheme \<Rightarrow> ('d, 'b) amounts_scheme \<Rightarrow> ('d, 'a) amounts_scheme" where
  "add_row l r = l\<lparr>TaxableValue := TaxableValue l + TaxableValue r, CGST := CGST l + CGST r, SGST := SGST l + SGST r,
                   IGST := IGST l + IGST r, Total := Total l + Total r\<rparr>"

definition sub_row :: "('d::linordered_idom, 'a) amounts_scheme \<Rightarrow> ('d, 'b) amounts_scheme \<Rightarrow> ('d, 'a) amounts_scheme" where
  "sub_row l r = l\<lparr>TaxableValue := TaxableValue l - TaxableValue r, CGST := CGST l - CGST r, SGST := SGST l - SGST r,
                   IGST := IGST l - IGST r, Total := Total l - Total r\<rparr>"

text \<open>\<open>gstCode, _ :=\<close> and \<open>stateName, _ :=\<close>: an unknown state is the empty string.\<close>

definition or_empty :: "string option \<Rightarrow> string" where
  "or_empty s = (case s of None \<Rightarrow> [] | Some x \<Rightarrow> x)"

definition b2b_line :: "'d::linordered_idom decimal_pkg \<Rightarrow> 'd InvoiceRow \<Rightarrow> 'd B2BLine" where
  "b2b_line dp row =
     \<lparr>TaxableValue = TaxableValue row, CGST = CGST row, SGST = SGST row, IGST = IGST row, Total = Total row,
      bb_InvoiceNumber = InvoiceNumber (ir_InvoiceID row), bb_InvoiceDate = ir_InvoiceDate row,
      bb_RecipientGSTIN = ir_RecipientGSTIN row, bb_RecipientName = ir_SubscriberName row,
      bb_PlaceOfSupply = or_empty (GSTCodeFor (ir_RecipientState row)),
      bb_PlaceOfSupplyName = or_empty (StateName (ir_RecipientState row)), bb_Rate = row_rate dp row\<rparr>"

type_synonym 'd b2cKey = "string \<times> 'd"

fun b2c_add :: "'d b2cKey \<Rightarrow> string \<Rightarrow> 'd::linordered_idom InvoiceRow \<Rightarrow> ('d b2cKey \<times> 'd B2CLine) list \<Rightarrow> ('d b2cKey \<times> 'd B2CLine) list" where
  "b2c_add k name row [] =
     [(k, add_row \<lparr>TaxableValue = 0, CGST = 0, SGST = 0, IGST = 0, Total = 0, bc_PlaceOfSupply = fst k,
                   bc_PlaceOfSupplyName = name, bc_Rate = snd k, bc_InvoiceCount = 1\<rparr> row)]"
| "b2c_add k name row (e # es) =
     (if fst e = k then (k, add_row ((snd e)\<lparr>bc_InvoiceCount := bc_InvoiceCount (snd e) + 1\<rparr>) row) # es
      else e # b2c_add k name row es)"

text \<open>What the loops carry: the return so far, the B2C buckets and the HSN line.\<close>

record 'd building =
  bu_ret :: "'d Return"
  bu_b2c :: "('d b2cKey \<times> 'd B2CLine) list"
  bu_hsn :: "'d HSNLine"

definition return_row :: "'d::linordered_idom decimal_pkg \<Rightarrow> 'd InvoiceRow \<Rightarrow> 'd building \<Rightarrow> 'd building" where
  "return_row dp row b =
     (let gstCode = or_empty (GSTCodeFor (ir_RecipientState row));
          stateName = or_empty (StateName (ir_RecipientState row));
          rate = row_rate dp row;
          b1 = (if IsB2B row then b\<lparr>bu_ret := (bu_ret b)\<lparr>re_B2B := re_B2B (bu_ret b) @ [b2b_line dp row]\<rparr>\<rparr>
                else b\<lparr>bu_b2c := b2c_add (gstCode, rate) stateName row (bu_b2c b)\<rparr>);
          ret = bu_ret b1
      in b1\<lparr>bu_hsn := add_row ((bu_hsn b1)\<lparr>hs_Quantity := hs_Quantity (bu_hsn b1) + 1\<rparr>) row,
            bu_ret := ret\<lparr>re_Totals := add_row ((re_Totals ret)\<lparr>to_Invoices := to_Invoices (re_Totals ret) + 1\<rparr>) row\<rparr>\<rparr>)"

definition cdn_line :: "'d::linordered_idom decimal_pkg \<Rightarrow> 'd CreditNoteRow \<Rightarrow> 'd CDNLine" where
  "cdn_line dp note =
     \<lparr>TaxableValue = TaxableValue note, CGST = CGST note, SGST = SGST note, IGST = IGST note, Total = Total note,
      cd_NoteNumber = CreditNoteNumber (cr_CreditNoteID note), cd_NoteDate = cr_NoteDate note,
      cd_OriginalInvoice = InvoiceNumber (cr_OriginalInvoiceID note), cd_OriginalDate = cr_OriginalInvoiceDate note,
      cd_RecipientGSTIN = cr_RecipientGSTIN note, cd_RecipientName = cr_SubscriberName note,
      cd_PlaceOfSupply = or_empty (GSTCodeFor (cr_RecipientState note)),
      cd_PlaceOfSupplyName = or_empty (StateName (cr_RecipientState note)),
      cd_Rate = row_rate dp note, cd_Registered = CreditNote_IsB2B note\<rparr>"

definition return_note :: "'d::linordered_idom decimal_pkg \<Rightarrow> 'd CreditNoteRow \<Rightarrow> 'd building \<Rightarrow> 'd building" where
  "return_note dp note b =
     (let ret = bu_ret b
      in b\<lparr>bu_hsn := sub_row (bu_hsn b) note,
           bu_ret := ret\<lparr>re_CreditNotes := re_CreditNotes ret @ [cdn_line dp note],
                         re_Totals := sub_row ((re_Totals ret)\<lparr>to_CreditNotes := to_CreditNotes (re_Totals ret) + 1\<rparr>) note\<rparr>\<rparr>)"

definition empty_building :: "Period \<Rightarrow> Supplier \<Rightarrow> 'd::linordered_idom building" where
  "empty_building period supplier =
     \<lparr>bu_ret = \<lparr>re_Period = period, re_Supplier = supplier, re_B2B = [], re_B2C = [], re_CreditNotes = [], re_HSN = [],
                re_Totals = \<lparr>TaxableValue = 0, CGST = 0, SGST = 0, IGST = 0, Total = 0, to_Invoices = 0, to_CreditNotes = 0\<rparr>\<rparr>,
      bu_b2c = [],
      bu_hsn = \<lparr>TaxableValue = 0, CGST = 0, SGST = 0, IGST = 0, Total = 0, hs_HSN = [], hs_Description = [], hs_UQC = [],
                hs_Quantity = 0\<rparr>\<rparr>"

definition BuildReturn ::
  "'d::linordered_idom decimal_pkg \<Rightarrow> Period \<Rightarrow> Supplier \<Rightarrow> 'd InvoiceRow list \<Rightarrow> 'd CreditNoteRow list \<Rightarrow> 'd Return" where
  "BuildReturn dp period supplier rows notes =
     (let b = fold (return_note dp) notes (fold (return_row dp) rows (empty_building period supplier));
          ret = bu_ret b
      in ret\<lparr>re_CreditNotes := sort_key cd_NoteNumber (re_CreditNotes ret),
             re_B2B := sort_key bb_InvoiceNumber (re_B2B ret),
             re_B2C := sort_key (\<lambda>l. (bc_PlaceOfSupply l, bc_Rate l)) (map snd (bu_b2c b)),
             re_HSN := (if 0 < to_Invoices (re_Totals ret) \<or> 0 < to_CreditNotes (re_Totals ret)
                        then [(bu_hsn b)\<lparr>hs_HSN := HSNInternetServices, hs_Description := HSNDescription, hs_UQC := UQCOther\<rparr>]
                        else [])\<rparr>)"

section \<open>The worksheet\<close>

text \<open>
  The records handed to the CSV writer, in order; \<open>money\<close> is \<open>StringFixed(2)\<close>, \<open>dmy\<close> the date format. A
  writer that fails stops the output at the record it failed on.
\<close>

definition money_columns :: "('d \<Rightarrow> string) \<Rightarrow> ('d, 'a) amounts_scheme \<Rightarrow> string list" where
  "money_columns money l = [money (TaxableValue l), money (CGST l), money (SGST l), money (IGST l), money (Total l)]"

definition or_none :: "string list list \<Rightarrow> string list list" where
  "or_none rs = (if rs = [] then [[''(none)'']] else rs)"

definition WriteAccountantCSV :: "('d \<Rightarrow> string) \<Rightarrow> (time \<Rightarrow> string) \<Rightarrow> 'd Return \<Rightarrow> string list list" where
  "WriteAccountantCSV money dmy ret =
     [[''GSTR-1 outward supplies''], [''Supplier'', su_Name (re_Supplier ret)], [''GSTIN'', su_GSTIN (re_Supplier ret)],
      [''Home state'', su_State (re_Supplier ret)], [''Period (MMYYYY)'', Period_String (re_Period ret)], []]
     @ [[''B2B - supplies to registered persons (Table 4)''],
        [''Invoice number'', ''Invoice date'', ''Recipient GSTIN'', ''Recipient name'', ''Place of supply'', ''State'', ''Rate %'',
         ''Taxable value'', ''CGST'', ''SGST'', ''IGST'', ''Invoice total'']]
     @ or_none (map (\<lambda>l. [bb_InvoiceNumber l, dmy (bb_InvoiceDate l), bb_RecipientGSTIN l, bb_RecipientName l,
                           bb_PlaceOfSupply l, bb_PlaceOfSupplyName l, money (bb_Rate l)] @ money_columns money l) (re_B2B ret))
     @ [[]]
     @ [[''B2C - supplies to unregistered persons, aggregated by state and rate''],
        [''Place of supply'', ''State'', ''Rate %'', ''Invoices'', ''Taxable value'', ''CGST'', ''SGST'', ''IGST'', ''Total'']]
     @ or_none (map (\<lambda>l. [bc_PlaceOfSupply l, bc_PlaceOfSupplyName l, money (bc_Rate l), show_int (bc_InvoiceCount l)]
                          @ money_columns money l) (re_B2C ret))
     @ [[]]
     @ [[''Credit notes (Table 9B) - reduce the supplies above''],
        [''Note number'', ''Note date'', ''Original invoice'', ''Original date'', ''Recipient type'', ''Recipient GSTIN'',
         ''Recipient name'', ''Place of supply'', ''State'', ''Rate %'', ''Taxable value'', ''CGST'', ''SGST'', ''IGST'', ''Note total'']]
     @ or_none (map (\<lambda>l. [cd_NoteNumber l, dmy (cd_NoteDate l), cd_OriginalInvoice l, dmy (cd_OriginalDate l),
                           if cd_Registered l then ''CDNR (registered)'' else ''CDNUR (unregistered)'',
                           cd_RecipientGSTIN l, cd_RecipientName l, cd_PlaceOfSupply l, cd_PlaceOfSupplyName l, money (cd_Rate l)]
                          @ money_columns money l) (re_CreditNotes ret))
     @ [[]]
     @ [[''HSN summary (Table 12), net of credit notes''],
        [''HSN/SAC'', ''Description'', ''UQC'', ''Quantity'', ''Total value'', ''Taxable value'', ''CGST'', ''SGST'', ''IGST'']]
     @ or_none (map (\<lambda>l. [hs_HSN l, hs_Description l, hs_UQC l, money (hs_Quantity l), money (Total l), money (TaxableValue l),
                           money (CGST l), money (SGST l), money (IGST l)]) (re_HSN ret))
     @ [[]]
     @ [[''Totals (net of credit notes)''], [''Invoices'', ''Credit notes'', ''Taxable value'', ''CGST'', ''SGST'', ''IGST'', ''Total''],
        [show_int (to_Invoices (re_Totals ret)), show_int (to_CreditNotes (re_Totals ret))] @ money_columns money (re_Totals ret)]"

section \<open>The rows of a month\<close>

record 'd credit_note =
  cn_id :: int
  cn_invoice :: int
  cn_subscriber :: int
  cn_base :: 'd
  cn_cgst :: 'd
  cn_sgst :: 'd
  cn_igst :: 'd
  cn_total :: 'd

text \<open>The outside of a query: dates by row id, GSTINs by subscriber (empty for null), the start of a month.\<close>

record gst_env =
  ge_invoice_date :: "int \<Rightarrow> time"
  ge_note_date :: "int \<Rightarrow> time"
  ge_gstin :: "int \<Rightarrow> string"
  ge_month_start :: "int \<Rightarrow> int \<Rightarrow> time"

definition in_month :: "gst_env \<Rightarrow> int \<Rightarrow> int \<Rightarrow> time \<Rightarrow> bool" where
  "in_month env year month t =
     (ge_month_start env year month \<le> t \<and>
      t < (if month = 12 then ge_month_start env (year + 1) 1 else ge_month_start env year (month + 1)))"

definition ListInvoicesForGSTR1 :: "'d pg \<Rightarrow> gst_env \<Rightarrow> 'd db \<Rightarrow> int \<Rightarrow> int \<Rightarrow> err + 'd InvoiceRow list" where
  "ListInvoicesForGSTR1 pg env db year month =
     bindE (stmt pg ''list invoices for GSTR-1'') (\<lambda>_.
       Inr (sort_key ir_InvoiceID (List.map_filter (\<lambda>(i, bill).
         case find_subscriber db (inv_SubscriberID bill) of
           None \<Rightarrow> None
         | Some s \<Rightarrow>
             if in_month env year month (ge_invoice_date env i)
             then Some \<lparr>TaxableValue = BaseAmount bill, CGST = CgstAmount bill, SGST = SgstAmount bill, IGST = IgstAmount bill,
                        Total = TotalAmount bill, ir_InvoiceID = i, ir_InvoiceDate = ge_invoice_date env i,
                        ir_SubscriberID = inv_SubscriberID bill, ir_SubscriberName = sub_username s,
                        ir_RecipientGSTIN = ge_gstin env (sub_id s), ir_RecipientState = sub_state s\<rparr>
             else None) (invoices db))))"

definition ListCreditNotesForGSTR1 ::
  "'d pg \<Rightarrow> gst_env \<Rightarrow> 'd db \<Rightarrow> 'd credit_note list \<Rightarrow> int \<Rightarrow> int \<Rightarrow> err + 'd CreditNoteRow list" where
  "ListCreditNotesForGSTR1 pg env db notes year month =
     bindE (stmt pg ''list credit notes for GSTR-1'') (\<lambda>_.
       Inr (sort_key cr_CreditNoteID (List.map_filter (\<lambda>c.
         case (find (\<lambda>x. fst x = cn_invoice c) (invoices db), find_subscriber db (cn_subscriber c)) of
           (Some _, Some s) \<Rightarrow>
             if in_month env year month (ge_note_date env (cn_id c))
             then Some \<lparr>TaxableValue = cn_base c, CGST = cn_cgst c, SGST = cn_sgst c, IGST = cn_igst c, Total = cn_total c,
                        cr_CreditNoteID = cn_id c, cr_OriginalInvoiceID = cn_invoice c,
                        cr_OriginalInvoiceDate = ge_invoice_date env (cn_invoice c), cr_NoteDate = ge_note_date env (cn_id c),
                        cr_SubscriberID = cn_subscriber c, cr_SubscriberName = sub_username s,
                        cr_RecipientGSTIN = ge_gstin env (sub_id s), cr_RecipientState = sub_state s\<rparr>
             else None
         | _ \<Rightarrow> None) notes)))"

section \<open>The period and the export\<close>

text \<open>
  A calendar date is a triple. \<open>AddDate(0, -1, 0)\<close> lowers the month and keeps the day, and a day past the
  end of the new month runs over into the next one, as \<open>time.Date\<close> normalises it.
\<close>

type_synonym calendar_date = "int \<times> int \<times> int"

definition leap_year :: "int \<Rightarrow> bool" where
  "leap_year y = (y mod 4 = 0 \<and> (y mod 100 \<noteq> 0 \<or> y mod 400 = 0))"

definition month_days :: "int \<Rightarrow> int \<Rightarrow> int" where
  "month_days y m = (if m = 2 then (if leap_year y then 29 else 28) else if m \<in> {4, 6, 9, 11} then 30 else 31)"

definition valid_date :: "calendar_date \<Rightarrow> bool" where
  "valid_date d = (case d of (y, m, dd) \<Rightarrow> 1 \<le> m \<and> m \<le> 12 \<and> 1 \<le> dd \<and> dd \<le> month_days y m)"

definition month_before :: "int \<times> int \<Rightarrow> int \<times> int" where
  "month_before ym = (case ym of (y, m) \<Rightarrow> if m = 1 then (y - 1, 12) else (y, m - 1))"

definition month_after :: "int \<times> int \<Rightarrow> int \<times> int" where
  "month_after ym = (case ym of (y, m) \<Rightarrow> if m = 12 then (y + 1, 1) else (y, m + 1))"

definition AddDate_back_one_month :: "calendar_date \<Rightarrow> calendar_date" where
  "AddDate_back_one_month d =
     (case d of (y, m, dd) \<Rightarrow>
        let (py, pm) = month_before (y, m) in
        if dd \<le> month_days py pm then (py, pm, dd)
        else let (ny, nm) = month_after (py, pm) in (ny, nm, dd - month_days py pm))"

text \<open>\<open>strconv.Atoi\<close>: an optional sign and decimal digits that fit 64 bits.\<close>

definition Atoi :: "string \<Rightarrow> int option" where
  "Atoi s =
     (let neg = (s \<noteq> [] \<and> hd s = CHR ''-''); ds = (if s \<noteq> [] \<and> hd s \<in> {CHR ''-'', CHR ''+''} then tl s else s) in
      if ds = [] then None
      else case parse_digits 0 ds of
        None \<Rightarrow> None
      | Some n \<Rightarrow> if neg then (if n \<le> 2 ^ 63 then Some (- int n) else None)
                  else if n < 2 ^ 63 then Some (int n) else None)"

definition split_dash :: "string \<Rightarrow> string list" where
  "split_dash s = (let a = takeWhile (\<lambda>c. c \<noteq> CHR ''-'') s
                   in case dropWhile (\<lambda>c. c \<noteq> CHR ''-'') s of [] \<Rightarrow> [a] | _ # rest \<Rightarrow> [a, rest])"

definition parsePeriod :: "calendar_date \<Rightarrow> string \<Rightarrow> string + (int \<times> int)" where
  "parsePeriod today raw =
     (if TrimSpace raw = []
      then (case AddDate_back_one_month today of (y, m, _) \<Rightarrow> Inr (y, m))
      else case split_dash (TrimSpace raw) of
        [a, b] \<Rightarrow>
          (case Atoi a of
             None \<Rightarrow> Inl ''period must be in YYYY-MM form, for example 2026-01''
           | Some year \<Rightarrow>
               if year < 2000 \<or> 2200 < year then Inl ''period must be in YYYY-MM form, for example 2026-01''
               else case Atoi b of
                 None \<Rightarrow> Inl ''period month must be 01 to 12''
               | Some m \<Rightarrow> if m < 1 \<or> 12 < m then Inl ''period month must be 01 to 12'' else Inr (year, m))
      | _ \<Rightarrow> Inl ''period must be in YYYY-MM form, for example 2026-01'')"

text \<open>
  The export: \<open>section_guard\<close> is the status the role check answers with, none when it lets the request
  through. A failed query refuses the whole file.
\<close>

definition GSTR1Export ::
  "'d::linordered_idom decimal_pkg \<Rightarrow> ('d \<Rightarrow> string) \<Rightarrow> (time \<Rightarrow> string) \<Rightarrow> nat option \<Rightarrow> bool \<Rightarrow> calendar_date \<Rightarrow> 'd pg \<Rightarrow>
     gst_env \<Rightarrow> Supplier \<Rightarrow> 'd db \<Rightarrow> 'd credit_note list \<Rightarrow> string \<Rightarrow> nat + string list list" where
  "GSTR1Export dp money dmy section_guard configured today pg env supplier db notes raw =
     (case section_guard of
        Some status \<Rightarrow> Inl status
      | None \<Rightarrow>
          if \<not> configured then Inl 503
          else case parsePeriod today raw of
            Inl _ \<Rightarrow> Inl 400
          | Inr (year, month) \<Rightarrow>
              (case ListInvoicesForGSTR1 pg env db year month of
                 Inl _ \<Rightarrow> Inl 500
               | Inr rows \<Rightarrow>
                   (case ListCreditNotesForGSTR1 pg env db notes year month of
                      Inl _ \<Rightarrow> Inl 500
                    | Inr ns \<Rightarrow> Inr (WriteAccountantCSV money dmy
                                      (BuildReturn dp \<lparr>pd_Year = year, pd_Month = month\<rparr> supplier rows ns)))))"

section \<open>The sections reconcile\<close>

datatype column = ColTaxable | ColCGST | ColSGST | ColIGST | ColTotal

fun amount :: "column \<Rightarrow> ('d, 'a) amounts_scheme \<Rightarrow> 'd" where
  "amount ColTaxable x = TaxableValue x"
| "amount ColCGST x = CGST x"
| "amount ColSGST x = SGST x"
| "amount ColIGST x = IGST x"
| "amount ColTotal x = Total x"

lemma amount_add_row [simp]: "amount c (add_row l r) = amount c l + amount c r"
  by (cases c) (simp_all add: add_row_def)

lemma amount_sub_row [simp]: "amount c (sub_row l r) = amount c l - amount c r"
  by (cases c) (simp_all add: sub_row_def)

lemma amount_more [simp]:
  "amount c (l\<lparr>bc_InvoiceCount := n\<rparr>) = amount c l" "amount c (h\<lparr>hs_Quantity := q\<rparr>) = amount c h"
  "amount c (t\<lparr>to_Invoices := i\<rparr>) = amount c t" "amount c (t\<lparr>to_CreditNotes := i\<rparr>) = amount c t"
  "amount c (h\<lparr>hs_HSN := x\<rparr>) = amount c h" "amount c (h\<lparr>hs_Description := x\<rparr>) = amount c h" "amount c (h\<lparr>hs_UQC := x\<rparr>) = amount c h"
  "amount c (b2b_line dp row) = amount c row" "amount c (cdn_line dp note) = amount c note"
  by (cases c; simp add: b2b_line_def cdn_line_def)+

lemma row_more [simp]:
  "bc_InvoiceCount (add_row l r) = bc_InvoiceCount l" "to_Invoices (add_row t r) = to_Invoices t" "to_CreditNotes (add_row t r) = to_CreditNotes t"
  "to_Invoices (sub_row t r') = to_Invoices t" "to_CreditNotes (sub_row t r') = to_CreditNotes t"
  "bc_PlaceOfSupply (add_row l r) = bc_PlaceOfSupply l" "bc_Rate (add_row l r) = bc_Rate l"
  by (simp_all add: add_row_def sub_row_def)

lemma b2c_add_sum: "sum_list (map (amount c \<circ> snd) (b2c_add k name row es)) = sum_list (map (amount c \<circ> snd) es) + amount c row"
proof (induction es)
  case Nil
  have "amount c \<lparr>TaxableValue = 0, CGST = 0, SGST = 0, IGST = 0, Total = 0, bc_PlaceOfSupply = fst k,
      bc_PlaceOfSupplyName = name, bc_Rate = snd k, bc_InvoiceCount = 1\<rparr> = 0" by (cases c) simp_all
  then show ?case by simp
qed (simp add: add.commute add.left_commute)

lemma b2c_add_count: "sum_list (map (bc_InvoiceCount \<circ> snd) (b2c_add k name row es)) = sum_list (map (bc_InvoiceCount \<circ> snd) es) + 1"
  by (induction es) (simp_all add: add.commute add.left_commute)

text \<open>What the loops keep: both summaries equal the lines they were built from.\<close>

definition b2b_sum :: "column \<Rightarrow> 'd::linordered_idom building \<Rightarrow> 'd" where
  "b2b_sum c b = sum_list (map (amount c) (re_B2B (bu_ret b)))"

definition b2c_sum :: "column \<Rightarrow> 'd::linordered_idom building \<Rightarrow> 'd" where
  "b2c_sum c b = sum_list (map (amount c \<circ> snd) (bu_b2c b))"

definition cdn_sum :: "column \<Rightarrow> 'd::linordered_idom building \<Rightarrow> 'd" where
  "cdn_sum c b = sum_list (map (amount c) (re_CreditNotes (bu_ret b)))"

definition tied :: "'d::linordered_idom building \<Rightarrow> bool" where
  "tied b = ((\<forall>c. b2b_sum c b + b2c_sum c b - cdn_sum c b = amount c (re_Totals (bu_ret b))
                \<and> amount c (bu_hsn b) = amount c (re_Totals (bu_ret b)))
             \<and> int (length (re_B2B (bu_ret b))) + sum_list (map (bc_InvoiceCount \<circ> snd) (bu_b2c b)) = to_Invoices (re_Totals (bu_ret b))
             \<and> int (length (re_CreditNotes (bu_ret b))) = to_CreditNotes (re_Totals (bu_ret b)))"

lemma tied_empty: "tied (empty_building p s)"
proof -
  have zero: "amount c \<lparr>TaxableValue = 0, CGST = 0, SGST = 0, IGST = 0, Total = 0, \<dots> = m\<rparr> = 0" for c and m :: 'm
    by (cases c) simp_all
  show ?thesis by (simp add: tied_def b2b_sum_def b2c_sum_def cdn_sum_def empty_building_def zero)
qed

lemma tied_row: "tied b \<Longrightarrow> tied (return_row dp row b)"
  by (auto simp: tied_def return_row_def Let_def b2b_sum_def b2c_sum_def cdn_sum_def b2c_add_sum b2c_add_count algebra_simps)

lemma tied_note: "tied b \<Longrightarrow> tied (return_note dp note b)"
  by (auto simp: tied_def return_note_def Let_def b2b_sum_def b2c_sum_def cdn_sum_def algebra_simps)

lemma tied_rows: "tied b \<Longrightarrow> tied (fold (return_row dp) rows b)"
  by (induction rows arbitrary: b) (simp_all add: tied_row)

lemma tied_notes: "tied b \<Longrightarrow> tied (fold (return_note dp) ns b)"
  by (induction ns arbitrary: b) (simp_all add: tied_note)

text \<open>Each bucket of the B2C section has its own place and rate.\<close>

lemma b2c_add_keys: "fst ` set (b2c_add k name row es) = insert k (fst ` set es)"
  by (induction es) auto

lemma b2c_add_distinct: "distinct (map fst es) \<Longrightarrow> distinct (map fst (b2c_add k name row es))"
  by (induction es) (auto simp: b2c_add_keys)

text \<open>The totals are the documents' and a bucket carries its key.\<close>

definition keyed :: "'d::linordered_idom building \<Rightarrow> bool" where
  "keyed b = (distinct (map fst (bu_b2c b)) \<and> (\<forall>e \<in> set (bu_b2c b). fst e = (bc_PlaceOfSupply (snd e), bc_Rate (snd e))))"

lemma b2c_add_carries:
  "\<forall>e \<in> set es. fst e = (bc_PlaceOfSupply (snd e), bc_Rate (snd e)) \<Longrightarrow>
   e \<in> set (b2c_add k name row es) \<Longrightarrow> fst e = (bc_PlaceOfSupply (snd e), bc_Rate (snd e))"
  by (induction es) (auto split: if_splits)

lemma keyed_empty: "keyed (empty_building p s)"
  by (simp add: keyed_def empty_building_def)

lemma keyed_row:
  assumes "keyed b"
  shows "keyed (return_row dp row b)"
proof (cases "IsB2B row")
  case True
  with assms show ?thesis by (simp add: keyed_def return_row_def Let_def)
next
  case False
  then have "bu_b2c (return_row dp row b) =
    b2c_add (or_empty (GSTCodeFor (ir_RecipientState row)), row_rate dp row) (or_empty (StateName (ir_RecipientState row))) row (bu_b2c b)"
    by (simp add: return_row_def Let_def)
  with assms show ?thesis unfolding keyed_def by (metis b2c_add_carries b2c_add_distinct)
qed

lemma keyed_note: "keyed b \<Longrightarrow> keyed (return_note dp note b)"
  by (simp add: keyed_def return_note_def Let_def)

lemma keyed_rows: "keyed b \<Longrightarrow> keyed (fold (return_row dp) rows b)"
  by (induction rows arbitrary: b) (simp_all add: keyed_row)

lemma keyed_notes: "keyed b \<Longrightarrow> keyed (fold (return_note dp) ns b)"
  by (induction ns arbitrary: b) (simp_all add: keyed_note)

lemma totals_row: "amount c (re_Totals (bu_ret (return_row dp row b))) = amount c (re_Totals (bu_ret b)) + amount c row"
  "to_Invoices (re_Totals (bu_ret (return_row dp row b))) = to_Invoices (re_Totals (bu_ret b)) + 1"
  "to_CreditNotes (re_Totals (bu_ret (return_row dp row b))) = to_CreditNotes (re_Totals (bu_ret b))"
  by (simp_all add: return_row_def Let_def)

lemma totals_note: "amount c (re_Totals (bu_ret (return_note dp note b))) = amount c (re_Totals (bu_ret b)) - amount c note"
  "to_Invoices (re_Totals (bu_ret (return_note dp note b))) = to_Invoices (re_Totals (bu_ret b))"
  "to_CreditNotes (re_Totals (bu_ret (return_note dp note b))) = to_CreditNotes (re_Totals (bu_ret b)) + 1"
  by (simp_all add: return_note_def Let_def)

lemma totals_rows:
  "amount c (re_Totals (bu_ret (fold (return_row dp) rows b))) = amount c (re_Totals (bu_ret b)) + sum_list (map (amount c) rows)"
  "to_Invoices (re_Totals (bu_ret (fold (return_row dp) rows b))) = to_Invoices (re_Totals (bu_ret b)) + int (length rows)"
  "to_CreditNotes (re_Totals (bu_ret (fold (return_row dp) rows b))) = to_CreditNotes (re_Totals (bu_ret b))"
  by (induction rows arbitrary: b) (simp_all add: totals_row)

lemma totals_notes:
  "amount c (re_Totals (bu_ret (fold (return_note dp) ns b))) = amount c (re_Totals (bu_ret b)) - sum_list (map (amount c) ns)"
  "to_Invoices (re_Totals (bu_ret (fold (return_note dp) ns b))) = to_Invoices (re_Totals (bu_ret b))"
  "to_CreditNotes (re_Totals (bu_ret (fold (return_note dp) ns b))) = to_CreditNotes (re_Totals (bu_ret b)) + int (length ns)"
  by (induction ns arbitrary: b) (simp_all add: totals_note)

lemma totals_empty:
  "amount c (re_Totals (bu_ret (empty_building p s))) = 0" "to_Invoices (re_Totals (bu_ret (empty_building p s))) = 0"
  "to_CreditNotes (re_Totals (bu_ret (empty_building p s))) = 0"
  by (cases c; simp add: empty_building_def)+

lemma sum_list_sort_key: "sum_list (map f (sort_key k xs)) = sum_list (map f (xs :: 'a list) :: 'b::comm_monoid_add list)"
proof -
  have "mset (map f (sort_key k xs)) = mset (map f xs)" by simp
  then show ?thesis by (metis sum_mset_sum_list)
qed

lemma distinct_map_sort_key: "distinct (map f (sort_key k xs)) = distinct (map f xs)"
  by (rule mset_eq_imp_distinct_iff) simp

lemma BuildReturn_building:
  defines "b \<equiv> \<lambda>dp p s rows ns. fold (return_note dp) ns (fold (return_row dp) rows (empty_building p s))"
  shows "re_Totals (BuildReturn dp p s rows ns) = re_Totals (bu_ret (b dp p s rows ns))"
    and "re_B2B (BuildReturn dp p s rows ns) = sort_key bb_InvoiceNumber (re_B2B (bu_ret (b dp p s rows ns)))"
    and "re_CreditNotes (BuildReturn dp p s rows ns) = sort_key cd_NoteNumber (re_CreditNotes (bu_ret (b dp p s rows ns)))"
    and "re_B2C (BuildReturn dp p s rows ns) = sort_key (\<lambda>l. (bc_PlaceOfSupply l, bc_Rate l)) (map snd (bu_b2c (b dp p s rows ns)))"
    and "re_HSN (BuildReturn dp p s rows ns) =
      (if rows = [] \<and> ns = [] then []
       else [(bu_hsn (b dp p s rows ns))\<lparr>hs_HSN := HSNInternetServices, hs_Description := HSNDescription, hs_UQC := UQCOther\<rparr>])"
  by (simp_all add: BuildReturn_def b_def Let_def totals_notes totals_rows totals_empty)

text \<open>The buckets in the order they were opened; a Go map is walked in any order.\<close>

definition b2c_buckets ::
  "'d::linordered_idom decimal_pkg \<Rightarrow> Period \<Rightarrow> Supplier \<Rightarrow> 'd InvoiceRow list \<Rightarrow> 'd CreditNoteRow list \<Rightarrow> 'd B2CLine list" where
  "b2c_buckets dp p s rows ns =
     map snd (bu_b2c (fold (return_note dp) ns (fold (return_row dp) rows (empty_building p s))))"

lemma build_tied: "tied (fold (return_note dp) ns (fold (return_row dp) rows (empty_building p s)))"
  by (intro tied_notes tied_rows tied_empty)

lemma build_keyed: "keyed (fold (return_note dp) ns (fold (return_row dp) rows (empty_building p s)))"
  by (intro keyed_notes keyed_rows keyed_empty)

lemma keyed_lines:
  assumes "keyed b"
  shows "inj_on (\<lambda>l. (bc_PlaceOfSupply l, bc_Rate l)) (set (map snd (bu_b2c b)))"
    and "distinct (map (\<lambda>l. (bc_PlaceOfSupply l, bc_Rate l)) (map snd (bu_b2c b)))"
proof -
  have "map (\<lambda>l. (bc_PlaceOfSupply l, bc_Rate l)) (map snd (bu_b2c b)) = map fst (bu_b2c b)"
    using assms by (auto simp: keyed_def)
  then show d: "distinct (map (\<lambda>l. (bc_PlaceOfSupply l, bc_Rate l)) (map snd (bu_b2c b)))"
    using assms unfolding keyed_def by presburger
  show "inj_on (\<lambda>l. (bc_PlaceOfSupply l, bc_Rate l)) (set (map snd (bu_b2c b)))"
    using d distinct_map by blast
qed

lemma sort_key_perm:
  assumes "mset xs = mset ys" and "inj_on f (set ys)"
  shows "sort_key f xs = sort_key f ys"
  using assms mset_eq_setD [OF assms(1)] by (intro sort_key_inj_key_eq) simp_all

text \<open>
  C21. The sections of a return reconcile. In each money column, B2B plus B2C less the credit notes is the
  column's total, the HSN summary is that total too, and the total is the invoices' amounts less the
  notes'. Every invoice is counted in exactly one section, every note is listed, no two B2C lines share a
  place and a rate, and the lines come out in the same order whatever order the buckets are visited in.
\<close>

theorem gstr1_reconciles:
  fixes dp :: "'d::linordered_idom decimal_pkg"
  shows "(\<forall>c. let ret = BuildReturn dp p s rows ns; total = sum_list (map (amount c) rows) - sum_list (map (amount c) ns)
             in sum_list (map (amount c) (re_B2B ret)) + sum_list (map (amount c) (re_B2C ret))
                  - sum_list (map (amount c) (re_CreditNotes ret)) = total
                \<and> sum_list (map (amount c) (re_HSN ret)) = total \<and> amount c (re_Totals ret) = total)
         \<and> (let ret = BuildReturn dp p s rows ns
            in to_Invoices (re_Totals ret) = int (length rows) \<and> to_CreditNotes (re_Totals ret) = int (length ns)
               \<and> int (length (re_B2B ret)) + sum_list (map bc_InvoiceCount (re_B2C ret)) = int (length rows)
               \<and> length (re_CreditNotes ret) = length ns
               \<and> distinct (map (\<lambda>l. (bc_PlaceOfSupply l, bc_Rate l)) (re_B2C ret)))
         \<and> {sort_key (\<lambda>l. (bc_PlaceOfSupply l, bc_Rate l)) visited | visited. mset visited = mset (b2c_buckets dp p s rows ns)}
           = {re_B2C (BuildReturn dp p s rows ns)}"
proof -
  let ?b = "fold (return_note dp) ns (fold (return_row dp) rows (empty_building p s))"
  let ?ret = "BuildReturn dp p s rows ns"
  note parts = BuildReturn_building [of dp p s rows ns]
  have total: "amount c (re_Totals ?ret) = sum_list (map (amount c) rows) - sum_list (map (amount c) ns)" for c
    by (simp add: parts(1) totals_notes totals_rows totals_empty)
  have sections: "sum_list (map (amount c) (re_B2B ?ret)) + sum_list (map (amount c) (re_B2C ?ret))
                  - sum_list (map (amount c) (re_CreditNotes ?ret)) = amount c (re_Totals ?ret)" for c
    using build_tied [of dp ns rows p s]
    unfolding parts sum_list_sort_key tied_def b2b_sum_def b2c_sum_def cdn_sum_def by (simp add: comp_def)
  have hsn: "sum_list (map (amount c) (re_HSN ?ret)) = amount c (re_Totals ?ret)" for c
  proof (cases "rows = [] \<and> ns = []")
    case True
    then show ?thesis using total [of c] unfolding parts(5) by simp
  next
    case False
    then show ?thesis unfolding parts(1,5) if_not_P [OF False] using build_tied [of dp ns rows p s] by (simp add: tied_def)
  qed
  have counts: "to_Invoices (re_Totals ?ret) = int (length rows) \<and> to_CreditNotes (re_Totals ?ret) = int (length ns)"
    by (simp add: parts(1) totals_notes totals_rows totals_empty)
  have listed: "int (length (re_B2B ?ret)) + sum_list (map bc_InvoiceCount (re_B2C ?ret)) = to_Invoices (re_Totals ?ret)
      \<and> int (length (re_CreditNotes ?ret)) = to_CreditNotes (re_Totals ?ret)"
    using build_tied [of dp ns rows p s] unfolding parts sum_list_sort_key tied_def by (simp add: comp_def)
  have dist: "distinct (map (\<lambda>l. (bc_PlaceOfSupply l, bc_Rate l)) (re_B2C ?ret))"
    unfolding parts distinct_map_sort_key by (rule keyed_lines(2) [OF build_keyed])
  have order: "sort_key (\<lambda>l. (bc_PlaceOfSupply l, bc_Rate l)) v = re_B2C ?ret" if "mset v = mset (b2c_buckets dp p s rows ns)" for v
    unfolding parts by (rule sort_key_perm [OF that [unfolded b2c_buckets_def] keyed_lines(1) [OF build_keyed]])
  have visited: "{sort_key (\<lambda>l. (bc_PlaceOfSupply l, bc_Rate l)) v | v. mset v = mset (b2c_buckets dp p s rows ns)} = {re_B2C ?ret}"
    (is "?V = _")
  proof
    show "?V \<subseteq> {re_B2C ?ret}" using order by blast
    show "{re_B2C ?ret} \<subseteq> ?V" using order [OF refl, symmetric] by blast
  qed
  show ?thesis unfolding Let_def visited using total sections hsn counts listed dist by simp
qed

text \<open>
  C31. With no period given, the export means last month, and it gets last month exactly when that month
  has today's day. On the remaining days (the last days of March, and the 31st after a month of thirty days) the day
  runs over and the period is the month still in progress.
\<close>

theorem default_period_last_month_iff:
  assumes "valid_date (y, m, d)" and "TrimSpace raw = []"
  shows "(if d \<le> month_days (fst (month_before (y, m))) (snd (month_before (y, m)))
          then parsePeriod (y, m, d) raw = Inr (month_before (y, m))
          else parsePeriod (y, m, d) raw = Inr (y, m))
         \<and> (d \<le> 28 \<longrightarrow> parsePeriod (y, m, d) raw = Inr (month_before (y, m)))
         \<and> month_before (y, m) \<noteq> (y, m)"
proof -
  have again: "month_after (month_before (y, m)) = (y, m)"
    using assms(1) by (auto simp: month_after_def month_before_def valid_date_def)
  have "28 \<le> month_days a b" for a b by (simp add: month_days_def)
  moreover have "month_before (y, m) \<noteq> (y, m)" by (simp add: month_before_def)
  moreover obtain py pm where "month_before (y, m) = (py, pm)" by fastforce
  ultimately show ?thesis using again assms(2)
    by (auto simp: parsePeriod_def AddDate_back_one_month_def intro: order_trans)
qed

theorem default_period_last_month_iff_witness:
  "parsePeriod (2026, 3, 31) [] = Inr (2026, 3) \<and> parsePeriod (2026, 3, 15) [] = Inr (2026, 2)"
  using default_period_last_month_iff [of 2026 3 31 "[]"] default_period_last_month_iff [of 2026 3 15 "[]"]
  by (simp add: valid_date_def month_days_def month_before_def leap_year_def TrimSpace_def)

lemma hundredths_exact: "decimal_pkg_ok dp \<Longrightarrow> 100 * hundredths dp n = of_int n"
  by (simp add: decimal_pkg_ok_def hundredths_def)

text \<open>
  C30. The rate a document is filed under. A derived rate within half a point of 3, 5, 12, 18 or 28 percent
  is filed as that rate, and one far from every standard rate as it was derived. The half point is
  wider than the gap between 0 and 0.25, so a document taxed at 0.25 percent is filed at 0, and only one
  above half a percent is filed at 0.25.
\<close>

theorem rate_snaps:
  assumes "decimal_pkg_ok dp" and "v \<noteq> 0" and "r = Round dp (Div dp t v * 100) 2"
  shows "(\<forall>std \<in> {3, 5, 12, 18, 28}. 2 * \<bar>r - std\<bar> \<le> 1 \<longrightarrow> derivedGSTRate dp v t = std)
       \<and> (2 * \<bar>r\<bar> \<le> 1 \<longrightarrow> derivedGSTRate dp v t = 0)
       \<and> (4 * r = 1 \<longrightarrow> derivedGSTRate dp v t = 0 \<and> r \<in> set (standardGSTRates dp))
       \<and> (1 < 2 * r \<and> 4 * r \<le> 3 \<longrightarrow> 4 * derivedGSTRate dp v t = 1)
       \<and> ((\<forall>std \<in> set (standardGSTRates dp). 1 < 2 * \<bar>r - std\<bar>) \<longrightarrow> derivedGSTRate dp v t = r)"
proof -
  define q h where "q = hundredths dp 25" and "h = hundredths dp 50"
  have qh: "4 * q = 1" "2 * h = 1"
    using hundredths_exact [OF assms(1), of 25] hundredths_exact [OF assms(1), of 50] by (simp_all add: q_def h_def)
  have rate: "derivedGSTRate dp v t =
      (if \<bar>r\<bar> \<le> h then 0 else if \<bar>r - q\<bar> \<le> h then q else if \<bar>r - 3\<bar> \<le> h then 3 else if \<bar>r - 5\<bar> \<le> h then 5
       else if \<bar>r - 12\<bar> \<le> h then 12 else if \<bar>r - 18\<bar> \<le> h then 18 else if \<bar>r - 28\<bar> \<le> h then 28 else r)"
    using assms(2) by (simp add: derivedGSTRate_def standardGSTRates_def rateSnapTolerance_def assms(3) [symmetric] q_def h_def)
  have std: "set (standardGSTRates dp) = {0, q, 3, 5, 12, 18, 28}" by (simp add: standardGSTRates_def q_def)
  have "4 * r = 1 \<Longrightarrow> r = q" using qh by linarith
  with qh show ?thesis unfolding rate std by (auto simp: abs_if split: if_splits)
qed

theorem rate_snaps_witness:
  "derivedGSTRate rat_decimals 400 1 = 0 \<and> derivedGSTRate rat_decimals (9138 / 100) (1644 / 100) = 18"
proof -
  have a: "Round rat_decimals (Div rat_decimals 1 400 * 100) 2 = (1 / 4 :: rat)"
    by (simp add: rat_decimals_def round_away_def half_up_def floor_eq_iff)
  have b: "Round rat_decimals (Div rat_decimals (1644 / 100) (9138 / 100) * 100) 2 = (1799 / 100 :: rat)"
    by (simp add: rat_decimals_def round_away_def half_up_def floor_eq_iff)
  show ?thesis
    using rate_snaps [OF rat_decimals_ok _ a [symmetric]] rate_snaps [OF rat_decimals_ok _ b [symmetric]] by simp
qed

end
