(* ===== verification/Spec2Isabelle.thy ===== *)
theory Spec2Isabelle
  imports LocalCache JobQueue Gst Schema Wallet WalletBooks Dunning Renewal Nas Eap Radius Hotspot Sessions Fup Revenue Payments Workflow AuthCache GeneralLedger Platform Gstr1
begin

text \<open>
  A verification development of an ISP's billing and network-access platform, written in Go under \<open>src/\<close>.

  \<^bold>\<open>The program.\<close> Two processes share one PostgreSQL database. The API server (\<open>cmd/api\<close>)
  answers staff, partners, the payment gateway and the subscriber portal. The RADIUS daemon (\<open>cmd/radiusd\<close>)
  authenticates subscribers and accounts their sessions, with in-process caches in front of the database,
  and also runs the scanners (dunning, auto-renewal, fair use, hotspot quota, reconciliation) and the workers
  of a task queue kept in the database, through which both processes hand work over.
  Money is a decimal type stored in numeric columns; every balance change is a pair of ledger legs and a
  journal entry.

  \<^bold>\<open>Theories, in the order they build on each other.\<close>

  \<^item> \<open>Prelude\<close>: time as nanoseconds, fault oracles, tables as lists with the \<open>UPDATE\<close> and \<open>DELETE\<close> of rows,
    Go's integer division, strings and printed integers, and the generic lemmas the components share.
  \<^item> \<open>LocalCache\<close> (\<open>internal/localcache\<close>): the TTL map and the counter, with the contracts \<open>ttl_store\<close> and
    \<open>window_counter\<close> their clients use. A claim on a key excludes others for its lifetime.
  \<^item> \<open>JobQueue\<close> (\<open>internal/jobqueue\<close>): enqueue, claim, run, finish, lease reaper, retention sweep and inspector
    as operations and as a step relation. At most one unexpired claim per task, bounded retries, a failing
    task ends dead-lettered.
  \<^item> \<open>Gst\<close> (\<open>billing/state.go\<close>, \<open>gst.go\<close>): the state registry and the tax of an invoice, head by head.
  \<^item> \<open>Schema\<close> (\<open>src/migrations\<close>, \<open>db/db.go\<close>): the billing tables, their checks, the deferred journal trigger
    and transactions.
  \<^item> \<open>Wallet\<close>, \<open>WalletBooks\<close> (\<open>billing/wallet.go\<close>, \<open>db/billing.go\<close>): recharge and posting over the interface
    of the store (locale \<open>wallet_store\<close>), idempotency, balances equal to the ledger, the booking of tax.
  \<^item> \<open>Dunning\<close> (\<open>billing/dunning.go\<close>, \<open>dunning_scanner.go\<close>): the ladder, its walk and the hourly scan over the
    locale \<open>dunning_store\<close>. The walk of eight steps is long enough for a ladder of seven stages.
  \<^item> \<open>Renewal\<close> (\<open>billing/recurring_billing_scanner.go\<close>): charge, extend, invoice, restore.
  \<^item> \<open>Nas\<close>, \<open>Eap\<close>, \<open>Radius\<close> (\<open>internal/nas\<close>, \<open>internal/radius\<close>): vendor attributes and the rate grammar, the EAP
    and MS-CHAPv2 codecs and RFC 2759, and authentication by PAP, MAC address and EAP with the brute-force
    guard and the verifier cache. An accept is justified by a password, a registered device or a proof.
  \<^item> \<open>AuthCache\<close> (\<open>cache/subscriber.go\<close>): the read-through cache the RADIUS daemon looks subscribers up in. An
    answer is the database's, or one it gave at most a cache lifetime ago.
  \<^item> \<open>Hotspot\<close> (\<open>internal/hotspot\<close>, \<open>db/hotspot.go\<close>): vouchers, devices, grants, the captive portal, the limiter and
    the data cap.
  \<^item> \<open>Sessions\<close> (\<open>radius/accounting.go\<close>, \<open>cache/session.go\<close>, \<open>db/fup.go\<close>, \<open>api/lea.go\<close>): accounting records, the
    session history, live sessions and the lawful-intercept lookups.
  \<^item> \<open>Fup\<close> (\<open>internal/fup\<close>, \<open>db/fup.go\<close>, \<open>api/sessions.go\<close>): usage, throttling, overrides and the tasks that carry
    a change to the access device.
  \<^item> \<open>Revenue\<close> (\<open>internal/revenue\<close>, \<open>db/revenue.go\<close>): commissions (locale \<open>commission_store\<close>), partner reports, the
    nightly reconciliation and the forecast.
  \<^item> \<open>Payments\<close> (\<open>api/webhook_razorpay.go\<close>, \<open>billing/webhook.go\<close>, \<open>portal/portal.go\<close>, \<open>cmd/api/main.go\<close>): the ways money
    enters.
  \<^item> \<open>Workflow\<close> (\<open>internal/workflow\<close>, \<open>db/workflow.go\<close>, \<open>api/workflow.go\<close>, \<open>api/subscribers_lifecycle.go\<close>,
    \<open>api/subscribers_bulk.go\<close>): sensitive actions under a second person's approval, field tasks, plan changes and
    bulk actions; decisions also as steps that interleave at the database.
  \<^item> \<open>GeneralLedger\<close> (\<open>internal/ledger\<close>, \<open>db/ledger.go\<close>, \<open>internal/procurement\<close>, \<open>db/procurement.go\<close> and their handlers):
    the chart of accounts, manual entries, the trial balance and the two statements, and purchase orders.
  \<^item> \<open>Platform\<close>: the components on one database.
  \<^item> \<open>Gstr1\<close> (\<open>billing/gstr1.go\<close>, \<open>gstr1_csv.go\<close>, \<open>staffui/gstr1.go\<close>): the monthly tax return and its worksheet.

  \<^bold>\<open>State and operations.\<close> A Go struct is a record with the source's field names behind a short prefix, an
  enumeration a datatype or the strings the source uses, a table a list of rows in insertion order. An
  operation takes its state and returns it with a result; an error is the left side of a sum. A statement
  is named by a label, and \<open>pg_faults\<close> says which labels fail in a run, so a theorem without a hypothesis
  about it holds for every pattern of failures; a failed statement of a transaction leaves the tables of its
  \<open>BEGIN\<close>. A Go interface is a record of operations, its contract a locale, and the store's model its
  interpretation. Where concurrency matters a step relation cuts the operations at their atomic parts
  (statements, critical sections), and invariants are shown by induction over its runs.

  \<^bold>\<open>What spans the components\<close> (\<open>Platform\<close>). The jobs and handlers are runs of the writes \<open>db_step\<close>. Over every
  such run the tables conform to the schema; the trial balance is even and the balance sheet and the income
  statement satisfy the accounting equation; and a subscriber the dunning scan hard-suspends is refused by
  the RADIUS handlers once no record read before the scan can still be cached.

  \<^bold>\<open>Defects.\<close> Some theorems state what the code does where it departs from its own comments: a lost
  update between concurrent debits, a second charge after a failed extension, a late worker that reopens a
  finished task, a scan that revives a terminated subscriber, a portal callback without a signature, a
  renewal replay, an edit that bypasses approval, an unapproved order that is received, a default period
  that is the month in progress, a rate filed as zero.

  \<^bold>\<open>Parameters.\<close> The decimal package (\<open>decimal_pkg\<close>, \<open>decimal_pkg_ok\<close>), PostgreSQL's numeric columns (\<open>numeric\<close>,
  \<open>numeric_ok\<close>) and casts, the RADIUS package's attribute encoder (\<open>vendor_specific_ok\<close>), MD4, SHA-1 and DES
  (\<open>crypto_ok\<close>), bcrypt, HMAC, SHA-256, JSON, random sources, address parsers, number and date printers, the
  floating-point sum of a journal entry and the exchange with access devices are arguments. What the
  code relies on is a named hypothesis that states the documented behaviour, and the concrete instances
  (\<open>rat_decimals\<close>, \<open>rat_pg\<close> and others) show it can hold.

  \<^bold>\<open>Bounds and fuel.\<close> Definitions are total. Loops recurse on the list they run over; the dunning
  walk has the bound of the code (\<open>maxSteps\<close>), shown to be enough: more steps change nothing. Octet counters and
  protocol fields are words of the source's width; identifiers and instants are integers, far from the limits
  of 64 bits.

  \<^bold>\<open>Not modelled.\<close> Pages, forms and cookies of the staff console and the portal; process start-up, service
  control and log rotation; the notification channels, PDF rendering, gateway orders, archiving and the
  TR-069 exchange, which are network or file I/O; reports over materialised views; encryption at rest and
  certificates; connection failover; the checks of staff tokens and partner keys, past which the handlers
  are modelled with the caller as an argument; announcements, tickets, stock and leads, whose tables no
  modelled component writes; metrics, log and audit lines. Length limits of text columns are left out, and
  so are columns no modelled operation reads. Simulators and load tools are not part of the service.
\<close>

end
